(* ===== verification/Prelude.thy ===== *)
theory Prelude
  imports Main "HOL-Library.Word" "HOL-Library.Sublist"
begin

text \<open>
  Shared vocabulary of the development.

  \<^item> \<open>uuid\<close>: a 16-byte identifier, \<open>uuid.Nil\<close> is the zero value;
  \<^item> \<open>time\<close>: an instant, in nanoseconds since the zero value of Go's \<open>time.Time\<close>, so
    \<open>IsZero\<close> is equality with 0, \<open>After\<close> is \<open>>\<close> and \<open>Add\<close> is \<open>+\<close>; \<open>duration\<close> counts
    nanoseconds;
  \<^item> \<open>string\<close>: a Go string, the list of its bytes;
  \<^item> a fallible call returns \<open>'e + 'a\<close>, with \<open>Inl\<close> for the error;
  \<^item> \<open>wrap64\<close> is the two's complement reading of a 64-bit sum, for the arithmetic whose
    overflow a property is about. Elsewhere Go's \<open>int\<close> is modelled by \<open>int\<close>.
\<close>

section \<open>Identifiers, time, results\<close>

type_synonym uuid = "128 word"
type_synonym time = int
type_synonym duration = int

definition second :: duration where "second = 1000000000"
definition minute :: duration where "minute = 60 * second"

lemma second_pos [simp]: "0 < second"
  by (simp add: second_def)

lemma minute_pos [simp]: "0 < minute"
  by (simp add: minute_def)

text \<open>\<open>math.Ceil(d.Seconds())\<close> as an integer: the number of whole seconds, rounded up. \<close>

definition ceil_seconds :: "duration \<Rightarrow> int" where
  "ceil_seconds d = - ((- d) div second)"

lemma ceil_seconds_mult [simp]: "ceil_seconds (n * second) = n"
  by (simp add: ceil_seconds_def second_def)

lemma ceil_seconds_eq: "ceil_seconds d * second = d + (- d) mod second"
proof -
  have "(- d) div second * second + (- d) mod second = - d" by (rule div_mult_mod_eq)
  then show ?thesis unfolding ceil_seconds_def by linarith
qed

lemma ceil_seconds_bounds:
  "d \<le> ceil_seconds d * second" "(ceil_seconds d - 1) * second < d"
proof -
  have b: "0 \<le> (- d) mod second" "(- d) mod second < second" by simp_all
  show "d \<le> ceil_seconds d * second" using ceil_seconds_eq [of d] b by linarith
  show "(ceil_seconds d - 1) * second < d"
    using ceil_seconds_eq [of d] b unfolding left_diff_distrib by linarith
qed

lemma ceil_seconds_pos: "0 < d \<Longrightarrow> 0 < ceil_seconds d"
  using ceil_seconds_bounds(1) [of d] by (smt (verit) mult_nonpos_nonneg second_pos)

lemma ceil_seconds_nonneg: "0 \<le> d \<Longrightarrow> 0 \<le> ceil_seconds d"
  by (cases "d = 0") (use ceil_seconds_pos [of d] in \<open>auto simp: ceil_seconds_def\<close>)

text \<open>Sequencing of fallible calls, and the rules that read a successful run backwards.\<close>

named_theorems result_iff

fun rbind :: "'e + 'a \<Rightarrow> ('a \<Rightarrow> 'e + 'b) \<Rightarrow> 'e + 'b" where
  "rbind (Inl e) f = Inl e"
| "rbind (Inr x) f = f x"

definition guard_err :: "bool \<Rightarrow> 'e \<Rightarrow> 'e + unit" where
  "guard_err b e = (if b then Inr () else Inl e)"

lemma rbind_Inr_iff [result_iff]: "rbind m f = Inr y \<longleftrightarrow> (\<exists>x. m = Inr x \<and> f x = Inr y)"
  by (cases m) auto

lemma rbind_Inl_iff: "rbind m f = Inl e \<longleftrightarrow> m = Inl e \<or> (\<exists>x. m = Inr x \<and> f x = Inl e)"
  by (cases m) auto

lemma guard_err_Inr_iff [result_iff]: "guard_err b e = Inr u \<longleftrightarrow> b"
  by (simp add: guard_err_def)

lemma guard_err_Inl_iff: "guard_err b e = Inl e' \<longleftrightarrow> \<not> b \<and> e' = e"
  by (auto simp: guard_err_def)

lemma guard_err_simps [simp]: "guard_err True e = Inr ()" "guard_err False e = Inl e"
  by (simp_all add: guard_err_def)

lemma rbind_assoc: "rbind (rbind m f) g = rbind m (\<lambda>x. rbind (f x) g)"
  by (cases m) auto

lemma rbind_cong [fundef_cong]:
  "m = m' \<Longrightarrow> (\<And>x. m' = Inr x \<Longrightarrow> f x = f' x) \<Longrightarrow> rbind m f = rbind m' f'"
  by (cases m') auto

section \<open>Machine integers\<close>

definition wrap64 :: "int \<Rightarrow> int" where
  "wrap64 x = (x + 2 ^ 63) mod 2 ^ 64 - 2 ^ 63"

abbreviation int64_max :: int where "int64_max \<equiv> 9223372036854775807"

lemma wrap64_id: "- (2 ^ 63) \<le> x \<Longrightarrow> x < 2 ^ 63 \<Longrightarrow> wrap64 x = x"
  by (simp add: wrap64_def)

lemma wrap64_range: "- (2 ^ 63) \<le> wrap64 x \<and> wrap64 x < 2 ^ 63"
proof -
  have "0 \<le> (x + 2 ^ 63) mod 2 ^ 64" "(x + 2 ^ 63) mod 2 ^ 64 < 2 ^ 64" by simp_all
  then show ?thesis unfolding wrap64_def by simp
qed

lemma wrap64_as_word: "wrap64 x = sint (word_of_int x :: 64 word)"
  by (simp add: wrap64_def sint_word_ariths signed_take_bit_eq_take_bit_shift take_bit_eq_mod
      signed_of_int)

lemma wrap64_dvd: "2 ^ 64 dvd wrap64 x - x"
proof -
  have "2 ^ 64 dvd (x + 2 ^ 63) - (x + 2 ^ 63) mod 2 ^ 64" by (rule dvd_minus_mod)
  moreover have "wrap64 x - x = - ((x + 2 ^ 63) - (x + 2 ^ 63) mod 2 ^ 64)" unfolding wrap64_def by linarith
  ultimately show ?thesis by (simp only: dvd_minus_iff)
qed

text \<open>Go's integer division and remainder truncate towards zero.\<close>

definition go_div :: "int \<Rightarrow> int \<Rightarrow> int" where
  "go_div a b = sgn a * sgn b * (\<bar>a\<bar> div \<bar>b\<bar>)"

definition go_mod :: "int \<Rightarrow> int \<Rightarrow> int" where
  "go_mod a b = a - b * go_div a b"

lemma go_div_nonneg: "0 \<le> a \<Longrightarrow> 0 < b \<Longrightarrow> go_div a b = a div b"
  by (cases "a = 0") (simp_all add: go_div_def sgn_if)

lemma go_mod_nonneg: "0 \<le> a \<Longrightarrow> 0 < b \<Longrightarrow> go_mod a b = a mod b"
  by (simp add: go_mod_def go_div_nonneg minus_mult_div_eq_mod)

end
