(* ===== verification/Security.thy ===== *)
theory Security
  imports Prelude
begin

text \<open>
  The authorization policy of \<open>internal/security/permissions.go\<close>: principals, roles and
  permissions are Go strings, so the default branches (an unknown principal, role or
  permission) are branches of the model. \<open>Authorize\<close> is the closed permission list; the
  lemmas state what each role may do and that the roles are ordered.
\<close>

type_synonym permission = string

abbreviation PermissionTripView :: permission where "PermissionTripView \<equiv> ''trip:view''"
abbreviation PermissionTripEdit :: permission where "PermissionTripEdit \<equiv> ''trip:edit''"
abbreviation PermissionTripDelete :: permission where "PermissionTripDelete \<equiv> ''trip:delete''"
abbreviation PermissionItineraryView :: permission where
  "PermissionItineraryView \<equiv> ''itinerary:view''"
abbreviation PermissionItineraryEdit :: permission where
  "PermissionItineraryEdit \<equiv> ''itinerary:edit''"
abbreviation PermissionRouteView :: permission where "PermissionRouteView \<equiv> ''route:view''"
abbreviation PermissionShareManage :: permission where "PermissionShareManage \<equiv> ''share:manage''"
abbreviation PermissionCollaboratorsManage :: permission where
  "PermissionCollaboratorsManage \<equiv> ''collaborators:manage''"
abbreviation PermissionPolicyEdit :: permission where "PermissionPolicyEdit \<equiv> ''policy:edit''"
abbreviation PermissionCommentsCreate :: permission where
  "PermissionCommentsCreate \<equiv> ''comments:create''"
abbreviation PermissionReceiptsUpload :: permission where
  "PermissionReceiptsUpload \<equiv> ''receipts:upload''"
abbreviation PermissionOpsView :: permission where "PermissionOpsView \<equiv> ''ops:view''"
abbreviation PermissionOpsAct :: permission where "PermissionOpsAct \<equiv> ''ops:act''"

definition viewPermissions :: "permission list" where
  "viewPermissions =
    [''trip:view'', ''itinerary:view'', ''route:view'', ''budget:view'', ''expenses:view'',
     ''receipts:view'', ''comments:view'', ''activity:view'', ''approval:view'',
     ''policy:view'', ''health:view'', ''command_center:view'', ''group_readiness:view'']"

definition editPermissions :: "permission list" where
  "editPermissions =
    [''trip:edit'', ''itinerary:edit'', ''route:edit'', ''budget:edit'', ''expenses:edit'',
     ''receipts:upload'', ''receipts:delete'', ''comments:create'', ''approval:act'',
     ''group_readiness:nudge'']"

text \<open>Every permission the package declares, in its order.\<close>

definition allPermissions :: "permission list" where
  "allPermissions =
    [''trip:view'', ''trip:edit'', ''trip:delete'', ''itinerary:view'', ''itinerary:edit'',
     ''route:view'', ''route:edit'', ''budget:view'', ''budget:edit'', ''expenses:view'',
     ''expenses:edit'', ''receipts:view'', ''receipts:upload'', ''receipts:delete'',
     ''comments:view'', ''comments:create'', ''activity:view'', ''share:manage'',
     ''collaborators:manage'', ''approval:view'', ''approval:act'', ''policy:view'',
     ''policy:edit'', ''health:view'', ''command_center:view'', ''group_readiness:view'',
     ''group_readiness:nudge'', ''ops:view'', ''ops:act'']"

record trip_access_context =
  principal_type :: string
  ctx_role :: string
  ctx_workspace_role :: string
  ctx_accepted :: bool
  ctx_removed :: bool
  public_share_live :: bool

record access_decision =
  dec_allowed :: bool
  dec_reason :: string

definition allow :: "string \<Rightarrow> access_decision" where
  "allow r = \<lparr>dec_allowed = True, dec_reason = r\<rparr>"

definition deny :: "string \<Rightarrow> access_decision" where
  "deny r = \<lparr>dec_allowed = False, dec_reason = r\<rparr>"

text \<open>The second switch of \<open>Authorize\<close>, on the role of an active member.\<close>

definition authorizeRole :: "string \<Rightarrow> permission \<Rightarrow> access_decision" where
  "authorizeRole role p =
    (if role = ''owner'' then
       (if p = PermissionOpsView \<or> p = PermissionOpsAct then deny ''ops_admin_only''
        else allow ''owner'')
     else if role = ''editor'' then
       (if p \<in> set viewPermissions then allow ''editor_read''
        else if p \<in> set editPermissions then allow ''editor_write''
        else deny ''owner_only'')
     else if role = ''viewer'' then
       (if p \<in> set viewPermissions then allow ''viewer_read''
        else if p = PermissionCommentsCreate \<or> p = PermissionReceiptsUpload
          then allow ''viewer_contribution''
        else deny ''read_only'')
     else deny ''unknown_role'')"

definition Authorize :: "trip_access_context \<Rightarrow> permission \<Rightarrow> access_decision" where
  "Authorize ctx p =
    (if principal_type ctx = ''ops_admin'' then
       (if p = PermissionOpsView \<or> p = PermissionOpsAct then allow ''ops_admin''
        else deny ''ops_scope_only'')
     else if principal_type ctx = ''internal_service'' then deny ''internal_endpoint_only''
     else if principal_type ctx = ''public_share'' then
       (if \<not> public_share_live ctx then deny ''share_inactive''
        else if p = PermissionTripView \<or> p = PermissionItineraryView \<or> p = PermissionRouteView
          then allow ''sanitized_public_share''
        else deny ''private_resource'')
     else if principal_type ctx = ''authenticated_user'' then
       (if ctx_removed ctx \<or> \<not> ctx_accepted ctx then deny ''membership_inactive''
        else authorizeRole (ctx_role ctx) p)
     else deny ''unknown_principal'')"

lemma allow_deny_simps [simp]:
  "dec_allowed (allow r)" "\<not> dec_allowed (deny r)"
  "dec_reason (allow r) = r" "dec_reason (deny r) = r"
  by (simp_all add: allow_def deny_def)

section \<open>What each role may do\<close>

definition role_allows :: "string \<Rightarrow> permission \<Rightarrow> bool" where
  "role_allows role p \<longleftrightarrow> dec_allowed (authorizeRole role p)"

lemma owner_allows [simp]:
  "role_allows ''owner'' p \<longleftrightarrow> p \<noteq> PermissionOpsView \<and> p \<noteq> PermissionOpsAct"
  by (simp add: role_allows_def authorizeRole_def)

lemma editor_allows [simp]:
  "role_allows ''editor'' p \<longleftrightarrow> p \<in> set viewPermissions \<or> p \<in> set editPermissions"
  by (simp add: role_allows_def authorizeRole_def)

lemma viewer_allows [simp]:
  "role_allows ''viewer'' p \<longleftrightarrow>
     p \<in> set viewPermissions \<or> p = PermissionCommentsCreate \<or> p = PermissionReceiptsUpload"
  by (simp add: role_allows_def authorizeRole_def)

lemma unknown_role_denied:
  "role \<noteq> ''owner'' \<Longrightarrow> role \<noteq> ''editor'' \<Longrightarrow> role \<noteq> ''viewer'' \<Longrightarrow> \<not> role_allows role p"
  by (simp add: role_allows_def authorizeRole_def)

lemma role_allows_cases:
  "role_allows role p \<Longrightarrow> role = ''owner'' \<or> role = ''editor'' \<or> role = ''viewer''"
  using unknown_role_denied by blast

lemma viewer_le_editor: "role_allows ''viewer'' p \<Longrightarrow> role_allows ''editor'' p"
  by (auto simp: editPermissions_def)

lemma editor_le_owner: "role_allows ''editor'' p \<Longrightarrow> role_allows ''owner'' p"
  by (auto simp: viewPermissions_def editPermissions_def)

lemma view_edit_disjoint: "set viewPermissions \<inter> set editPermissions = {}"
  by (simp add: viewPermissions_def editPermissions_def)

lemma role_allows_iff:
  "role_allows role p \<longleftrightarrow>
     (role = ''owner'' \<and> p \<notin> {PermissionOpsView, PermissionOpsAct}) \<or>
     (role = ''editor'' \<and> p \<in> set viewPermissions \<union> set editPermissions) \<or>
     (role = ''viewer'' \<and>
       p \<in> set viewPermissions \<union> {PermissionCommentsCreate, PermissionReceiptsUpload})"
proof (cases "role = ''owner'' \<or> role = ''editor'' \<or> role = ''viewer''")
  case True
  then show ?thesis by (elim disjE; simp; blast)
next
  case False
  then show ?thesis by (simp add: unknown_role_denied)
qed

lemma only_owner_manages:
  assumes "p \<in> {PermissionTripDelete, PermissionShareManage, PermissionCollaboratorsManage,
      PermissionPolicyEdit}"
  shows "role_allows role p \<longleftrightarrow> role = ''owner''"
proof -
  have "p \<noteq> PermissionOpsView \<and> p \<noteq> PermissionOpsAct"
    and "p \<notin> set viewPermissions" and "p \<notin> set editPermissions"
    and "p \<noteq> PermissionCommentsCreate \<and> p \<noteq> PermissionReceiptsUpload"
    using assms unfolding insert_iff empty_iff
    by (elim disjE; simp add: viewPermissions_def editPermissions_def)+
  then show ?thesis by (simp add: role_allows_iff)
qed

lemma trip_edit_classes:
  "PermissionTripEdit \<notin> set viewPermissions" "PermissionTripEdit \<in> set editPermissions"
  "PermissionTripView \<in> set viewPermissions"
  by (simp_all add: viewPermissions_def editPermissions_def)

lemma can_edit_iff: "role_allows role PermissionTripEdit \<longleftrightarrow> role = ''owner'' \<or> role = ''editor''"
  by (simp add: role_allows_iff trip_edit_classes)

lemma can_view_iff:
  "role_allows role PermissionTripView \<longleftrightarrow>
     role = ''owner'' \<or> role = ''editor'' \<or> role = ''viewer''"
  by (simp add: role_allows_iff trip_edit_classes)

lemma Authorize_authenticated:
  "principal_type ctx = ''authenticated_user'' \<Longrightarrow>
   dec_allowed (Authorize ctx p) \<longleftrightarrow>
     ctx_accepted ctx \<and> \<not> ctx_removed ctx \<and> role_allows (ctx_role ctx) p"
  by (simp add: Authorize_def role_allows_def)

lemma Authorize_ops:
  "p = PermissionOpsView \<or> p = PermissionOpsAct \<Longrightarrow>
   dec_allowed (Authorize ctx p) \<longleftrightarrow> principal_type ctx = ''ops_admin''"
proof (elim disjE)
  assume "p = PermissionOpsView"
  then show ?thesis
    by (simp add: Authorize_def authorizeRole_def viewPermissions_def editPermissions_def)
next
  assume "p = PermissionOpsAct"
  then show ?thesis
    by (simp add: Authorize_def authorizeRole_def viewPermissions_def editPermissions_def)
qed

text \<open>
  Operations permissions are granted to the ops-admin principal alone, and every other
  grant of \<open>Authorize\<close> goes to a live public share for one of its three sanitized reads or to
  an accepted, not removed member whose role carries the permission: nothing else is allowed,
  whatever the strings of the context are.
\<close>

theorem authorize_deny_by_default:
  "dec_allowed (Authorize ctx p) \<longleftrightarrow>
     (principal_type ctx = ''ops_admin'' \<and> p \<in> {PermissionOpsView, PermissionOpsAct}) \<or>
     (principal_type ctx = ''public_share'' \<and> public_share_live ctx \<and>
        p \<in> {PermissionTripView, PermissionItineraryView, PermissionRouteView}) \<or>
     (principal_type ctx = ''authenticated_user'' \<and> ctx_accepted ctx \<and> \<not> ctx_removed ctx \<and>
        ((ctx_role ctx = ''owner'' \<and> p \<notin> {PermissionOpsView, PermissionOpsAct}) \<or>
         (ctx_role ctx = ''editor'' \<and> p \<in> set viewPermissions \<union> set editPermissions) \<or>
         (ctx_role ctx = ''viewer'' \<and>
           p \<in> set viewPermissions \<union> {PermissionCommentsCreate, PermissionReceiptsUpload})))"
proof (cases "principal_type ctx = ''authenticated_user''")
  case True
  then show ?thesis by (simp add: Authorize_authenticated role_allows_iff)
next
  case False
  then show ?thesis
    by (cases "principal_type ctx = ''ops_admin''"; cases "principal_type ctx = ''public_share''")
      (simp_all add: Authorize_def)
qed

end
