(* ===== verification/Tables.thy ===== *)
theory Tables
  imports Prelude
begin

text \<open>
  The SQL the repositories send, over tables as lists of rows. \<open>update_where P f\<close> is
  \<open>UPDATE .. SET f WHERE P\<close>; \<open>update_returning\<close> adds \<open>RETURNING\<close> read with \<open>QueryRow\<close>:
  the first changed row, or \<open>None\<close> for \<open>pgx.ErrNoRows\<close>, in which case no row matched and
  the table is as it was. \<open>select_row\<close> is a \<open>SELECT\<close> read with \<open>QueryRow\<close>. A table with a key
  has the invariant \<open>key_unique\<close>, the constraint the migrations declare.
\<close>

definition update_where :: "('r \<Rightarrow> bool) \<Rightarrow> ('r \<Rightarrow> 'r) \<Rightarrow> 'r list \<Rightarrow> 'r list" where
  "update_where P f rows = map (\<lambda>r. if P r then f r else r) rows"

definition select_row :: "('r \<Rightarrow> bool) \<Rightarrow> 'r list \<Rightarrow> 'r option" where
  "select_row P rows = find P rows"

definition update_returning ::
  "('r \<Rightarrow> bool) \<Rightarrow> ('r \<Rightarrow> 'r) \<Rightarrow> 'r list \<Rightarrow> ('r \<times> 'r list) option" where
  "update_returning P f rows =
    (case find P rows of None \<Rightarrow> None | Some r \<Rightarrow> Some (f r, update_where P f rows))"

definition key_unique :: "('r \<Rightarrow> 'k) \<Rightarrow> 'r list \<Rightarrow> bool" where
  "key_unique k rows \<longleftrightarrow> distinct (map k rows)"

named_theorems table_simps

lemma select_row_Some: "select_row P rows = Some r \<Longrightarrow> r \<in> set rows \<and> P r"
  by (auto simp: select_row_def find_Some_iff)

lemma select_row_None_iff: "select_row P rows = None \<longleftrightarrow> (\<forall>r \<in> set rows. \<not> P r)"
  by (auto simp: select_row_def find_None_iff)

lemma select_row_unique:
  assumes "r \<in> set rows" "P r" "\<And>r'. r' \<in> set rows \<Longrightarrow> P r' \<Longrightarrow> r' = r"
  shows "select_row P rows = Some r"
proof (cases "select_row P rows")
  case None
  then have "\<not> P r" using assms(1) unfolding select_row_None_iff by blast
  with assms(2) show ?thesis by contradiction
next
  case (Some r')
  then have "r' = r" using select_row_Some [OF Some] by (intro assms(3)) simp_all
  with Some show ?thesis by simp
qed

lemma set_update_where:
  "set (update_where P f rows) = {r \<in> set rows. \<not> P r} \<union> f ` {r \<in> set rows. P r}"
  by (auto simp: update_where_def)

lemma update_where_Nil [simp]: "update_where P f [] = []"
  by (simp add: update_where_def)

lemma length_update_where [simp]: "length (update_where P f rows) = length rows"
  by (simp add: update_where_def)

lemma map_key_update_where [table_simps]:
  "(\<And>r. k (f r) = k r) \<Longrightarrow> map k (update_where P f rows) = map k rows"
  by (simp add: update_where_def)

lemma update_where_none: "\<forall>r \<in> set rows. \<not> P r \<Longrightarrow> update_where P f rows = rows"
  by (auto simp: update_where_def intro: map_idI)

lemma update_returning_None_iff: "update_returning P f rows = None \<longleftrightarrow> (\<forall>r \<in> set rows. \<not> P r)"
proof -
  have "update_returning P f rows = None \<longleftrightarrow> find P rows = None"
    by (simp add: update_returning_def split: option.split)
  then show ?thesis by (auto simp: find_None_iff)
qed

lemma update_returning_Some:
  "update_returning P f rows = Some (r', rows') \<longleftrightarrow>
     (\<exists>r. select_row P rows = Some r \<and> r' = f r \<and> rows' = update_where P f rows)"
  by (auto simp: update_returning_def select_row_def split: option.splits)

lemma key_unique_inj: "key_unique k rows \<Longrightarrow> r \<in> set rows \<Longrightarrow> r' \<in> set rows \<Longrightarrow> k r = k r' \<Longrightarrow> r = r'"
  by (auto simp: key_unique_def distinct_map dest: inj_onD)

lemma select_row_key:
  assumes "key_unique k rows" "r \<in> set rows" "P r" "\<And>r'. P r' \<Longrightarrow> k r' = k r"
  shows "select_row P rows = Some r"
  using assms(2,3) by (rule select_row_unique) (metis assms key_unique_inj)

lemma key_unique_update_where [intro]:
  "key_unique k rows \<Longrightarrow> (\<And>r. k (f r) = k r) \<Longrightarrow> key_unique k (update_where P f rows)"
  by (simp add: key_unique_def map_key_update_where)

lemma key_unique_append [intro]:
  "key_unique k rows \<Longrightarrow> k r \<notin> k ` set rows \<Longrightarrow> key_unique k (rows @ [r])"
  by (simp add: key_unique_def)

lemma key_unique_filter [intro]: "key_unique k rows \<Longrightarrow> key_unique k (filter P rows)"
  by (simp add: key_unique_def distinct_map_filter)

text \<open>
  When the condition fixes the key and the update keeps it, reading by the key after an
  update gives the changed row, and rows with another key are as before.
\<close>

lemma find_update_where_other:
  assumes "\<And>r. Q (f r) \<longleftrightarrow> Q r" "\<And>r. Q r \<Longrightarrow> \<not> P r"
  shows "select_row Q (update_where P f rows) = select_row Q rows"
  using assms by (induction rows) (auto simp: select_row_def update_where_def)

lemma find_update_where_hit:
  assumes "\<And>r. Q (f r) \<longleftrightarrow> Q r" "select_row Q rows = Some r" "P r"
  shows "select_row Q (update_where P f rows) = Some (f r)"
  using assms(2,3) by (induction rows) (auto simp: select_row_def update_where_def assms(1) split: if_splits)

lemma find_append: "find Q (xs @ ys) = (case find Q xs of None \<Rightarrow> find Q ys | Some x \<Rightarrow> Some x)"
  by (induction xs) auto

text \<open>Sums over a table, and the one row a key selects.\<close>

lemma sum_update_where:
  fixes g :: "'r \<Rightarrow> int"
  assumes "\<And>r. P r \<Longrightarrow> Q (f r) = Q r" "\<And>r. P r \<Longrightarrow> g (f r) = g r + n"
  shows "(\<Sum>r\<leftarrow>filter Q (update_where P f rows). g r) =
    (\<Sum>r\<leftarrow>filter Q rows. g r) + n * int (length (filter (\<lambda>r. Q r \<and> P r) rows))"
  using assms by (induction rows) (auto simp: update_where_def algebra_simps)

lemma one_row_of_key:
  assumes "key_unique k rows" "\<And>r. P r \<longleftrightarrow> k r = key"
  shows "length (filter P rows) = (if select_row P rows = None then 0 else 1)"
  using assms(1)
proof (induction rows)
  case (Cons a rows)
  have "select_row P rows = None" if "P a"
    using that Cons.prems assms(2) unfolding select_row_None_iff key_unique_def by (metis distinct.simps(2) image_eqI list.simps(9) set_map)
  then show ?case using Cons by (auto simp: key_unique_def select_row_def)
qed (simp add: select_row_def)

end
