(* ===== verification/GoText.thy ===== *)
theory GoText
  imports Prelude
begin

text \<open>
  The functions of Go's \<open>strings\<close> package that the services use on user input.
  A string is the list of its bytes. \<open>strings.TrimSpace\<close> removes every leading and
  trailing rune for which \<open>unicode.IsSpace\<close> holds; \<open>space_encodings\<close> lists the
  UTF-8 encodings of those runes. \<open>strings.ToLower\<close> and \<open>strings.ToUpper\<close> are
  modelled on ASCII; the bytes of other runes are left as they are.
\<close>

definition space_encodings :: "string list" where
  "space_encodings =
    [[CHR 0x09], [CHR 0x0A], [CHR 0x0B], [CHR 0x0C], [CHR 0x0D], [CHR 0x20],
     [CHR 0xC2, CHR 0x85], [CHR 0xC2, CHR 0xA0], [CHR 0xE1, CHR 0x9A, CHR 0x80],
     [CHR 0xE2, CHR 0x80, CHR 0x80], [CHR 0xE2, CHR 0x80, CHR 0x81],
     [CHR 0xE2, CHR 0x80, CHR 0x82], [CHR 0xE2, CHR 0x80, CHR 0x83],
     [CHR 0xE2, CHR 0x80, CHR 0x84], [CHR 0xE2, CHR 0x80, CHR 0x85],
     [CHR 0xE2, CHR 0x80, CHR 0x86], [CHR 0xE2, CHR 0x80, CHR 0x87],
     [CHR 0xE2, CHR 0x80, CHR 0x88], [CHR 0xE2, CHR 0x80, CHR 0x89],
     [CHR 0xE2, CHR 0x80, CHR 0x8A], [CHR 0xE2, CHR 0x80, CHR 0xA8],
     [CHR 0xE2, CHR 0x80, CHR 0xA9], [CHR 0xE2, CHR 0x80, CHR 0xAF],
     [CHR 0xE2, CHR 0x81, CHR 0x9F], [CHR 0xE3, CHR 0x80, CHR 0x80]]"

definition lead :: "string list \<Rightarrow> string \<Rightarrow> string option" where
  "lead encs s = find (\<lambda>e. e \<noteq> [] \<and> prefix e s) encs"

lemma lead_Some: "lead encs s = Some e \<Longrightarrow> e \<noteq> [] \<and> prefix e s \<and> e \<in> set encs"
  by (auto simp: lead_def find_Some_iff)

lemma lead_None_iff: "lead encs s = None \<longleftrightarrow> (\<forall>e \<in> set encs. e = [] \<or> \<not> prefix e s)"
  by (auto simp: lead_def find_None_iff)

function drop_leads :: "string list \<Rightarrow> string \<Rightarrow> string" where
  "drop_leads encs s =
    (case lead encs s of None \<Rightarrow> s | Some e \<Rightarrow> drop_leads encs (drop (length e) s))"
  by pat_completeness auto
termination
proof (relation "measure (\<lambda>(encs, s). length s)")
  fix encs :: "string list" and s e
  assume "lead encs s = Some e"
  then have "e \<noteq> []" and "prefix e s" by (auto dest: lead_Some)
  then have "0 < length e" and "length e \<le> length s"
    by (auto simp: prefix_length_le)
  then have "length s - length e < length s" by linarith
  then show "((encs, drop (length e) s), encs, s) \<in> measure (\<lambda>(encs, s). length s)" by simp
qed simp

declare drop_leads.simps [simp del]

lemma lead_drop_leads [simp]: "lead encs (drop_leads encs s) = None"
proof (induction encs s rule: drop_leads.induct)
  case (1 encs s)
  then show ?case
    by (cases "lead encs s") (simp_all add: drop_leads.simps [of encs s])
qed

lemma drop_leads_id: "lead encs s = None \<Longrightarrow> drop_leads encs s = s"
  by (simp add: drop_leads.simps)

lemma drop_leads_idem [simp]: "drop_leads encs (drop_leads encs s) = drop_leads encs s"
  by (simp add: drop_leads_id)

lemma lead_Nil [simp]: "lead encs [] = None"
  by (simp add: lead_None_iff)

lemma drop_leads_Nil [simp]: "drop_leads encs [] = []"
  by (simp add: drop_leads_id)

lemma suffix_drop_leads: "suffix (drop_leads encs s) s"
proof (induction encs s rule: drop_leads.induct)
  case (1 encs s)
  show ?case
  proof (cases "lead encs s")
    case None
    then show ?thesis by (simp add: drop_leads_id)
  next
    case (Some e)
    then have "suffix (drop_leads encs (drop (length e) s)) (drop (length e) s)"
      by (rule 1)
    then show ?thesis
      using Some suffix_drop [of "length e" s]
      by (auto simp: drop_leads.simps [of encs s] intro: suffix_order.trans)
  qed
qed

lemma lead_None_prefix: "lead encs s = None \<Longrightarrow> prefix t s \<Longrightarrow> lead encs t = None"
  by (auto simp: lead_None_iff dest: prefix_order.trans)

definition trim_left :: "string \<Rightarrow> string" where
  "trim_left s = drop_leads space_encodings s"

definition trim_right :: "string \<Rightarrow> string" where
  "trim_right s = rev (drop_leads (map rev space_encodings) (rev s))"

definition trim_space :: "string \<Rightarrow> string" where
  "trim_space s = trim_right (trim_left s)"

lemma prefix_trim_right: "prefix (trim_right s) s"
  using suffix_drop_leads [of "map rev space_encodings" "rev s"]
  by (simp add: trim_right_def suffix_to_prefix)

lemma trim_left_id_prefix: "prefix t (trim_left s) \<Longrightarrow> trim_left t = t"
  unfolding trim_left_def by (metis drop_leads_id lead_None_prefix lead_drop_leads)

theorem trim_space_idem [simp]: "trim_space (trim_space s) = trim_space s"
proof -
  have "trim_left (trim_right (trim_left s)) = trim_right (trim_left s)"
    by (rule trim_left_id_prefix) (rule prefix_trim_right)
  then show ?thesis by (simp add: trim_space_def trim_right_def)
qed

lemma trim_space_Nil [simp]: "trim_space [] = []"
  by (simp add: trim_space_def trim_left_def trim_right_def)

lemma length_trim_space: "length (trim_space s) \<le> length s"
proof -
  have "length (trim_right (trim_left s)) \<le> length (trim_left s)"
    by (rule prefix_length_le) (rule prefix_trim_right)
  also have "\<dots> \<le> length s"
    unfolding trim_left_def by (rule suffix_length_le) (rule suffix_drop_leads)
  finally show ?thesis by (simp add: trim_space_def)
qed

text \<open>A string whose first and last bytes are printable ASCII is already trimmed.\<close>

definition plain_byte :: "char \<Rightarrow> bool" where
  "plain_byte c \<longleftrightarrow> 32 < (of_char c :: nat) \<and> (of_char c :: nat) < 127"

lemma space_encodings_plain:
  "e \<in> set space_encodings \<Longrightarrow> e \<noteq> [] \<and> \<not> plain_byte (hd e) \<and> \<not> plain_byte (last e)"
  by (auto simp: space_encodings_def plain_byte_def)

lemma trim_space_plain:
  assumes "s \<noteq> []" "plain_byte (hd s)" "plain_byte (last s)"
  shows "trim_space s = s"
proof -
  have "lead space_encodings s = None"
    unfolding lead_None_iff
  proof
    fix e assume e: "e \<in> set space_encodings"
    show "e = [] \<or> \<not> prefix e s"
      using space_encodings_plain [OF e] assms(2) by (auto simp: prefix_def hd_append split: if_splits)
  qed
  then have l: "trim_left s = s" by (simp add: trim_left_def drop_leads_id)
  have "lead (map rev space_encodings) (rev s) = None"
    unfolding lead_None_iff
  proof
    fix e assume "e \<in> set (map rev space_encodings)"
    then obtain d where d: "d \<in> set space_encodings" and e: "e = rev d" by auto
    have "\<not> suffix d s"
      using space_encodings_plain [OF d] assms(1,3) by (auto simp: suffix_def)
    then show "e = [] \<or> \<not> prefix e (rev s)" by (simp add: e suffix_to_prefix)
  qed
  then show ?thesis by (simp add: trim_space_def l trim_right_def drop_leads_id)
qed

definition lower_char :: "char \<Rightarrow> char" where
  "lower_char c =
    (let n = (of_char c :: nat) in if 65 \<le> n \<and> n \<le> 90 then char_of (n + 32) else c)"

definition upper_char :: "char \<Rightarrow> char" where
  "upper_char c =
    (let n = (of_char c :: nat) in if 97 \<le> n \<and> n \<le> 122 then char_of (n - 32) else c)"

definition to_lower :: "string \<Rightarrow> string" where
  "to_lower s = map lower_char s"

definition to_upper :: "string \<Rightarrow> string" where
  "to_upper s = map upper_char s"

lemma lower_char_idem [simp]: "lower_char (lower_char c) = lower_char c"
  by (simp add: lower_char_def Let_def)

lemma to_lower_idem [simp]: "to_lower (to_lower s) = to_lower s"
  by (simp add: to_lower_def)

lemma to_lower_Nil_iff [simp]: "to_lower s = [] \<longleftrightarrow> s = []"
  by (simp add: to_lower_def)

lemma length_to_lower [simp]: "length (to_lower s) = length s"
  by (simp add: to_lower_def)

definition equal_fold :: "string \<Rightarrow> string \<Rightarrow> bool" where
  "equal_fold s t \<longleftrightarrow> to_lower s = to_lower t"

section \<open>Trimmed texts\<close>

definition trimmed :: "string \<Rightarrow> bool" where
  "trimmed s \<longleftrightarrow> trim_space s = s"

lemma trimmed_leads:
  "lead space_encodings (trim_space s) = None" "lead (map rev space_encodings) (rev (trim_space s)) = None"
proof -
  have "lead space_encodings (trim_left s) = None" by (simp add: trim_left_def)
  then show "lead space_encodings (trim_space s) = None"
    unfolding trim_space_def by (rule lead_None_prefix) (rule prefix_trim_right)
  show "lead (map rev space_encodings) (rev (trim_space s)) = None"
    by (simp add: trim_space_def trim_right_def)
qed

lemma trim_space_id:
  "lead space_encodings s = None \<Longrightarrow> lead (map rev space_encodings) (rev s) = None \<Longrightarrow> trim_space s = s"
  by (simp add: trim_space_def trim_left_def trim_right_def drop_leads_id)

text \<open>
  A byte-wise function that puts no byte of a space where there was none keeps a trimmed text
  trimmed.
\<close>

definition adds_no_space :: "(char \<Rightarrow> char) \<Rightarrow> bool" where
  "adds_no_space f \<longleftrightarrow> (\<forall>c. f c \<in> set (concat space_encodings) \<longrightarrow> f c = c)"

lemma prefix_map_back:
  assumes "prefix e (map f s)" "\<And>c. f c \<in> set e \<Longrightarrow> f c = c"
  shows "prefix e s"
proof -
  from assms(1) obtain zs where "map f s = e @ zs" by (auto simp: prefix_def)
  then obtain us vs where s: "s = us @ vs" and e: "map f us = e"
    by (auto simp: map_eq_append_conv)
  have "f c = c" if "c \<in> set us" for c using that e assms(2) [of c] by auto
  then have "us = e" using e map_idI [of us f] by auto
  then show ?thesis by (simp add: s)
qed

lemma lead_map_None:
  assumes "lead encs s = None" "\<And>c. f c \<in> set (concat encs) \<Longrightarrow> f c = c"
  shows "lead encs (map f s) = None"
  unfolding lead_None_iff
proof
  fix e assume e: "e \<in> set encs"
  then have "prefix e (map f s) \<Longrightarrow> prefix e s" using assms(2) by (intro prefix_map_back [of e f s]) auto
  then show "e = [] \<or> \<not> prefix e (map f s)" using assms(1) e unfolding lead_None_iff by blast
qed

lemma trim_space_map:
  assumes "adds_no_space f"
  shows "trim_space (map f (trim_space s)) = map f (trim_space s)"
proof (rule trim_space_id)
  show "lead space_encodings (map f (trim_space s)) = None"
    using assms by (intro lead_map_None trimmed_leads) (simp add: adds_no_space_def)
  show "lead (map rev space_encodings) (rev (map f (trim_space s))) = None"
    unfolding rev_map
    using assms by (intro lead_map_None trimmed_leads) (simp add: adds_no_space_def)
qed

lemma space_byte: "c \<in> set (concat space_encodings) \<Longrightarrow> (of_char c :: nat) \<le> 32 \<or> 127 < (of_char c :: nat)"
  by (auto simp: space_encodings_def)

lemma of_char_case:
  "(of_char (lower_char c) :: nat) = (let n = of_char c in if 65 \<le> n \<and> n \<le> 90 then n + 32 else n)"
  "(of_char (upper_char c) :: nat) = (let n = of_char c in if 97 \<le> n \<and> n \<le> 122 then n - 32 else n)"
  by (auto simp: lower_char_def upper_char_def Let_def)

lemma adds_no_space_case [simp]: "adds_no_space lower_char" "adds_no_space upper_char"
proof -
  have "lower_char c = c" if "lower_char c \<in> set (concat space_encodings)" for c
    using space_byte [OF that] by (auto simp: of_char_case Let_def lower_char_def split: if_splits)
  then show "adds_no_space lower_char" unfolding adds_no_space_def by blast
  have "upper_char c = c" if "upper_char c \<in> set (concat space_encodings)" for c
    using space_byte [OF that] by (auto simp: of_char_case Let_def upper_char_def split: if_splits)
  then show "adds_no_space upper_char" unfolding adds_no_space_def by blast
qed

lemma trim_space_case [simp]:
  "trim_space (to_lower (trim_space s)) = to_lower (trim_space s)"
  "trim_space (to_upper (trim_space s)) = to_upper (trim_space s)"
  by (simp_all add: to_lower_def to_upper_def trim_space_map)

lemma upper_char_idem [simp]: "upper_char (upper_char c) = upper_char c"
proof -
  have "\<not> (97 \<le> (of_char (upper_char c) :: nat) \<and> (of_char (upper_char c) :: nat) \<le> 122)"
    by (auto simp: of_char_case Let_def)
  then show ?thesis unfolding upper_char_def [of "upper_char c"] Let_def by presburger
qed

lemma to_upper_idem [simp]: "to_upper (to_upper s) = to_upper s"
  by (simp add: to_upper_def)

lemma to_upper_Nil_iff [simp]: "to_upper s = [] \<longleftrightarrow> s = []"
  by (simp add: to_upper_def)

end
