(* ===== verification/ItineraryData.thy ===== *)
theory ItineraryData
  imports Complex_Main Prelude
begin

text \<open>
  The itinerary document of a trip (\<open>internal/domain/aggregate/itinerary.go\<close>,
  \<open>route.go\<close>), as the services hold it after \<open>json.Unmarshal\<close>. A pointer is an option, a
  \<open>float64\<close> read from JSON the rational it stands for (JSON has no infinities), a map an
  association list. The same records stand for \<open>editableItinerary\<close> of
  \<open>application/service/trip.go\<close>, which differs in that the generation time may be absent.
\<close>

record cost_split_rule =
  split_type :: string
  split_travelers :: "string list"
  split_percentages :: "(string \<times> rat) list"

record estimated_cost =
  ec_amount :: "rat option"
  ec_currency :: string
  ec_category :: string
  ec_confidence :: string
  ec_source :: string
  ec_note :: string
  ec_split :: "cost_split_rule option"

record opening_hours =
  oh_day :: int
  oh_open :: string
  oh_close :: string

record place_ref =
  pf_provider :: string
  pf_place_id :: string
  pf_name :: string
  pf_address :: string
  pf_latitude :: "rat option"
  pf_longitude :: "rat option"
  pf_rating :: "rat option"
  pf_rating_count :: "int option"
  pf_map_url :: string
  pf_category :: string
  pf_website :: string
  pf_hours :: "opening_hours list"

record place_meta =
  pm_status :: string
  pm_review :: string
  pm_confidence :: rat
  pm_query :: string
  pm_provider :: string
  pm_matched_at :: string
  pm_reason :: string

record price_meta =
  xm_status :: string
  xm_provider :: string
  xm_confidence :: rat
  xm_price_type :: string
  xm_review :: string
  xm_updated_at :: string
  xm_reason :: string

record availability_meta =
  am_provider :: string
  am_status :: string
  am_checked_at :: string
  am_confidence :: rat
  am_option_id :: string
  am_fallback :: bool
  am_price_changed :: bool

record transfer_details =
  tf_leg :: string
  tf_from :: string
  tf_to :: string
  tf_mode :: string
  tf_duration :: "int option"
  tf_distance :: "rat option"
  tf_cost :: "estimated_cost option"
  tf_booking :: bool
  tf_notes :: string
  tf_warnings :: "string list"

record travel_status =
  tv_status :: string
  tv_updated_at :: time
  tv_updated_by :: uuid
  tv_note :: string

record itinerary_item =
  ii_time :: string
  ii_start_time :: string
  ii_end_time :: string
  ii_type :: string
  ii_category :: string
  ii_mode :: string
  ii_duration :: "int option"
  ii_all_day :: bool
  ii_timezone :: string
  ii_sched :: string
  ii_walking :: "rat option"
  ii_name :: string
  ii_note :: string
  ii_cost :: "estimated_cost option"
  ii_transfer :: "transfer_details option"
  ii_place :: "place_ref option"
  ii_place_meta :: "place_meta option"
  ii_price_meta :: "price_meta option"
  ii_availability :: "availability_meta option"
  ii_ground_source :: string
  ii_ground_place :: string
  ii_ground_confidence :: "rat option"
  ii_ground_status :: string
  ii_needs_review :: bool
  ii_ground_warnings :: "string list"
  ii_travel :: "travel_status option"

record itinerary_day =
  dy_day :: int
  dy_date :: string
  dy_title :: string
  dy_stop :: string
  dy_location :: string
  dy_transfer_day :: bool
  dy_items :: "itinerary_item list"

record itinerary =
  it_destination :: string
  it_summary :: string
  it_travelers :: int
  it_pace :: string
  it_currency :: string
  it_total_budget :: "rat option"
  it_days :: "itinerary_day list"
  it_generated_at :: "time option"
  it_source :: string

definition empty_itinerary :: itinerary where
  "empty_itinerary = \<lparr>it_destination = [], it_summary = [], it_travelers = 0, it_pace = [],
     it_currency = [], it_total_budget = None, it_days = [], it_generated_at = None, it_source = []\<rparr>"

text \<open>\<open>parseItineraryLenient\<close>: a missing, \<open>null\<close> or malformed document reads as the empty one.\<close>

definition parseItineraryLenient :: "itinerary option \<Rightarrow> itinerary" where
  "parseItineraryLenient doc = (case doc of None \<Rightarrow> empty_itinerary | Some it \<Rightarrow> it)"

end
