(* ===== verification/TripStore.thy ===== *)
theory TripStore
  imports Tables GoText ItineraryData
begin

text \<open>
  The part of Trip Service's database that the collaboration handlers read and write:
  \<open>trips\<close>, \<open>trip_collaborators\<close> and \<open>trip_invitations\<close> (\<open>internal/domain/entity\<close>,
  migrations 000006 and 000048), with the repository methods of
  \<open>repository/postgres/trip.go\<close> and \<open>collaboration.go\<close> as functions on the tables. A method
  returns the row it read or wrote and the new state; \<open>ErrNotFound\<close> is \<open>pgx.ErrNoRows\<close>.
  Rows an \<open>ORDER BY\<close> leaves in any order come in the order of insertion.
  Failures of the database itself (a lost connection) are not modelled. \<open>now\<close> stands for
  \<open>NOW()\<close> and \<open>time.Now()\<close>, taken as one instant per request.
\<close>

datatype app_error =
    ErrUnauthenticated
  | ErrForbidden
  | ErrNotFound
  | ErrConflict
  | InvalidInput string
  | ConflictErr string
  | DependencyErr string
  | ItineraryConflict int
  | ExpectedRevisionRequired
  | RegisteredUserNotFound
  | DatabaseErr string
  | UpstreamErr string
  | PolicyBlocking

section \<open>Rows\<close>

datatype collab_role = RoleViewer | RoleEditor | RoleCommenter | RoleGuest | RoleAdmin

datatype collab_status = CPending | CAccepted | CDeclined | CExpired | CRevoked | CRemoved

datatype invite_status = IPending | IAccepted | IDeclined | IExpired | IRevoked

text \<open>The approval columns of a trip (migration 000020, \<open>domain/entity/trip_approval.go\<close>).\<close>

datatype approval_status = ApNotRequired | ApDraft | ApPending | ApChanges | ApApproved | ApCancelled

record approval_cols =
  ap_status :: approval_status
  ap_submitted_at :: "time option"
  ap_submitted_by :: "uuid option"
  ap_approved_at :: "time option"
  ap_approved_by :: "uuid option"
  ap_changes_at :: "time option"
  ap_changes_by :: "uuid option"
  ap_cancelled_at :: "time option"
  ap_cancelled_by :: "uuid option"
  ap_note :: "string option"
  ap_decision_note :: "string option"
  ap_last_at :: "time option"
  ap_last_by :: "uuid option"

text \<open>The columns of a new trip; \<open>initialApprovalStatus\<close> is the status it starts with.\<close>

definition initialApprovalStatus :: "uuid option \<Rightarrow> approval_status" where
  "initialApprovalStatus ws = (case ws of None \<Rightarrow> ApNotRequired | Some _ \<Rightarrow> ApDraft)"

definition initial_approval :: "uuid option \<Rightarrow> approval_cols" where
  "initial_approval ws = \<lparr>ap_status = initialApprovalStatus ws, ap_submitted_at = None, ap_submitted_by = None,
     ap_approved_at = None, ap_approved_by = None, ap_changes_at = None, ap_changes_by = None,
     ap_cancelled_at = None, ap_cancelled_by = None, ap_note = None, ap_decision_note = None,
     ap_last_at = None, ap_last_by = None\<rparr>"

record trip =
  tr_id :: uuid
  tr_user :: "uuid option"
  tr_workspace :: "uuid option"
  tr_destination :: string
  tr_itinerary_revision :: int
  tr_itinerary :: "itinerary option"
  tr_approval :: approval_cols
  tr_budget_amount :: "rat option"
  tr_created_at :: time

record collaborator =
  co_id :: uuid
  co_trip :: uuid
  co_user :: uuid
  co_email :: string
  co_role :: collab_role
  co_status :: collab_status
  co_invited_by :: uuid
  co_message :: string
  co_invited_at :: time
  co_expires_at :: "time option"
  co_accepted_at :: "time option"
  co_declined_at :: "time option"
  co_revoked_at :: "time option"
  co_removed_at :: "time option"
  co_last_seen_at :: "time option"
  co_updated_at :: time

record invitation =
  iv_id :: uuid
  iv_trip :: uuid
  iv_inviter :: uuid
  iv_invited_user :: "uuid option"
  iv_email :: string
  iv_role :: collab_role
  iv_status :: invite_status
  iv_message :: string
  iv_expires_at :: time
  iv_accepted_at :: "time option"
  iv_declined_at :: "time option"
  iv_revoked_at :: "time option"
  iv_created_at :: time
  iv_updated_at :: time

text \<open>
  \<open>tr_itinerary\<close> is the decoded document, \<open>None\<close> when it is missing, \<open>null\<close> or malformed.
  \<open>day_counts\<close> are its days with their numbers of items.
\<close>

definition day_counts :: "trip \<Rightarrow> (int \<times> nat) list option" where
  "day_counts t =
    map_option (\<lambda>it. map (\<lambda>d. (dy_day d, length (dy_items d))) (it_days it)) (tr_itinerary t)"

text \<open>
  What the services send out after a change: an activity event (type, trip, actor, entity)
  and a notification (recipient, trip, actor, type). Their texts and metadata maps are not
  modelled.
\<close>

record activity_event =
  ev_type :: string
  ev_trip :: uuid
  ev_actor :: uuid
  ev_entity :: uuid

record notification =
  nt_user :: uuid
  nt_trip :: uuid
  nt_actor :: uuid
  nt_type :: string

record trip_db =
  db_trips :: "trip list"
  db_collabs :: "collaborator list"
  db_invites :: "invitation list"
  db_activity :: "activity_event list"
  db_outbox :: "notification list"

text \<open>The migrations' keys and unique indexes.\<close>

definition collab_key :: "collaborator \<Rightarrow> uuid \<times> uuid" where
  "collab_key c = (co_trip c, co_user c)"

definition pending_clash :: "invitation \<Rightarrow> invitation \<Rightarrow> bool" where
  "pending_clash i j \<longleftrightarrow>
     iv_status i = IPending \<and> iv_status j = IPending \<and> iv_trip i = iv_trip j \<and>
     ((iv_invited_user i \<noteq> None \<and> iv_invited_user i = iv_invited_user j) \<or>
      (iv_email i \<noteq> [] \<and> iv_email j \<noteq> [] \<and> to_lower (iv_email i) = to_lower (iv_email j)))"

definition invites_ok :: "invitation list \<Rightarrow> bool" where
  "invites_ok rows \<longleftrightarrow>
     key_unique iv_id rows \<and>
     (\<forall>i \<in> set rows. \<forall>j \<in> set rows. iv_id i \<noteq> iv_id j \<longrightarrow> \<not> pending_clash i j)"

definition collabs_ok :: "collaborator list \<Rightarrow> bool" where
  "collabs_ok rows \<longleftrightarrow> key_unique co_id rows \<and> key_unique collab_key rows"

definition db_ok :: "trip_db \<Rightarrow> bool" where
  "db_ok db \<longleftrightarrow>
     key_unique tr_id (db_trips db) \<and> collabs_ok (db_collabs db) \<and> invites_ok (db_invites db)"

section \<open>Repository methods on trips and collaborators\<close>

definition GetByID :: "trip_db \<Rightarrow> uuid \<Rightarrow> app_error + trip" where
  "GetByID db tid =
    (case select_row (\<lambda>t. tr_id t = tid) (db_trips db) of
       None \<Rightarrow> Inl ErrNotFound | Some t \<Rightarrow> Inr t)"

definition GetTripCollaboratorByTripAndUser ::
  "trip_db \<Rightarrow> uuid \<Rightarrow> uuid \<Rightarrow> app_error + collaborator" where
  "GetTripCollaboratorByTripAndUser db tid uid =
    (case select_row (\<lambda>c. co_trip c = tid \<and> co_user c = uid) (db_collabs db) of
       None \<Rightarrow> Inl ErrNotFound | Some c \<Rightarrow> Inr c)"

definition GetTripCollaboratorByID ::
  "trip_db \<Rightarrow> uuid \<Rightarrow> uuid \<Rightarrow> app_error + collaborator" where
  "GetTripCollaboratorByID db tid cid =
    (case select_row (\<lambda>c. co_trip c = tid \<and> co_id c = cid) (db_collabs db) of
       None \<Rightarrow> Inl ErrNotFound | Some c \<Rightarrow> Inr c)"

definition ListTripCollaborators :: "trip_db \<Rightarrow> uuid \<Rightarrow> collaborator list" where
  "ListTripCollaborators db tid =
    rev (sort_key co_invited_at
      (rev (filter (\<lambda>c. co_trip c = tid \<and> co_status c \<noteq> CRemoved) (db_collabs db))))"

text \<open>The join of a user's collaborator rows of one status with their trips.\<close>

definition listCollaborativeTripsByStatus ::
  "trip_db \<Rightarrow> uuid \<Rightarrow> collab_status \<Rightarrow> (trip \<times> collaborator) list" where
  "listCollaborativeTripsByStatus db uid st =
    List.map_filter
      (\<lambda>c. map_option (\<lambda>t. (t, c)) (select_row (\<lambda>t. tr_id t = co_trip c) (db_trips db)))
      (rev (sort_key co_updated_at
        (rev (filter (\<lambda>c. co_user c = uid \<and> co_status c = st) (db_collabs db)))))"

definition ListPendingCollaborationInvitations :: "trip_db \<Rightarrow> uuid \<Rightarrow> (trip \<times> collaborator) list" where
  "ListPendingCollaborationInvitations db uid = listCollaborativeTripsByStatus db uid CPending"

definition ListSharedTripsByUser :: "trip_db \<Rightarrow> uuid \<Rightarrow> (trip \<times> collaborator) list" where
  "ListSharedTripsByUser db uid = listCollaborativeTripsByStatus db uid CAccepted"

text \<open>An \<open>UPDATE .. RETURNING\<close> on the collaborators.\<close>

definition update_collab ::
  "trip_db \<Rightarrow> (collaborator \<Rightarrow> bool) \<Rightarrow> (collaborator \<Rightarrow> collaborator) \<Rightarrow>
   app_error + (collaborator \<times> trip_db)" where
  "update_collab db P f =
    (case update_returning P f (db_collabs db) of
       None \<Rightarrow> Inl ErrNotFound
     | Some (c, rows) \<Rightarrow> Inr (c, db\<lparr>db_collabs := rows\<rparr>))"

definition conflict_update :: "collaborator \<Rightarrow> time \<Rightarrow> collaborator \<Rightarrow> collaborator" where
  "conflict_update new now old = old\<lparr>
     co_email := co_email new,
     co_role := co_role new,
     co_status := (if co_status old = CAccepted then CAccepted else CPending),
     co_invited_by := co_invited_by new,
     co_message := co_message new,
     co_expires_at := co_expires_at new,
     co_invited_at := (if co_status old = CRemoved then now else co_invited_at old),
     co_accepted_at := (if co_status old = CAccepted then co_accepted_at old else None),
     co_declined_at := None,
     co_revoked_at := None,
     co_removed_at := None,
     co_updated_at := now\<rparr>"

text \<open>
  \<open>INSERT .. ON CONFLICT (trip_id, user_id) DO UPDATE\<close>. The inserted row is pending whatever
  status the caller passed. A clash on the primary key alone is a database error.
\<close>

definition UpsertTripCollaborator ::
  "trip_db \<Rightarrow> time \<Rightarrow> collaborator \<Rightarrow> app_error + (collaborator \<times> trip_db)" where
  "UpsertTripCollaborator db now new =
    (let row = new\<lparr>co_status := CPending, co_invited_at := now, co_accepted_at := None,
        co_declined_at := None, co_revoked_at := None, co_removed_at := None,
        co_updated_at := now\<rparr>;
      rows = db_collabs db
     in case update_returning (\<lambda>c. collab_key c = collab_key new) (conflict_update new now) rows of
          Some (c, rows') \<Rightarrow> Inr (c, db\<lparr>db_collabs := rows'\<rparr>)
        | None \<Rightarrow>
           (if co_id new \<in> co_id ` set rows then Inl (DatabaseErr ''duplicate key'')
            else Inr (row, db\<lparr>db_collabs := rows @ [row]\<rparr>)))"

definition UpdateTripCollaboratorRole ::
  "trip_db \<Rightarrow> time \<Rightarrow> uuid \<Rightarrow> uuid \<Rightarrow> collab_role \<Rightarrow> app_error + (collaborator \<times> trip_db)" where
  "UpdateTripCollaboratorRole db now tid cid role =
    update_collab db (\<lambda>c. co_trip c = tid \<and> co_id c = cid \<and> co_status c \<noteq> CRemoved)
      (\<lambda>c. c\<lparr>co_role := role, co_updated_at := now\<rparr>)"

text \<open>
  The statement of \<open>RemoveTripCollaborator\<close> writes the status \<open>declined\<close>, and the statement
  of \<open>DeclineTripCollaborator\<close> the status \<open>removed\<close>; both are translated as they stand.
\<close>

definition RemoveTripCollaborator ::
  "trip_db \<Rightarrow> time \<Rightarrow> uuid \<Rightarrow> uuid \<Rightarrow> app_error + (collaborator \<times> trip_db)" where
  "RemoveTripCollaborator db now tid cid =
    update_collab db (\<lambda>c. co_trip c = tid \<and> co_id c = cid)
      (\<lambda>c. c\<lparr>co_status := CDeclined, co_declined_at := Some now, co_updated_at := now\<rparr>)"

definition AcceptTripCollaboratorRow ::
  "trip_db \<Rightarrow> time \<Rightarrow> uuid \<Rightarrow> uuid \<Rightarrow> uuid \<Rightarrow> app_error + (collaborator \<times> trip_db)" where
  "AcceptTripCollaboratorRow db now tid cid uid =
    update_collab db
      (\<lambda>c. co_trip c = tid \<and> co_id c = cid \<and> co_user c = uid \<and> co_status c = CPending)
      (\<lambda>c. c\<lparr>co_status := CAccepted, co_accepted_at := Some now, co_removed_at := None,
             co_updated_at := now\<rparr>)"

definition DeclineTripCollaboratorRow ::
  "trip_db \<Rightarrow> time \<Rightarrow> uuid \<Rightarrow> uuid \<Rightarrow> uuid \<Rightarrow> app_error + (collaborator \<times> trip_db)" where
  "DeclineTripCollaboratorRow db now tid cid uid =
    update_collab db
      (\<lambda>c. co_trip c = tid \<and> co_id c = cid \<and> co_user c = uid \<and> co_status c = CPending)
      (\<lambda>c. c\<lparr>co_status := CRemoved, co_removed_at := Some now, co_updated_at := now\<rparr>)"

definition RemoveTripCollaboratorByUser ::
  "trip_db \<Rightarrow> time \<Rightarrow> uuid \<Rightarrow> uuid \<Rightarrow> app_error + (collaborator \<times> trip_db)" where
  "RemoveTripCollaboratorByUser db now tid uid =
    update_collab db (\<lambda>c. co_trip c = tid \<and> co_user c = uid \<and> co_status c \<noteq> CRemoved)
      (\<lambda>c. c\<lparr>co_status := CRemoved, co_removed_at := Some now, co_updated_at := now\<rparr>)"

text \<open>
  The ownership transaction: the trip moves to the new owner only if it belongs to the current
  one; the old owner becomes an accepted editor; the new owner's membership row is closed. Any
  failing statement rolls the transaction back.
\<close>

definition TransferTripOwnershipTx ::
  "trip_db \<Rightarrow> time \<Rightarrow> uuid \<Rightarrow> uuid \<Rightarrow> uuid \<Rightarrow> uuid \<Rightarrow> app_error + (trip \<times> trip_db)" where
  "TransferTripOwnershipTx db now newid tid cur nxt =
    (case update_returning (\<lambda>t. tr_id t = tid \<and> tr_user t = Some cur)
            (\<lambda>t. t\<lparr>tr_user := Some nxt\<rparr>) (db_trips db) of
       None \<Rightarrow> Inl ErrNotFound
     | Some (t, trips') \<Rightarrow>
        (let old = \<lparr>co_id = newid, co_trip = tid, co_user = cur, co_email = [],
             co_role = RoleEditor, co_status = CAccepted, co_invited_by = cur, co_message = [],
             co_invited_at = now, co_expires_at = None, co_accepted_at = Some now,
             co_declined_at = None, co_revoked_at = None, co_removed_at = None,
             co_last_seen_at = None, co_updated_at = now\<rparr>;
           reopen = (\<lambda>c. c\<lparr>co_role := RoleEditor, co_status := CAccepted,
             co_accepted_at := (case co_accepted_at c of None \<Rightarrow> Some now | Some a \<Rightarrow> Some a),
             co_removed_at := None, co_revoked_at := None, co_declined_at := None,
             co_updated_at := now\<rparr>);
           close = (\<lambda>c. c\<lparr>co_status := CRemoved, co_removed_at := Some now,
             co_updated_at := now\<rparr>);
           mine = (\<lambda>c. co_trip c = tid \<and> co_user c = cur)
         in if select_row mine (db_collabs db) = None \<and> newid \<in> co_id ` set (db_collabs db)
            then Inl (DatabaseErr ''upsert old owner collaborator'')
            else
             (let rows1 = (if select_row mine (db_collabs db) = None then db_collabs db @ [old]
                           else update_where mine reopen (db_collabs db));
                  rows2 = update_where (\<lambda>c. co_trip c = tid \<and> co_user c = nxt) close rows1
              in Inr (t, db\<lparr>db_trips := trips', db_collabs := rows2\<rparr>))))"

section \<open>Repository methods on invitations\<close>

definition CreateTripInvitationRow ::
  "trip_db \<Rightarrow> time \<Rightarrow> invitation \<Rightarrow> app_error + (invitation \<times> trip_db)" where
  "CreateTripInvitationRow db now new =
    (let row = new\<lparr>iv_accepted_at := None, iv_declined_at := None, iv_revoked_at := None,
        iv_created_at := now, iv_updated_at := now\<rparr>
     in if (\<exists>r \<in> set (db_invites db). iv_id r = iv_id row \<or> pending_clash row r)
        then Inl ErrConflict
        else Inr (row, db\<lparr>db_invites := db_invites db @ [row]\<rparr>))"

definition ListTripInvitationsByTrip :: "trip_db \<Rightarrow> uuid \<Rightarrow> invitation list" where
  "ListTripInvitationsByTrip db tid =
    rev (sort_key iv_created_at (rev (filter (\<lambda>i. iv_trip i = tid) (db_invites db))))"

definition ListPendingTripInvitationsForUser ::
  "trip_db \<Rightarrow> uuid \<Rightarrow> string \<Rightarrow> invitation list" where
  "ListPendingTripInvitationsForUser db uid email =
    (let e = to_lower (trim_space email) in
     rev (sort_key iv_created_at (rev
       (filter (\<lambda>i. iv_status i = IPending \<and>
          (iv_invited_user i = Some uid \<or> (e \<noteq> [] \<and> to_lower (iv_email i) = e)))
         (db_invites db)))))"

definition GetTripInvitationByID :: "trip_db \<Rightarrow> uuid \<Rightarrow> uuid \<Rightarrow> app_error + invitation" where
  "GetTripInvitationByID db tid iid =
    (case select_row (\<lambda>i. iv_id i = iid \<and> iv_trip i = tid) (db_invites db) of
       None \<Rightarrow> Inl ErrNotFound | Some i \<Rightarrow> Inr i)"

text \<open>
  An \<open>UPDATE .. RETURNING\<close> on one invitation. The changed row must not clash with a pending
  one of another id: the partial unique indexes make the statement fail.
\<close>

definition update_invite ::
  "trip_db \<Rightarrow> (invitation \<Rightarrow> bool) \<Rightarrow> (invitation \<Rightarrow> invitation) \<Rightarrow>
   app_error + (invitation \<times> trip_db)" where
  "update_invite db P f =
    (case update_returning P f (db_invites db) of
       None \<Rightarrow> Inl ErrNotFound
     | Some (i, rows) \<Rightarrow>
        (if (\<exists>r \<in> set (db_invites db). iv_id r \<noteq> iv_id i \<and> pending_clash i r)
         then Inl (DatabaseErr ''unique violation'')
         else Inr (i, db\<lparr>db_invites := rows\<rparr>)))"

definition LinkTripInvitationToUser ::
  "trip_db \<Rightarrow> time \<Rightarrow> uuid \<Rightarrow> uuid \<Rightarrow> string \<Rightarrow> app_error + (invitation \<times> trip_db)" where
  "LinkTripInvitationToUser db now iid uid email =
    update_invite db
      (\<lambda>i. iv_id i = iid \<and> iv_status i = IPending \<and> iv_invited_user i = None \<and>
        iv_email i \<noteq> [] \<and> to_lower (iv_email i) = to_lower (trim_space email))
      (\<lambda>i. i\<lparr>iv_invited_user := Some uid, iv_updated_at := now\<rparr>)"

fun set_invite_status :: "invite_status \<Rightarrow> time \<Rightarrow> invitation \<Rightarrow> invitation" where
  "set_invite_status IAccepted stamp i = i\<lparr>iv_status := IAccepted, iv_accepted_at := Some stamp\<rparr>"
| "set_invite_status IDeclined stamp i = i\<lparr>iv_status := IDeclined, iv_declined_at := Some stamp\<rparr>"
| "set_invite_status IRevoked stamp i = i\<lparr>iv_status := IRevoked, iv_revoked_at := Some stamp\<rparr>"
| "set_invite_status IExpired stamp i = i\<lparr>iv_status := IExpired\<rparr>"
| "set_invite_status IPending stamp i = i\<lparr>iv_status := IPending, iv_accepted_at := None,
     iv_declined_at := None, iv_revoked_at := None\<rparr>"

definition UpdateTripInvitationStatus ::
  "trip_db \<Rightarrow> time \<Rightarrow> uuid \<Rightarrow> uuid \<Rightarrow> invite_status \<Rightarrow> app_error + (invitation \<times> trip_db)" where
  "UpdateTripInvitationStatus db now tid iid st =
    update_invite db (\<lambda>i. iv_id i = iid \<and> iv_trip i = tid)
      (\<lambda>i. (set_invite_status st now i)\<lparr>iv_updated_at := now\<rparr>)"

definition ResendTripInvitationRow ::
  "trip_db \<Rightarrow> time \<Rightarrow> uuid \<Rightarrow> uuid \<Rightarrow> uuid \<Rightarrow> time \<Rightarrow> string \<Rightarrow>
   app_error + (invitation \<times> trip_db)" where
  "ResendTripInvitationRow db now tid iid inviter expires msg =
    update_invite db (\<lambda>i. iv_id i = iid \<and> iv_trip i = tid \<and> iv_status i \<noteq> IAccepted)
      (\<lambda>i. i\<lparr>iv_inviter := inviter, iv_status := IPending, iv_message := msg,
        iv_expires_at := expires, iv_accepted_at := None, iv_declined_at := None,
        iv_revoked_at := None, iv_updated_at := now\<rparr>)"

section \<open>The keys survive every statement\<close>

lemma update_collab_Inr:
  "update_collab db P f = Inr (c, db') \<longleftrightarrow>
     (\<exists>old. select_row P (db_collabs db) = Some old \<and> c = f old \<and>
        db' = db\<lparr>db_collabs := update_where P f (db_collabs db)\<rparr>)"
  by (auto simp: update_collab_def update_returning_def select_row_def split: option.splits)

lemma update_invite_Inr:
  "update_invite db P f = Inr (i, db') \<longleftrightarrow>
     (\<exists>old. select_row P (db_invites db) = Some old \<and> i = f old \<and>
        (\<forall>r \<in> set (db_invites db). iv_id r \<noteq> iv_id i \<longrightarrow> \<not> pending_clash i r) \<and>
        db' = db\<lparr>db_invites := update_where P f (db_invites db)\<rparr>)"
  by (auto simp: update_invite_def update_returning_def select_row_def split: option.splits if_splits)

lemma collabs_ok_update:
  assumes "collabs_ok rows" "\<And>c. co_id (f c) = co_id c" "\<And>c. collab_key (f c) = collab_key c"
  shows "collabs_ok (update_where P f rows)"
  using assms unfolding collabs_ok_def by auto

lemma collabs_ok_append:
  "collabs_ok rows \<Longrightarrow> co_id c \<notin> co_id ` set rows \<Longrightarrow> collab_key c \<notin> collab_key ` set rows \<Longrightarrow>
   collabs_ok (rows @ [c])"
  unfolding collabs_ok_def by auto

lemma conflict_update_keys [simp]:
  "co_id (conflict_update new now c) = co_id c"
  "collab_key (conflict_update new now c) = collab_key c"
  by (simp_all add: conflict_update_def collab_key_def)

lemma pending_clash_sym: "pending_clash i j = pending_clash j i"
  unfolding pending_clash_def by metis

lemma pending_clash_updated_at [simp]:
  "pending_clash (i\<lparr>iv_updated_at := t\<rparr>) j = pending_clash i j"
  "pending_clash i (j\<lparr>iv_updated_at := t\<rparr>) = pending_clash i j"
  by (simp_all add: pending_clash_def)

lemma invites_ok_update:
  assumes ok: "invites_ok rows" and id: "\<And>i. iv_id (f i) = iv_id i"
    and sel: "select_row P rows = Some old"
    and one: "\<And>i. P i \<Longrightarrow> iv_id i = iv_id old"
    and new: "\<forall>r \<in> set rows. iv_id r \<noteq> iv_id old \<longrightarrow> \<not> pending_clash (f old) r"
  shows "invites_ok (update_where P f rows)"
  unfolding invites_ok_def
proof (intro conjI ballI impI)
  show "key_unique iv_id (update_where P f rows)"
    using ok id unfolding invites_ok_def by auto
next
  fix i j
  assume i: "i \<in> set (update_where P f rows)" and j: "j \<in> set (update_where P f rows)"
    and ij: "iv_id i \<noteq> iv_id j"
  have uniq: "\<And>r. r \<in> set rows \<Longrightarrow> P r \<Longrightarrow> r = old"
    using ok one select_row_Some [OF sel] key_unique_inj unfolding invites_ok_def by metis
  have shape: "\<And>k. k \<in> set (update_where P f rows) \<Longrightarrow> k = f old \<or> k \<in> set rows"
    using uniq by (auto simp: set_update_where)
  show "\<not> pending_clash i j"
  proof (cases "i = f old \<or> j = f old")
    case True
    then show ?thesis using shape [OF i] shape [OF j] ij id new pending_clash_sym by metis
  next
    case False
    then have "i \<in> set rows" "j \<in> set rows" using shape [OF i] shape [OF j] by auto
    then show ?thesis using ok ij unfolding invites_ok_def by blast
  qed
qed

named_theorems repo_defs

lemmas collab_repo_defs [repo_defs] =
  UpdateTripCollaboratorRole_def RemoveTripCollaborator_def AcceptTripCollaboratorRow_def
  DeclineTripCollaboratorRow_def RemoveTripCollaboratorByUser_def

lemma update_collab_ok:
  assumes "update_collab db P f = Inr (c, db')" "db_ok db"
    and "\<And>c. co_id (f c) = co_id c" "\<And>c. collab_key (f c) = collab_key c"
  shows "db_ok db'"
  using assms by (auto simp: update_collab_Inr db_ok_def intro!: collabs_ok_update)

lemma UpdateTripCollaboratorRole_ok:
  "UpdateTripCollaboratorRole db now tid cid role = Inr (c, db') \<Longrightarrow> db_ok db \<Longrightarrow> db_ok db'"
  unfolding repo_defs by (erule update_collab_ok) (simp_all add: collab_key_def)

lemma RemoveTripCollaborator_ok:
  "RemoveTripCollaborator db now tid cid = Inr (c, db') \<Longrightarrow> db_ok db \<Longrightarrow> db_ok db'"
  unfolding repo_defs by (erule update_collab_ok) (simp_all add: collab_key_def)

lemma AcceptTripCollaboratorRow_ok:
  "AcceptTripCollaboratorRow db now tid cid uid = Inr (c, db') \<Longrightarrow> db_ok db \<Longrightarrow> db_ok db'"
  unfolding repo_defs by (erule update_collab_ok) (simp_all add: collab_key_def)

lemma DeclineTripCollaboratorRow_ok:
  "DeclineTripCollaboratorRow db now tid cid uid = Inr (c, db') \<Longrightarrow> db_ok db \<Longrightarrow> db_ok db'"
  unfolding repo_defs by (erule update_collab_ok) (simp_all add: collab_key_def)

lemma RemoveTripCollaboratorByUser_ok:
  "RemoveTripCollaboratorByUser db now tid uid = Inr (c, db') \<Longrightarrow> db_ok db \<Longrightarrow> db_ok db'"
  unfolding repo_defs by (erule update_collab_ok) (simp_all add: collab_key_def)

lemma UpsertTripCollaborator_cases:
  assumes "UpsertTripCollaborator db now new = Inr (c, db')"
  obtains (upd) old where "select_row (\<lambda>c. collab_key c = collab_key new) (db_collabs db) = Some old"
      "c = conflict_update new now old"
      "db' = db\<lparr>db_collabs := update_where (\<lambda>c. collab_key c = collab_key new)
         (conflict_update new now) (db_collabs db)\<rparr>"
  | (ins) "\<forall>r \<in> set (db_collabs db). collab_key r \<noteq> collab_key new"
      "co_id new \<notin> co_id ` set (db_collabs db)"
      "c = new\<lparr>co_status := CPending, co_invited_at := now, co_accepted_at := None,
        co_declined_at := None, co_revoked_at := None, co_removed_at := None,
        co_updated_at := now\<rparr>"
      "db' = db\<lparr>db_collabs := db_collabs db @ [c]\<rparr>"
proof (cases "update_returning (\<lambda>c. collab_key c = collab_key new) (conflict_update new now)
    (db_collabs db)")
  case None
  then have "\<forall>r \<in> set (db_collabs db). collab_key r \<noteq> collab_key new"
    by (simp add: update_returning_None_iff)
  with None assms ins show ?thesis
    by (auto simp: UpsertTripCollaborator_def Let_def split: if_splits)
next
  case (Some p)
  then obtain r' rows' where p: "p = (r', rows')" by (cases p) auto
  then obtain old where
    old: "select_row (\<lambda>c. collab_key c = collab_key new) (db_collabs db) = Some old"
      "r' = conflict_update new now old"
      "rows' = update_where (\<lambda>c. collab_key c = collab_key new) (conflict_update new now)
         (db_collabs db)"
    using Some by (auto simp: update_returning_Some)
  have "c = r'" "db' = db\<lparr>db_collabs := rows'\<rparr>"
    using assms Some p by (simp_all add: UpsertTripCollaborator_def Let_def)
  with old upd show ?thesis by simp
qed

lemma UpsertTripCollaborator_ok:
  assumes "UpsertTripCollaborator db now new = Inr (c, db')" "db_ok db"
  shows "db_ok db'"
  using assms(1)
proof (cases rule: UpsertTripCollaborator_cases)
  case (upd old)
  then show ?thesis using assms(2) by (auto simp: db_ok_def intro!: collabs_ok_update)
next
  case ins
  then show ?thesis using assms(2)
    by (auto simp: db_ok_def collab_key_def intro!: collabs_ok_append)
qed

lemma update_invite_ok:
  assumes "update_invite db P f = Inr (i, db')" "db_ok db"
    and "\<And>i. iv_id (f i) = iv_id i" "\<And>i j. P i \<Longrightarrow> P j \<Longrightarrow> iv_id i = iv_id j"
  shows "db_ok db'"
proof -
  obtain old where sel: "select_row P (db_invites db) = Some old" and i: "i = f old"
    and clash: "\<forall>r \<in> set (db_invites db). iv_id r \<noteq> iv_id i \<longrightarrow> \<not> pending_clash i r"
    and db': "db' = db\<lparr>db_invites := update_where P f (db_invites db)\<rparr>"
    using assms(1) unfolding update_invite_Inr by blast
  have "\<And>j. P j \<Longrightarrow> iv_id j = iv_id old" using assms(4) select_row_Some [OF sel] by blast
  then have "invites_ok (update_where P f (db_invites db))"
    using assms(2,3) sel i clash by (intro invites_ok_update) (simp_all add: db_ok_def)
  then show ?thesis using assms(2) db' by (simp add: db_ok_def)
qed

lemma set_invite_status_keeps [simp]:
  "iv_id (set_invite_status st now i) = iv_id i" "iv_trip (set_invite_status st now i) = iv_trip i"
  "iv_status (set_invite_status st now i) = st" "iv_email (set_invite_status st now i) = iv_email i"
  "iv_invited_user (set_invite_status st now i) = iv_invited_user i"
  "iv_role (set_invite_status st now i) = iv_role i"
  "iv_expires_at (set_invite_status st now i) = iv_expires_at i"
  by (cases st; simp)+

lemma UpdateTripInvitationStatus_ok:
  "UpdateTripInvitationStatus db now tid iid st = Inr (i, db') \<Longrightarrow> db_ok db \<Longrightarrow> db_ok db'"
  unfolding UpdateTripInvitationStatus_def by (erule update_invite_ok) simp_all

lemma ResendTripInvitationRow_ok:
  "ResendTripInvitationRow db now tid iid inviter ex msg = Inr (i, db') \<Longrightarrow> db_ok db \<Longrightarrow> db_ok db'"
  unfolding ResendTripInvitationRow_def by (erule update_invite_ok) simp_all

lemma LinkTripInvitationToUser_ok:
  "LinkTripInvitationToUser db now iid uid email = Inr (i, db') \<Longrightarrow> db_ok db \<Longrightarrow> db_ok db'"
  unfolding LinkTripInvitationToUser_def by (erule update_invite_ok) simp_all

lemma invites_ok_append:
  assumes "invites_ok rows" "\<forall>r \<in> set rows. iv_id r \<noteq> iv_id i \<and> \<not> pending_clash i r"
  shows "invites_ok (rows @ [i])"
proof -
  have "key_unique iv_id (rows @ [i])"
    using assms unfolding invites_ok_def by (intro key_unique_append) auto
  moreover have "\<forall>j \<in> set rows. \<not> pending_clash j i" using assms(2) pending_clash_sym by blast
  ultimately show ?thesis using assms unfolding invites_ok_def by auto
qed

lemma CreateTripInvitationRow_ok:
  "CreateTripInvitationRow db now new = Inr (i, db') \<Longrightarrow> db_ok db \<Longrightarrow> db_ok db'"
  by (auto simp: CreateTripInvitationRow_def Let_def db_ok_def intro!: invites_ok_append split: if_splits)

text \<open>What a committed ownership transfer did, with the rows it wrote.\<close>

lemma TransferTripOwnershipTx_Inr:
  assumes "TransferTripOwnershipTx db now newid tid cur nxt = Inr (t, db')"
  obtains old rows1 where
    "select_row (\<lambda>t. tr_id t = tid \<and> tr_user t = Some cur) (db_trips db) = Some old"
    "t = old\<lparr>tr_user := Some nxt\<rparr>"
    "db' = db\<lparr>db_trips := update_where (\<lambda>t. tr_id t = tid \<and> tr_user t = Some cur)
         (\<lambda>t. t\<lparr>tr_user := Some nxt\<rparr>) (db_trips db),
       db_collabs := update_where (\<lambda>c. co_trip c = tid \<and> co_user c = nxt)
         (\<lambda>c. c\<lparr>co_status := CRemoved, co_removed_at := Some now, co_updated_at := now\<rparr>) rows1\<rparr>"
    "collabs_ok (db_collabs db) \<Longrightarrow> collabs_ok rows1"
    "\<And>c. c \<in> set rows1 \<Longrightarrow> c \<in> set (db_collabs db) \<or> (co_trip c = tid \<and> co_user c = cur)"
    "\<exists>c. select_row (\<lambda>c. co_trip c = tid \<and> co_user c = cur) rows1 = Some c \<and>
       co_status c = CAccepted \<and> co_role c = RoleEditor"
proof -
  define mine where "mine = (\<lambda>c :: collaborator. co_trip c = tid \<and> co_user c = cur)"
  define old where "old = \<lparr>co_id = newid, co_trip = tid, co_user = cur, co_email = [],
     co_role = RoleEditor, co_status = CAccepted, co_invited_by = cur, co_message = [],
     co_invited_at = now, co_expires_at = None, co_accepted_at = Some now,
     co_declined_at = None, co_revoked_at = None, co_removed_at = None,
     co_last_seen_at = None, co_updated_at = now\<rparr>"
  define reopen where "reopen = (\<lambda>c :: collaborator. c\<lparr>co_role := RoleEditor, co_status := CAccepted,
     co_accepted_at := (case co_accepted_at c of None \<Rightarrow> Some now | Some a \<Rightarrow> Some a),
     co_removed_at := None, co_revoked_at := None, co_declined_at := None,
     co_updated_at := now\<rparr>)"
  define rows1 where "rows1 = (if select_row mine (db_collabs db) = None then db_collabs db @ [old]
     else update_where mine reopen (db_collabs db))"
  note defs = mine_def [symmetric] old_def [symmetric] reopen_def [symmetric] rows1_def [symmetric]
  obtain trip0 where sel: "select_row (\<lambda>t. tr_id t = tid \<and> tr_user t = Some cur) (db_trips db) = Some trip0"
    and t: "t = trip0\<lparr>tr_user := Some nxt\<rparr>"
    and fresh: "select_row mine (db_collabs db) = None \<longrightarrow> newid \<notin> co_id ` set (db_collabs db)"
    and db': "db' = db\<lparr>db_trips := update_where (\<lambda>t. tr_id t = tid \<and> tr_user t = Some cur)
         (\<lambda>t. t\<lparr>tr_user := Some nxt\<rparr>) (db_trips db),
       db_collabs := update_where (\<lambda>c. co_trip c = tid \<and> co_user c = nxt)
         (\<lambda>c. c\<lparr>co_status := CRemoved, co_removed_at := Some now, co_updated_at := now\<rparr>) rows1\<rparr>"
    using assms unfolding TransferTripOwnershipTx_def Let_def defs
    by (auto simp: update_returning_Some rows1_def split: option.splits if_splits)
  have keys: "\<And>c. co_id (reopen c) = co_id c" "\<And>c. collab_key (reopen c) = collab_key c"
    "\<And>c. mine (reopen c) = mine c"
    by (simp_all add: reopen_def collab_key_def mine_def)
  have ok1: "collabs_ok rows1" if "collabs_ok (db_collabs db)"
  proof (cases "select_row mine (db_collabs db)")
    case None
    then have "\<forall>c \<in> set (db_collabs db). collab_key c \<noteq> (tid, cur)"
      by (auto simp: select_row_None_iff mine_def collab_key_def)
    then show ?thesis using None that fresh
      by (auto simp: rows1_def old_def collab_key_def intro!: collabs_ok_append)
  next
    case (Some c)
    then show ?thesis using that keys by (simp add: rows1_def collabs_ok_update)
  qed
  have shape: "c \<in> set (db_collabs db) \<or> (co_trip c = tid \<and> co_user c = cur)" if "c \<in> set rows1" for c
    using that by (auto simp: rows1_def set_update_where old_def reopen_def mine_def split: if_splits)
  have ed: "\<exists>c. select_row (\<lambda>c. co_trip c = tid \<and> co_user c = cur) rows1 = Some c \<and>
       co_status c = CAccepted \<and> co_role c = RoleEditor"
    unfolding mine_def [symmetric]
  proof (cases "select_row mine (db_collabs db)")
    case None
    then show "\<exists>c. select_row mine rows1 = Some c \<and> co_status c = CAccepted \<and> co_role c = RoleEditor"
      by (simp add: rows1_def select_row_def find_append old_def mine_def)
  next
    case (Some c)
    then have "select_row mine rows1 = Some (reopen c)"
      using find_update_where_hit [of mine reopen, OF keys(3) Some] select_row_Some [OF Some]
      by (simp add: rows1_def)
    then show "\<exists>c. select_row mine rows1 = Some c \<and> co_status c = CAccepted \<and> co_role c = RoleEditor"
      by (simp add: reopen_def)
  qed
  show ?thesis by (rule that [OF sel t db' ok1 shape ed])
qed

lemma TransferTripOwnershipTx_ok:
  assumes "TransferTripOwnershipTx db now newid tid cur nxt = Inr (t, db')" "db_ok db"
  shows "db_ok db'"
  using assms(1)
proof (rule TransferTripOwnershipTx_Inr)
  fix rows1
  assume "collabs_ok (db_collabs db) \<Longrightarrow> collabs_ok rows1"
    and "db' = db\<lparr>db_trips := update_where (\<lambda>t. tr_id t = tid \<and> tr_user t = Some cur)
         (\<lambda>t. t\<lparr>tr_user := Some nxt\<rparr>) (db_trips db),
       db_collabs := update_where (\<lambda>c. co_trip c = tid \<and> co_user c = nxt)
         (\<lambda>c. c\<lparr>co_status := CRemoved, co_removed_at := Some now, co_updated_at := now\<rparr>) rows1\<rparr>"
  then show "db_ok db'"
    using assms(2) by (auto simp: db_ok_def collab_key_def intro!: collabs_ok_update)
qed

end
