(* ===== verification/Access.thy ===== *)
theory Access
  imports Security TripStore
begin

text \<open>
  Who may do what on a trip: \<open>application/service/access.go\<close>. The access level of a user is
  the strongest of three grants: ownership of a personal trip, the role in the trip's
  workspace, and an accepted collaboration. The workspace role comes from User Service over
  HTTP, so \<open>AccessCheck\<close> is a parameter, a field of the environment record.
\<close>

record auth_user =
  au_id :: uuid
  au_email :: string

record workspace_grant =
  wg_has_access :: bool
  wg_role :: string

record user_lookup =
  ul_id :: uuid
  ul_email :: string

text \<open>The optional collaborators of \<open>Service\<close>; \<open>None\<close> is a port that is not configured.\<close>

record svc_env =
  env_workspaces_enabled :: bool
  env_workspace_provider :: "(uuid \<Rightarrow> uuid \<Rightarrow> app_error + workspace_grant option) option"
  env_user_lookup :: "(string \<Rightarrow> app_error + user_lookup option) option"
  env_activity_on :: bool
  env_notify_on :: bool

datatype access_level = LevelOwner | LevelEditor | LevelViewer | LevelNone

fun level_string :: "access_level \<Rightarrow> string" where
  "level_string LevelOwner = ''owner''"
| "level_string LevelEditor = ''editor''"
| "level_string LevelViewer = ''viewer''"
| "level_string LevelNone = ''none''"

record trip_access =
  ta_level :: access_level
  ta_source :: string
  ta_workspace_role :: string

definition no_access :: trip_access where
  "no_access = \<lparr>ta_level = LevelNone, ta_source = [], ta_workspace_role = []\<rparr>"

definition access_context :: "trip_access \<Rightarrow> trip_access_context" where
  "access_context a =
    \<lparr>principal_type = ''authenticated_user'', ctx_role = level_string (ta_level a),
     ctx_workspace_role = ta_workspace_role a, ctx_accepted = (ta_level a \<noteq> LevelNone),
     ctx_removed = False, public_share_live = False\<rparr>"

definition Allows :: "trip_access \<Rightarrow> permission \<Rightarrow> bool" where
  "Allows a p \<longleftrightarrow> dec_allowed (Authorize (access_context a) p)"

definition CanView :: "trip_access \<Rightarrow> bool" where
  "CanView a \<longleftrightarrow> Allows a PermissionTripView"

definition CanEdit :: "trip_access \<Rightarrow> bool" where
  "CanEdit a \<longleftrightarrow> Allows a PermissionTripEdit"

definition CanManageCollaborators :: "trip_access \<Rightarrow> bool" where
  "CanManageCollaborators a \<longleftrightarrow> Allows a PermissionCollaboratorsManage"

definition CanManageShare :: "trip_access \<Rightarrow> bool" where
  "CanManageShare a \<longleftrightarrow> Allows a PermissionShareManage"

definition CanDelete :: "trip_access \<Rightarrow> bool" where
  "CanDelete a \<longleftrightarrow> Allows a PermissionTripDelete"

definition access_role :: "trip_access \<Rightarrow> string" where
  "access_role a =
    (if ta_source a = ''workspace'' \<and> ta_workspace_role a \<noteq> [] then ta_workspace_role a
     else level_string (ta_level a))"

definition SourceName :: "trip_access \<Rightarrow> string" where
  "SourceName a = (if ta_source a \<noteq> [] then ta_source a else ''collaborator'')"

fun accessRank :: "access_level \<Rightarrow> nat" where
  "accessRank LevelOwner = 3"
| "accessRank LevelEditor = 2"
| "accessRank LevelViewer = 1"
| "accessRank LevelNone = 0"

definition strongestAccess :: "trip_access \<Rightarrow> trip_access \<Rightarrow> trip_access" where
  "strongestAccess current candidate =
    (if accessRank (ta_level candidate) > accessRank (ta_level current) then candidate else current)"

definition workspaceTripAccess :: "svc_env \<Rightarrow> uuid \<Rightarrow> uuid \<Rightarrow> app_error + trip_access" where
  "workspaceTripAccess env uid ws =
    (case env_workspace_provider env of
       None \<Rightarrow> Inr no_access
     | Some check \<Rightarrow>
        (if \<not> env_workspaces_enabled env then Inr no_access
         else rbind (check uid ws) (\<lambda>g.
           case g of
             None \<Rightarrow> Inr no_access
           | Some g \<Rightarrow>
              Inr (if \<not> wg_has_access g then no_access
                   else if wg_role g = ''owner'' \<or> wg_role g = ''admin'' then
                     \<lparr>ta_level = LevelOwner, ta_source = ''workspace'', ta_workspace_role = wg_role g\<rparr>
                   else if wg_role g = ''member'' then
                     \<lparr>ta_level = LevelEditor, ta_source = ''workspace'', ta_workspace_role = wg_role g\<rparr>
                   else if wg_role g = ''viewer'' then
                     \<lparr>ta_level = LevelViewer, ta_source = ''workspace'', ta_workspace_role = wg_role g\<rparr>
                   else no_access))))"

definition ownerAccess :: "trip \<Rightarrow> uuid \<Rightarrow> trip_access" where
  "ownerAccess t uid =
    (if tr_workspace t = None \<and> tr_user t = Some uid
     then \<lparr>ta_level = LevelOwner, ta_source = ''owner'', ta_workspace_role = []\<rparr> else no_access)"

definition collaboratorAccess :: "trip_db \<Rightarrow> uuid \<Rightarrow> uuid \<Rightarrow> trip_access" where
  "collaboratorAccess db tid uid =
    (case GetTripCollaboratorByTripAndUser db tid uid of
       Inl _ \<Rightarrow> no_access
     | Inr c \<Rightarrow>
        (if co_status c = CAccepted then
           (case co_role c of
              RoleEditor \<Rightarrow> \<lparr>ta_level = LevelEditor, ta_source = ''collaborator'', ta_workspace_role = []\<rparr>
            | RoleViewer \<Rightarrow> \<lparr>ta_level = LevelViewer, ta_source = ''collaborator'', ta_workspace_role = []\<rparr>
            | _ \<Rightarrow> no_access)
         else no_access))"

text \<open>
  \<open>tripForAccess\<close>. The lookup of the collaborator fails with \<open>ErrNotFound\<close> only, which the
  code passes over; a user who may not see the trip gets \<open>ErrNotFound\<close>, so the existence of a
  trip is not disclosed.
\<close>

definition tripForAccess :: "svc_env \<Rightarrow> trip_db \<Rightarrow> uuid \<Rightarrow> uuid \<Rightarrow> app_error + (trip \<times> trip_access)" where
  "tripForAccess env db tid uid =
    rbind (GetByID db tid) (\<lambda>t.
      let a0 = strongestAccess no_access (ownerAccess t uid) in
      rbind (case tr_workspace t of
               None \<Rightarrow> Inr a0
             | Some ws \<Rightarrow> rbind (workspaceTripAccess env uid ws) (\<lambda>w. Inr (strongestAccess a0 w)))
        (\<lambda>a1.
          let a2 = strongestAccess a1 (collaboratorAccess db tid uid) in
          if \<not> CanView a2 then Inl ErrNotFound else Inr (t, a2)))"

definition requireOwner :: "svc_env \<Rightarrow> trip_db \<Rightarrow> uuid \<Rightarrow> uuid \<Rightarrow> app_error + (trip \<times> trip_access)" where
  "requireOwner env db tid uid =
    rbind (tripForAccess env db tid uid) (\<lambda>(t, a).
      if \<not> CanManageCollaborators a then Inl ErrForbidden else Inr (t, a))"

definition requireEditorOrOwner ::
  "svc_env \<Rightarrow> trip_db \<Rightarrow> uuid \<Rightarrow> uuid \<Rightarrow> app_error + (trip \<times> trip_access)" where
  "requireEditorOrOwner env db tid uid =
    rbind (tripForAccess env db tid uid) (\<lambda>(t, a).
      if \<not> CanEdit a then Inl ErrForbidden else Inr (t, a))"

definition requireViewerEditorOrOwner ::
  "svc_env \<Rightarrow> trip_db \<Rightarrow> uuid \<Rightarrow> uuid \<Rightarrow> app_error + (trip \<times> trip_access)" where
  "requireViewerEditorOrOwner env db tid uid =
    rbind (tripForAccess env db tid uid) (\<lambda>(t, a).
      if \<not> CanView a then Inl ErrNotFound else Inr (t, a))"

definition MustUserFromContext :: "auth_user option \<Rightarrow> app_error + auth_user" where
  "MustUserFromContext u = (case u of None \<Rightarrow> Inl ErrUnauthenticated | Some x \<Rightarrow> Inr x)"

definition GetTripAccess :: "svc_env \<Rightarrow> trip_db \<Rightarrow> auth_user option \<Rightarrow> uuid \<Rightarrow> app_error + trip_access" where
  "GetTripAccess env db u tid =
    rbind (MustUserFromContext u) (\<lambda>user.
      rbind (requireViewerEditorOrOwner env db tid (au_id user)) (\<lambda>(t, a). Inr a))"

section \<open>Levels and permissions\<close>

lemma Allows_level:
  "Allows a p \<longleftrightarrow> ta_level a \<noteq> LevelNone \<and> role_allows (level_string (ta_level a)) p"
  by (simp add: Allows_def access_context_def Authorize_authenticated)

lemma level_string_eq [simp]:
  "level_string l = ''owner'' \<longleftrightarrow> l = LevelOwner"
  "level_string l = ''editor'' \<longleftrightarrow> l = LevelEditor"
  "level_string l = ''viewer'' \<longleftrightarrow> l = LevelViewer"
  by (cases l; simp)+

lemma CanView_iff [simp]: "CanView a \<longleftrightarrow> ta_level a \<noteq> LevelNone"
  unfolding CanView_def Allows_level can_view_iff by (cases "ta_level a") simp_all

lemma CanEdit_iff [simp]: "CanEdit a \<longleftrightarrow> ta_level a = LevelOwner \<or> ta_level a = LevelEditor"
  unfolding CanEdit_def Allows_level can_edit_iff by (cases "ta_level a") simp_all

lemma CanManage_iff [simp]:
  "CanManageCollaborators a \<longleftrightarrow> ta_level a = LevelOwner"
  "CanManageShare a \<longleftrightarrow> ta_level a = LevelOwner"
  "CanDelete a \<longleftrightarrow> ta_level a = LevelOwner"
  unfolding CanManageCollaborators_def CanManageShare_def CanDelete_def Allows_level
  by (auto simp: only_owner_manages)

lemma accessRank_eq_0 [simp]: "accessRank l = 0 \<longleftrightarrow> l = LevelNone"
  by (cases l) simp_all

lemma accessRank_inj: "accessRank l = accessRank l' \<longleftrightarrow> l = l'"
  by (cases l; cases l') simp_all

lemma accessRank_strongest [simp]:
  "accessRank (ta_level (strongestAccess a b)) = max (accessRank (ta_level a)) (accessRank (ta_level b))"
  by (simp add: strongestAccess_def)

lemma no_access_level [simp]: "ta_level no_access = LevelNone"
  by (simp add: no_access_def)

lemma strongest_cases: "strongestAccess a b = a \<or> strongestAccess a b = b"
  by (simp add: strongestAccess_def)

section \<open>The level a request gets\<close>

text \<open>The workspace grant that counts for a trip: none for a personal trip.\<close>

definition workspaceGrant :: "svc_env \<Rightarrow> trip \<Rightarrow> uuid \<Rightarrow> app_error + trip_access" where
  "workspaceGrant env t uid =
    (case tr_workspace t of None \<Rightarrow> Inr no_access | Some ws \<Rightarrow> workspaceTripAccess env uid ws)"

lemma strongest_no_access [simp]:
  "strongestAccess no_access a = (if ta_level a = LevelNone then no_access else a)"
  "strongestAccess a no_access = a"
  by (auto simp: strongestAccess_def)

lemma tripForAccess_Inr:
  assumes "tripForAccess env db tid uid = Inr (t, a)"
  obtains w where "GetByID db tid = Inr t" "workspaceGrant env t uid = Inr w"
    "a = strongestAccess (strongestAccess (strongestAccess no_access (ownerAccess t uid)) w)
           (collaboratorAccess db tid uid)"
    "ta_level a \<noteq> LevelNone"
proof -
  obtain a1 where t: "GetByID db tid = Inr t"
    and a1: "(case tr_workspace t of
        None \<Rightarrow> Inr (strongestAccess no_access (ownerAccess t uid))
      | Some ws \<Rightarrow> rbind (workspaceTripAccess env uid ws)
          (\<lambda>w. Inr (strongestAccess (strongestAccess no_access (ownerAccess t uid)) w))) = Inr a1"
    and a: "a = strongestAccess a1 (collaboratorAccess db tid uid)" "ta_level a \<noteq> LevelNone"
    using assms unfolding tripForAccess_def Let_def rbind_Inr_iff by (auto split: if_splits)
  obtain w where "workspaceGrant env t uid = Inr w"
    "a1 = strongestAccess (strongestAccess no_access (ownerAccess t uid)) w"
    using a1 unfolding workspaceGrant_def by (cases "tr_workspace t") (auto simp: rbind_Inr_iff)
  with t a that show ?thesis by blast
qed

lemma GetByID_Inr: "GetByID db tid = Inr t \<Longrightarrow> t \<in> set (db_trips db) \<and> tr_id t = tid"
  by (auto simp: GetByID_def dest!: select_row_Some split: option.splits)

lemma requireOwner_Inr:
  "requireOwner env db tid uid = Inr (t, a) \<longleftrightarrow>
     tripForAccess env db tid uid = Inr (t, a) \<and> ta_level a = LevelOwner"
  by (auto simp: requireOwner_def rbind_Inr_iff split: if_splits)

lemma requireEditorOrOwner_Inr:
  "requireEditorOrOwner env db tid uid = Inr (t, a) \<longleftrightarrow>
     tripForAccess env db tid uid = Inr (t, a) \<and> (ta_level a = LevelOwner \<or> ta_level a = LevelEditor)"
  by (auto simp: requireEditorOrOwner_def rbind_Inr_iff split: if_splits)

lemma requireViewer_Inr:
  "requireViewerEditorOrOwner env db tid uid = Inr (t, a) \<longleftrightarrow>
     tripForAccess env db tid uid = Inr (t, a)"
proof -
  have "tripForAccess env db tid uid = Inr (t, a) \<Longrightarrow> ta_level a \<noteq> LevelNone"
    by (erule tripForAccess_Inr)
  then show ?thesis
    by (auto simp: requireViewerEditorOrOwner_def rbind_Inr_iff split: if_splits)
qed

lemma ownerAccess_level:
  "ta_level (ownerAccess t uid) = (if tr_workspace t = None \<and> tr_user t = Some uid then LevelOwner else LevelNone)"
  by (simp add: ownerAccess_def)

lemma collaboratorAccess_level:
  "ta_level (collaboratorAccess db tid uid) = LevelEditor \<or>
   ta_level (collaboratorAccess db tid uid) = LevelViewer \<or>
   ta_level (collaboratorAccess db tid uid) = LevelNone"
  by (auto simp: collaboratorAccess_def split: sum.splits collab_role.splits)

lemma collaboratorAccess_accepted:
  assumes "ta_level (collaboratorAccess db tid uid) \<noteq> LevelNone"
  shows "\<exists>c. GetTripCollaboratorByTripAndUser db tid uid = Inr c \<and> co_status c = CAccepted \<and>
    (co_role c = RoleEditor \<or> co_role c = RoleViewer)"
  using assms by (auto simp: collaboratorAccess_def split: sum.splits if_splits collab_role.splits)

text \<open>
  The level a request gets on a trip is exactly the strongest of its three grants
  (personal ownership, workspace role, accepted collaboration), and a request gets through only
  if one of them is not empty: a pending, declined, expired, revoked or removed collaborator
  without another grant sees \<open>ErrNotFound\<close>.
\<close>

theorem access_level_is_strongest_grant:
  assumes "tripForAccess env db tid uid = Inr (t, a)"
  shows "\<exists>w. workspaceGrant env t uid = Inr w \<and> tr_id t = tid \<and>
      accessRank (ta_level a) =
        max (accessRank (ta_level (ownerAccess t uid)))
          (max (accessRank (ta_level w)) (accessRank (ta_level (collaboratorAccess db tid uid)))) \<and>
      0 < accessRank (ta_level a)"
proof -
  from assms obtain w where w: "GetByID db tid = Inr t" "workspaceGrant env t uid = Inr w"
    "a = strongestAccess (strongestAccess (strongestAccess no_access (ownerAccess t uid)) w)
           (collaboratorAccess db tid uid)"
    "ta_level a \<noteq> LevelNone" by (rule tripForAccess_Inr)
  then have "accessRank (ta_level a) =
      max (max (accessRank (ta_level (ownerAccess t uid))) (accessRank (ta_level w)))
        (accessRank (ta_level (collaboratorAccess db tid uid)))"
    by simp
  moreover have "0 < accessRank (ta_level a)" using w(4) by (cases "ta_level a") simp_all
  ultimately show ?thesis using w(1,2) GetByID_Inr by (auto simp: max.assoc)
qed

text \<open>
  Without a workspace grant, owner rights (managing members, sharing, deleting) belong to
  the trip's own user alone: an accepted collaborator never gets them, whatever role its row
  holds.
\<close>

theorem owner_rights_only_for_owner:
  assumes "requireOwner env db tid uid = Inr (t, a)"
  shows "(tr_workspace t = None \<and> tr_user t = Some uid) \<or>
    (\<exists>ws w. tr_workspace t = Some ws \<and> workspaceTripAccess env uid ws = Inr w \<and>
       ta_level w = LevelOwner)"
proof -
  from assms have acc: "tripForAccess env db tid uid = Inr (t, a)" and lvl: "ta_level a = LevelOwner"
    by (simp_all add: requireOwner_Inr)
  from acc obtain w where w: "workspaceGrant env t uid = Inr w"
    "a = strongestAccess (strongestAccess (strongestAccess no_access (ownerAccess t uid)) w)
           (collaboratorAccess db tid uid)" by (rule tripForAccess_Inr)
  have "a \<noteq> collaboratorAccess db tid uid"
    using lvl collaboratorAccess_level [of db tid uid] by auto
  then have "a = strongestAccess (strongestAccess no_access (ownerAccess t uid)) w"
    using w(2) strongest_cases by metis
  then have "ta_level (ownerAccess t uid) = LevelOwner \<or> ta_level w = LevelOwner"
    using lvl strongest_cases [of "strongestAccess no_access (ownerAccess t uid)" w]
    by (auto split: if_splits)
  then show ?thesis
    using w(1) by (auto simp: ownerAccess_level workspaceGrant_def split: if_splits option.splits)
qed

end
