(* ===== verification/StateErr.thy ===== *)
theory StateErr
  imports Prelude
begin

text \<open>
  Handlers that change state and may fail: \<open>'s \<Rightarrow> ('e + 'a) \<times> 's\<close>. The state is returned
  with the error too, because the statements a handler ran before it failed stay committed.
  \<open>keeps I m\<close> says that \<open>m\<close> preserves \<open>I\<close> on every path, errors included; its rules follow the
  structure of a handler, so an invariant of a handler is proved from those of its statements.
  \<open>step_rel R m\<close> is the same for a relation between the state before and after.
\<close>

type_synonym ('s, 'e, 'a) op = "'s \<Rightarrow> ('e + 'a) \<times> 's"

definition sret :: "'a \<Rightarrow> ('s, 'e, 'a) op" where
  "sret x s = (Inr x, s)"

definition sfail :: "'e \<Rightarrow> ('s, 'e, 'a) op" where
  "sfail e s = (Inl e, s)"

definition sbind :: "('s, 'e, 'a) op \<Rightarrow> ('a \<Rightarrow> ('s, 'e, 'b) op) \<Rightarrow> ('s, 'e, 'b) op" where
  "sbind m f s = (case m s of (Inl e, s') \<Rightarrow> (Inl e, s') | (Inr x, s') \<Rightarrow> f x s')"

text \<open>A check of an argument, a read of the state, a statement, an unconditional change.\<close>

definition spure :: "'e + 'a \<Rightarrow> ('s, 'e, 'a) op" where
  "spure r s = (r, s)"

definition sread :: "('s \<Rightarrow> 'e + 'a) \<Rightarrow> ('s, 'e, 'a) op" where
  "sread f s = (f s, s)"

definition sstmt :: "('s \<Rightarrow> 'e + ('a \<times> 's)) \<Rightarrow> ('s, 'e, 'a) op" where
  "sstmt f s = (case f s of Inl e \<Rightarrow> (Inl e, s) | Inr (x, s') \<Rightarrow> (Inr x, s'))"

definition sdo :: "('s \<Rightarrow> 's) \<Rightarrow> ('s, 'e, unit) op" where
  "sdo f s = (Inr (), f s)"

definition scheck :: "bool \<Rightarrow> 'e \<Rightarrow> ('s, 'e, unit) op" where
  "scheck b e s = (if b then Inr () else Inl e, s)"

text \<open>A call whose error the code drops: its result is an option.\<close>

definition stry :: "('s, 'e, 'a) op \<Rightarrow> ('s, 'e, 'a option) op" where
  "stry m s = (case m s of (Inl e, s') \<Rightarrow> (Inr None, s') | (Inr x, s') \<Rightarrow> (Inr (Some x), s'))"

text \<open>A call whose error is translated for the caller's answer.\<close>

definition serr :: "('e \<Rightarrow> 'f) \<Rightarrow> ('s, 'e, 'a) op \<Rightarrow> ('s, 'f, 'a) op" where
  "serr f m s = (case m s of (Inl e, s') \<Rightarrow> (Inl (f e), s') | (Inr x, s') \<Rightarrow> (Inr x, s'))"

definition map_err :: "('e \<Rightarrow> 'f) \<Rightarrow> 'e + 'a \<Rightarrow> 'f + 'a" where
  "map_err f r = (case r of Inl e \<Rightarrow> Inl (f e) | Inr x \<Rightarrow> Inr x)"

named_theorems op_run

lemma sbind_Inr [op_run]:
  "sbind m f s = (Inr y, t) \<longleftrightarrow> (\<exists>x s'. m s = (Inr x, s') \<and> f x s' = (Inr y, t))"
  by (auto simp: sbind_def split: prod.splits sum.splits)

lemma sbind_Inl:
  "sbind m f s = (Inl e, t) \<longleftrightarrow>
     m s = (Inl e, t) \<or> (\<exists>x s'. m s = (Inr x, s') \<and> f x s' = (Inl e, t))"
  by (auto simp: sbind_def split: prod.splits sum.splits)

named_theorems op_fail

lemma sread_Inl [op_fail]: "sread f s = (Inl e, t) \<longleftrightarrow> f s = Inl e \<and> t = s"
  by (auto simp: sread_def)

lemma sstmt_Inl [op_fail]: "sstmt f s = (Inl e, t) \<longleftrightarrow> f s = Inl e \<and> t = s"
  by (auto simp: sstmt_def split: sum.splits prod.splits)

lemma sret_Inr [op_run]: "sret x s = (Inr y, t) \<longleftrightarrow> y = x \<and> t = s"
  by (auto simp: sret_def)

lemma sfail_Inr [op_run]: "sfail e s = (Inr y, t) \<longleftrightarrow> False"
  by (simp add: sfail_def)

lemma spure_Inr [op_run]: "spure r s = (Inr y, t) \<longleftrightarrow> r = Inr y \<and> t = s"
  by (auto simp: spure_def)

lemma sread_Inr [op_run]: "sread f s = (Inr y, t) \<longleftrightarrow> f s = Inr y \<and> t = s"
  by (auto simp: sread_def)

lemma sstmt_Inr [op_run]: "sstmt f s = (Inr y, t) \<longleftrightarrow> f s = Inr (y, t)"
  by (auto simp: sstmt_def split: sum.splits prod.splits)

lemma sdo_Inr [op_run]: "sdo f s = (Inr y, t) \<longleftrightarrow> t = f s"
  by (auto simp: sdo_def)

lemma scheck_Inr [op_run]: "scheck b e s = (Inr y, t) \<longleftrightarrow> b \<and> t = s"
  by (auto simp: scheck_def)

lemma stry_Inr [op_run]:
  "stry m s = (Inr y, t) \<longleftrightarrow>
     (\<exists>x. y = Some x \<and> m s = (Inr x, t)) \<or> (\<exists>e. y = None \<and> m s = (Inl e, t))"
  by (auto simp: stry_def split: prod.splits sum.splits)

lemma serr_Inr [op_run]: "serr f m s = (Inr y, t) \<longleftrightarrow> m s = (Inr y, t)"
  by (auto simp: serr_def split: prod.splits sum.splits)

lemma map_err_Inr [simp]: "map_err f r = Inr y \<longleftrightarrow> r = Inr y"
  by (auto simp: map_err_def split: sum.splits)

lemma if_op_Inr [op_run]:
  "(if b then m else m') s = (Inr y, t) \<longleftrightarrow> (b \<and> m s = (Inr y, t)) \<or> (\<not> b \<and> m' s = (Inr y, t))"
  by simp

section \<open>Relations kept by a handler\<close>

definition step_rel :: "('s \<Rightarrow> 's \<Rightarrow> bool) \<Rightarrow> ('s, 'e, 'a) op \<Rightarrow> bool" where
  "step_rel R m \<longleftrightarrow> (\<forall>s. R s (snd (m s)))"

definition rel_ok :: "('s \<Rightarrow> 's \<Rightarrow> bool) \<Rightarrow> bool" where
  "rel_ok R \<longleftrightarrow> reflp R \<and> transp R"

named_theorems step_intros

lemma step_relD: "step_rel R m \<Longrightarrow> m s = (r, t) \<Longrightarrow> R s t"
  unfolding step_rel_def by (metis snd_conv)

lemma step_rel_sret [step_intros]: "rel_ok R \<Longrightarrow> step_rel R (sret x)"
  by (simp add: step_rel_def rel_ok_def sret_def reflpD)

lemma step_rel_sfail [step_intros]: "rel_ok R \<Longrightarrow> step_rel R (sfail e)"
  by (simp add: step_rel_def rel_ok_def sfail_def reflpD)

lemma step_rel_spure [step_intros]: "rel_ok R \<Longrightarrow> step_rel R (spure r)"
  by (simp add: step_rel_def rel_ok_def spure_def reflpD)

lemma step_rel_sread [step_intros]: "rel_ok R \<Longrightarrow> step_rel R (sread f)"
  by (simp add: step_rel_def rel_ok_def sread_def reflpD)

lemma step_rel_scheck [step_intros]: "rel_ok R \<Longrightarrow> step_rel R (scheck b e)"
  by (simp add: step_rel_def rel_ok_def scheck_def reflpD)

lemma step_rel_sstmt:
  "rel_ok R \<Longrightarrow> (\<And>s x t. f s = Inr (x, t) \<Longrightarrow> R s t) \<Longrightarrow> step_rel R (sstmt f)"
  by (auto simp: step_rel_def rel_ok_def sstmt_def reflpD split: sum.splits prod.splits)

lemma step_rel_sdo: "(\<And>s. R s (f s)) \<Longrightarrow> step_rel R (sdo f)"
  by (simp add: step_rel_def sdo_def)

lemma step_rel_sbind [step_intros]:
  assumes "rel_ok R" "step_rel R m" "\<And>x. step_rel R (f x)"
  shows "step_rel R (sbind m f)"
  unfolding step_rel_def
proof
  fix s
  obtain r t where m: "m s = (r, t)" by (cases "m s")
  have st: "R s t" using assms(2) m by (rule step_relD)
  show "R s (snd (sbind m f s))"
  proof (cases r)
    case (Inl e)
    with m st show ?thesis by (simp add: sbind_def)
  next
    case (Inr x)
    have "R t (snd (f x t))" using assms(3) by (simp add: step_rel_def)
    moreover have "transp R" using assms(1) by (simp add: rel_ok_def)
    ultimately have "R s (snd (f x t))" using st by (blast dest: transpD)
    with Inr m show ?thesis by (simp add: sbind_def)
  qed
qed

lemma step_rel_stry [step_intros]: "step_rel R m \<Longrightarrow> step_rel R (stry m)"
  by (auto simp: step_rel_def stry_def split: prod.splits sum.splits) (metis snd_conv)+

lemma step_rel_serr [step_intros]: "step_rel R m \<Longrightarrow> step_rel R (serr f m)"
  by (auto simp: step_rel_def serr_def split: prod.splits sum.splits) (metis snd_conv)+

lemma step_rel_if [step_intros]:
  "(b \<Longrightarrow> step_rel R m) \<Longrightarrow> (\<not> b \<Longrightarrow> step_rel R m') \<Longrightarrow> step_rel R (if b then m else m')"
  by simp

lemma step_rel_case_option [step_intros]:
  "step_rel R m \<Longrightarrow> (\<And>x. step_rel R (f x)) \<Longrightarrow> step_rel R (case v of None \<Rightarrow> m | Some x \<Rightarrow> f x)"
  by (cases v) simp_all

lemma step_rel_case_prod [step_intros]:
  "(\<And>x y. step_rel R (f x y)) \<Longrightarrow> step_rel R (case p of (x, y) \<Rightarrow> f x y)"
  by (cases p) simp

lemma step_rel_Let [step_intros]: "step_rel R (f v) \<Longrightarrow> step_rel R (let x = v in f x)"
  by (simp add: Let_def)

text \<open>The binds whose second part needs the value the first one checked.\<close>

lemma step_rel_spure_bind:
  "rel_ok R \<Longrightarrow> (\<And>x. r = Inr x \<Longrightarrow> step_rel R (f x)) \<Longrightarrow> step_rel R (sbind (spure r) f)"
  by (cases r) (auto simp: step_rel_def sbind_def spure_def rel_ok_def reflpD)

lemma step_rel_spure_pair:
  "rel_ok R \<Longrightarrow> (\<And>x y. r = Inr (x, y) \<Longrightarrow> step_rel R (f x y)) \<Longrightarrow>
    step_rel R (sbind (spure r) (\<lambda>(x, y). f x y))"
  by (rule step_rel_spure_bind) auto

text \<open>An invariant is the relation \<open>I s \<longrightarrow> I t\<close>.\<close>

definition keep :: "('s \<Rightarrow> bool) \<Rightarrow> 's \<Rightarrow> 's \<Rightarrow> bool" where
  "keep I s t \<longleftrightarrow> (I s \<longrightarrow> I t)"

lemma rel_ok_keep [simp, intro]: "rel_ok (keep I)"
  by (auto simp: rel_ok_def keep_def intro!: reflpI transpI)

lemma rel_okI: "(\<And>s. R s s) \<Longrightarrow> (\<And>s t u. R s t \<Longrightarrow> R t u \<Longrightarrow> R s u) \<Longrightarrow> rel_ok R"
  by (auto simp: rel_ok_def intro!: reflpI transpI)

section \<open>All or nothing\<close>

text \<open>
  \<open>atomic m\<close>: when \<open>m\<close> fails the state is as it was. It holds of a handler that checks and
  reads first, changes the state once, and cannot fail after that.
\<close>

definition pure_op :: "('s, 'e, 'a) op \<Rightarrow> bool" where
  "pure_op m \<longleftrightarrow> (\<forall>s. snd (m s) = s)"

definition total_op :: "('s, 'e, 'a) op \<Rightarrow> bool" where
  "total_op m \<longleftrightarrow> (\<forall>s. \<exists>x. fst (m s) = Inr x)"

definition atomic :: "('s, 'e, 'a) op \<Rightarrow> bool" where
  "atomic m \<longleftrightarrow> (\<forall>s e t. m s = (Inl e, t) \<longrightarrow> t = s)"

named_theorems atomic_intros
named_theorems total_intros

lemma atomicD: "atomic m \<Longrightarrow> m s = (Inl e, t) \<Longrightarrow> t = s"
  by (simp add: atomic_def)

lemma atomic_changed: "atomic m \<Longrightarrow> snd (m s) \<noteq> s \<Longrightarrow> \<exists>x t. m s = (Inr x, t)"
  unfolding atomic_def by (cases "m s"; cases "fst (m s)") auto

lemma pure_op_simps [simp]:
  "pure_op (spure r)" "pure_op (sread f)" "pure_op (scheck b e)" "pure_op (sret x)" "pure_op (sfail e)"
  by (simp_all add: pure_op_def spure_def sread_def scheck_def sret_def sfail_def)

lemma pure_atomic: "pure_op m \<Longrightarrow> atomic m"
  unfolding pure_op_def atomic_def by (metis snd_conv)

lemma atomic_single [atomic_intros]:
  "atomic (spure r)" "atomic (sread f)" "atomic (scheck b e)" "atomic (sret x)" "atomic (sfail e)"
  by (simp_all add: pure_atomic)

lemma atomic_sstmt [atomic_intros]: "atomic (sstmt f)"
  by (auto simp: atomic_def sstmt_def split: sum.splits)

lemma total_atomic: "total_op m \<Longrightarrow> atomic m"
  by (auto simp: atomic_def total_op_def) (metis Inl_Inr_False fst_conv)

lemma total_single [total_intros]: "total_op (sret x)" "total_op (sdo f)" "total_op (stry m)"
  by (auto simp: total_op_def sret_def sdo_def stry_def split: prod.splits sum.splits)

lemma total_sbind [total_intros]:
  "total_op m \<Longrightarrow> (\<And>x. total_op (f x)) \<Longrightarrow> total_op (sbind m f)"
  unfolding total_op_def sbind_def by (auto split: prod.splits sum.splits) (metis Inl_Inr_False fst_conv)

lemma atomic_sbind_pure:
  "pure_op m \<Longrightarrow> (\<And>x. atomic (f x)) \<Longrightarrow> atomic (sbind m f)"
  unfolding atomic_def pure_op_def sbind_Inl by (metis snd_conv)

lemma atomic_check_intros [atomic_intros]:
  "(\<And>x. atomic (f x)) \<Longrightarrow> atomic (sbind (spure r) f)"
  "(\<And>x. atomic (f x)) \<Longrightarrow> atomic (sbind (sread g) f)"
  "(\<And>x. atomic (h x)) \<Longrightarrow> atomic (sbind (scheck b e) h)"
  by (simp_all add: atomic_sbind_pure)

lemma atomic_commit [atomic_intros]:
  "(\<And>x. total_op (f x)) \<Longrightarrow> atomic (sbind (sstmt g) f)"
  unfolding total_op_def by (auto simp: atomic_def sbind_def sstmt_def split: sum.splits prod.splits)
    (metis Inl_Inr_False fst_conv)+

lemma atomic_if [atomic_intros]:
  "atomic m \<Longrightarrow> atomic m' \<Longrightarrow> atomic (if b then m else m')" by simp

lemma total_if [total_intros]:
  "total_op m \<Longrightarrow> total_op m' \<Longrightarrow> total_op (if b then m else m')" by simp

lemma total_case_option [total_intros]:
  "total_op m \<Longrightarrow> (\<And>x. total_op (f x)) \<Longrightarrow> total_op (case v of None \<Rightarrow> m | Some x \<Rightarrow> f x)"
  by (cases v) simp_all

lemma atomic_case_prod [atomic_intros]:
  "(\<And>x y. atomic (f x y)) \<Longrightarrow> atomic (case p of (x, y) \<Rightarrow> f x y)"
  by (cases p) simp

lemma total_case_prod [total_intros]:
  "(\<And>x y. total_op (f x y)) \<Longrightarrow> total_op (case p of (x, y) \<Rightarrow> f x y)"
  by (cases p) simp

section \<open>Runs of a system of handlers\<close>

text \<open>
  A system takes one request at a time; \<open>run\<close> is a sequence of requests. An invariant that
  every request keeps holds after every run from a state that has it, and a relation that every
  request respects relates the two ends of a run.
\<close>

locale request_system =
  fixes step :: "'r \<Rightarrow> 's \<Rightarrow> 's"
    and inv :: "'s \<Rightarrow> bool"
  assumes inv_step: "inv s \<Longrightarrow> inv (step r s)"
begin

lemma inv_run: "inv s \<Longrightarrow> inv (fold step rs s)"
  by (induction rs arbitrary: s) (auto intro: inv_step)

lemma rel_run:
  assumes "\<And>r s. inv s \<Longrightarrow> R s (step r s)" "rel_ok R" "inv s"
  shows "R s (fold step rs s)"
  using assms(3)
proof (induction rs arbitrary: s)
  case Nil
  then show ?case using assms(2) by (simp add: rel_ok_def reflpD)
next
  case (Cons r rs)
  have "R s (step r s)" using Cons.prems by (rule assms(1))
  moreover have "R (step r s) (fold step rs (step r s))"
    using Cons.prems by (intro Cons.IH inv_step)
  ultimately show ?case using assms(2) by (auto simp: rel_ok_def dest: transpD)
qed

text \<open>What first appears during a run appears at one of its steps.\<close>

lemma first_change:
  assumes "\<not> P s" "P (fold step rs s)" "inv s"
  shows "\<exists>pre r post. rs = pre @ r # post \<and> \<not> P (fold step pre s) \<and> P (fold step (pre @ [r]) s)"
  using assms
proof (induction rs rule: rev_induct)
  case Nil
  then show ?case by simp
next
  case (snoc r rs)
  show ?case
  proof (cases "P (fold step rs s)")
    case True
    then obtain pre q post where "rs = pre @ q # post" "\<not> P (fold step pre s)"
      "P (fold step (pre @ [q]) s)" using snoc by blast
    then show ?thesis by (intro exI [of _ pre] exI [of _ q] exI [of _ "post @ [r]"]) simp
  next
    case False
    with snoc.prems show ?thesis by (intro exI [of _ rs] exI [of _ r] exI [of _ "[]"]) simp
  qed
qed

end

end
