(* ===== verification/Collaboration.thy ===== *)
theory Collaboration
  imports Access StateErr
begin

text \<open>
  Membership of a trip: the direct collaborator endpoints of
  \<open>application/service/collaboration.go\<close> and the invitations, member list, ownership transfer
  and leaving of \<open>collaboration_v1.go\<close>. One definition per handler, in its order of checks and
  statements. Each takes the environment, the instant \<open>now\<close>, the ids \<open>uuid.New()\<close> returns and
  the caller; the caller is \<open>None\<close> when the context holds no user. \<open>net/mail\<close>'s address
  parser is the parameter \<open>addr_ok\<close>: it accepts the string and returns it unchanged.
\<close>

type_synonym 'a handler = "(trip_db, app_error, 'a) op"

section \<open>Activity and notifications\<close>

definition recordActivity :: "svc_env \<Rightarrow> string \<Rightarrow> uuid \<Rightarrow> uuid \<Rightarrow> uuid \<Rightarrow> trip_db \<Rightarrow> trip_db" where
  "recordActivity env ty tid actor entity db =
    (if env_activity_on env
     then db\<lparr>db_activity := db_activity db @
       [\<lparr>ev_type = ty, ev_trip = tid, ev_actor = actor, ev_entity = entity\<rparr>]\<rparr>
     else db)"

definition notifyDirect :: "svc_env \<Rightarrow> uuid \<Rightarrow> uuid \<Rightarrow> uuid \<Rightarrow> string \<Rightarrow> trip_db \<Rightarrow> trip_db" where
  "notifyDirect env recipient tid actor ty db =
    (if \<not> env_notify_on env \<or> recipient = 0 \<or> recipient = actor then db
     else db\<lparr>db_outbox := db_outbox db @
       [\<lparr>nt_user = recipient, nt_trip = tid, nt_actor = actor, nt_type = ty\<rparr>]\<rparr>)"

lemma log_frame [simp]:
  "db_trips (recordActivity env ty tid a en db) = db_trips db"
  "db_collabs (recordActivity env ty tid a en db) = db_collabs db"
  "db_invites (recordActivity env ty tid a en db) = db_invites db"
  "db_trips (notifyDirect env r tid a ty db) = db_trips db"
  "db_collabs (notifyDirect env r tid a ty db) = db_collabs db"
  "db_invites (notifyDirect env r tid a ty db) = db_invites db"
  by (simp_all add: recordActivity_def notifyDirect_def)

section \<open>Checks of the input\<close>

definition maxInviteMessage :: nat where "maxInviteMessage = 500"
definition defaultInvitationTTL :: duration where "defaultInvitationTTL = 14 * 24 * 60 * minute"
definition maxInvitationTTL :: duration where "maxInvitationTTL = 90 * 24 * 60 * minute"

definition normalizeCollaboratorRole :: "string \<Rightarrow> app_error + collab_role" where
  "normalizeCollaboratorRole role =
    (if trim_space role = ''viewer'' then Inr RoleViewer
     else if trim_space role = ''editor'' then Inr RoleEditor
     else Inl (InvalidInput ''role must be viewer or editor''))"

definition normalizeCollaboratorEmail :: "(string \<Rightarrow> bool) \<Rightarrow> string \<Rightarrow> app_error + string" where
  "normalizeCollaboratorEmail addr_ok raw =
    (let email = to_lower (trim_space raw) in
     if email = [] then Inl (InvalidInput ''email is required'')
     else if \<not> addr_ok email then Inl (InvalidInput ''email must be a valid email address'')
     else Inr email)"

definition normalizeInviteMessage :: "string \<Rightarrow> app_error + string" where
  "normalizeInviteMessage raw =
    (if length (trim_space raw) > maxInviteMessage
     then Inl (InvalidInput ''message must be at most 500 characters'')
     else Inr (trim_space raw))"

definition firstNonEmpty :: "string list \<Rightarrow> string" where
  "firstNonEmpty vs = (case find (\<lambda>v. trim_space v \<noteq> []) vs of None \<Rightarrow> [] | Some v \<Rightarrow> v)"

definition normalizeInvitationExpiration :: "time \<Rightarrow> time option \<Rightarrow> app_error + time" where
  "normalizeInvitationExpiration now raw =
    (case raw of
       None \<Rightarrow> Inr (now + defaultInvitationTTL)
     | Some e \<Rightarrow>
        (if \<not> e > now then Inl (InvalidInput ''expiresAt must be in the future'')
         else if e > now + maxInvitationTTL
           then Inl (InvalidInput ''expiresAt must be within 90 days'')
         else Inr e))"

definition tripOwnerID :: "trip \<Rightarrow> app_error + uuid" where
  "tripOwnerID t =
    (case tr_user t of None \<Rightarrow> Inl ErrNotFound
     | Some u \<Rightarrow> (if u = 0 then Inl ErrNotFound else Inr u))"

record invite_input =
  in_email :: string
  in_role :: string
  in_message :: string
  in_expires_at :: "time option"

definition pendingCollaborator ::
  "uuid \<Rightarrow> uuid \<Rightarrow> uuid \<Rightarrow> string \<Rightarrow> collab_role \<Rightarrow> uuid \<Rightarrow> string \<Rightarrow> time \<Rightarrow> collaborator" where
  "pendingCollaborator newid tid uid email role inviter msg expires =
    \<lparr>co_id = newid, co_trip = tid, co_user = uid, co_email = email, co_role = role,
     co_status = CPending, co_invited_by = inviter, co_message = msg, co_invited_at = 0,
     co_expires_at = Some expires, co_accepted_at = None, co_declined_at = None,
     co_revoked_at = None, co_removed_at = None, co_last_seen_at = None, co_updated_at = 0\<rparr>"

section \<open>The direct collaborator endpoints\<close>

definition InviteTripCollaborator ::
  "svc_env \<Rightarrow> (string \<Rightarrow> bool) \<Rightarrow> time \<Rightarrow> uuid \<Rightarrow> auth_user option \<Rightarrow> uuid \<Rightarrow> invite_input \<Rightarrow>
   collaborator handler" where
  "InviteTripCollaborator env addr_ok now newid u tid inp =
    sbind (spure (MustUserFromContext u)) (\<lambda>user.
    sbind (sread (\<lambda>db. requireOwner env db tid (au_id user))) (\<lambda>(t, _).
    sbind (spure (tripOwnerID t)) (\<lambda>owner.
    sbind (spure (normalizeCollaboratorRole (in_role inp))) (\<lambda>role.
    sbind (spure (normalizeCollaboratorEmail addr_ok (in_email inp))) (\<lambda>email.
    sbind (spure (normalizeInviteMessage (in_message inp))) (\<lambda>msg.
    sbind (spure (normalizeInvitationExpiration now (in_expires_at inp))) (\<lambda>expires.
    sbind (spure (case env_user_lookup env of
        None \<Rightarrow> Inl (DependencyErr ''user lookup is not configured'')
      | Some lookup \<Rightarrow>
         (case lookup email of
            Inl ErrNotFound \<Rightarrow> Inl RegisteredUserNotFound
          | Inl e \<Rightarrow> Inl e
          | Inr None \<Rightarrow> Inl RegisteredUserNotFound
          | Inr (Some f) \<Rightarrow> (if ul_id f = 0 then Inl RegisteredUserNotFound else Inr f)))) (\<lambda>found.
    sbind (scheck (ul_id found \<noteq> owner)
      (InvalidInput ''owner cannot be invited as a collaborator'')) (\<lambda>_.
    sbind (sstmt (\<lambda>db. UpsertTripCollaborator db now
      (pendingCollaborator newid tid (ul_id found) email role (au_id user) msg expires))) (\<lambda>c.
    sbind (sdo (recordActivity env ''collaborator_invited'' tid (au_id user) (co_id c))) (\<lambda>_.
    sbind (sdo (notifyDirect env (co_user c) tid (au_id user) ''collaboration_invited'')) (\<lambda>_.
    sret c))))))))))))"

definition ListTripCollaboratorsHandler ::
  "svc_env \<Rightarrow> auth_user option \<Rightarrow> uuid \<Rightarrow> (collaborator list) handler" where
  "ListTripCollaboratorsHandler env u tid =
    sbind (spure (MustUserFromContext u)) (\<lambda>user.
    sbind (sread (\<lambda>db. requireOwner env db tid (au_id user))) (\<lambda>_.
    sread (\<lambda>db. Inr (ListTripCollaborators db tid))))"

definition UpdateTripCollaborator ::
  "svc_env \<Rightarrow> time \<Rightarrow> auth_user option \<Rightarrow> uuid \<Rightarrow> uuid \<Rightarrow> string \<Rightarrow> collaborator handler" where
  "UpdateTripCollaborator env now u tid cid rawRole =
    sbind (spure (MustUserFromContext u)) (\<lambda>user.
    sbind (sread (\<lambda>db. requireOwner env db tid (au_id user))) (\<lambda>_.
    sbind (spure (normalizeCollaboratorRole rawRole)) (\<lambda>role.
    sbind (sread (\<lambda>db. GetTripCollaboratorByID db tid cid)) (\<lambda>existing.
    sbind (sstmt (\<lambda>db. UpdateTripCollaboratorRole db now tid cid role)) (\<lambda>updated.
    if co_role existing \<noteq> co_role updated then
      sbind (sdo (recordActivity env ''collaborator_role_changed'' tid (au_id user) (co_id updated))) (\<lambda>_.
      sbind (sdo (notifyDirect env (co_user updated) tid (au_id user) ''collaborator_role_changed'')) (\<lambda>_.
      sret updated))
    else sret updated)))))"

definition RemoveTripCollaboratorHandler ::
  "svc_env \<Rightarrow> time \<Rightarrow> auth_user option \<Rightarrow> uuid \<Rightarrow> uuid \<Rightarrow> unit handler" where
  "RemoveTripCollaboratorHandler env now u tid cid =
    sbind (spure (MustUserFromContext u)) (\<lambda>user.
    sbind (sread (\<lambda>db. requireOwner env db tid (au_id user))) (\<lambda>_.
    sbind (sstmt (\<lambda>db. RemoveTripCollaborator db now tid cid)) (\<lambda>removed.
    sbind (sdo (recordActivity env ''collaborator_removed'' tid (au_id user) (co_id removed))) (\<lambda>_.
    sdo (notifyDirect env (co_user removed) tid (au_id user) ''collaborator_removed'')))))"

definition AcceptTripCollaborator ::
  "svc_env \<Rightarrow> time \<Rightarrow> auth_user option \<Rightarrow> uuid \<Rightarrow> uuid \<Rightarrow> collaborator handler" where
  "AcceptTripCollaborator env now u tid cid =
    sbind (spure (MustUserFromContext u)) (\<lambda>user.
    sbind (sstmt (\<lambda>db. AcceptTripCollaboratorRow db now tid cid (au_id user))) (\<lambda>c.
    sbind (sdo (recordActivity env ''collaborator_accepted'' tid (au_id user) (co_id c))) (\<lambda>_.
    sbind (stry (sread (\<lambda>db. rbind (GetByID db tid) tripOwnerID))) (\<lambda>owner.
    sbind (case owner of None \<Rightarrow> sret ()
      | Some own \<Rightarrow> sdo (notifyDirect env own tid (au_id user) ''collaboration_accepted'')) (\<lambda>_.
    sret c)))))"

definition DeclineTripCollaborator ::
  "svc_env \<Rightarrow> time \<Rightarrow> auth_user option \<Rightarrow> uuid \<Rightarrow> uuid \<Rightarrow> unit handler" where
  "DeclineTripCollaborator env now u tid cid =
    sbind (spure (MustUserFromContext u)) (\<lambda>user.
    sbind (sstmt (\<lambda>db. DeclineTripCollaboratorRow db now tid cid (au_id user))) (\<lambda>c.
    sdo (recordActivity env ''collaborator_declined'' tid (au_id user) (co_id c))))"

section \<open>Invitations by email\<close>

text \<open>The lookup of \<open>CreateTripInvitation\<close>: an unknown user is not an error here.\<close>

definition lookupInvitedUser :: "svc_env \<Rightarrow> uuid \<Rightarrow> string \<Rightarrow> app_error + uuid option" where
  "lookupInvitedUser env owner email =
    (case env_user_lookup env of
       None \<Rightarrow> Inr None
     | Some lookup \<Rightarrow>
        (case lookup email of
           Inl ErrNotFound \<Rightarrow> Inr None
         | Inl e \<Rightarrow> Inl e
         | Inr None \<Rightarrow> Inr None
         | Inr (Some f) \<Rightarrow>
            (if ul_id f = 0 then Inr None
             else if ul_id f = owner then Inl (InvalidInput ''owner cannot be invited as a collaborator'')
             else Inr (Some (ul_id f)))))"

definition CreateTripInvitation ::
  "svc_env \<Rightarrow> (string \<Rightarrow> bool) \<Rightarrow> time \<Rightarrow> uuid \<Rightarrow> uuid \<Rightarrow> auth_user option \<Rightarrow> uuid \<Rightarrow> invite_input \<Rightarrow>
   invitation handler" where
  "CreateTripInvitation env addr_ok now newid newid2 u tid inp =
    sbind (spure (MustUserFromContext u)) (\<lambda>user.
    sbind (sread (\<lambda>db. requireOwner env db tid (au_id user))) (\<lambda>(t, _).
    sbind (spure (tripOwnerID t)) (\<lambda>owner.
    sbind (spure (normalizeCollaboratorRole (in_role inp))) (\<lambda>role.
    sbind (spure (normalizeCollaboratorEmail addr_ok (in_email inp))) (\<lambda>email.
    sbind (spure (normalizeInviteMessage (in_message inp))) (\<lambda>msg.
    sbind (spure (normalizeInvitationExpiration now (in_expires_at inp))) (\<lambda>expires.
    sbind (spure (lookupInvitedUser env owner email)) (\<lambda>invited.
    sbind (sstmt (\<lambda>db. CreateTripInvitationRow db now
      \<lparr>iv_id = newid, iv_trip = tid, iv_inviter = au_id user, iv_invited_user = invited,
       iv_email = email, iv_role = role, iv_status = IPending, iv_message = msg,
       iv_expires_at = expires, iv_accepted_at = None, iv_declined_at = None,
       iv_revoked_at = None, iv_created_at = 0, iv_updated_at = 0\<rparr>)) (\<lambda>i.
    sbind (case invited of
        None \<Rightarrow> sret ()
      | Some uid \<Rightarrow>
          sbind (sstmt (\<lambda>db. UpsertTripCollaborator db now
            (pendingCollaborator newid2 tid uid email role (au_id user) msg expires))) (\<lambda>_. sret ())) (\<lambda>_.
    sbind (sdo (recordActivity env ''collaborator_invited'' tid (au_id user) (iv_id i))) (\<lambda>_.
    sbind (case invited of
        None \<Rightarrow> sret ()
      | Some uid \<Rightarrow> sdo (notifyDirect env uid tid (au_id user) ''collaboration_invited'')) (\<lambda>_.
    sret i))))))))))))"

definition ListTripInvitations ::
  "svc_env \<Rightarrow> auth_user option \<Rightarrow> uuid \<Rightarrow> (invitation list) handler" where
  "ListTripInvitations env u tid =
    sbind (spure (MustUserFromContext u)) (\<lambda>user.
    sbind (sread (\<lambda>db. requireOwner env db tid (au_id user))) (\<lambda>_.
    sread (\<lambda>db. Inr (ListTripInvitationsByTrip db tid))))"

definition ResendTripInvitation ::
  "svc_env \<Rightarrow> time \<Rightarrow> auth_user option \<Rightarrow> uuid \<Rightarrow> uuid \<Rightarrow> invite_input \<Rightarrow> invitation handler" where
  "ResendTripInvitation env now u tid iid inp =
    sbind (spure (MustUserFromContext u)) (\<lambda>user.
    sbind (sread (\<lambda>db. requireOwner env db tid (au_id user))) (\<lambda>_.
    sbind (sread (\<lambda>db. GetTripInvitationByID db tid iid)) (\<lambda>existing.
    sbind (scheck (iv_status existing \<noteq> IAccepted)
      (ConflictErr ''accepted invitations cannot be resent'')) (\<lambda>_.
    sbind (spure (normalizeInviteMessage (firstNonEmpty [in_message inp, iv_message existing]))) (\<lambda>msg.
    sbind (spure (normalizeInvitationExpiration now (in_expires_at inp))) (\<lambda>expires.
    sbind (sstmt (\<lambda>db. ResendTripInvitationRow db now tid iid (au_id user) expires msg)) (\<lambda>i.
    sbind (case iv_invited_user i of
        None \<Rightarrow> sret ()
      | Some uid \<Rightarrow> sdo (notifyDirect env uid tid (au_id user) ''collaboration_invited'')) (\<lambda>_.
    sret i))))))))"

definition RevokeTripInvitation ::
  "svc_env \<Rightarrow> time \<Rightarrow> auth_user option \<Rightarrow> uuid \<Rightarrow> uuid \<Rightarrow> unit handler" where
  "RevokeTripInvitation env now u tid iid =
    sbind (spure (MustUserFromContext u)) (\<lambda>user.
    sbind (sread (\<lambda>db. requireOwner env db tid (au_id user))) (\<lambda>_.
    sbind (sread (\<lambda>db. GetTripInvitationByID db tid iid)) (\<lambda>inv.
    sbind (scheck (iv_status inv \<noteq> IAccepted)
      (ConflictErr ''accepted invitations cannot be revoked'')) (\<lambda>_.
    if iv_status inv = IRevoked then sret ()
    else
      sbind (sstmt (\<lambda>db. UpdateTripInvitationStatus db now tid iid IRevoked)) (\<lambda>updated.
      sbind (case iv_invited_user updated of
          None \<Rightarrow> sret ()
        | Some uid \<Rightarrow>
            sbind (stry (sread (\<lambda>db. GetTripCollaboratorByTripAndUser db tid uid))) (\<lambda>oc.
            case oc of
              None \<Rightarrow> sret ()
            | Some c \<Rightarrow>
               (if co_status c = CPending
                then sbind (stry (sstmt (\<lambda>db. RemoveTripCollaborator db now tid (co_id c)))) (\<lambda>_. sret ())
                else sret ()))) (\<lambda>_.
      sdo (recordActivity env ''collaborator_revoked'' tid (au_id user) iid)))))))"

definition invitationMatchesUser :: "invitation \<Rightarrow> auth_user \<Rightarrow> bool" where
  "invitationMatchesUser i user \<longleftrightarrow>
     iv_invited_user i = Some (au_id user) \<or>
     (trim_space (au_email user) \<noteq> [] \<and>
      equal_fold (trim_space (iv_email i)) (trim_space (au_email user)))"

text \<open>
  \<open>ensureInvitationAcceptable\<close>. An invitation found past its expiry is marked expired, and
  the request fails: the mark stays.
\<close>

definition ensureInvitationAcceptable :: "time \<Rightarrow> invitation \<Rightarrow> auth_user \<Rightarrow> unit handler" where
  "ensureInvitationAcceptable now i user =
    sbind (scheck (invitationMatchesUser i user) ErrForbidden) (\<lambda>_.
    sbind (scheck (iv_status i = IPending) (ConflictErr ''invitation is not pending'')) (\<lambda>_.
    if iv_expires_at i \<noteq> 0 \<and> \<not> iv_expires_at i > now then
      sbind (stry (sstmt (\<lambda>db. UpdateTripInvitationStatus db now (iv_trip i) (iv_id i) IExpired))) (\<lambda>_.
      sfail (ConflictErr ''invitation has expired''))
    else sret ()))"

text \<open>An attempt to link an invitation to the caller; the steps that follow an acceptance.\<close>

definition tryLink :: "time \<Rightarrow> auth_user \<Rightarrow> invitation \<Rightarrow> invitation handler" where
  "tryLink now user i =
    sbind (stry (sstmt (\<lambda>db. LinkTripInvitationToUser db now (iv_id i) (au_id user) (au_email user))))
      (\<lambda>l. sret (case l of None \<Rightarrow> i | Some linked \<Rightarrow> linked))"

definition notifyAccepted :: "svc_env \<Rightarrow> uuid \<Rightarrow> uuid \<Rightarrow> unit handler" where
  "notifyAccepted env tid actor =
    sbind (stry (sread (\<lambda>db. GetByID db tid))) (\<lambda>ot.
    case ot of
      None \<Rightarrow> sret ()
    | Some t \<Rightarrow> (case tr_user t of
          None \<Rightarrow> sret ()
        | Some own \<Rightarrow> sdo (notifyDirect env own tid actor ''collaboration_accepted'')))"

definition AcceptTripInvitation ::
  "svc_env \<Rightarrow> time \<Rightarrow> uuid \<Rightarrow> auth_user option \<Rightarrow> uuid \<Rightarrow> uuid \<Rightarrow> invitation handler" where
  "AcceptTripInvitation env now newid u tid iid =
    sbind (spure (MustUserFromContext u)) (\<lambda>user.
    sbind (sread (\<lambda>db. GetTripInvitationByID db tid iid)) (\<lambda>i0.
    sbind (ensureInvitationAcceptable now i0 user) (\<lambda>_.
    sbind (if iv_invited_user i0 = None \<and> au_email user \<noteq> [] then tryLink now user i0 else sret i0) (\<lambda>i.
    sbind (sstmt (\<lambda>db. UpsertTripCollaborator db now
      (pendingCollaborator newid tid (au_id user) (iv_email i) (iv_role i) (iv_inviter i)
        (iv_message i) (iv_expires_at i)))) (\<lambda>c0.
    sbind (if co_status c0 \<noteq> CAccepted
           then sstmt (\<lambda>db. AcceptTripCollaboratorRow db now tid (co_id c0) (au_id user))
           else sret c0) (\<lambda>c.
    sbind (sstmt (\<lambda>db. UpdateTripInvitationStatus db now tid iid IAccepted)) (\<lambda>updated.
    sbind (sdo (recordActivity env ''collaborator_accepted'' tid (au_id user) (co_id c))) (\<lambda>_.
    sbind (notifyAccepted env tid (au_id user)) (\<lambda>_.
    sret updated)))))))))"

definition DeclineTripInvitation ::
  "svc_env \<Rightarrow> time \<Rightarrow> auth_user option \<Rightarrow> uuid \<Rightarrow> uuid \<Rightarrow> unit handler" where
  "DeclineTripInvitation env now u tid iid =
    sbind (spure (MustUserFromContext u)) (\<lambda>user.
    sbind (sread (\<lambda>db. GetTripInvitationByID db tid iid)) (\<lambda>i.
    sbind (scheck (invitationMatchesUser i user) ErrForbidden) (\<lambda>_.
    sbind (scheck (iv_status i = IPending) (ConflictErr ''invitation is not pending'')) (\<lambda>_.
    sbind (sstmt (\<lambda>db. UpdateTripInvitationStatus db now tid iid IDeclined)) (\<lambda>updated.
    sbind (stry (sread (\<lambda>db. GetTripCollaboratorByTripAndUser db tid (au_id user)))) (\<lambda>oc.
    sbind (case oc of
        None \<Rightarrow> sret ()
      | Some c \<Rightarrow>
         (if co_status c = CPending
          then sbind (stry (sstmt (\<lambda>db. DeclineTripCollaboratorRow db now tid (co_id c) (au_id user))))
                 (\<lambda>_. sret ())
          else sret ())) (\<lambda>_.
    sdo (recordActivity env ''collaborator_declined'' tid (au_id user) (iv_id updated)))))))))"

end
