(* ===== verification/Membership.thy ===== *)
theory Membership
  imports Collaboration
begin

text \<open>
  The member list, the ownership transfer, leaving a trip and the caller's own lists of
  \<open>collaboration_v1.go\<close> and \<open>collaboration.go\<close>; then the whole membership system: one request
  at a time over the handlers of this theory and of Collaboration. The locale
  \<open>trip_relation\<close> states what a relation between the database before and after must satisfy
  on the single statements; its lemmas lift the relation to every handler. It is
  interpreted for the keys' invariant, for the set of accepted members and for the owner.
\<close>

section \<open>Members, transfer, leaving\<close>

definition permissionsForRole :: "string \<Rightarrow> string list" where
  "permissionsForRole role =
    (if role = ''owner'' then
       [''view'', ''edit'', ''comment'', ''vote'', ''manageMembers'', ''deleteTrip'', ''transferOwnership'']
     else if role = ''editor'' then [''view'', ''edit'', ''comment'', ''vote'']
     else if role = ''viewer'' then [''view'', ''comment'', ''vote'']
     else if role = ''commenter'' then [''view'', ''comment'', ''vote'']
     else if role = ''guest'' then [''view'']
     else [])"

datatype member_status = MemberActive | MemberInvited | MemberRemoved

record trip_member =
  mb_user :: uuid
  mb_email :: string
  mb_role :: string
  mb_status :: member_status
  mb_joined_at :: "time option"
  mb_invited_by :: "uuid option"
  mb_last_seen_at :: "time option"
  mb_permissions :: "string list"
  mb_is_self :: bool

fun role_string :: "collab_role \<Rightarrow> string" where
  "role_string RoleViewer = ''viewer''"
| "role_string RoleEditor = ''editor''"
| "role_string RoleCommenter = ''commenter''"
| "role_string RoleGuest = ''guest''"
| "role_string RoleAdmin = ''admin''"

definition ownerMember :: "trip \<Rightarrow> uuid \<Rightarrow> trip_member list" where
  "ownerMember t self =
    (case tr_user t of
       None \<Rightarrow> []
     | Some own \<Rightarrow> [\<lparr>mb_user = own, mb_email = [], mb_role = ''owner'', mb_status = MemberActive,
         mb_joined_at = Some (tr_created_at t), mb_invited_by = None, mb_last_seen_at = None,
         mb_permissions = permissionsForRole ''owner'', mb_is_self = (own = self)\<rparr>])"

definition collaboratorMember :: "uuid \<Rightarrow> collaborator \<Rightarrow> trip_member" where
  "collaboratorMember self c =
    \<lparr>mb_user = co_user c, mb_email = co_email c, mb_role = role_string (co_role c),
     mb_status = (if co_status c = CAccepted then MemberActive else MemberInvited),
     mb_joined_at = co_accepted_at c, mb_invited_by = Some (co_invited_by c),
     mb_last_seen_at = co_last_seen_at c,
     mb_permissions = permissionsForRole (role_string (co_role c)),
     mb_is_self = (co_user c = self)\<rparr>"

definition ListTripMembers :: "svc_env \<Rightarrow> auth_user option \<Rightarrow> uuid \<Rightarrow> (trip_member list) handler" where
  "ListTripMembers env u tid =
    sbind (spure (MustUserFromContext u)) (\<lambda>user.
    sbind (sread (\<lambda>db. requireViewerEditorOrOwner env db tid (au_id user))) (\<lambda>(t, access).
    sread (\<lambda>db.
      let out = ownerMember t (au_id user) @
            map (collaboratorMember (au_id user))
              (filter (\<lambda>c. co_status c \<notin> {CRemoved, CDeclined, CRevoked, CExpired})
                (ListTripCollaborators db tid))
      in Inr (if CanManageCollaborators access then out else map (\<lambda>m. m\<lparr>mb_email := []\<rparr>) out))))"

definition TransferTripOwnership ::
  "svc_env \<Rightarrow> time \<Rightarrow> uuid \<Rightarrow> auth_user option \<Rightarrow> uuid \<Rightarrow> uuid \<Rightarrow> trip handler" where
  "TransferTripOwnership env now newid u tid nxt =
    sbind (spure (MustUserFromContext u)) (\<lambda>user.
    sbind (sread (\<lambda>db. requireOwner env db tid (au_id user))) (\<lambda>(t, _).
    sbind (scheck (tr_user t \<noteq> None)
      (ConflictErr ''workspace-owned trips cannot transfer direct ownership'')) (\<lambda>_.
    sbind (scheck (nxt \<noteq> 0) (InvalidInput ''newOwnerUserId is required'')) (\<lambda>_.
    sbind (scheck (nxt \<noteq> au_id user) (InvalidInput ''new owner must be a different user'')) (\<lambda>_.
    sbind (sread (\<lambda>db. case GetTripCollaboratorByTripAndUser db tid nxt of
        Inl _ \<Rightarrow> Inl (InvalidInput ''new owner must be an accepted trip collaborator'')
      | Inr c \<Rightarrow> Inr c)) (\<lambda>c.
    sbind (scheck (co_status c = CAccepted)
      (InvalidInput ''new owner must be an accepted trip collaborator'')) (\<lambda>_.
    sbind (sstmt (\<lambda>db. TransferTripOwnershipTx db now newid tid (au_id user) nxt)) (\<lambda>updated.
    sbind (sdo (recordActivity env ''ownership_transferred'' tid (au_id user) tid)) (\<lambda>_.
    sbind (sdo (notifyDirect env nxt tid (au_id user) ''ownership_transferred'')) (\<lambda>_.
    sret updated))))))))))"

definition LeaveTrip :: "svc_env \<Rightarrow> time \<Rightarrow> auth_user option \<Rightarrow> uuid \<Rightarrow> unit handler" where
  "LeaveTrip env now u tid =
    sbind (spure (MustUserFromContext u)) (\<lambda>user.
    sbind (sread (\<lambda>db. requireViewerEditorOrOwner env db tid (au_id user))) (\<lambda>(t, access).
    sbind (scheck (\<not> (ta_level access = LevelOwner \<and> tr_user t = Some (au_id user)))
      (ConflictErr ''owner must transfer ownership before leaving the trip'')) (\<lambda>_.
    sbind (sstmt (\<lambda>db. RemoveTripCollaboratorByUser db now tid (au_id user))) (\<lambda>removed.
    sdo (recordActivity env ''collaborator_removed'' tid (au_id user) (co_id removed))))))"

section \<open>The caller's invitations and shared trips\<close>

record collaboration_invitation =
  ci_collaborator :: uuid
  ci_invitation :: uuid
  ci_trip :: uuid
  ci_destination :: string
  ci_role :: collab_role
  ci_invited_by :: uuid
  ci_email :: string
  ci_message :: string
  ci_invited_at :: time
  ci_expires_at :: "time option"

definition cardOfCollaborator :: "trip \<times> collaborator \<Rightarrow> collaboration_invitation" where
  "cardOfCollaborator = (\<lambda>(t, c). \<lparr>ci_collaborator = co_id c, ci_invitation = 0, ci_trip = tr_id t,
     ci_destination = tr_destination t, ci_role = co_role c, ci_invited_by = co_invited_by c,
     ci_email = co_email c, ci_message = co_message c, ci_invited_at = co_invited_at c,
     ci_expires_at = co_expires_at c\<rparr>)"

definition cardOfInvitation :: "trip \<Rightarrow> invitation \<Rightarrow> collaboration_invitation" where
  "cardOfInvitation t i = \<lparr>ci_collaborator = 0, ci_invitation = iv_id i, ci_trip = iv_trip i,
     ci_destination = tr_destination t, ci_role = iv_role i, ci_invited_by = iv_inviter i,
     ci_email = iv_email i, ci_message = iv_message i, ci_invited_at = iv_created_at i,
     ci_expires_at = Some (iv_expires_at i)\<rparr>"

text \<open>The loop over the pending invitations: expires, links and collects.\<close>

fun collectInvitations ::
  "time \<Rightarrow> auth_user \<Rightarrow> uuid list \<Rightarrow> invitation list \<Rightarrow> (collaboration_invitation list) handler" where
  "collectInvitations now user seen [] = sret []"
| "collectInvitations now user seen (i # rest) =
    (if iv_expires_at i \<noteq> 0 \<and> \<not> iv_expires_at i > now then
       sbind (stry (sstmt (\<lambda>db. UpdateTripInvitationStatus db now (iv_trip i) (iv_id i) IExpired)))
         (\<lambda>_. collectInvitations now user seen rest)
     else
       sbind (if iv_invited_user i = None \<and> au_email user \<noteq> [] \<and> equal_fold (iv_email i) (au_email user)
              then tryLink now user i
              else sret i) (\<lambda>i'.
       if iv_trip i' \<in> set seen then collectInvitations now user seen rest
       else
         sbind (stry (sread (\<lambda>db. GetByID db (iv_trip i')))) (\<lambda>ot.
         case ot of
           None \<Rightarrow> collectInvitations now user seen rest
         | Some t \<Rightarrow>
             sbind (collectInvitations now user seen rest) (\<lambda>cards.
             sret (cardOfInvitation t i' # cards)))))"

definition ListCollaborationInvitations ::
  "time \<Rightarrow> auth_user option \<Rightarrow> (collaboration_invitation list) handler" where
  "ListCollaborationInvitations now u =
    sbind (spure (MustUserFromContext u)) (\<lambda>user.
    sbind (sread (\<lambda>db. Inr (ListPendingCollaborationInvitations db (au_id user)))) (\<lambda>shared.
    sbind (sread (\<lambda>db. Inr (ListPendingTripInvitationsForUser db (au_id user) (au_email user)))) (\<lambda>invs.
    sbind (collectInvitations now user (map (\<lambda>(t, _). tr_id t) shared) invs) (\<lambda>cards.
    sret (map cardOfCollaborator shared @ cards)))))"

definition ListSharedTrips :: "auth_user option \<Rightarrow> ((trip \<times> collaborator) list) handler" where
  "ListSharedTrips u =
    sbind (spure (MustUserFromContext u)) (\<lambda>user.
    sread (\<lambda>db. Inr (ListSharedTripsByUser db (au_id user))))"

text \<open>\<open>broadcastRecipients\<close>: the owner and the accepted members, without the actor, once each.\<close>

fun add_recipient :: "uuid list \<times> uuid list \<Rightarrow> uuid \<Rightarrow> uuid list \<times> uuid list" where
  "add_recipient (seen, out) u = (if u \<in> set seen then (seen, out) else (u # seen, out @ [u]))"

definition broadcastRecipients :: "trip_db \<Rightarrow> trip \<Rightarrow> uuid \<Rightarrow> uuid list" where
  "broadcastRecipients db t actor =
    snd (fold (\<lambda>c acc. if co_status c \<noteq> CAccepted then acc else add_recipient acc (co_user c))
      (ListTripCollaborators db (tr_id t))
      (case tr_user t of None \<Rightarrow> ([actor], []) | Some own \<Rightarrow> add_recipient ([actor], []) own))"

definition notifyTripBroadcast :: "svc_env \<Rightarrow> trip \<Rightarrow> uuid \<Rightarrow> string \<Rightarrow> trip_db \<Rightarrow> trip_db" where
  "notifyTripBroadcast env t actor ty db =
    (if \<not> env_notify_on env then db
     else db\<lparr>db_outbox := db_outbox db @
       map (\<lambda>u. \<lparr>nt_user = u, nt_trip = tr_id t, nt_actor = actor, nt_type = ty\<rparr>)
         (broadcastRecipients db t actor)\<rparr>)"

section \<open>Relations respected by every handler\<close>

lemma MustUser_Inr: "MustUserFromContext u = Inr user \<longleftrightarrow> u = Some user"
  by (auto simp: MustUserFromContext_def split: option.splits)

text \<open>
  \<open>mayAccept tid u\<close> and \<open>mayTransfer tid u\<close> say for which callers the relation tolerates the
  statements that accept a membership and move the ownership.
\<close>

locale trip_relation =
  fixes R :: "trip_db \<Rightarrow> trip_db \<Rightarrow> bool"
    and mayAccept mayTransfer :: "uuid \<Rightarrow> uuid \<Rightarrow> bool"
  assumes rel: "rel_ok R"
    and upsert: "UpsertTripCollaborator db now c = Inr (c', db') \<Longrightarrow> R db db'"
    and role: "UpdateTripCollaboratorRole db now tid cid ro = Inr (c', db') \<Longrightarrow> R db db'"
    and remove: "RemoveTripCollaborator db now tid cid = Inr (c', db') \<Longrightarrow> R db db'"
    and accept: "AcceptTripCollaboratorRow db now tid cid uid = Inr (c', db') \<Longrightarrow>
      mayAccept tid uid \<Longrightarrow> R db db'"
    and decline: "DeclineTripCollaboratorRow db now tid cid uid = Inr (c', db') \<Longrightarrow> R db db'"
    and leave: "RemoveTripCollaboratorByUser db now tid uid = Inr (c', db') \<Longrightarrow> R db db'"
    and transfer: "TransferTripOwnershipTx db now newid tid cur nxt = Inr (t, db') \<Longrightarrow>
      mayTransfer tid cur \<Longrightarrow> R db db'"
    and invite: "CreateTripInvitationRow db now i = Inr (i', db') \<Longrightarrow> R db db'"
    and link: "LinkTripInvitationToUser db now iid uid email = Inr (i', db') \<Longrightarrow> R db db'"
    and status: "UpdateTripInvitationStatus db now tid iid st = Inr (i', db') \<Longrightarrow> R db db'"
    and resend: "ResendTripInvitationRow db now tid iid inviter ex msg = Inr (i', db') \<Longrightarrow> R db db'"
    and logged: "R db (db\<lparr>db_activity := evs\<rparr>)" "R db (db\<lparr>db_outbox := nts\<rparr>)"
begin

lemma record_rel: "R db (recordActivity env ty tid actor entity db)"
  using rel by (simp add: recordActivity_def logged rel_ok_def reflpD)

lemma notify_rel: "R db (notifyDirect env r tid actor ty db)"
  using rel by (simp add: notifyDirect_def logged rel_ok_def reflpD)

lemmas frame_rules = step_rel_sstmt [OF rel] step_rel_sdo record_rel notify_rel rel
lemmas stmt_laws = upsert role remove decline leave invite link status resend

lemma invite_rel: "step_rel R (InviteTripCollaborator env addr_ok now newid u tid inp)"
  unfolding InviteTripCollaborator_def by (intro step_intros frame_rules) (erule stmt_laws)+

lemma list_rel: "step_rel R (ListTripCollaboratorsHandler env u tid)"
  unfolding ListTripCollaboratorsHandler_def by (intro step_intros rel)

lemma update_rel: "step_rel R (UpdateTripCollaborator env now u tid cid ro)"
  unfolding UpdateTripCollaborator_def by (intro step_intros frame_rules) (erule stmt_laws)+

lemma remove_rel: "step_rel R (RemoveTripCollaboratorHandler env now u tid cid)"
  unfolding RemoveTripCollaboratorHandler_def by (intro step_intros frame_rules) (erule stmt_laws)+

lemma decline_rel: "step_rel R (DeclineTripCollaborator env now u tid cid)"
  unfolding DeclineTripCollaborator_def by (intro step_intros frame_rules) (erule stmt_laws)+

lemma create_rel: "step_rel R (CreateTripInvitation env addr_ok now newid newid2 u tid inp)"
  unfolding CreateTripInvitation_def by (intro step_intros frame_rules) (erule stmt_laws)+

lemma invitations_rel: "step_rel R (ListTripInvitations env u tid)"
  unfolding ListTripInvitations_def by (intro step_intros rel)

lemma resend_rel: "step_rel R (ResendTripInvitation env now u tid iid inp)"
  unfolding ResendTripInvitation_def by (intro step_intros frame_rules) (erule stmt_laws)+

lemma revoke_rel: "step_rel R (RevokeTripInvitation env now u tid iid)"
  unfolding RevokeTripInvitation_def by (intro step_intros frame_rules) (erule stmt_laws)+

lemma decline_invitation_rel: "step_rel R (DeclineTripInvitation env now u tid iid)"
  unfolding DeclineTripInvitation_def by (intro step_intros frame_rules) (erule stmt_laws)+

lemma acceptable_rel: "step_rel R (ensureInvitationAcceptable now i user)"
  unfolding ensureInvitationAcceptable_def by (intro step_intros frame_rules) (erule stmt_laws)+

lemma members_rel: "step_rel R (ListTripMembers env u tid)"
  unfolding ListTripMembers_def by (intro step_intros rel)

lemma leave_rel: "step_rel R (LeaveTrip env now u tid)"
  unfolding LeaveTrip_def by (intro step_intros frame_rules) (erule stmt_laws)+

lemma link_rel: "step_rel R (tryLink now user i)"
  unfolding tryLink_def by (intro step_intros frame_rules) (erule stmt_laws)

lemma notify_accepted_rel: "step_rel R (notifyAccepted env tid actor)"
  unfolding notifyAccepted_def by (intro step_intros frame_rules)

lemma accept_rel:
  assumes "\<And>user. u = Some user \<Longrightarrow> mayAccept tid (au_id user)"
  shows "step_rel R (AcceptTripCollaborator env now u tid cid)"
  unfolding AcceptTripCollaborator_def
proof (rule step_rel_spure_bind [OF rel])
  fix user
  assume "MustUserFromContext u = Inr user"
  then have "mayAccept tid (au_id user)" using assms by (simp add: MustUser_Inr)
  then show "step_rel R (sbind (sstmt (\<lambda>db. AcceptTripCollaboratorRow db now tid cid (au_id user))) (\<lambda>c.
    sbind (sdo (recordActivity env ''collaborator_accepted'' tid (au_id user) (co_id c))) (\<lambda>_.
    sbind (stry (sread (\<lambda>db. rbind (GetByID db tid) tripOwnerID))) (\<lambda>owner.
    sbind (case owner of None \<Rightarrow> sret ()
      | Some own \<Rightarrow> sdo (notifyDirect env own tid (au_id user) ''collaboration_accepted'')) (\<lambda>_.
    sret c)))))"
    by (intro step_intros frame_rules) (erule accept, assumption)
qed

lemma accept_invitation_rel:
  assumes "\<And>user. u = Some user \<Longrightarrow> mayAccept tid (au_id user)"
  shows "step_rel R (AcceptTripInvitation env now newid u tid iid)"
proof (cases u)
  case None
  then show ?thesis unfolding AcceptTripInvitation_def MustUserFromContext_def
    by (intro step_rel_spure_bind [OF rel]) simp
next
  case (Some user)
  then have "mayAccept tid (au_id user)" by (rule assms)
  moreover have "user' = user" if "MustUserFromContext u = Inr user'" for user'
    using that Some by (simp add: MustUser_Inr)
  ultimately show ?thesis unfolding AcceptTripInvitation_def
    by (intro step_rel_spure_bind [OF rel] step_intros frame_rules acceptable_rel link_rel notify_accepted_rel)
      (erule stmt_laws | (erule accept, simp))+
qed

lemma transfer_rel:
  assumes "\<And>user. u = Some user \<Longrightarrow> mayTransfer tid (au_id user)"
  shows "step_rel R (TransferTripOwnership env now newid u tid nxt)"
proof (cases u)
  case None
  then show ?thesis unfolding TransferTripOwnership_def MustUserFromContext_def
    by (intro step_rel_spure_bind [OF rel]) simp
next
  case (Some user)
  then have "mayTransfer tid (au_id user)" by (rule assms)
  moreover have "user' = user" if "MustUserFromContext u = Inr user'" for user'
    using that Some by (simp add: MustUser_Inr)
  ultimately show ?thesis unfolding TransferTripOwnership_def
    by (intro step_rel_spure_bind [OF rel] step_intros frame_rules) (erule transfer, simp)
qed

lemma collect_rel: "step_rel R (collectInvitations now user seen invs)"
proof (induction invs)
  case Nil
  then show ?case by (simp add: step_rel_sret rel)
next
  case (Cons i rest)
  show ?case unfolding collectInvitations.simps
    by (intro step_intros frame_rules link_rel Cons.IH) (erule stmt_laws)
qed

lemma list_invitations_rel: "step_rel R (ListCollaborationInvitations now u)"
  unfolding ListCollaborationInvitations_def by (intro step_intros rel collect_rel)

end

section \<open>The membership system\<close>

text \<open>A request with what it gets from outside: its instant, fresh ids and its caller.\<close>

datatype trip_request =
    ReqInvite time uuid "auth_user option" uuid invite_input
  | ReqListCollaborators "auth_user option" uuid
  | ReqUpdateRole time "auth_user option" uuid uuid string
  | ReqRemove time "auth_user option" uuid uuid
  | ReqAccept time "auth_user option" uuid uuid
  | ReqDecline time "auth_user option" uuid uuid
  | ReqCreateInvitation time uuid uuid "auth_user option" uuid invite_input
  | ReqListInvitations "auth_user option" uuid
  | ReqResend time "auth_user option" uuid uuid invite_input
  | ReqRevoke time "auth_user option" uuid uuid
  | ReqAcceptInvitation time uuid "auth_user option" uuid uuid
  | ReqDeclineInvitation time "auth_user option" uuid uuid
  | ReqListMembers "auth_user option" uuid
  | ReqTransfer time uuid "auth_user option" uuid uuid
  | ReqLeave time "auth_user option" uuid
  | ReqMyInvitations time "auth_user option"

fun serve :: "svc_env \<Rightarrow> (string \<Rightarrow> bool) \<Rightarrow> trip_request \<Rightarrow> trip_db \<Rightarrow> trip_db" where
  "serve env ok (ReqInvite now nid u tid inp) db = snd (InviteTripCollaborator env ok now nid u tid inp db)"
| "serve env ok (ReqListCollaborators u tid) db = snd (ListTripCollaboratorsHandler env u tid db)"
| "serve env ok (ReqUpdateRole now u tid cid ro) db = snd (UpdateTripCollaborator env now u tid cid ro db)"
| "serve env ok (ReqRemove now u tid cid) db = snd (RemoveTripCollaboratorHandler env now u tid cid db)"
| "serve env ok (ReqAccept now u tid cid) db = snd (AcceptTripCollaborator env now u tid cid db)"
| "serve env ok (ReqDecline now u tid cid) db = snd (DeclineTripCollaborator env now u tid cid db)"
| "serve env ok (ReqCreateInvitation now nid nid2 u tid inp) db =
     snd (CreateTripInvitation env ok now nid nid2 u tid inp db)"
| "serve env ok (ReqListInvitations u tid) db = snd (ListTripInvitations env u tid db)"
| "serve env ok (ReqResend now u tid iid inp) db = snd (ResendTripInvitation env now u tid iid inp db)"
| "serve env ok (ReqRevoke now u tid iid) db = snd (RevokeTripInvitation env now u tid iid db)"
| "serve env ok (ReqAcceptInvitation now nid u tid iid) db =
     snd (AcceptTripInvitation env now nid u tid iid db)"
| "serve env ok (ReqDeclineInvitation now u tid iid) db = snd (DeclineTripInvitation env now u tid iid db)"
| "serve env ok (ReqListMembers u tid) db = snd (ListTripMembers env u tid db)"
| "serve env ok (ReqTransfer now nid u tid nxt) db = snd (TransferTripOwnership env now nid u tid nxt db)"
| "serve env ok (ReqLeave now u tid) db = snd (LeaveTrip env now u tid db)"
| "serve env ok (ReqMyInvitations now u) db = snd (ListCollaborationInvitations now u db)"

text \<open>The request by which its caller joins a trip, and the one that moves its ownership.\<close>

fun joins :: "trip_request \<Rightarrow> (uuid \<times> uuid) option" where
  "joins (ReqAccept now (Some user) tid cid) = Some (tid, au_id user)"
| "joins (ReqAcceptInvitation now nid (Some user) tid iid) = Some (tid, au_id user)"
| "joins _ = None"

fun transfers :: "trip_request \<Rightarrow> (uuid \<times> uuid) option" where
  "transfers (ReqTransfer now nid (Some user) tid nxt) = Some (tid, au_id user)"
| "transfers _ = None"

context trip_relation
begin

lemma serve_rel:
  assumes "\<And>tid u. joins r = Some (tid, u) \<Longrightarrow> mayAccept tid u"
    and "\<And>tid u. transfers r = Some (tid, u) \<Longrightarrow> mayTransfer tid u"
  shows "R db (serve env ok r db)"
proof -
  note rels = invite_rel list_rel update_rel remove_rel decline_rel create_rel invitations_rel
    resend_rel revoke_rel decline_invitation_rel members_rel leave_rel list_invitations_rel
  show ?thesis using assms
    by (cases r) (auto simp: rels [unfolded step_rel_def] intro!: accept_rel [unfolded step_rel_def, rule_format]
      accept_invitation_rel [unfolded step_rel_def, rule_format] transfer_rel [unfolded step_rel_def, rule_format])
qed

end

end
