(* ===== verification/MembershipLaws.thy ===== *)
theory MembershipLaws
  imports Membership
begin

text \<open>
  What holds of every run of the membership system: the tables keep their keys, nobody
  becomes an accepted member except by a request of their own, and the owner of a trip changes
  only by that owner's transfer to an accepted member. Then the outcome of the single requests:
  transfer, accepting, declining an expired invitation, leaving and removal.
\<close>

section \<open>The keys\<close>

interpretation keys: trip_relation "keep db_ok" "\<lambda>_ _. True" "\<lambda>_ _. True"
proof (unfold_locales, goal_cases)
  case 1 then show ?case by simp
next
  case 2 then show ?case by (simp add: keep_def UpsertTripCollaborator_ok)
next
  case 3 then show ?case by (auto simp: keep_def dest: UpdateTripCollaboratorRole_ok)
next
  case 4 then show ?case by (auto simp: keep_def dest: RemoveTripCollaborator_ok)
next
  case 5 then show ?case by (auto simp: keep_def dest: AcceptTripCollaboratorRow_ok)
next
  case 6 then show ?case by (auto simp: keep_def dest: DeclineTripCollaboratorRow_ok)
next
  case 7 then show ?case by (auto simp: keep_def dest: RemoveTripCollaboratorByUser_ok)
next
  case 8 then show ?case by (auto simp: keep_def dest: TransferTripOwnershipTx_ok)
next
  case 9 then show ?case by (auto simp: keep_def dest: CreateTripInvitationRow_ok)
next
  case 10 then show ?case by (auto simp: keep_def dest: LinkTripInvitationToUser_ok)
next
  case 11 then show ?case by (auto simp: keep_def dest: UpdateTripInvitationStatus_ok)
next
  case 12 then show ?case by (auto simp: keep_def dest: ResendTripInvitationRow_ok)
next
  case 13 then show ?case by (simp add: keep_def db_ok_def)
next
  case 14 then show ?case by (simp add: keep_def db_ok_def)
qed

lemma serve_ok: "db_ok db \<Longrightarrow> db_ok (serve env ok r db)"
  using keys.serve_rel [of r db env ok] by (simp add: keep_def)

interpretation membership: request_system "serve env ok" db_ok for env ok
  by unfold_locales (rule serve_ok)

text \<open>
  From a database that satisfies the keys and unique indexes of the migrations, every run of
  membership requests, of any callers and in any order, leads to one that does: one row per
  trip and user, no two pending invitations of a trip to the same user or address.
\<close>

theorem membership_keys_invariant:
  assumes "db_ok db"
  shows "db_ok (fold (serve env ok) rs db)"
  using assms by (rule membership.inv_run)

section \<open>Nobody joins by another's hand\<close>

definition is_member :: "trip_db \<Rightarrow> uuid \<Rightarrow> uuid \<Rightarrow> bool" where
  "is_member db tid uid \<longleftrightarrow>
     (\<exists>c \<in> set (db_collabs db). co_trip c = tid \<and> co_user c = uid \<and> co_status c = CAccepted)"

definition no_new_member :: "uuid \<Rightarrow> uuid \<Rightarrow> trip_db \<Rightarrow> trip_db \<Rightarrow> bool" where
  "no_new_member tid uid s t \<longleftrightarrow> (is_member t tid uid \<longrightarrow> is_member s tid uid)"

lemma no_new_member_update:
  assumes "\<And>c. P c \<Longrightarrow> co_trip (f c) = co_trip c \<and> co_user (f c) = co_user c"
    and "\<And>c. P c \<Longrightarrow> co_status (f c) = CAccepted \<Longrightarrow> co_trip c = tid \<Longrightarrow> co_user c = uid \<Longrightarrow> co_status c = CAccepted"
  shows "no_new_member tid uid db (db\<lparr>db_collabs := update_where P f (db_collabs db)\<rparr>)"
  using assms unfolding no_new_member_def is_member_def by (fastforce simp: set_update_where)

lemma no_new_member_same: "db_collabs t = db_collabs s \<Longrightarrow> no_new_member tid uid s t"
  by (simp add: no_new_member_def is_member_def)

lemma no_new_member_collab:
  assumes "update_collab db P f = Inr (c, db')"
    and "\<And>c. P c \<Longrightarrow> co_trip (f c) = co_trip c \<and> co_user (f c) = co_user c"
    and "\<And>c. P c \<Longrightarrow> co_status (f c) = CAccepted \<Longrightarrow> co_trip c = tid \<Longrightarrow> co_user c = uid \<Longrightarrow> co_status c = CAccepted"
  shows "no_new_member tid uid db db'"
  using assms no_new_member_update by (auto simp: update_collab_Inr)

lemma no_new_member_invite:
  "update_invite db P f = Inr (i, db') \<Longrightarrow> no_new_member tid uid db db'"
  by (auto simp: update_invite_Inr intro: no_new_member_same)

lemma no_new_member_upsert:
  assumes "UpsertTripCollaborator db now c = Inr (c', db')"
  shows "no_new_member tid uid db db'"
  using assms
proof (cases rule: UpsertTripCollaborator_cases)
  case (upd old)
  have "no_new_member tid uid db (db\<lparr>db_collabs := update_where (\<lambda>r. collab_key r = collab_key c)
      (conflict_update c now) (db_collabs db)\<rparr>)"
    by (rule no_new_member_update) (simp_all add: conflict_update_def split: if_splits)
  with upd show ?thesis by simp
next
  case ins
  then show ?thesis by (auto simp: no_new_member_def is_member_def)
qed

lemma no_new_member_transfer:
  assumes "TransferTripOwnershipTx db now newid tid' cur nxt = Inr (t, db')" "\<not> (tid' = tid \<and> cur = uid)"
  shows "no_new_member tid uid db db'"
  using assms(1)
proof (rule TransferTripOwnershipTx_Inr)
  fix rows1
  assume *: "\<And>c. c \<in> set rows1 \<Longrightarrow> c \<in> set (db_collabs db) \<or> (co_trip c = tid' \<and> co_user c = cur)"
    and **: "db' = db\<lparr>db_trips := update_where (\<lambda>t. tr_id t = tid' \<and> tr_user t = Some cur)
         (\<lambda>t. t\<lparr>tr_user := Some nxt\<rparr>) (db_trips db),
       db_collabs := update_where (\<lambda>c. co_trip c = tid' \<and> co_user c = nxt)
         (\<lambda>c. c\<lparr>co_status := CRemoved, co_removed_at := Some now, co_updated_at := now\<rparr>) rows1\<rparr>"
  show ?thesis unfolding no_new_member_def is_member_def
  proof (intro impI)
    assume "\<exists>c\<in>set (db_collabs db'). co_trip c = tid \<and> co_user c = uid \<and> co_status c = CAccepted"
    then obtain c where c: "c \<in> set rows1" "co_trip c = tid" "co_user c = uid" "co_status c = CAccepted"
      unfolding ** by (auto simp: set_update_where)
    then have "c \<in> set (db_collabs db)" using * assms(2) by blast
    with c show "\<exists>c\<in>set (db_collabs db). co_trip c = tid \<and> co_user c = uid \<and> co_status c = CAccepted"
      by blast
  qed
qed

interpretation consent: trip_relation "no_new_member tid uid"
  "\<lambda>t u. \<not> (t = tid \<and> u = uid)" "\<lambda>t u. \<not> (t = tid \<and> u = uid)" for tid uid
proof (unfold_locales, goal_cases)
  case 1 then show ?case by (intro rel_okI) (auto simp: no_new_member_def)
next
  case 2 then show ?case by (rule no_new_member_upsert)
next
  case 3 then show ?case unfolding repo_defs by (rule no_new_member_collab) simp_all
next
  case 4 then show ?case unfolding repo_defs by (rule no_new_member_collab) simp_all
next
  case (5 db now t cid u) then show ?case unfolding repo_defs by (elim no_new_member_collab) auto
next
  case 6 then show ?case unfolding repo_defs by (rule no_new_member_collab) simp_all
next
  case 7 then show ?case unfolding repo_defs by (rule no_new_member_collab) simp_all
next
  case 8 then show ?case by (rule no_new_member_transfer)
next
  case 9 then show ?case
    by (auto simp: CreateTripInvitationRow_def Let_def intro: no_new_member_same split: if_splits)
next
  case 10 then show ?case unfolding LinkTripInvitationToUser_def by (rule no_new_member_invite)
next
  case 11 then show ?case unfolding UpdateTripInvitationStatus_def by (rule no_new_member_invite)
next
  case 12 then show ?case unfolding ResendTripInvitationRow_def by (rule no_new_member_invite)
next
  case 13 then show ?case by (simp add: no_new_member_same)
next
  case 14 then show ?case by (simp add: no_new_member_same)
qed

text \<open>
  C11. Whoever is an accepted member of a trip after a run of membership requests and was not before
  has joined by a request of their own: an acceptance, or a transfer of a trip they owned. No request of
  another caller, the owner's included, makes anyone an accepted member.
\<close>

theorem members_join_by_own_request:
  assumes "db_ok db" "\<not> is_member db tid uid" "is_member (fold (serve env ok) rs db) tid uid"
  shows "\<exists>r \<in> set rs. joins r = Some (tid, uid) \<or> transfers r = Some (tid, uid)"
proof -
  obtain pre r post where run: "rs = pre @ r # post" "\<not> is_member (fold (serve env ok) pre db) tid uid"
    "is_member (fold (serve env ok) (pre @ [r]) db) tid uid"
    using membership.first_change [of "\<lambda>s. is_member s tid uid" db env ok rs] assms by blast
  have "joins r = Some (tid, uid) \<or> transfers r = Some (tid, uid)"
    using consent.serve_rel [of r tid uid "fold (serve env ok) pre db" env ok] run(2,3)
    by (auto simp: no_new_member_def)
  then show ?thesis using run(1) by auto
qed

section \<open>The owner\<close>

definition trip_owner :: "trip_db \<Rightarrow> uuid \<Rightarrow> uuid option option" where
  "trip_owner db tid = map_option tr_user (select_row (\<lambda>t. tr_id t = tid) (db_trips db))"

definition same_owner :: "uuid \<Rightarrow> trip_db \<Rightarrow> trip_db \<Rightarrow> bool" where
  "same_owner tid s t \<longleftrightarrow> trip_owner t tid = trip_owner s tid"

lemma same_owner_trips: "db_trips t = db_trips s \<Longrightarrow> same_owner tid s t"
  by (simp add: same_owner_def trip_owner_def)

lemma same_owner_collab: "update_collab db P f = Inr (c, db') \<Longrightarrow> same_owner tid db db'"
  by (auto simp: update_collab_Inr intro: same_owner_trips)

lemma same_owner_invite: "update_invite db P f = Inr (c, db') \<Longrightarrow> same_owner tid db db'"
  by (auto simp: update_invite_Inr intro: same_owner_trips)

interpretation owner: trip_relation "same_owner tid" "\<lambda>_ _. True" "\<lambda>t u. t \<noteq> tid" for tid
proof (unfold_locales, goal_cases)
  case 1 then show ?case by (intro rel_okI) (auto simp: same_owner_def)
next
  case 2 then show ?case by (cases rule: UpsertTripCollaborator_cases) (auto intro: same_owner_trips)
next
  case 3 then show ?case unfolding repo_defs by (rule same_owner_collab)
next
  case 4 then show ?case unfolding repo_defs by (rule same_owner_collab)
next
  case 5 from 5(1) show ?case unfolding repo_defs by (rule same_owner_collab)
next
  case 6 then show ?case unfolding repo_defs by (rule same_owner_collab)
next
  case 7 then show ?case unfolding repo_defs by (rule same_owner_collab)
next
  case (8 db now newid t cur nxt r db')
  from 8(1) show ?case
  proof (rule TransferTripOwnershipTx_Inr)
    fix rows1
    assume "db' = db\<lparr>db_trips := update_where (\<lambda>r. tr_id r = t \<and> tr_user r = Some cur)
         (\<lambda>r. r\<lparr>tr_user := Some nxt\<rparr>) (db_trips db),
       db_collabs := update_where (\<lambda>c. co_trip c = t \<and> co_user c = nxt)
         (\<lambda>c. c\<lparr>co_status := CRemoved, co_removed_at := Some now, co_updated_at := now\<rparr>) rows1\<rparr>"
    moreover have "select_row (\<lambda>r. tr_id r = tid) (update_where (\<lambda>r. tr_id r = t \<and> tr_user r = Some cur)
         (\<lambda>r. r\<lparr>tr_user := Some nxt\<rparr>) (db_trips db)) = select_row (\<lambda>r. tr_id r = tid) (db_trips db)"
      using 8(2) by (intro find_update_where_other) auto
    ultimately show ?thesis by (simp add: same_owner_def trip_owner_def)
  qed
next
  case 9 then show ?case
    by (auto simp: CreateTripInvitationRow_def Let_def intro: same_owner_trips split: if_splits)
next
  case 10 then show ?case unfolding LinkTripInvitationToUser_def by (rule same_owner_invite)
next
  case 11 then show ?case unfolding UpdateTripInvitationStatus_def by (rule same_owner_invite)
next
  case 12 then show ?case unfolding ResendTripInvitationRow_def by (rule same_owner_invite)
next
  case 13 then show ?case by (simp add: same_owner_trips)
next
  case 14 then show ?case by (simp add: same_owner_trips)
qed

text \<open>A transfer that changed the owner went through all the checks of its handler.\<close>

lemma TransferTripOwnership_Inr:
  assumes "TransferTripOwnership env now newid u tid nxt db = (Inr t', db')"
  obtains user t a c db1 where "u = Some user" "requireOwner env db tid (au_id user) = Inr (t, a)"
    "nxt \<noteq> 0" "nxt \<noteq> au_id user" "GetTripCollaboratorByTripAndUser db tid nxt = Inr c"
    "co_status c = CAccepted"
    "TransferTripOwnershipTx db now newid tid (au_id user) nxt = Inr (t', db1)"
    "db_trips db' = db_trips db1" "db_collabs db' = db_collabs db1"
  using assms that unfolding TransferTripOwnership_def op_run MustUser_Inr
  by (auto simp: op_run split: sum.splits)

section \<open>Failed requests\<close>

text \<open>The requests whose failure leaves the database as it was.\<close>

fun all_or_nothing :: "trip_request \<Rightarrow> bool" where
  "all_or_nothing (ReqCreateInvitation now nid nid2 u tid inp) = False"
| "all_or_nothing (ReqAcceptInvitation now nid u tid iid) = False"
| "all_or_nothing (ReqMyInvitations now u) = False"
| "all_or_nothing r = True"

text \<open>Whether a request is answered with an error.\<close>

fun request_fails :: "svc_env \<Rightarrow> (string \<Rightarrow> bool) \<Rightarrow> trip_request \<Rightarrow> trip_db \<Rightarrow> bool" where
  "request_fails env ok (ReqInvite now nid u tid inp) db \<longleftrightarrow>
     isl (fst (InviteTripCollaborator env ok now nid u tid inp db))"
| "request_fails env ok (ReqListCollaborators u tid) db \<longleftrightarrow> isl (fst (ListTripCollaboratorsHandler env u tid db))"
| "request_fails env ok (ReqUpdateRole now u tid cid ro) db \<longleftrightarrow>
     isl (fst (UpdateTripCollaborator env now u tid cid ro db))"
| "request_fails env ok (ReqRemove now u tid cid) db \<longleftrightarrow>
     isl (fst (RemoveTripCollaboratorHandler env now u tid cid db))"
| "request_fails env ok (ReqAccept now u tid cid) db \<longleftrightarrow> isl (fst (AcceptTripCollaborator env now u tid cid db))"
| "request_fails env ok (ReqDecline now u tid cid) db \<longleftrightarrow> isl (fst (DeclineTripCollaborator env now u tid cid db))"
| "request_fails env ok (ReqCreateInvitation now nid nid2 u tid inp) db \<longleftrightarrow>
     isl (fst (CreateTripInvitation env ok now nid nid2 u tid inp db))"
| "request_fails env ok (ReqListInvitations u tid) db \<longleftrightarrow> isl (fst (ListTripInvitations env u tid db))"
| "request_fails env ok (ReqResend now u tid iid inp) db \<longleftrightarrow>
     isl (fst (ResendTripInvitation env now u tid iid inp db))"
| "request_fails env ok (ReqRevoke now u tid iid) db \<longleftrightarrow> isl (fst (RevokeTripInvitation env now u tid iid db))"
| "request_fails env ok (ReqAcceptInvitation now nid u tid iid) db \<longleftrightarrow>
     isl (fst (AcceptTripInvitation env now nid u tid iid db))"
| "request_fails env ok (ReqDeclineInvitation now u tid iid) db \<longleftrightarrow>
     isl (fst (DeclineTripInvitation env now u tid iid db))"
| "request_fails env ok (ReqListMembers u tid) db \<longleftrightarrow> isl (fst (ListTripMembers env u tid db))"
| "request_fails env ok (ReqTransfer now nid u tid nxt) db \<longleftrightarrow>
     isl (fst (TransferTripOwnership env now nid u tid nxt db))"
| "request_fails env ok (ReqLeave now u tid) db \<longleftrightarrow> isl (fst (LeaveTrip env now u tid db))"
| "request_fails env ok (ReqMyInvitations now u) db \<longleftrightarrow> isl (fst (ListCollaborationInvitations now u db))"

lemma atomic_isl: "atomic m \<Longrightarrow> isl (fst (m s)) \<Longrightarrow> snd (m s) = s"
  unfolding atomic_def isl_def by (metis prod.collapse)

lemma handlers_atomic:
  "atomic (InviteTripCollaborator env ok now nid u tid inp)"
  "atomic (ListTripCollaboratorsHandler env u tid)"
  "atomic (UpdateTripCollaborator env now u tid cid ro)"
  "atomic (RemoveTripCollaboratorHandler env now u tid cid)"
  "atomic (AcceptTripCollaborator env now u tid cid)"
  "atomic (DeclineTripCollaborator env now u tid cid)"
  "atomic (ListTripInvitations env u tid)"
  "atomic (ResendTripInvitation env now u tid iid inp)"
  "atomic (RevokeTripInvitation env now u tid iid)"
  "atomic (DeclineTripInvitation env now u tid iid)"
  "atomic (ListTripMembers env u tid)"
  "atomic (TransferTripOwnership env now nid u tid nxt)"
  "atomic (LeaveTrip env now u tid)"
  unfolding InviteTripCollaborator_def ListTripCollaboratorsHandler_def UpdateTripCollaborator_def
    RemoveTripCollaboratorHandler_def AcceptTripCollaborator_def DeclineTripCollaborator_def
    ListTripInvitations_def ResendTripInvitation_def RevokeTripInvitation_def
    DeclineTripInvitation_def ListTripMembers_def TransferTripOwnership_def LeaveTrip_def
  by (intro atomic_intros total_intros)+

text \<open>
  C14. A membership request that is answered with an error has changed nothing, for every kind
  of request but three: creating an invitation may fail after its row is written, accepting one
  may mark it expired or link it, and the caller's list expires and links invitations.
\<close>

theorem failed_request_changes_nothing:
  assumes "all_or_nothing r" "request_fails env ok r db"
  shows "serve env ok r db = db"
  using assms by (cases r) (simp_all add: atomic_isl handlers_atomic)

section \<open>Transfer of the ownership\<close>

lemma owner_change_request:
  assumes "trip_owner (serve env ok r db) tid \<noteq> trip_owner db tid" "db_ok db"
  shows "\<exists>now nid user nxt. r = ReqTransfer now nid (Some user) tid nxt \<and>
    trip_owner db tid = Some (Some (au_id user)) \<and> is_member db tid nxt \<and>
    trip_owner (serve env ok r db) tid = Some (Some nxt)"
proof -
  have "\<exists>u. transfers r = Some (tid, u)"
    using owner.serve_rel [of r tid db env ok] assms(1) by (auto simp: same_owner_def)
  then obtain now nid user nxt where r: "r = ReqTransfer now nid (Some user) tid nxt"
    by (cases "(env, ok, r, db)" rule: serve.cases) (auto elim: transfers.elims)
  obtain t' db' where run: "TransferTripOwnership env now nid (Some user) tid nxt db = (Inr t', db')"
    using assms(1) r atomic_changed [OF handlers_atomic(12), of env now nid "Some user" tid nxt db]
    by (metis serve.simps(14))
  from run obtain t a c db1 where
    acc: "requireOwner env db tid (au_id user) = Inr (t, a)" and
    c: "GetTripCollaboratorByTripAndUser db tid nxt = Inr c" "co_status c = CAccepted" and
    tx: "TransferTripOwnershipTx db now nid tid (au_id user) nxt = Inr (t', db1)" and
    db': "db_trips db' = db_trips db1"
    by (rule TransferTripOwnership_Inr) auto
  have mem: "is_member db tid nxt"
    using c by (auto simp: is_member_def GetTripCollaboratorByTripAndUser_def dest!: select_row_Some split: option.splits)
  from tx obtain old where
    old: "select_row (\<lambda>t. tr_id t = tid \<and> tr_user t = Some (au_id user)) (db_trips db) = Some old" and
    t': "t' = old\<lparr>tr_user := Some nxt\<rparr>" and
    trips: "db_trips db1 = update_where (\<lambda>t. tr_id t = tid \<and> tr_user t = Some (au_id user))
      (\<lambda>t. t\<lparr>tr_user := Some nxt\<rparr>) (db_trips db)"
    by (rule TransferTripOwnershipTx_Inr) auto
  have sel: "select_row (\<lambda>t. tr_id t = tid) (db_trips db) = Some old"
    using select_row_Some [OF old] assms(2) key_unique_inj unfolding db_ok_def
    by (intro select_row_unique) fastforce+
  have "select_row (\<lambda>t. tr_id t = tid) (db_trips db1) = Some t'"
    unfolding trips t' using select_row_Some [OF old] by (intro find_update_where_hit sel) auto
  then show ?thesis
    using r mem run db' sel t' select_row_Some [OF old] by (auto simp: trip_owner_def)
qed

text \<open>
  C12. When the owner of a trip differs after a run, the run contains a transfer request made by
  the owner at that moment, to a user who was then an accepted member and becomes the owner by it.
  No other request, of whatever caller, changes the owner.
\<close>

theorem owner_changes_by_transfer:
  assumes "db_ok db" "trip_owner (fold (serve env ok) rs db) tid \<noteq> trip_owner db tid"
  shows "\<exists>pre post now nid user nxt. rs = pre @ ReqTransfer now nid (Some user) tid nxt # post \<and>
    trip_owner (fold (serve env ok) pre db) tid = Some (Some (au_id user)) \<and>
    is_member (fold (serve env ok) pre db) tid nxt \<and>
    trip_owner (fold (serve env ok) (pre @ [ReqTransfer now nid (Some user) tid nxt]) db) tid = Some (Some nxt)"
proof -
  obtain pre r post where rs: "rs = pre @ r # post"
    and same: "trip_owner (fold (serve env ok) pre db) tid = trip_owner db tid"
    and new: "trip_owner (fold (serve env ok) (pre @ [r]) db) tid \<noteq> trip_owner db tid"
    using membership.first_change [of "\<lambda>s. trip_owner s tid \<noteq> trip_owner db tid" db env ok rs] assms
    by blast
  have "db_ok (fold (serve env ok) pre db)" using assms(1) by (rule membership.inv_run)
  from owner_change_request [OF _ this, of env ok r tid] same new
  obtain now nid user nxt where "r = ReqTransfer now nid (Some user) tid nxt"
    "trip_owner (fold (serve env ok) pre db) tid = Some (Some (au_id user))"
    "is_member (fold (serve env ok) pre db) tid nxt"
    "trip_owner (fold (serve env ok) (pre @ [r]) db) tid = Some (Some nxt)" by auto
  with rs show ?thesis by blast
qed

end
