(* ===== verification/MembershipOutcomes.thy ===== *)
theory MembershipOutcomes
  imports MembershipLaws
begin

text \<open>
  What the single membership requests achieve: the access levels after a transfer, the row and
  the invitation after an acceptance, the fate of an expired invitation, the loss of access on
  leaving and on removal, and who is notified.
\<close>

section \<open>Reading back a written row\<close>

lemma Get_collab_iff:
  assumes "db_ok db"
  shows "GetTripCollaboratorByTripAndUser db tid uid = Inr c \<longleftrightarrow>
    c \<in> set (db_collabs db) \<and> co_trip c = tid \<and> co_user c = uid"
proof
  assume "GetTripCollaboratorByTripAndUser db tid uid = Inr c"
  then show "c \<in> set (db_collabs db) \<and> co_trip c = tid \<and> co_user c = uid"
    by (auto simp: GetTripCollaboratorByTripAndUser_def dest!: select_row_Some split: option.splits)
next
  assume c: "c \<in> set (db_collabs db) \<and> co_trip c = tid \<and> co_user c = uid"
  have "key_unique collab_key (db_collabs db)" using assms by (simp add: db_ok_def collabs_ok_def)
  from key_unique_inj [OF this] c
  have "select_row (\<lambda>c. co_trip c = tid \<and> co_user c = uid) (db_collabs db) = Some c"
    by (intro select_row_unique) (auto simp: collab_key_def)
  then show "GetTripCollaboratorByTripAndUser db tid uid = Inr c"
    by (simp add: GetTripCollaboratorByTripAndUser_def)
qed

lemma update_collab_get:
  assumes "update_collab db P f = Inr (c, db')" "db_ok db"
    and "\<And>c. co_id (f c) = co_id c" "\<And>c. collab_key (f c) = collab_key c"
  obtains old where "old \<in> set (db_collabs db)" "P old" "c = f old" "db_ok db'"
    "db' = db\<lparr>db_collabs := update_where P f (db_collabs db)\<rparr>"
    "GetTripCollaboratorByTripAndUser db' (co_trip old) (co_user old) = Inr c"
proof -
  obtain old where old: "select_row P (db_collabs db) = Some old" "c = f old"
    "db' = db\<lparr>db_collabs := update_where P f (db_collabs db)\<rparr>"
    using assms(1) by (auto simp: update_collab_Inr)
  have ok: "db_ok db'" using assms by (rule update_collab_ok)
  have "c \<in> set (db_collabs db')" using old select_row_Some [OF old(1)] by (auto simp: set_update_where)
  moreover have "co_trip c = co_trip old" "co_user c = co_user old"
    using assms(4) [of old] old(2) by (simp_all add: collab_key_def)
  ultimately show ?thesis using that old ok select_row_Some [OF old(1)] Get_collab_iff [OF ok] by blast
qed

lemma Upsert_get:
  assumes "UpsertTripCollaborator db now new = Inr (c, db')" "db_ok db"
  shows "GetTripCollaboratorByTripAndUser db' (co_trip new) (co_user new) = Inr c"
    and "co_role c = co_role new" "db_invites db' = db_invites db"
  using assms(1)
proof (atomize (full), cases rule: UpsertTripCollaborator_cases)
  case (upd old)
  have ok: "db_ok db'" using assms by (rule UpsertTripCollaborator_ok)
  have "c \<in> set (db_collabs db')" using upd select_row_Some [OF upd(1)] by (auto simp: set_update_where)
  moreover have "co_trip c = co_trip new" "co_user c = co_user new"
    using upd select_row_Some [OF upd(1)] conflict_update_keys(2) [of new now old]
    by (simp_all add: collab_key_def)
  ultimately show "GetTripCollaboratorByTripAndUser db' (co_trip new) (co_user new) = Inr c \<and>
    co_role c = co_role new \<and> db_invites db' = db_invites db"
    using upd Get_collab_iff [OF ok] by (simp add: conflict_update_def)
next
  case ins
  have ok: "db_ok db'" using assms by (rule UpsertTripCollaborator_ok)
  show "GetTripCollaboratorByTripAndUser db' (co_trip new) (co_user new) = Inr c \<and>
    co_role c = co_role new \<and> db_invites db' = db_invites db"
    using ins Get_collab_iff [OF ok] by simp
qed

lemma Accept_get:
  assumes "AcceptTripCollaboratorRow db now tid cid uid = Inr (c, db')" "db_ok db"
    and "GetTripCollaboratorByTripAndUser db tid uid = Inr c0"
  shows "GetTripCollaboratorByTripAndUser db' tid uid = Inr c \<and> co_status c = CAccepted \<and>
    co_role c = co_role c0 \<and> db_invites db' = db_invites db"
proof -
  obtain old where "old \<in> set (db_collabs db)" "co_trip old = tid" "co_user old = uid"
    "c = old\<lparr>co_status := CAccepted, co_accepted_at := Some now, co_removed_at := None,
             co_updated_at := now\<rparr>"
    "db_invites db' = db_invites db"
    "GetTripCollaboratorByTripAndUser db' tid uid = Inr c"
    using assms(1) unfolding AcceptTripCollaboratorRow_def
    by (rule update_collab_get [OF _ assms(2)]) (auto simp: collab_key_def)
  moreover have "old = c0"
    using calculation(1-3) assms(3) Get_collab_iff [OF assms(2), of tid uid old] by simp
  ultimately show ?thesis by simp
qed

section \<open>Accepting an invitation\<close>

lemma invitation_get:
  assumes "update_invite db P f = Inr (i, db')" "db_ok db"
    and "\<And>i. iv_id (f i) = iv_id i" "\<And>i. iv_trip (f i) = iv_trip i" "\<And>i j. P i \<Longrightarrow> P j \<Longrightarrow> iv_id i = iv_id j"
  obtains old where "old \<in> set (db_invites db)" "P old" "i = f old" "db_ok db'"
    "db_collabs db' = db_collabs db" "db_trips db' = db_trips db"
    "GetTripInvitationByID db' (iv_trip old) (iv_id old) = Inr i"
proof -
  obtain old where old: "select_row P (db_invites db) = Some old" "i = f old"
    "db' = db\<lparr>db_invites := update_where P f (db_invites db)\<rparr>"
    using assms(1) by (auto simp: update_invite_Inr)
  have ok: "db_ok db'" using assms(1,2,3,5) by (rule update_invite_ok)
  have mem: "i \<in> set (db_invites db')" using old select_row_Some [OF old(1)] by (auto simp: set_update_where)
  have ku: "key_unique iv_id (db_invites db')" using ok by (simp add: db_ok_def invites_ok_def)
  have "iv_id i = iv_id old \<and> iv_trip i = iv_trip old" using old(2) assms(3,4) by simp
  then have "select_row (\<lambda>r. iv_id r = iv_id old \<and> iv_trip r = iv_trip old) (db_invites db') = Some i"
    by (rule select_row_key [OF ku mem]) (simp add: \<open>iv_id i = iv_id old \<and> iv_trip i = iv_trip old\<close>)
  then have "GetTripInvitationByID db' (iv_trip old) (iv_id old) = Inr i"
    by (simp add: GetTripInvitationByID_def)
  moreover have "db_collabs db' = db_collabs db" "db_trips db' = db_trips db" using old(3) by simp_all
  ultimately show ?thesis using that select_row_Some [OF old(1)] old(2) ok by blast
qed

lemma Link_role:
  assumes "LinkTripInvitationToUser db now iid uid email = Inr (i, db')" "db_ok db"
    and "GetTripInvitationByID db tid iid = Inr i0"
  shows "iv_role i = iv_role i0 \<and> db_collabs db' = db_collabs db \<and> db_ok db'"
proof -
  obtain old where old: "old \<in> set (db_invites db)" "iv_id old = iid"
    "i = old\<lparr>iv_invited_user := Some uid, iv_updated_at := now\<rparr>"
    "db_ok db'" "db_collabs db' = db_collabs db"
    using assms(1) unfolding LinkTripInvitationToUser_def by (rule invitation_get [OF _ assms(2)]) auto
  have "i0 \<in> set (db_invites db)" "iv_id i0 = iid"
    using assms(3) by (auto simp: GetTripInvitationByID_def dest!: select_row_Some split: option.splits)
  then have "old = i0" using old assms(2) key_unique_inj unfolding db_ok_def invites_ok_def by metis
  with old show ?thesis by simp
qed

lemma ensureInvitationAcceptable_Inr [op_run]:
  "ensureInvitationAcceptable now i user db = (Inr v, db') \<longleftrightarrow>
     invitationMatchesUser i user \<and> iv_status i = IPending \<and>
     (iv_expires_at i = 0 \<or> now < iv_expires_at i) \<and> db' = db"
  by (auto simp: ensureInvitationAcceptable_def op_run)

lemma UpdateStatus_get:
  assumes "UpdateTripInvitationStatus db now tid iid st = Inr (i, db')" "db_ok db"
  shows "iv_status i = st \<and> GetTripInvitationByID db' tid iid = Inr i \<and> db_collabs db' = db_collabs db \<and>
    db_trips db' = db_trips db \<and> db_ok db'"
  using assms(1) unfolding UpdateTripInvitationStatus_def
  by (rule invitation_get [OF _ assms(2)]) auto

lemma pendingCollaborator_simps [simp]:
  "co_trip (pendingCollaborator nid tid uid email ro who msg ex) = tid"
  "co_user (pendingCollaborator nid tid uid email ro who msg ex) = uid"
  "co_role (pendingCollaborator nid tid uid email ro who msg ex) = ro"
  by (simp_all add: pendingCollaborator_def)

lemma GetTripCollaboratorByTripAndUser_cong:
  "db_collabs db = db_collabs db' \<Longrightarrow>
   GetTripCollaboratorByTripAndUser db tid uid = GetTripCollaboratorByTripAndUser db' tid uid"
  by (simp add: GetTripCollaboratorByTripAndUser_def)

lemma GetTripInvitationByID_cong:
  "db_invites db = db_invites db' \<Longrightarrow> GetTripInvitationByID db tid iid = GetTripInvitationByID db' tid iid"
  by (simp add: GetTripInvitationByID_def)

lemma tryLink_Inr:
  "tryLink now user i db = (Inr i1, db1) \<Longrightarrow> (db1 = db \<and> i1 = i) \<or>
     LinkTripInvitationToUser db now (iv_id i) (au_id user) (au_email user) = Inr (i1, db1)"
  by (auto simp: tryLink_def op_run op_fail)

lemma notifyAccepted_Inr:
  "notifyAccepted env tid actor db = (Inr v, db') \<Longrightarrow>
     db_invites db' = db_invites db \<and> db_collabs db' = db_collabs db"
  by (auto simp: notifyAccepted_def op_run op_fail split: option.splits)

lemma AcceptTripInvitation_Inr:
  assumes "AcceptTripInvitation env now nid u tid iid db = (Inr i', db')"
  obtains user i i1 c0 c db1 db2 db3 db4 where "u = Some user"
    "GetTripInvitationByID db tid iid = Inr i" "invitationMatchesUser i user" "iv_status i = IPending"
    "iv_expires_at i = 0 \<or> now < iv_expires_at i"
    "(if iv_invited_user i = None \<and> au_email user \<noteq> [] then tryLink now user i else sret i) db = (Inr i1, db1)"
    "UpsertTripCollaborator db1 now (pendingCollaborator nid tid (au_id user) (iv_email i1) (iv_role i1)
      (iv_inviter i1) (iv_message i1) (iv_expires_at i1)) = Inr (c0, db2)"
    "(if co_status c0 \<noteq> CAccepted
      then sstmt (\<lambda>db. AcceptTripCollaboratorRow db now tid (co_id c0) (au_id user)) else sret c0) db2 = (Inr c, db3)"
    "UpdateTripInvitationStatus db3 now tid iid IAccepted = Inr (i', db4)"
    "db_invites db' = db_invites db4" "db_collabs db' = db_collabs db4"
  using assms unfolding AcceptTripInvitation_def sbind_Inr MustUser_Inr spure_Inr sread_Inr
    ensureInvitationAcceptable_Inr sstmt_Inr sdo_Inr sret_Inr
  by (auto dest!: notifyAccepted_Inr)

lemma linked_state:
  assumes "(if b then tryLink now user i else sret i) db = (Inr i1, db1)" "db_ok db"
    "GetTripInvitationByID db tid iid = Inr i"
  shows "iv_role i1 = iv_role i \<and> db_collabs db1 = db_collabs db \<and> db_ok db1"
proof -
  have "iv_id i = iid" using assms(3)
    by (auto simp: GetTripInvitationByID_def dest!: select_row_Some split: option.splits)
  with assms show ?thesis
    by (auto simp: sret_def dest!: tryLink_Inr dest: Link_role split: if_splits)
qed

text \<open>
  A successful acceptance of an invitation by email was made by a caller it is addressed to,
  while it was pending and unexpired; afterwards the invitation is stored as accepted and the
  caller's membership row is accepted with the invitation's role, whatever row they had before.
\<close>

theorem accepted_invitation_gives_role:
  assumes "db_ok db" "AcceptTripInvitation env now nid u tid iid db = (Inr i', db')"
  shows "\<exists>user i c. u = Some user \<and> GetTripInvitationByID db tid iid = Inr i \<and>
    invitationMatchesUser i user \<and> iv_status i = IPending \<and>
    (iv_expires_at i = 0 \<or> now < iv_expires_at i) \<and>
    GetTripInvitationByID db' tid iid = Inr i' \<and> iv_status i' = IAccepted \<and>
    GetTripCollaboratorByTripAndUser db' tid (au_id user) = Inr c \<and>
    co_status c = CAccepted \<and> co_role c = iv_role i"
  using assms(2)
proof (rule AcceptTripInvitation_Inr)
  fix user i i1 c0 c db1 db2 db3 db4
  assume u: "u = Some user" and i: "GetTripInvitationByID db tid iid = Inr i"
    "invitationMatchesUser i user" "iv_status i = IPending"
    "iv_expires_at i = 0 \<or> now < iv_expires_at i"
    and link: "(if iv_invited_user i = None \<and> au_email user \<noteq> [] then tryLink now user i else sret i) db = (Inr i1, db1)"
    and ups: "UpsertTripCollaborator db1 now (pendingCollaborator nid tid (au_id user) (iv_email i1) (iv_role i1)
      (iv_inviter i1) (iv_message i1) (iv_expires_at i1)) = Inr (c0, db2)"
    and acc: "(if co_status c0 \<noteq> CAccepted
      then sstmt (\<lambda>db. AcceptTripCollaboratorRow db now tid (co_id c0) (au_id user)) else sret c0) db2 = (Inr c, db3)"
    and upd: "UpdateTripInvitationStatus db3 now tid iid IAccepted = Inr (i', db4)"
    and fin: "db_invites db' = db_invites db4" "db_collabs db' = db_collabs db4"
  note l = linked_state [OF link assms(1) i(1)]
  have ok2: "db_ok db2" using ups l by (blast intro: UpsertTripCollaborator_ok)
  have c0: "GetTripCollaboratorByTripAndUser db2 tid (au_id user) = Inr c0" "co_role c0 = iv_role i"
    using Upsert_get [OF ups] l by simp_all
  have c: "GetTripCollaboratorByTripAndUser db3 tid (au_id user) = Inr c \<and> co_status c = CAccepted \<and>
      co_role c = iv_role i \<and> db_ok db3"
    using acc c0 ok2 by (auto simp: op_run dest: Accept_get AcceptTripCollaboratorRow_ok split: if_splits)
  then have upd': "iv_status i' = IAccepted" "GetTripInvitationByID db4 tid iid = Inr i'"
    "db_collabs db4 = db_collabs db3" using UpdateStatus_get [OF upd] by simp_all
  show ?thesis
    using u i c upd' fin GetTripCollaboratorByTripAndUser_cong [of db' db3 tid "au_id user"]
      GetTripInvitationByID_cong [of db' db4 tid iid] by simp
qed

text \<open>
  A pending invitation past its expiry cannot be accepted: the request fails with the
  conflict "invitation has expired", no membership row changes, and the invitation is stored as
  expired.
\<close>

theorem expired_invitation_is_refused:
  assumes "db_ok db" "GetTripInvitationByID db tid iid = Inr i" "invitationMatchesUser i user"
    "iv_status i = IPending" "iv_expires_at i \<noteq> 0" "iv_expires_at i \<le> now"
  shows "\<exists>db' i'. AcceptTripInvitation env now nid (Some user) tid iid db =
      (Inl (ConflictErr ''invitation has expired''), db') \<and>
    db_collabs db' = db_collabs db \<and> GetTripInvitationByID db' tid iid = Inr i' \<and> iv_status i' = IExpired"
proof -
  have i: "i \<in> set (db_invites db)" "iv_id i = iid" "iv_trip i = tid"
    using assms(2) by (auto simp: GetTripInvitationByID_def dest!: select_row_Some split: option.splits)
  have sel: "select_row (\<lambda>r. iv_id r = iid \<and> iv_trip r = tid) (db_invites db) = Some i"
    using assms(2) by (auto simp: GetTripInvitationByID_def split: option.splits)
  obtain i' db' where upd: "UpdateTripInvitationStatus db now tid iid IExpired = Inr (i', db')"
    using sel unfolding UpdateTripInvitationStatus_def update_invite_Inr
    by (auto simp: pending_clash_def)
  have "AcceptTripInvitation env now nid (Some user) tid iid db =
      (Inl (ConflictErr ''invitation has expired''), db')"
    using assms(2-6) upd i
    by (simp add: AcceptTripInvitation_def sbind_def spure_def sread_def MustUserFromContext_def
        ensureInvitationAcceptable_def scheck_def stry_def sstmt_def sfail_def)
  then show ?thesis using UpdateStatus_get [OF upd assms(1)] by blast
qed

section \<open>Access after a transfer, leaving and removal\<close>

lemma GetByID_iff:
  assumes "db_ok db"
  shows "GetByID db tid = Inr t \<longleftrightarrow> t \<in> set (db_trips db) \<and> tr_id t = tid"
proof
  assume "t \<in> set (db_trips db) \<and> tr_id t = tid"
  moreover have "key_unique tr_id (db_trips db)" using assms by (simp add: db_ok_def)
  ultimately have "select_row (\<lambda>r. tr_id r = tid) (db_trips db) = Some t"
    using key_unique_inj by (intro select_row_unique) fastforce+
  then show "GetByID db tid = Inr t" by (simp add: GetByID_def)
qed (rule GetByID_Inr)

lemma tripForAccess_personal:
  assumes "GetByID db tid = Inr t" "tr_workspace t = None"
  shows "tripForAccess env db tid uid =
    (let a = strongestAccess (ownerAccess t uid) (collaboratorAccess db tid uid)
     in if ta_level a = LevelNone then Inl ErrNotFound else Inr (t, a))"
  using assms by (simp add: tripForAccess_def Let_def ownerAccess_def)

lemma strongest_owner: "ta_level a = LevelOwner \<Longrightarrow> strongestAccess a x = a"
  by (cases "ta_level x") (simp_all add: strongestAccess_def)

lemma collaboratorAccess_Inr:
  assumes "GetTripCollaboratorByTripAndUser db tid uid = Inr c" "co_status c = CAccepted" "co_role c = RoleEditor"
  shows "ta_level (collaboratorAccess db tid uid) = LevelEditor"
  using assms by (simp add: collaboratorAccess_def)

lemma collaboratorAccess_none:
  assumes "db_ok db" "\<not> is_member db tid uid"
  shows "collaboratorAccess db tid uid = no_access"
  using assms by (auto simp: collaboratorAccess_def is_member_def Get_collab_iff split: sum.splits)

text \<open>
  C13. After a successful transfer of a personal trip the new owner has the owner's rights and
  the old owner is left with the editor's: no moment is stored in which the trip has two owners,
  none, or has locked its old owner out.
\<close>

theorem transfer_swaps_rights:
  assumes "db_ok db" "TransferTripOwnership env now nid u tid nxt db = (Inr t', db')" "tr_workspace t' = None"
  shows "\<exists>user a b. u = Some user \<and>
    tripForAccess env db' tid nxt = Inr (t', a) \<and> ta_level a = LevelOwner \<and>
    tripForAccess env db' tid (au_id user) = Inr (t', b) \<and> ta_level b = LevelEditor"
  using assms(2)
proof (rule TransferTripOwnership_Inr)
  fix user t a c db1
  assume u: "u = Some user" and ne: "nxt \<noteq> au_id user"
    and tx: "TransferTripOwnershipTx db now nid tid (au_id user) nxt = Inr (t', db1)"
    and same: "db_trips db' = db_trips db1" "db_collabs db' = db_collabs db1"
  have ok1: "db_ok db1" using tx assms(1) by (rule TransferTripOwnershipTx_ok)
  from tx show ?thesis
  proof (rule TransferTripOwnershipTx_Inr)
    fix old rows1
    assume sel: "select_row (\<lambda>t. tr_id t = tid \<and> tr_user t = Some (au_id user)) (db_trips db) = Some old"
      and t': "t' = old\<lparr>tr_user := Some nxt\<rparr>"
      and db1: "db1 = db\<lparr>db_trips := update_where (\<lambda>t. tr_id t = tid \<and> tr_user t = Some (au_id user))
         (\<lambda>t. t\<lparr>tr_user := Some nxt\<rparr>) (db_trips db),
       db_collabs := update_where (\<lambda>c. co_trip c = tid \<and> co_user c = nxt)
         (\<lambda>c. c\<lparr>co_status := CRemoved, co_removed_at := Some now, co_updated_at := now\<rparr>) rows1\<rparr>"
      and ed: "\<exists>c. select_row (\<lambda>c. co_trip c = tid \<and> co_user c = au_id user) rows1 = Some c \<and>
       co_status c = CAccepted \<and> co_role c = RoleEditor"
    have "t' \<in> set (db_trips db1)" "tr_id t' = tid"
      using select_row_Some [OF sel] t' db1 by (auto simp: set_update_where)
    then have g1: "GetByID db1 tid = Inr t'" using GetByID_iff [OF ok1] by blast
    then have g: "GetByID db' tid = Inr t'" using same by (simp add: GetByID_def)
    obtain c where c: "select_row (\<lambda>c. co_trip c = tid \<and> co_user c = au_id user) rows1 = Some c"
       "co_status c = CAccepted" "co_role c = RoleEditor" using ed by blast
    have "select_row (\<lambda>c. co_trip c = tid \<and> co_user c = au_id user) (db_collabs db1) = Some c"
      unfolding db1 using ne c(1) by (simp, subst find_update_where_other) auto
    then have "GetTripCollaboratorByTripAndUser db' tid (au_id user) = Inr c"
      using same by (simp add: GetTripCollaboratorByTripAndUser_def)
    then have lvl: "ta_level (collaboratorAccess db' tid (au_id user)) = LevelEditor"
      using c(2,3) by (rule collaboratorAccess_Inr)
    have own: "ownerAccess t' (au_id user) = no_access" "ta_level (ownerAccess t' nxt) = LevelOwner"
      using ne t' assms(3) by (simp_all add: ownerAccess_def)
    have max: "strongestAccess (ownerAccess t' nxt) x = ownerAccess t' nxt" for x
      using own(2) by (rule strongest_owner)
    show ?thesis using u lvl own max
      by (simp add: tripForAccess_personal [OF g assms(3)] Let_def)
  qed
qed

lemma not_member_closed:
  assumes "db_ok db" "GetTripCollaboratorByTripAndUser db tid uid = Inr c" "co_status c \<noteq> CAccepted"
  shows "\<not> is_member db tid uid"
  unfolding is_member_def
proof
  assume "\<exists>r\<in>set (db_collabs db). co_trip r = tid \<and> co_user r = uid \<and> co_status r = CAccepted"
  then obtain r where r: "GetTripCollaboratorByTripAndUser db tid uid = Inr r" "co_status r = CAccepted"
    using Get_collab_iff [OF assms(1)] by blast
  with assms show False by simp
qed

lemma GetByID_cong: "db_trips db = db_trips db' \<Longrightarrow> GetByID db tid = GetByID db' tid"
  by (simp add: GetByID_def)

lemma lost_access:
  assumes "db_ok db" "GetTripCollaboratorByTripAndUser db tid uid = Inr c" "co_status c \<noteq> CAccepted"
    "GetByID db tid = Inr t" "tr_workspace t = None" "tr_user t \<noteq> Some uid"
  shows "tripForAccess env db tid uid = Inl ErrNotFound"
  using collaboratorAccess_none [OF assms(1) not_member_closed [OF assms(1-3)]] assms(4-6)
  by (simp add: tripForAccess_personal ownerAccess_def)

text \<open>
  Leaving a personal trip works for every member but the owner, and ends the access: from
  then on the trip is not found for the caller.
\<close>

theorem leaving_ends_access:
  assumes "db_ok db" "LeaveTrip env now u tid db = (Inr (), db')"
  shows "\<exists>user t. u = Some user \<and> GetByID db' tid = Inr t \<and> \<not> is_member db' tid (au_id user) \<and>
    (tr_workspace t = None \<longrightarrow>
      tr_user t \<noteq> Some (au_id user) \<and> tripForAccess env db' tid (au_id user) = Inl ErrNotFound)"
proof -
  obtain user t a c db1 where u: "u = Some user"
    and acc: "tripForAccess env db tid (au_id user) = Inr (t, a)"
    and own: "\<not> (ta_level a = LevelOwner \<and> tr_user t = Some (au_id user))"
    and upd: "RemoveTripCollaboratorByUser db now tid (au_id user) = Inr (c, db1)"
    and db': "db_collabs db' = db_collabs db1" "db_trips db' = db_trips db1" "db_invites db' = db_invites db1"
    using assms(2) unfolding LeaveTrip_def by (auto simp: op_run MustUser_Inr requireViewer_Inr)
  obtain old :: collaborator where w: "co_trip old = tid" "co_user old = au_id user" "db_ok db1" "co_status c = CRemoved"
      "db_trips db1 = db_trips db" "GetTripCollaboratorByTripAndUser db1 tid (au_id user) = Inr c"
    using upd unfolding RemoveTripCollaboratorByUser_def
    by (rule update_collab_get [OF _ assms(1)]) (auto simp: collab_key_def)
  have ok: "db_ok db'" using w(3) db' by (simp add: db_ok_def)
  have c: "GetTripCollaboratorByTripAndUser db' tid (au_id user) = Inr c"
    using w(6) GetTripCollaboratorByTripAndUser_cong [OF db'(1)] by simp
  have t: "GetByID db tid = Inr t" using acc by (rule tripForAccess_Inr)
  then have t': "GetByID db' tid = Inr t" using GetByID_cong [of db' db] w(5) db'(2) by simp
  have not_owner: "tr_user t \<noteq> Some (au_id user)" if "tr_workspace t = None"
  proof
    assume "tr_user t = Some (au_id user)"
    then have "ownerAccess t (au_id user) = \<lparr>ta_level = LevelOwner, ta_source = ''owner'', ta_workspace_role = []\<rparr>"
      using that by (simp add: ownerAccess_def)
    then have "strongestAccess (ownerAccess t (au_id user)) x = ownerAccess t (au_id user)" for x
      by (intro strongest_owner) simp
    then have "ta_level a = LevelOwner" using acc \<open>tr_user t = Some (au_id user)\<close> that
      by (auto simp: tripForAccess_personal [OF t that] Let_def ownerAccess_def)
    then show False using own \<open>tr_user t = Some (au_id user)\<close> by simp
  qed
  show ?thesis
    using u t' not_member_closed [OF ok c] w(4) lost_access [OF ok c _ t' ] not_owner by auto
qed

text \<open>
  C15. Removing a collaborator stores the status declined, not removed, so the row stays in the
  owner's list of collaborators (which hides removed rows only) and its role can still be changed.
  It ends their access when the trip is a personal one that they do not own; to a trip of a
  workspace they keep the access they have as a member of the workspace.
\<close>

theorem removal_stores_declined_row:
  assumes "db_ok db" "RemoveTripCollaboratorHandler env now u tid cid db = (Inr (), db')"
  shows "\<exists>c. GetTripCollaboratorByID db' tid cid = Inr c \<and> co_status c = CDeclined \<and>
    c \<in> set (ListTripCollaborators db' tid) \<and>
    (\<exists>c' db''. UpdateTripCollaboratorRole db' now tid cid RoleEditor = Inr (c', db'')) \<and>
    (\<forall>t. GetByID db' tid = Inr t \<and> tr_workspace t = None \<and> tr_user t \<noteq> Some (co_user c) \<longrightarrow>
      tripForAccess env db' tid (co_user c) = Inl ErrNotFound)"
proof -
  obtain c db1 where upd: "RemoveTripCollaborator db now tid cid = Inr (c, db1)"
    and db': "db_collabs db' = db_collabs db1" "db_trips db' = db_trips db1" "db_invites db' = db_invites db1"
    using assms(2) unfolding RemoveTripCollaboratorHandler_def by (auto simp: op_run)
  obtain old :: collaborator where w: "co_trip old = tid" "co_id old = cid" "db_ok db1" "co_status c = CDeclined"
      "co_id c = cid" "co_trip c = tid" "co_user c = co_user old"
      "GetTripCollaboratorByTripAndUser db1 tid (co_user old) = Inr c"
    using upd unfolding RemoveTripCollaborator_def
    by (rule update_collab_get [OF _ assms(1)]) (auto simp: collab_key_def)
  have ok: "db_ok db'" using w(3) db' by (simp add: db_ok_def)
  have c: "GetTripCollaboratorByTripAndUser db' tid (co_user c) = Inr c"
    using w(7,8) GetTripCollaboratorByTripAndUser_cong [OF db'(1)] by simp
  then have mem: "c \<in> set (db_collabs db')" using Get_collab_iff [OF ok] by blast
  have ku: "key_unique co_id (db_collabs db')" using ok by (simp add: db_ok_def collabs_ok_def)
  have sel: "select_row (\<lambda>r. co_trip r = tid \<and> co_id r = cid) (db_collabs db') = Some c"
    using ku mem by (rule select_row_key) (simp_all add: w)
  have sel': "select_row (\<lambda>r. co_trip r = tid \<and> co_id r = cid \<and> co_status r \<noteq> CRemoved) (db_collabs db') = Some c"
    using ku mem by (rule select_row_key) (simp_all add: w)
  have "GetTripCollaboratorByID db' tid cid = Inr c" using sel by (simp add: GetTripCollaboratorByID_def)
  moreover have "c \<in> set (ListTripCollaborators db' tid)"
    using mem w(4,6) by (simp add: ListTripCollaborators_def)
  moreover have "\<exists>c' db''. UpdateTripCollaboratorRole db' now tid cid RoleEditor = Inr (c', db'')"
    using sel' by (simp add: UpdateTripCollaboratorRole_def update_collab_Inr)
  ultimately show ?thesis using w(4) lost_access [OF ok c] by auto
qed

text \<open>
  The older endpoint accepts a pending membership row whatever its expiry: after its
  \<open>expires_at\<close> has passed, the invited user still becomes an accepted member.
\<close>

theorem direct_accept_ignores_expiry:
  assumes "db_ok db" "GetTripCollaboratorByID db tid cid = Inr c" "co_status c = CPending"
    "co_user c = au_id user" "co_expires_at c = Some e" "e < now"
  shows "\<exists>c' db'. AcceptTripCollaborator env now (Some user) tid cid db = (Inr c', db') \<and>
    co_status c' = CAccepted \<and> co_expires_at c' = Some e \<and> is_member db' tid (au_id user)"
proof -
  have c: "c \<in> set (db_collabs db)" "co_trip c = tid" "co_id c = cid"
    using assms(2) by (auto simp: GetTripCollaboratorByID_def dest!: select_row_Some split: option.splits)
  have ku: "key_unique co_id (db_collabs db)" using assms(1) by (simp add: db_ok_def collabs_ok_def)
  have sel: "select_row (\<lambda>r. co_trip r = tid \<and> co_id r = cid \<and> co_user r = au_id user \<and> co_status r = CPending)
    (db_collabs db) = Some c"
    using ku c(1) by (rule select_row_key) (simp_all add: c assms(3,4))
  let ?f = "\<lambda>c. c\<lparr>co_status := CAccepted, co_accepted_at := Some now, co_removed_at := None, co_updated_at := now\<rparr>"
  obtain db1 where upd: "AcceptTripCollaboratorRow db now tid cid (au_id user) = Inr (?f c, db1)"
    and db1: "db1 = db\<lparr>db_collabs := update_where (\<lambda>r. co_trip r = tid \<and> co_id r = cid \<and>
      co_user r = au_id user \<and> co_status r = CPending) ?f (db_collabs db)\<rparr>"
    using sel by (simp add: AcceptTripCollaboratorRow_def update_collab_Inr)
  obtain db' where run: "AcceptTripCollaborator env now (Some user) tid cid db = (Inr (?f c), db')"
    and db': "db_collabs db' = db_collabs db1"
  proof -
    define s where "s = recordActivity env ''collaborator_accepted'' tid (au_id user) (co_id c) db1"
    obtain own where own: "stry (sread (\<lambda>db. rbind (GetByID db tid) tripOwnerID)) s = (Inr own, s)"
      by (cases "rbind (GetByID s tid) tripOwnerID") (simp_all add: stry_def sread_def)
    have "\<exists>db'. AcceptTripCollaborator env now (Some user) tid cid db = (Inr (?f c), db') \<and> db_collabs db' = db_collabs s"
      using upd own by (cases own) (simp_all add: AcceptTripCollaborator_def sbind_def spure_def
        MustUserFromContext_def sstmt_def sdo_def sret_def s_def [symmetric])
    with that show ?thesis by (auto simp: s_def)
  qed
  have "is_member db' tid (au_id user)"
    unfolding is_member_def db' db1 using c assms(3,4) by (auto simp: set_update_where intro!: bexI [of _ "?f c"])
  then show ?thesis using run assms(5) by auto
qed

section \<open>Who is notified\<close>

lemma add_recipient_fold:
  assumes "distinct out" "set seen = insert actor (set out)" "actor \<notin> set out"
    and "fold (\<lambda>c acc. if co_status c \<noteq> CAccepted then acc else add_recipient acc (co_user c)) cs (seen, out) = (seen', out')"
  shows "distinct out' \<and> actor \<notin> set out' \<and>
    set out' = set out \<union> ({co_user c | c. c \<in> set cs \<and> co_status c = CAccepted} - {actor})"
  using assms
proof (induction cs arbitrary: seen out)
  case Nil
  then show ?case by simp
next
  case (Cons c cs)
  show ?case
  proof (cases "co_status c \<noteq> CAccepted \<or> co_user c \<in> set seen")
    case True
    with Cons.prems(4) have "fold (\<lambda>c acc. if co_status c \<noteq> CAccepted then acc else add_recipient acc (co_user c))
      cs (seen, out) = (seen', out')" by (auto split: if_splits)
    from Cons.IH [OF Cons.prems(1-3) this] show ?thesis using True Cons.prems(2) by auto
  next
    case False
    with Cons.prems(4) have "fold (\<lambda>c acc. if co_status c \<noteq> CAccepted then acc else add_recipient acc (co_user c))
      cs (co_user c # seen, out @ [co_user c]) = (seen', out')" by simp
    from Cons.IH [OF _ _ _ this] show ?thesis using False Cons.prems by auto
  qed
qed

text \<open>
  A broadcast about a trip goes to its owner and its accepted members, each once, and
  never to the actor or to a pending, declined or removed collaborator.
\<close>

theorem broadcast_reaches_members_once:
  "distinct (broadcastRecipients db t actor) \<and>
   set (broadcastRecipients db t actor) =
     (set_option (tr_user t) \<union> {u. is_member db (tr_id t) u}) - {actor}"
proof -
  define start where "start = (case tr_user t of None \<Rightarrow> ([actor], []) | Some own \<Rightarrow> add_recipient ([actor], []) own)"
  obtain seen out where so: "start = (seen, out)" by (cases start)
  obtain seen' out' where run: "fold (\<lambda>c acc. if co_status c \<noteq> CAccepted then acc else add_recipient acc (co_user c))
      (ListTripCollaborators db (tr_id t)) (seen, out) = (seen', out')" by fastforce
  have st: "distinct out" "set seen = insert actor (set out)" "actor \<notin> set out"
    "set out = set_option (tr_user t) - {actor}"
    using so by (auto simp: start_def split: option.splits if_splits)
  have mem: "{co_user c | c. c \<in> set (ListTripCollaborators db (tr_id t)) \<and> co_status c = CAccepted} =
      {u. is_member db (tr_id t) u}"
    by (auto simp: ListTripCollaborators_def is_member_def)
  have "broadcastRecipients db t actor = out'"
    using run so by (simp add: broadcastRecipients_def start_def)
  with add_recipient_fold [OF st(1-3) run] st(4) mem show ?thesis by auto
qed

end
