(* ===== verification/Demo.thy ===== *)
theory Demo
  imports Access
begin

text \<open>
  A small database, environment and callers, on which the theorems about requests are
  applied: user 1 owns trip 10, user 2 is an accepted viewer, user 3 has a pending membership, user
  4 a pending invitation by email.
\<close>

definition demo_env :: svc_env where
  "demo_env = \<lparr>env_workspaces_enabled = False, env_workspace_provider = None, env_user_lookup = None,
     env_activity_on = True, env_notify_on = True\<rparr>"

definition demo_collab :: "uuid \<Rightarrow> uuid \<Rightarrow> collab_status \<Rightarrow> collaborator" where
  "demo_collab cid uid st = \<lparr>co_id = cid, co_trip = 10, co_user = uid, co_email = ''a@b.c'',
     co_role = RoleViewer, co_status = st, co_invited_by = 1, co_message = [], co_invited_at = 5,
     co_expires_at = Some 100, co_accepted_at = None, co_declined_at = None, co_revoked_at = None,
     co_removed_at = None, co_last_seen_at = None, co_updated_at = 5\<rparr>"

definition demo_invitation :: invitation where
  "demo_invitation = \<lparr>iv_id = 200, iv_trip = 10, iv_inviter = 1, iv_invited_user = Some 4,
     iv_email = ''d@e.f'', iv_role = RoleEditor, iv_status = IPending, iv_message = [],
     iv_expires_at = 100, iv_accepted_at = None, iv_declined_at = None, iv_revoked_at = None,
     iv_created_at = 5, iv_updated_at = 5\<rparr>"

definition demo_item :: "string \<Rightarrow> string \<Rightarrow> string \<Rightarrow> itinerary_item" where
  "demo_item start kind name = \<lparr>ii_time = start, ii_start_time = start, ii_end_time = [], ii_type = kind,
     ii_category = [], ii_mode = [], ii_duration = None, ii_all_day = False, ii_timezone = [],
     ii_sched = ''Scheduled'', ii_walking = None, ii_name = name, ii_note = [], ii_cost = None,
     ii_transfer = None, ii_place = None, ii_place_meta = None, ii_price_meta = None, ii_availability = None,
     ii_ground_source = [], ii_ground_place = [], ii_ground_confidence = None, ii_ground_status = [],
     ii_needs_review = False, ii_ground_warnings = [], ii_travel = None\<rparr>"

definition demo_day :: "int \<Rightarrow> itinerary_item list \<Rightarrow> itinerary_day" where
  "demo_day n items = \<lparr>dy_day = n, dy_date = [], dy_title = ''Day'', dy_stop = [], dy_location = [],
     dy_transfer_day = False, dy_items = items\<rparr>"

definition demo_itinerary :: itinerary where
  "demo_itinerary = empty_itinerary\<lparr>it_destination := ''Rome'', it_days :=
     [demo_day 1 [demo_item ''09:00'' ''museum'' ''Forum'', demo_item ''12:00'' ''meal'' ''Lunch'',
        demo_item ''15:00'' ''walk'' ''Park''],
      demo_day 2 [demo_item ''10:00'' ''museum'' ''Vatican'', demo_item ''18:00'' ''meal'' ''Dinner'']]\<rparr>"

definition demo_db :: trip_db where
  "demo_db = \<lparr>db_trips = [\<lparr>tr_id = 10, tr_user = Some 1, tr_workspace = None, tr_destination = ''Rome'',
       tr_itinerary_revision = 1, tr_itinerary = Some demo_itinerary,
       tr_approval = initial_approval None, tr_budget_amount = None, tr_created_at = 1\<rparr>],
     db_collabs = [demo_collab 100 2 CAccepted, demo_collab 101 3 CPending],
     db_invites = [demo_invitation], db_activity = [], db_outbox = []\<rparr>"

definition demo_user :: "uuid \<Rightarrow> auth_user" where
  "demo_user u = \<lparr>au_id = u, au_email = ''d@e.f''\<rparr>"

lemma demo_ok: "db_ok demo_db"
  by (simp add: db_ok_def demo_db_def demo_collab_def collabs_ok_def invites_ok_def key_unique_def collab_key_def pending_clash_def)

lemma run_result: "\<not> isl (fst r) \<Longrightarrow> r = (Inr (projr (fst r)), snd r)"
  by (metis prod.collapse sum.collapse(2))

end
