(* ===== verification/Witnesses.thy ===== *)
theory Witnesses
  imports MembershipOutcomes Demo
begin

text \<open>
  A small database and concrete requests on it: each theorem of the access and membership
  theories is applied to an input that satisfies its hypotheses, which are evaluated.
\<close>

section \<open>Access\<close>

lemma access_level_is_strongest_grant_witness:
  "\<exists>t a w. tripForAccess demo_env demo_db 10 2 = Inr (t, a) \<and> workspaceGrant demo_env t 2 = Inr w \<and>
    accessRank (ta_level a) = max (accessRank (ta_level (ownerAccess t 2)))
      (max (accessRank (ta_level w)) (accessRank (ta_level (collaboratorAccess demo_db 10 2))))"
proof -
  have "\<not> isl (tripForAccess demo_env demo_db 10 2)" by code_simp
  then obtain t a where "tripForAccess demo_env demo_db 10 2 = Inr (t, a)" by (metis sum.collapse(2) surj_pair)
  then show ?thesis using access_level_is_strongest_grant by blast
qed

lemma owner_rights_only_for_owner_witness:
  "\<exists>t a. requireOwner demo_env demo_db 10 1 = Inr (t, a) \<and> tr_workspace t = None \<and> tr_user t = Some 1"
proof -
  have "\<not> isl (requireOwner demo_env demo_db 10 1)" by code_simp
  then obtain t a where *: "requireOwner demo_env demo_db 10 1 = Inr (t, a)" by (metis sum.collapse(2) surj_pair)
  have "tr_workspace (fst (projr (requireOwner demo_env demo_db 10 1))) = None" by code_simp
  then have "tr_workspace t = None" using * by simp
  with * owner_rights_only_for_owner [OF *] show ?thesis by auto
qed

section \<open>Runs\<close>

definition demo_run :: "trip_request list" where
  "demo_run = [ReqAccept 7 (Some (demo_user 3)) 10 101, ReqTransfer 8 301 (Some (demo_user 1)) 10 3,
     ReqLeave 9 (Some (demo_user 3)) 10, ReqRemove 9 (Some (demo_user 3)) 10 100]"

lemma membership_keys_invariant_witness: "db_ok (fold (serve demo_env (\<lambda>_. True)) demo_run demo_db)"
  by (rule membership_keys_invariant [OF demo_ok])

lemma members_join_by_own_request_witness:
  "\<exists>r \<in> set [ReqAccept 7 (Some (demo_user 3)) 10 101]. joins r = Some (10, 3) \<or> transfers r = Some (10, 3)"
proof (rule members_join_by_own_request [OF demo_ok])
  show "\<not> is_member demo_db 10 3" by code_simp
  show "is_member (fold (serve demo_env (\<lambda>_. True)) [ReqAccept 7 (Some (demo_user 3)) 10 101] demo_db) 10 3"
    by code_simp
qed

lemma failed_request_changes_nothing_witness:
  "serve demo_env (\<lambda>_. True) (ReqLeave 7 (Some (demo_user 1)) 10) demo_db = demo_db"
proof (rule failed_request_changes_nothing)
  show "request_fails demo_env (\<lambda>_. True) (ReqLeave 7 (Some (demo_user 1)) 10) demo_db" by code_simp
qed simp

lemma owner_changes_by_transfer_witness:
  "\<exists>pre post now nid user nxt. demo_run = pre @ ReqTransfer now nid (Some user) 10 nxt # post \<and>
    is_member (fold (serve demo_env (\<lambda>_. True)) pre demo_db) 10 nxt"
proof -
  have "trip_owner (fold (serve demo_env (\<lambda>_. True)) demo_run demo_db) 10 \<noteq> trip_owner demo_db 10" by code_simp
  from owner_changes_by_transfer [OF demo_ok this] show ?thesis by blast
qed

section \<open>Single requests\<close>

lemma accepted_invitation_gives_role_witness:
  "\<exists>db' c. GetTripCollaboratorByTripAndUser db' 10 4 = Inr c \<and> co_status c = CAccepted \<and>
    db' = snd (AcceptTripInvitation demo_env 7 300 (Some (demo_user 4)) 10 200 demo_db)"
proof -
  have "\<not> isl (fst (AcceptTripInvitation demo_env 7 300 (Some (demo_user 4)) 10 200 demo_db))" by code_simp
  from accepted_invitation_gives_role [OF demo_ok run_result [OF this]] show ?thesis by (auto simp: demo_user_def)
qed

lemma expired_invitation_is_refused_witness:
  "fst (AcceptTripInvitation demo_env 200 300 (Some (demo_user 4)) 10 200 demo_db) =
     Inl (ConflictErr ''invitation has expired'')"
proof -
  have "GetTripInvitationByID demo_db 10 200 = Inr demo_invitation" by code_simp
  moreover have "invitationMatchesUser demo_invitation (demo_user 4)" by code_simp
  ultimately show ?thesis
    using expired_invitation_is_refused [OF demo_ok, of 10 200 demo_invitation "demo_user 4" 200 demo_env 300]
    by (auto simp: demo_invitation_def)
qed

lemma transfer_swaps_rights_witness:
  "\<exists>t' db' a b. TransferTripOwnership demo_env 7 300 (Some (demo_user 1)) 10 2 demo_db = (Inr t', db') \<and>
    tripForAccess demo_env db' 10 2 = Inr (t', a) \<and> ta_level a = LevelOwner \<and>
    tripForAccess demo_env db' 10 1 = Inr (t', b) \<and> ta_level b = LevelEditor"
proof -
  let ?r = "TransferTripOwnership demo_env 7 300 (Some (demo_user 1)) 10 2 demo_db"
  have r: "\<not> isl (fst ?r)" and w: "tr_workspace (projr (fst ?r)) = None" by code_simp+
  from transfer_swaps_rights [OF demo_ok run_result [OF r] w] run_result [OF r]
  show ?thesis by (auto simp: demo_user_def)
qed

lemma leaving_ends_access_witness:
  "\<not> is_member (snd (LeaveTrip demo_env 7 (Some (demo_user 2)) 10 demo_db)) 10 2"
proof -
  have "\<not> isl (fst (LeaveTrip demo_env 7 (Some (demo_user 2)) 10 demo_db))" by code_simp
  from leaving_ends_access [OF demo_ok, of demo_env 7 "Some (demo_user 2)" 10] run_result [OF this]
  show ?thesis by (force simp: demo_user_def)
qed

lemma removal_stores_declined_row_witness:
  "\<exists>c. GetTripCollaboratorByID (snd (RemoveTripCollaboratorHandler demo_env 7 (Some (demo_user 1)) 10 100 demo_db)) 10 100 = Inr c \<and>
    co_status c = CDeclined"
proof -
  have "\<not> isl (fst (RemoveTripCollaboratorHandler demo_env 7 (Some (demo_user 1)) 10 100 demo_db))" by code_simp
  from removal_stores_declined_row [OF demo_ok, of demo_env 7 "Some (demo_user 1)" 10 100] run_result [OF this]
  show ?thesis by (metis old.unit.exhaust)
qed

lemma direct_accept_ignores_expiry_witness:
  "is_member (snd (AcceptTripCollaborator demo_env 200 (Some (demo_user 3)) 10 101 demo_db)) 10 3"
proof -
  have "GetTripCollaboratorByID demo_db 10 101 = Inr (demo_collab 101 3 CPending)" by code_simp
  from direct_accept_ignores_expiry [OF demo_ok this, of "demo_user 3" 100 200 demo_env]
  show ?thesis by (auto simp: demo_collab_def demo_user_def)
qed

end
