(* ===== verification/Expiring.thy ===== *)
theory Expiring
  imports Prelude
begin

text \<open>
  The contract of a store whose entries expire: \<open>live t s k\<close> is what a reader at time \<open>t\<close>
  finds under \<open>k\<close>, \<open>purge t\<close> drops entries that are expired at \<open>t\<close> (a cleanup loop, or a
  read that deletes what it finds expired). The edit locks and the provider cache provide it.
\<close>

locale expiring_store =
  fixes ok :: "'s \<Rightarrow> bool"
    and live :: "time \<Rightarrow> 's \<Rightarrow> 'k \<Rightarrow> 'v option"
    and purge :: "time \<Rightarrow> 's \<Rightarrow> 's"
  assumes purge_ok: "ok s \<Longrightarrow> ok (purge t s)"
    and purge_live: "ok s \<Longrightarrow> t' \<le> t \<Longrightarrow> live t (purge t' s) k = live t s k"
    and live_mono: "t \<le> t' \<Longrightarrow> live t' s k = Some v \<Longrightarrow> live t s k = Some v"
begin

lemma purge_run: "ok s \<Longrightarrow> \<forall>t' \<in> set ts. t' \<le> t \<Longrightarrow> live t (fold purge ts s) k = live t s k"
  by (induction ts arbitrary: s) (auto simp: purge_live purge_ok)

lemma dead_stays_dead: "live t s k = None \<Longrightarrow> t \<le> t' \<Longrightarrow> live t' s k = None"
  by (metis live_mono not_None_eq)

lemma purged_run_dead:
  "ok s \<Longrightarrow> live t s k = None \<Longrightarrow> \<forall>x \<in> set ts. x \<le> t' \<Longrightarrow> t \<le> t' \<Longrightarrow> live t' (fold purge ts s) k = None"
  by (simp add: purge_run dead_stays_dead)

end

end
