(* ===== verification/ServiceErrors.thy ===== *)
theory ServiceErrors
  imports TripStore
begin

text \<open>
  The HTTP status \<open>writeServiceError\<close> gives to an error of the services
  (\<open>http-server/handler/trip.go\<close>). \<open>ErrUnauthenticated\<close>, the domain's \<open>ErrConflict\<close>, and
  unexpected errors fall through to 500.
\<close>

fun service_status :: "app_error \<Rightarrow> nat" where
  "service_status PolicyBlocking = 400"
| "service_status (ConflictErr _) = 409"
| "service_status ExpectedRevisionRequired = 400"
| "service_status (ItineraryConflict _) = 409"
| "service_status (InvalidInput _) = 400"
| "service_status (DependencyErr _) = 502"
| "service_status ErrForbidden = 403"
| "service_status RegisteredUserNotFound = 404"
| "service_status ErrNotFound = 404"
| "service_status _ = 500"

end
