(* ===== verification/EditLocks.thy ===== *)
theory EditLocks
  imports Demo Expiring ServiceErrors StateErr
begin

text \<open>
  The advisory edit locks of \<open>internal/editlocks\<close>: one lock per trip and scope, held by a user
  until it expires. The manager's map goes from \<open>lockKey\<close> strings to locks; \<open>ustr\<close> is
  \<open>uuid.UUID.String\<close> of the uuid package, of which the code needs that different ids print
  differently (\<open>inj ustr\<close>). Each operation holds the mutex throughout, so an execution is a
  sequence of operations; \<open>now\<close> is what the manager's clock returns. Then the three handlers of
  \<open>http-server/handler/edit_lock.go\<close>, with the access check they make.
\<close>

section \<open>The manager\<close>

definition ScopeItinerary :: string where "ScopeItinerary = ''itinerary''"
definition DefaultTTL :: duration where "DefaultTTL = 180 * second"

datatype lock_error = ErrInvalidScope | TripIDRequired | UserIDRequired

record edit_lock =
  lk_trip :: uuid
  lk_scope :: string
  lk_user :: uuid
  lk_role :: string
  lk_name :: string
  lk_created_at :: time
  lk_expires_at :: time
  lk_renewed_at :: time

record edit_lock_view =
  vw_locked :: bool
  vw_scope :: string
  vw_trip :: uuid
  vw_user :: uuid
  vw_name :: "string option"
  vw_role :: string
  vw_by_current :: bool
  vw_created_at :: time
  vw_expires_at :: time
  vw_ttl_seconds :: int
  vw_disabled :: bool

record acquire_input =
  aq_trip :: uuid
  aq_scope :: string
  aq_user :: uuid
  aq_role :: string
  aq_name :: string
  aq_ttl :: duration

record acquire_result =
  ar_acquired :: bool
  ar_renewed :: bool
  ar_blocked :: bool
  ar_lock :: edit_lock_view

type_synonym lock_table = "string \<Rightarrow> edit_lock option"

definition NormalizeScope :: "string \<Rightarrow> lock_error + string" where
  "NormalizeScope scope =
    (if scope = [] then Inr ScopeItinerary
     else if scope \<noteq> ScopeItinerary then Inl ErrInvalidScope
     else Inr scope)"

definition lockKey :: "(uuid \<Rightarrow> string) \<Rightarrow> uuid \<Rightarrow> string \<Rightarrow> string" where
  "lockKey ustr tid scope = ustr tid @ '':'' @ scope"

text \<open>
  \<open>math.Ceil(d.Seconds())\<close> goes through a \<open>float64\<close>, which for durations of days is exact
  enough to round to the same second as \<open>ceil_seconds\<close>.
\<close>

definition ViewFromLock :: "edit_lock \<Rightarrow> uuid \<Rightarrow> edit_lock_view" where
  "ViewFromLock l cur =
    (let start = (if lk_renewed_at l = 0 then lk_created_at l else lk_renewed_at l);
         ttl = ceil_seconds (lk_expires_at l - start)
     in \<lparr>vw_locked = True, vw_scope = lk_scope l, vw_trip = lk_trip l, vw_user = lk_user l,
         vw_name = (if lk_name l \<noteq> [] then Some (lk_name l) else None), vw_role = lk_role l,
         vw_by_current = (lk_user l = cur), vw_created_at = lk_created_at l,
         vw_expires_at = lk_expires_at l, vw_ttl_seconds = (if ttl < 0 then 0 else ttl),
         vw_disabled = False\<rparr>)"

definition NewUnlockedView :: "uuid \<Rightarrow> string \<Rightarrow> edit_lock_view" where
  "NewUnlockedView tid scope =
    \<lparr>vw_locked = False, vw_scope = scope, vw_trip = tid, vw_user = 0, vw_name = None, vw_role = [],
     vw_by_current = False, vw_created_at = 0, vw_expires_at = 0, vw_ttl_seconds = 0,
     vw_disabled = False\<rparr>"

definition AcquireOrRenew ::
  "(uuid \<Rightarrow> string) \<Rightarrow> time \<Rightarrow> acquire_input \<Rightarrow> lock_table \<Rightarrow> (lock_error + acquire_result) \<times> lock_table" where
  "AcquireOrRenew ustr now inp m =
    (case NormalizeScope (trim_space (aq_scope inp)) of
       Inl e \<Rightarrow> (Inl e, m)
     | Inr scope \<Rightarrow>
        (if aq_trip inp = 0 then (Inl TripIDRequired, m)
         else if aq_user inp = 0 then (Inl UserIDRequired, m)
         else
          (let ttl = (if aq_ttl inp \<le> 0 then DefaultTTL else aq_ttl inp);
               key = lockKey ustr (aq_trip inp) scope;
               fresh = \<lparr>lk_trip = aq_trip inp, lk_scope = scope, lk_user = aq_user inp,
                 lk_role = trim_space (aq_role inp), lk_name = trim_space (aq_name inp),
                 lk_created_at = now, lk_expires_at = now + ttl, lk_renewed_at = now\<rparr>;
               take_new = (Inr \<lparr>ar_acquired = True, ar_renewed = False, ar_blocked = False,
                   ar_lock = ViewFromLock fresh (aq_user inp)\<rparr>, m(key \<mapsto> fresh))
           in case m key of
                None \<Rightarrow> take_new
              | Some l \<Rightarrow>
                 (if \<not> lk_expires_at l > now then take_new
                  else if lk_user l \<noteq> aq_user inp then
                    (Inr \<lparr>ar_acquired = False, ar_renewed = False, ar_blocked = True,
                       ar_lock = ViewFromLock l (aq_user inp)\<rparr>, m)
                  else
                   (let l' = l\<lparr>lk_role := trim_space (aq_role inp), lk_name := trim_space (aq_name inp),
                          lk_renewed_at := now, lk_expires_at := now + ttl\<rparr>
                    in (Inr \<lparr>ar_acquired = True, ar_renewed = True, ar_blocked = False,
                          ar_lock = ViewFromLock l' (aq_user inp)\<rparr>, m(key \<mapsto> l')))))))"

definition GetLock ::
  "(uuid \<Rightarrow> string) \<Rightarrow> time \<Rightarrow> uuid \<Rightarrow> string \<Rightarrow> uuid \<Rightarrow> lock_table \<Rightarrow>
   (lock_error + edit_lock_view option) \<times> lock_table" where
  "GetLock ustr now tid raw cur m =
    (case NormalizeScope (trim_space raw) of
       Inl e \<Rightarrow> (Inl e, m)
     | Inr scope \<Rightarrow>
        (if tid = 0 then (Inl TripIDRequired, m)
         else
          (let key = lockKey ustr tid scope
           in case m key of
                None \<Rightarrow> (Inr None, m)
              | Some l \<Rightarrow>
                 (if \<not> lk_expires_at l > now then (Inr None, m(key := None))
                  else (Inr (Some (ViewFromLock l cur)), m)))))"

definition ReleaseLock ::
  "(uuid \<Rightarrow> string) \<Rightarrow> time \<Rightarrow> uuid \<Rightarrow> string \<Rightarrow> uuid \<Rightarrow> lock_table \<Rightarrow>
   (lock_error + bool) \<times> lock_table" where
  "ReleaseLock ustr now tid raw uid m =
    (case NormalizeScope (trim_space raw) of
       Inl e \<Rightarrow> (Inl e, m)
     | Inr scope \<Rightarrow>
        (if tid = 0 then (Inl TripIDRequired, m)
         else if uid = 0 then (Inl UserIDRequired, m)
         else
          (let key = lockKey ustr tid scope
           in case m key of
                None \<Rightarrow> (Inr False, m)
              | Some l \<Rightarrow>
                 (if \<not> lk_expires_at l > now then (Inr False, m(key := None))
                  else if lk_user l \<noteq> uid then (Inr False, m)
                  else (Inr True, m(key := None))))))"

definition CleanupExpired :: "time \<Rightarrow> time \<Rightarrow> lock_table \<Rightarrow> lock_table" where
  "CleanupExpired clock arg m =
    (\<lambda>k. case m k of
       None \<Rightarrow> None
     | Some l \<Rightarrow> (if \<not> lk_expires_at l > (if arg = 0 then clock else arg) then None else Some l))"

section \<open>The handlers\<close>

text \<open>
  A response is its status and what the body says. \<open>scope\<close> is the decoded request: \<open>None\<close> for
  a body that is not JSON. The release handler reads the lock first, to answer 403.
\<close>

datatype lock_response =
    RespView nat edit_lock_view
  | RespAcquire nat bool bool bool "edit_lock_view option"
  | RespReleased nat bool
  | RespError nat

definition lock_status :: "lock_error \<Rightarrow> nat" where
  "lock_status e = (if e = ErrInvalidScope then 400 else 500)"

record lock_config =
  lc_wired :: bool
  lc_enabled :: bool
  lc_ttl :: duration

definition editLocksEnabled :: "lock_config \<Rightarrow> bool" where
  "editLocksEnabled cfg \<longleftrightarrow> lc_wired cfg \<and> lc_enabled cfg"

definition editLockScope :: "string option \<Rightarrow> lock_response + string" where
  "editLockScope raw =
    (case raw of
       None \<Rightarrow> Inl (RespError 400)
     | Some s \<Rightarrow> (case NormalizeScope s of Inl _ \<Rightarrow> Inl (RespError 400) | Inr scope \<Rightarrow> Inr scope))"

type_synonym 'a lock_handler = "(lock_table, lock_response, 'a) op"

definition lockCaller :: "auth_user option \<Rightarrow> auth_user lock_handler" where
  "lockCaller u = spure (case u of None \<Rightarrow> Inl (RespError 401) | Some user \<Rightarrow> Inr user)"

definition lockAccess :: "svc_env \<Rightarrow> trip_db \<Rightarrow> auth_user option \<Rightarrow> uuid \<Rightarrow> trip_access lock_handler" where
  "lockAccess env db u tid =
    spure (map_err (\<lambda>e. RespError (service_status e)) (GetTripAccess env db u tid))"

definition GetEditLock ::
  "svc_env \<Rightarrow> trip_db \<Rightarrow> (uuid \<Rightarrow> string) \<Rightarrow> lock_config \<Rightarrow> time \<Rightarrow> auth_user option \<Rightarrow> uuid \<Rightarrow>
   string option \<Rightarrow> lock_response lock_handler" where
  "GetEditLock env db ustr cfg now u tid raw =
    sbind (lockCaller u) (\<lambda>user.
    sbind (spure (editLockScope raw)) (\<lambda>scope.
    sbind (lockAccess env db u tid) (\<lambda>_.
    if \<not> editLocksEnabled cfg then
      sret (RespView 200 ((NewUnlockedView tid scope)\<lparr>vw_disabled := True\<rparr>))
    else
      sbind (serr (\<lambda>e. RespError (lock_status e)) (GetLock ustr now tid scope (au_id user))) (\<lambda>v.
      sret (RespView 200 (case v of None \<Rightarrow> NewUnlockedView tid scope | Some w \<Rightarrow> w))))))"

definition AcquireEditLock ::
  "svc_env \<Rightarrow> trip_db \<Rightarrow> (uuid \<Rightarrow> string) \<Rightarrow> lock_config \<Rightarrow> time \<Rightarrow> auth_user option \<Rightarrow> uuid \<Rightarrow>
   string option \<Rightarrow> lock_response lock_handler" where
  "AcquireEditLock env db ustr cfg now u tid raw =
    sbind (lockCaller u) (\<lambda>user.
    sbind (spure (editLockScope raw)) (\<lambda>scope.
    sbind (lockAccess env db u tid) (\<lambda>access.
    sbind (scheck (CanEdit access) (RespError (service_status ErrForbidden))) (\<lambda>_.
    if \<not> editLocksEnabled cfg then sret (RespAcquire 200 True False True None)
    else
      sbind (serr (\<lambda>e. RespError (lock_status e))
        (AcquireOrRenew ustr now \<lparr>aq_trip = tid, aq_scope = scope, aq_user = au_id user,
            aq_role = level_string (ta_level access), aq_name = [], aq_ttl = lc_ttl cfg\<rparr>)) (\<lambda>r.
      if ar_blocked r then sret (RespAcquire 409 False False False (Some (ar_lock r)))
      else sret (RespAcquire 200 (ar_acquired r) (ar_renewed r) False (Some (ar_lock r))))))))"

definition ReleaseEditLock ::
  "svc_env \<Rightarrow> trip_db \<Rightarrow> (uuid \<Rightarrow> string) \<Rightarrow> lock_config \<Rightarrow> time \<Rightarrow> time \<Rightarrow> auth_user option \<Rightarrow> uuid \<Rightarrow>
   string option \<Rightarrow> lock_response lock_handler" where
  "ReleaseEditLock env db ustr cfg now now' u tid raw =
    sbind (lockCaller u) (\<lambda>user.
    sbind (spure (editLockScope raw)) (\<lambda>scope.
    sbind (lockAccess env db u tid) (\<lambda>access.
    sbind (scheck (CanEdit access) (RespError (service_status ErrForbidden))) (\<lambda>_.
    if \<not> editLocksEnabled cfg then sret (RespReleased 200 False)
    else
      sbind (serr (\<lambda>e. RespError (lock_status e)) (GetLock ustr now tid scope (au_id user))) (\<lambda>v.
      if (case v of None \<Rightarrow> False | Some w \<Rightarrow> vw_locked w \<and> \<not> vw_by_current w)
      then sfail (RespError 403)
      else
        sbind (serr (\<lambda>e. RespError (lock_status e)) (ReleaseLock ustr now' tid scope (au_id user))) (\<lambda>b.
        sret (RespReleased 200 b)))))))"

section \<open>The contract\<close>

text \<open>Who holds the lock of a trip at time \<open>t\<close>, and until when.\<close>

definition holder :: "(uuid \<Rightarrow> string) \<Rightarrow> time \<Rightarrow> lock_table \<Rightarrow> uuid \<Rightarrow> (uuid \<times> time) option" where
  "holder ustr t m tid =
    (case m (lockKey ustr tid ScopeItinerary) of
       None \<Rightarrow> None
     | Some l \<Rightarrow> (if lk_expires_at l > t then Some (lk_user l, lk_expires_at l) else None))"

lemma lockKey_inj: "inj ustr \<Longrightarrow> lockKey ustr a s = lockKey ustr b s \<longleftrightarrow> a = b"
  by (auto simp: lockKey_def dest: injD)

lemma NormalizeScope_Inr: "NormalizeScope s = Inr scope \<Longrightarrow> scope = ScopeItinerary"
  by (auto simp: NormalizeScope_def split: if_splits)

lemma holder_drop:
  assumes "inj ustr" "m (lockKey ustr tid ScopeItinerary) = Some l" "lk_expires_at l \<le> t'" "t' \<le> t"
  shows "holder ustr t (m(lockKey ustr tid ScopeItinerary := None)) x = holder ustr t m x"
  using assms by (auto simp: holder_def lockKey_inj split: option.splits)

lemma GetLock_holder:
  assumes "inj ustr" "now \<le> t"
  shows "holder ustr t (snd (GetLock ustr now tid raw cur m)) x = holder ustr t m x"
  using assms holder_drop [OF assms(1), of m tid _ now t x]
  by (auto simp: GetLock_def Let_def split: sum.splits option.splits dest!: NormalizeScope_Inr)

lemma Cleanup_holder:
  assumes "(if arg = 0 then clock else arg) \<le> t"
  shows "holder ustr t (CleanupExpired clock arg m) x = holder ustr t m x"
proof (cases "m (lockKey ustr x ScopeItinerary)")
  case None
  then show ?thesis by (simp add: holder_def CleanupExpired_def)
next
  case (Some l)
  show ?thesis
    by (cases "lk_expires_at l > (if arg = 0 then clock else arg)")
      (use Some assms in \<open>auto simp: holder_def CleanupExpired_def split: if_splits\<close>)
qed

lemma holder_earlier: "t \<le> t' \<Longrightarrow> holder ustr t' m x = Some v \<Longrightarrow> holder ustr t m x = Some v"
  by (auto simp: holder_def split: option.splits if_splits)

interpretation locks: expiring_store "\<lambda>_. True" "holder ustr" "\<lambda>t. CleanupExpired t t" for ustr
proof
  show "holder ustr t (CleanupExpired t' t' s) k = holder ustr t s k" if "t' \<le> t" for t' t s k
    using that by (intro Cleanup_holder) simp
qed (simp, rule holder_earlier)

text \<open>The lock the manager writes, as the contract sees it.\<close>

definition grant_ttl :: "acquire_input \<Rightarrow> duration" where
  "grant_ttl inp = (if aq_ttl inp \<le> 0 then DefaultTTL else aq_ttl inp)"

definition valid_acquire :: "acquire_input \<Rightarrow> bool" where
  "valid_acquire inp \<longleftrightarrow>
     NormalizeScope (trim_space (aq_scope inp)) = Inr ScopeItinerary \<and> aq_trip inp \<noteq> 0 \<and> aq_user inp \<noteq> 0"

lemma holder_upd:
  assumes "inj ustr"
  shows "holder ustr t (m(lockKey ustr tid ScopeItinerary \<mapsto> l)) x =
    (if x = tid then (if lk_expires_at l > t then Some (lk_user l, lk_expires_at l) else None)
     else holder ustr t m x)"
  using assms by (simp add: holder_def lockKey_inj)

lemma acquire_invalid:
  "\<not> valid_acquire inp \<Longrightarrow> snd (AcquireOrRenew ustr now inp m) = m \<and> (\<exists>e. fst (AcquireOrRenew ustr now inp m) = Inl e)"
  by (auto simp: AcquireOrRenew_def valid_acquire_def split: sum.splits dest: NormalizeScope_Inr)

lemma acquire_blocked:
  assumes "valid_acquire inp" "holder ustr now m (aq_trip inp) = Some (v, e)" "v \<noteq> aq_user inp"
  shows "snd (AcquireOrRenew ustr now inp m) = m"
    "\<exists>r. fst (AcquireOrRenew ustr now inp m) = Inr r \<and> \<not> ar_acquired r \<and> ar_blocked r \<and>
      vw_user (ar_lock r) = v \<and> vw_expires_at (ar_lock r) = e"
  using assms by (auto simp: AcquireOrRenew_def valid_acquire_def holder_def Let_def ViewFromLock_def
      split: option.splits if_splits)

lemma acquire_granted:
  assumes "inj ustr" "valid_acquire inp"
    and "\<And>v e. holder ustr now m (aq_trip inp) = Some (v, e) \<Longrightarrow> v = aq_user inp"
  shows "\<exists>r. fst (AcquireOrRenew ustr now inp m) = Inr r \<and> ar_acquired r \<and> \<not> ar_blocked r \<and>
      (ar_renewed r \<longleftrightarrow> holder ustr now m (aq_trip inp) \<noteq> None) \<and>
      vw_user (ar_lock r) = aq_user inp \<and> vw_expires_at (ar_lock r) = now + grant_ttl inp"
    and "holder ustr t (snd (AcquireOrRenew ustr now inp m)) x =
      (if x = aq_trip inp then (if t < now + grant_ttl inp then Some (aq_user inp, now + grant_ttl inp) else None)
       else holder ustr t m x)"
proof -
  let ?k = "lockKey ustr (aq_trip inp) ScopeItinerary"
  show "\<exists>r. fst (AcquireOrRenew ustr now inp m) = Inr r \<and> ar_acquired r \<and> \<not> ar_blocked r \<and>
      (ar_renewed r \<longleftrightarrow> holder ustr now m (aq_trip inp) \<noteq> None) \<and>
      vw_user (ar_lock r) = aq_user inp \<and> vw_expires_at (ar_lock r) = now + grant_ttl inp"
    using assms(2,3) by (auto simp: AcquireOrRenew_def valid_acquire_def holder_def Let_def ViewFromLock_def
      grant_ttl_def split: option.splits if_splits)
  have "\<exists>l. snd (AcquireOrRenew ustr now inp m) = m(?k \<mapsto> l) \<and> lk_user l = aq_user inp \<and>
      lk_expires_at l = now + grant_ttl inp"
    using assms(2,3) by (auto simp: AcquireOrRenew_def valid_acquire_def holder_def Let_def
      grant_ttl_def split: option.splits if_splits)
  then show "holder ustr t (snd (AcquireOrRenew ustr now inp m)) x =
      (if x = aq_trip inp then (if t < now + grant_ttl inp then Some (aq_user inp, now + grant_ttl inp) else None)
       else holder ustr t m x)"
    using assms(1) by (auto simp: holder_upd)
qed

lemma release_holder:
  assumes "inj ustr" "now \<le> t"
  shows "holder ustr t (snd (ReleaseLock ustr now tid raw uid m)) x =
    (if x = tid \<and> fst (ReleaseLock ustr now tid raw uid m) = Inr True then None else holder ustr t m x)"
    and "fst (ReleaseLock ustr now tid raw uid m) = Inr True \<Longrightarrow> \<exists>e. holder ustr now m tid = Some (uid, e)"
  using assms holder_drop [OF assms(1), of m tid _ now t x]
  by (auto simp: ReleaseLock_def Let_def holder_def lockKey_inj split: sum.splits option.splits if_splits
      dest!: NormalizeScope_Inr)

section \<open>Runs of the manager\<close>

datatype lock_request =
    LAcquire time acquire_input
  | LGet time uuid string uuid
  | LRelease time uuid string uuid
  | LCleanup time time

fun lock_step :: "(uuid \<Rightarrow> string) \<Rightarrow> lock_request \<Rightarrow> lock_table \<Rightarrow> lock_table" where
  "lock_step ustr (LAcquire now inp) m = snd (AcquireOrRenew ustr now inp m)"
| "lock_step ustr (LGet now tid raw cur) m = snd (GetLock ustr now tid raw cur m)"
| "lock_step ustr (LRelease now tid raw uid) m = snd (ReleaseLock ustr now tid raw uid m)"
| "lock_step ustr (LCleanup clock arg) m = CleanupExpired clock arg m"

fun lock_time :: "lock_request \<Rightarrow> time" where
  "lock_time (LAcquire now inp) = now"
| "lock_time (LGet now tid raw cur) = now"
| "lock_time (LRelease now tid raw uid) = now"
| "lock_time (LCleanup clock arg) = (if arg = 0 then clock else arg)"

text \<open>The requests by which the holder itself shortens, extends or gives up its lock.\<close>

fun acts_on :: "uuid \<Rightarrow> uuid \<Rightarrow> lock_request \<Rightarrow> bool" where
  "acts_on tid uid (LAcquire now inp) \<longleftrightarrow> aq_trip inp = tid \<and> aq_user inp = uid"
| "acts_on tid uid (LRelease now t raw u) \<longleftrightarrow> t = tid \<and> u = uid"
| "acts_on tid uid _ \<longleftrightarrow> False"

lemma step_keeps_holder:
  assumes "inj ustr" "holder ustr t m tid = Some (uid, e)" "lock_time r \<le> t" "\<not> acts_on tid uid r"
  shows "holder ustr t (lock_step ustr r m) tid = Some (uid, e)"
proof (cases r)
  case (LAcquire now inp)
  with assms(3) have "holder ustr now m tid = Some (uid, e)" using assms(2) holder_earlier by fastforce
  show ?thesis
  proof (cases "valid_acquire inp \<and> aq_trip inp = tid")
    case True
    then have "aq_user inp \<noteq> uid" using assms(4) LAcquire by auto
    then show ?thesis
      using acquire_blocked(1) [of inp ustr now m uid e] True \<open>holder ustr now m tid = Some (uid, e)\<close> assms(2) LAcquire
      by auto
  next
    case False
    show ?thesis
    proof (cases "valid_acquire inp")
      case True
      with False have ne: "aq_trip inp \<noteq> tid" by simp
      show ?thesis
      proof (cases "\<exists>v e. holder ustr now m (aq_trip inp) = Some (v, e) \<and> v \<noteq> aq_user inp")
        case True
        then show ?thesis using acquire_blocked(1) \<open>valid_acquire inp\<close> assms(2) LAcquire by fastforce
      next
        case no: False
        then show ?thesis
          using acquire_granted(2) [OF assms(1) True, of now m t tid] ne assms(2) LAcquire by auto
      qed
    next
      case inv: False
      then have "snd (AcquireOrRenew ustr now inp m) = m" using acquire_invalid by blast
      then show ?thesis using assms(2) LAcquire by simp
    qed
  qed
next
  case (LGet now x raw cur)
  then show ?thesis using GetLock_holder [OF assms(1)] assms(2,3) by simp
next
  case (LRelease now x raw u)
  then have le: "now \<le> t" using assms(3) by simp
  have "\<not> (x = tid \<and> fst (ReleaseLock ustr now x raw u m) = Inr True)"
  proof
    assume *: "x = tid \<and> fst (ReleaseLock ustr now x raw u m) = Inr True"
    then obtain e' where "holder ustr now m tid = Some (u, e')"
      using release_holder(2) [OF assms(1) le, of x raw u m] by auto
    then have "u = uid" using holder_earlier [OF le assms(2)] by simp
    with * assms(4) LRelease show False by simp
  qed
  then show ?thesis using release_holder(1) [OF assms(1) le, of x raw u m tid] assms(2) LRelease by auto
next
  case (LCleanup clock arg)
  then show ?thesis using Cleanup_holder [of arg clock t ustr m tid] assms(2,3) by simp
qed

lemma run_keeps_holder:
  assumes "inj ustr" "holder ustr t m tid = Some (uid, e)"
    "\<forall>r \<in> set rs. lock_time r \<le> t \<and> \<not> acts_on tid uid r"
  shows "holder ustr t (fold (lock_step ustr) rs m) tid = Some (uid, e)"
  using assms(2,3) by (induction rs arbitrary: m) (auto simp: step_keeps_holder [OF assms(1)])

lemma acquired_holder:
  assumes "inj ustr" "fst (AcquireOrRenew ustr now inp m) = Inr r" "ar_acquired r" "t < now + grant_ttl inp"
  shows "holder ustr t (snd (AcquireOrRenew ustr now inp m)) (aq_trip inp) =
    Some (aq_user inp, now + grant_ttl inp)"
proof -
  have v: "valid_acquire inp" using acquire_invalid [of inp ustr now m] assms(2) by auto
  have "v = aq_user inp" if "holder ustr now m (aq_trip inp) = Some (v, e)" for v e
    using acquire_blocked(2) [OF v that] assms(2,3) by auto
  then show ?thesis using acquire_granted(2) [OF assms(1) v, of now m t "aq_trip inp"] assms(4) by simp
qed

text \<open>
  C16. Mutual exclusion. When a user has acquired the lock of a trip at time \<open>t0\<close>, then until the
  lock's TTL is over every acquisition by another user is refused and names the holder, whatever
  requests of other users, reads and cleanups happened in between (the holder did not renew or
  release it).
\<close>

theorem lock_excludes_others:
  assumes "inj ustr"
    and "fst (AcquireOrRenew ustr t0 inp m) = Inr r" "ar_acquired r"
    and "\<forall>q \<in> set rs. lock_time q \<le> t \<and> \<not> acts_on (aq_trip inp) (aq_user inp) q"
    and "t < t0 + grant_ttl inp"
    and "valid_acquire inp'" "aq_trip inp' = aq_trip inp" "aq_user inp' \<noteq> aq_user inp"
  shows "\<exists>r'. AcquireOrRenew ustr t inp' (fold (lock_step ustr) rs (snd (AcquireOrRenew ustr t0 inp m))) =
      (Inr r', fold (lock_step ustr) rs (snd (AcquireOrRenew ustr t0 inp m))) \<and>
    \<not> ar_acquired r' \<and> ar_blocked r' \<and> vw_user (ar_lock r') = aq_user inp"
proof -
  let ?m = "fold (lock_step ustr) rs (snd (AcquireOrRenew ustr t0 inp m))"
  have "holder ustr t ?m (aq_trip inp') = Some (aq_user inp, t0 + grant_ttl inp)"
    unfolding assms(7) using acquired_holder [OF assms(1-3,5)] assms(4) by (rule run_keeps_holder [OF assms(1)])
  from acquire_blocked [OF assms(6) this] assms(8)
  show ?thesis by (metis prod.collapse)
qed

text \<open>
  C17. Acquiring refines the contract: with a valid request the outcome depends only on who
  holds the trip's lock. Held by another user, the table stays as it is and the answer names
  the holder; free or held by the caller, the caller holds it from then on for the TTL (180
  seconds when none is given), the answer says renewed exactly if the caller held it, and the
  locks of other trips are untouched.
\<close>

theorem acquire_refines_contract:
  assumes "inj ustr" "valid_acquire inp"
  shows "case holder ustr now m (aq_trip inp) of
      Some (v, e) \<Rightarrow>
        (if v \<noteq> aq_user inp
         then \<exists>r. AcquireOrRenew ustr now inp m = (Inr r, m) \<and> \<not> ar_acquired r \<and> ar_blocked r \<and>
           vw_user (ar_lock r) = v \<and> vw_expires_at (ar_lock r) = e
         else \<exists>r m'. AcquireOrRenew ustr now inp m = (Inr r, m') \<and> ar_acquired r \<and> ar_renewed r \<and>
           (\<forall>t x. holder ustr t m' x = (if x = aq_trip inp
              then (if t < now + grant_ttl inp then Some (aq_user inp, now + grant_ttl inp) else None)
              else holder ustr t m x)))
    | None \<Rightarrow> \<exists>r m'. AcquireOrRenew ustr now inp m = (Inr r, m') \<and> ar_acquired r \<and> \<not> ar_renewed r \<and>
           (\<forall>t x. holder ustr t m' x = (if x = aq_trip inp
              then (if t < now + grant_ttl inp then Some (aq_user inp, now + grant_ttl inp) else None)
              else holder ustr t m x))"
proof (cases "\<exists>v e. holder ustr now m (aq_trip inp) = Some (v, e) \<and> v \<noteq> aq_user inp")
  case True
  then obtain v e where h: "holder ustr now m (aq_trip inp) = Some (v, e)" "v \<noteq> aq_user inp" by blast
  from acquire_blocked [OF assms(2) h] obtain r where
    "AcquireOrRenew ustr now inp m = (Inr r, m)" "\<not> ar_acquired r" "ar_blocked r"
    "vw_user (ar_lock r) = v" "vw_expires_at (ar_lock r) = e" by (metis prod.collapse)
  then show ?thesis using h by auto
next
  case False
  then have own: "\<And>v e. holder ustr now m (aq_trip inp) = Some (v, e) \<Longrightarrow> v = aq_user inp" by blast
  have "\<exists>r. fst (AcquireOrRenew ustr now inp m) = Inr r \<and> ar_acquired r \<and> \<not> ar_blocked r \<and>
      (ar_renewed r \<longleftrightarrow> holder ustr now m (aq_trip inp) \<noteq> None) \<and>
      vw_user (ar_lock r) = aq_user inp \<and> vw_expires_at (ar_lock r) = now + grant_ttl inp"
    by (rule acquire_granted(1) [OF assms]) (rule own)
  then obtain r where r: "AcquireOrRenew ustr now inp m = (Inr r, snd (AcquireOrRenew ustr now inp m))"
    "ar_acquired r" "ar_renewed r \<longleftrightarrow> holder ustr now m (aq_trip inp) \<noteq> None"
    by (metis prod.collapse)
  have h: "holder ustr t (snd (AcquireOrRenew ustr now inp m)) x =
      (if x = aq_trip inp then (if t < now + grant_ttl inp then Some (aq_user inp, now + grant_ttl inp) else None)
       else holder ustr t m x)" for t x
    by (rule acquire_granted(2) [OF assms]) (rule own)
  show ?thesis
  proof (cases "holder ustr now m (aq_trip inp)")
    case None
    with r h show ?thesis by (auto intro!: exI [of _ r] exI [of _ "snd (AcquireOrRenew ustr now inp m)"])
  next
    case (Some p)
    obtain v e where p: "p = (v, e)" by (cases p)
    then have "v = aq_user inp" using own Some by simp
    with Some p r h show ?thesis
      by (auto intro!: exI [of _ r] exI [of _ "snd (AcquireOrRenew ustr now inp m)"])
  qed
qed

section \<open>The handlers respect roles and holders\<close>

lemma GetTripAccess_Inr:
  "GetTripAccess env db u tid = Inr a \<longleftrightarrow>
     (\<exists>user t. u = Some user \<and> tripForAccess env db tid (au_id user) = Inr (t, a))"
  by (auto simp: GetTripAccess_def MustUserFromContext_def rbind_Inr_iff requireViewer_Inr split: option.splits)

lemmas lock_handler_defs = sbind_def spure_def scheck_def sret_def sfail_def serr_def map_err_def
  lockCaller_def lockAccess_def

lemma ReleaseEditLock_cases:
  assumes "ReleaseEditLock env db ustr cfg now now' u tid raw m = (answer, m')"
  shows "(m' = m \<and> answer \<noteq> Inr (RespReleased 200 True)) \<or>
    (\<exists>scope cur. m' = snd (GetLock ustr now tid scope cur m) \<and> answer \<noteq> Inr (RespReleased 200 True)) \<or>
    (\<exists>user t a scope. u = Some user \<and> tripForAccess env db tid (au_id user) = Inr (t, a) \<and>
       (ta_level a = LevelOwner \<or> ta_level a = LevelEditor) \<and>
       m' = snd (ReleaseLock ustr now' tid scope (au_id user) (snd (GetLock ustr now tid scope (au_id user) m))) \<and>
       (answer = Inr (RespReleased 200 True) \<longleftrightarrow>
        fst (ReleaseLock ustr now' tid scope (au_id user) (snd (GetLock ustr now tid scope (au_id user) m))) = Inr True))"
proof (cases "\<exists>user scope a. u = Some user \<and> editLockScope raw = Inr scope \<and> GetTripAccess env db u tid = Inr a \<and>
    CanEdit a \<and> editLocksEnabled cfg")
  case False
  then have "m' = m \<and> answer \<noteq> Inr (RespReleased 200 True)"
    using assms unfolding ReleaseEditLock_def
    by (auto simp: lock_handler_defs split: option.splits sum.splits if_splits)
  then show ?thesis by blast
next
  case True
  then obtain user scope a where pre: "u = Some user" "editLockScope raw = Inr scope"
    "GetTripAccess env db u tid = Inr a" "CanEdit a" "editLocksEnabled cfg" by blast
  obtain g m1 where g: "GetLock ustr now tid scope (au_id user) m = (g, m1)" by fastforce
  obtain r m2 where r: "ReleaseLock ustr now' tid scope (au_id user) m1 = (r, m2)" by fastforce
  obtain t where t: "tripForAccess env db tid (au_id user) = Inr (t, a)"
    using pre(1,3) by (auto simp: GetTripAccess_Inr)
  have "ReleaseEditLock env db ustr cfg now now' u tid raw m =
    (case g of Inl e \<Rightarrow> (Inl (RespError (lock_status e)), m1)
     | Inr v \<Rightarrow> (if (case v of None \<Rightarrow> False | Some w \<Rightarrow> vw_locked w \<and> \<not> vw_by_current w)
         then (Inl (RespError 403), m1)
         else (case r of Inl e \<Rightarrow> (Inl (RespError (lock_status e)), m2) | Inr b \<Rightarrow> (Inr (RespReleased 200 b), m2))))"
    using pre g r unfolding ReleaseEditLock_def by (simp add: lock_handler_defs split: sum.split)
  with assms have "(m' = m1 \<and> answer \<noteq> Inr (RespReleased 200 True)) \<or>
      (m' = m2 \<and> (answer = Inr (RespReleased 200 True) \<longleftrightarrow> r = Inr True))"
    by (auto split: if_splits sum.splits)
  moreover have "m1 = snd (GetLock ustr now tid scope (au_id user) m)" using g by simp
  moreover have "m2 = snd (ReleaseLock ustr now' tid scope (au_id user) m1)"
    "r = fst (ReleaseLock ustr now' tid scope (au_id user) m1)" using r by simp_all
  moreover have "ta_level a = LevelOwner \<or> ta_level a = LevelEditor" using pre(4) by simp
  ultimately show ?thesis using pre(1) t by metis
qed

text \<open>
  Releasing through the API: an answer "released" goes only to an editor or the owner of
  the trip who held its lock, and afterwards nobody holds it; in every other case the holder of
  every trip's lock is the same as before, so nobody can drop another user's lock.
\<close>

theorem release_only_by_holder:
  assumes "inj ustr" "now \<le> now'"
    and "ReleaseEditLock env db ustr cfg now now' u tid raw m = (answer, m')"
  shows "(if answer = Inr (RespReleased 200 True)
     then \<exists>user t a e. u = Some user \<and> tripForAccess env db tid (au_id user) = Inr (t, a) \<and>
       (ta_level a = LevelOwner \<or> ta_level a = LevelEditor) \<and>
       holder ustr now' m tid = Some (au_id user, e) \<and>
       (\<forall>x. holder ustr now' m' x = (if x = tid then None else holder ustr now' m x))
     else \<forall>x. holder ustr now' m' x = holder ustr now' m x)"
proof -
  have keep: ?thesis if "m' = m \<or> (\<exists>scope cur. m' = snd (GetLock ustr now tid scope cur m))"
    "answer \<noteq> Inr (RespReleased 200 True)"
    using that GetLock_holder [OF assms(1,2)] by auto
  have rel: ?thesis if u: "u = Some user" "tripForAccess env db tid (au_id user) = Inr (t, a)"
      "ta_level a = LevelOwner \<or> ta_level a = LevelEditor"
    and m': "m' = snd (ReleaseLock ustr now' tid scope (au_id user) (snd (GetLock ustr now tid scope (au_id user) m)))"
    and ans: "answer = Inr (RespReleased 200 True) \<longleftrightarrow>
        fst (ReleaseLock ustr now' tid scope (au_id user) (snd (GetLock ustr now tid scope (au_id user) m))) = Inr True"
    for user t a scope
  proof -
    let ?m1 = "snd (GetLock ustr now tid scope (au_id user) m)"
    note h = release_holder(1) [OF assms(1) order_refl, of now' tid scope "au_id user" ?m1]
      GetLock_holder [OF assms(1,2), of tid scope "au_id user" m]
    show ?thesis
    proof (cases "answer = Inr (RespReleased 200 True)")
      case True
      then obtain e where "holder ustr now' ?m1 tid = Some (au_id user, e)"
        using ans release_holder(2) [OF assms(1) order_refl] by blast
      with True show ?thesis using u h m' ans by auto
    next
      case False
      then show ?thesis using h m' ans by auto
    qed
  qed
  from ReleaseEditLock_cases [OF assms(3)] show ?thesis using keep rel by blast
qed

section \<open>Witnesses\<close>

definition demo_ustr :: "uuid \<Rightarrow> string" where
  "demo_ustr u = replicate (unat u) CHR ''x''"

lemma demo_ustr_inj: "inj demo_ustr"
proof (rule injI)
  fix a b
  assume "demo_ustr a = demo_ustr b"
  then have "length (demo_ustr a) = length (demo_ustr b)" by simp
  then show "a = b" by (simp add: demo_ustr_def word_unat_eq_iff)
qed

definition demo_acquire :: "uuid \<Rightarrow> acquire_input" where
  "demo_acquire u = \<lparr>aq_trip = 10, aq_scope = [], aq_user = u, aq_role = ''editor'', aq_name = [], aq_ttl = 0\<rparr>"

lemma demo_acquire_valid: "u \<noteq> 0 \<Longrightarrow> valid_acquire (demo_acquire u)"
proof -
  have "NormalizeScope (trim_space []) = Inr ScopeItinerary" by code_simp
  then show "u \<noteq> 0 \<Longrightarrow> valid_acquire (demo_acquire u)" by (simp add: valid_acquire_def demo_acquire_def)
qed

lemma lock_excludes_others_witness:
  "\<exists>r'. fst (AcquireOrRenew demo_ustr 30 (demo_acquire 2)
      (fold (lock_step demo_ustr) [LRelease 10 10 [] 2, LCleanup 0 20, LGet 25 10 [] 3]
        (snd (AcquireOrRenew demo_ustr 5 (demo_acquire 1) Map.empty)))) = Inr r' \<and>
    ar_blocked r' \<and> vw_user (ar_lock r') = 1"
proof -
  have "\<not> isl (fst (AcquireOrRenew demo_ustr 5 (demo_acquire 1) Map.empty))" by code_simp
  then obtain r where r: "fst (AcquireOrRenew demo_ustr 5 (demo_acquire 1) Map.empty) = Inr r"
    by (metis sum.collapse(2))
  have "ar_acquired (projr (fst (AcquireOrRenew demo_ustr 5 (demo_acquire 1) Map.empty)))" by code_simp
  then have "ar_acquired r" using r by simp
  from lock_excludes_others [OF demo_ustr_inj r this, of "[LRelease 10 10 [] 2, LCleanup 0 20, LGet 25 10 [] 3]" 30
    "demo_acquire 2"] demo_acquire_valid [of 2]
  show ?thesis by (auto simp: demo_acquire_def grant_ttl_def DefaultTTL_def second_def)
qed

lemma acquire_refines_contract_witness:
  "\<exists>r m'. AcquireOrRenew demo_ustr 5 (demo_acquire 1) Map.empty = (Inr r, m') \<and> ar_acquired r \<and> \<not> ar_renewed r \<and>
    holder demo_ustr 6 m' 10 = Some (1, 5 + 180 * second)"
  using acquire_refines_contract [OF demo_ustr_inj, of "demo_acquire 1" 5 Map.empty] demo_acquire_valid [of 1]
  by (auto simp: holder_def demo_acquire_def grant_ttl_def DefaultTTL_def second_def)

lemma release_only_by_holder_witness:
  "\<exists>m'. ReleaseEditLock demo_env demo_db demo_ustr \<lparr>lc_wired = True, lc_enabled = True, lc_ttl = 0\<rparr> 7 8
      (Some (demo_user 1)) 10 (Some []) (snd (AcquireOrRenew demo_ustr 5 (demo_acquire 1) Map.empty)) =
    (Inr (RespReleased 200 True), m') \<and> holder demo_ustr 8 m' 10 = None"
proof -
  let ?run = "ReleaseEditLock demo_env demo_db demo_ustr \<lparr>lc_wired = True, lc_enabled = True, lc_ttl = 0\<rparr> 7 8
      (Some (demo_user 1)) 10 (Some []) (snd (AcquireOrRenew demo_ustr 5 (demo_acquire 1) Map.empty))"
  have a: "fst ?run = Inr (RespReleased 200 True)" by code_simp
  have "?run = (Inr (RespReleased 200 True), snd ?run)" using a by (metis prod.collapse)
  from release_only_by_holder [OF demo_ustr_inj _ this] this
  show ?thesis by auto
qed

end
