(* ===== verification/ProviderCache.thy ===== *)
theory ProviderCache
  imports Expiring "HOL-Library.AList"
begin

text \<open>
  The in-memory cache of provider answers (\<open>external-integrations-service/pkg/cache/cache.go\<close>).
  The Go map is a list of its entries without two of the same key. Which entry the last loop of
  \<open>evictLocked\<close> meets first is the language's choice: \<open>victim\<close> picks a key among those given.
  \<open>Get\<close> reads under the read lock and deletes under the write lock, so it is two steps,
  \<open>CacheRead\<close> and \<open>CacheEvict\<close>, between which other requests may run. \<open>now\<close> is what the
  cache's clock returns at the step.
\<close>

section \<open>The cache\<close>

definition defaultMaxEntries :: int where "defaultMaxEntries = 4096"

record 'v cache_entry =
  ce_value :: 'v
  ce_expires :: time

record 'v ttl_cache =
  ch_entries :: "(string \<times> 'v cache_entry) list"
  ch_max :: int

definition CacheNew :: "int \<Rightarrow> 'v ttl_cache" where
  "CacheNew n = \<lparr>ch_entries = [], ch_max = (if n \<le> 0 then defaultMaxEntries else n)\<rparr>"

definition CacheLen :: "'v ttl_cache \<Rightarrow> int" where
  "CacheLen c = int (length (ch_entries c))"

text \<open>The answer of \<open>Get\<close>; the second component says that it goes on to evict.\<close>

definition CacheRead :: "time \<Rightarrow> string \<Rightarrow> 'v ttl_cache \<Rightarrow> 'v option \<times> bool" where
  "CacheRead now key c =
    (case map_of (ch_entries c) key of
       None \<Rightarrow> (None, False)
     | Some e \<Rightarrow> (if now > ce_expires e then (None, True) else (Some (ce_value e), False)))"

definition CacheEvict :: "time \<Rightarrow> string \<Rightarrow> 'v ttl_cache \<Rightarrow> 'v ttl_cache" where
  "CacheEvict now key c =
    (case map_of (ch_entries c) key of
       None \<Rightarrow> c
     | Some e \<Rightarrow> (if now > ce_expires e then c\<lparr>ch_entries := AList.delete key (ch_entries c)\<rparr> else c))"

definition dropExpired :: "time \<Rightarrow> 'v ttl_cache \<Rightarrow> 'v ttl_cache" where
  "dropExpired now c = c\<lparr>ch_entries := filter (\<lambda>(k, e). \<not> now > ce_expires e) (ch_entries c)\<rparr>"

definition evictLocked :: "(string list \<Rightarrow> string) \<Rightarrow> time \<Rightarrow> 'v ttl_cache \<Rightarrow> 'v ttl_cache" where
  "evictLocked victim now c =
    (let c' = dropExpired now c
     in if CacheLen c' < ch_max c' \<or> ch_entries c' = [] then c'
        else c'\<lparr>ch_entries := AList.delete (victim (map fst (ch_entries c'))) (ch_entries c')\<rparr>)"

definition CacheSet ::
  "(string list \<Rightarrow> string) \<Rightarrow> time \<Rightarrow> time \<Rightarrow> string \<Rightarrow> 'v \<Rightarrow> duration \<Rightarrow> 'v ttl_cache \<Rightarrow> 'v ttl_cache" where
  "CacheSet victim now now' key v ttl c =
    (if ttl \<le> 0 then c
     else
      (let c' = (if map_of (ch_entries c) key = None \<and> CacheLen c \<ge> ch_max c
                 then evictLocked victim now c else c)
       in c'\<lparr>ch_entries := AList.update key \<lparr>ce_value = v, ce_expires = now' + ttl\<rparr> (ch_entries c')\<rparr>))"

section \<open>The contract\<close>

definition cache_ok :: "'v ttl_cache \<Rightarrow> bool" where
  "cache_ok c \<longleftrightarrow> distinct (map fst (ch_entries c)) \<and> 0 < ch_max c \<and> CacheLen c \<le> ch_max c"

definition cached :: "time \<Rightarrow> 'v ttl_cache \<Rightarrow> string \<Rightarrow> 'v option" where
  "cached t c key = fst (CacheRead t key c)"

lemma cached_iff:
  "cached t c key = Some v \<longleftrightarrow> (\<exists>e. map_of (ch_entries c) key = Some e \<and> t \<le> ce_expires e \<and> v = ce_value e)"
  by (auto simp: cached_def CacheRead_def split: option.splits)

lemma map_of_filter_entries:
  "distinct (map fst xs) \<Longrightarrow>
   map_of (filter (\<lambda>(k, e). P e) xs) k = (case map_of xs k of None \<Rightarrow> None | Some e \<Rightarrow> if P e then Some e else None)"
  by (induction xs) (auto split: option.splits simp: map_of_eq_None_iff rev_image_eqI)

lemma dropExpired_simps [simp]:
  "ch_max (dropExpired now c) = ch_max c"
  "CacheLen (dropExpired now c) \<le> CacheLen c"
  by (simp_all add: dropExpired_def CacheLen_def)

lemma dropExpired_ok: "cache_ok c \<Longrightarrow> cache_ok (dropExpired now c)"
  using dropExpired_simps(2) [of now c]
  by (auto simp: cache_ok_def dropExpired_def distinct_map_filter)

lemma dropExpired_map_of:
  "cache_ok c \<Longrightarrow> map_of (ch_entries (dropExpired now c)) k =
    (case map_of (ch_entries c) k of None \<Rightarrow> None | Some e \<Rightarrow> if now > ce_expires e then None else Some e)"
  by (simp add: dropExpired_def cache_ok_def map_of_filter_entries split: option.split)

interpretation cache: expiring_store cache_ok cached dropExpired
proof
  show "cached t (dropExpired t' s) k = cached t s k" if "cache_ok s" "t' \<le> t" for s :: "'v ttl_cache" and t t' k
    using that by (auto simp: cached_def CacheRead_def dropExpired_map_of split: option.split)
qed (auto simp: dropExpired_ok cached_iff)

section \<open>Capacity\<close>

text \<open>What Go's \<open>range\<close> over a map does: it meets some entry, if there is one.\<close>

definition picks_a_key :: "(string list \<Rightarrow> string) \<Rightarrow> bool" where
  "picks_a_key victim \<longleftrightarrow> (\<forall>ks. ks \<noteq> [] \<longrightarrow> victim ks \<in> set ks)"

lemma length_delete:
  "distinct (map fst xs) \<Longrightarrow> k \<in> fst ` set xs \<Longrightarrow> length (AList.delete k xs) = length xs - 1"
proof -
  assume d: "distinct (map fst xs)" and k: "k \<in> fst ` set xs"
  have "set (map fst (AList.delete k xs)) = set (map fst xs) - {k}" by (simp add: delete_keys)
  moreover have "distinct (map fst (AList.delete k xs))" using d by (rule distinct_delete)
  ultimately have "length (map fst (AList.delete k xs)) = card (set (map fst xs) - {k})"
    using distinct_card by metis
  then show ?thesis using d k distinct_card [OF d] by simp
qed

lemma CacheEvict_ok: "cache_ok c \<Longrightarrow> cache_ok (CacheEvict now key c)"
  using length_delete_le [of key "ch_entries c"]
  by (auto simp: CacheEvict_def cache_ok_def CacheLen_def distinct_delete split: option.split)

lemma evictLocked_ok:
  assumes "cache_ok c" "picks_a_key victim"
  shows "cache_ok (evictLocked victim now c) \<and> CacheLen (evictLocked victim now c) < ch_max c \<and>
    ch_max (evictLocked victim now c) = ch_max c"
proof -
  let ?d = "dropExpired now c"
  have d: "cache_ok ?d" using assms(1) by (rule dropExpired_ok)
  show ?thesis
  proof (cases "CacheLen ?d < ch_max ?d \<or> ch_entries ?d = []")
    case True
    then show ?thesis using d by (auto simp: evictLocked_def cache_ok_def CacheLen_def)
  next
    case False
    let ?v = "victim (map fst (ch_entries ?d))"
    have "?v \<in> fst ` set (ch_entries ?d)" using False assms(2) by (auto simp: picks_a_key_def)
    moreover have dist: "distinct (map fst (ch_entries ?d))" using d by (simp add: cache_ok_def)
    ultimately have "length (AList.delete ?v (ch_entries ?d)) = length (ch_entries ?d) - 1"
      by (intro length_delete)
    moreover have "0 < length (ch_entries ?d)" using False by simp
    ultimately show ?thesis using False d distinct_delete [OF dist]
      by (auto simp: evictLocked_def cache_ok_def CacheLen_def Let_def)
  qed
qed

lemma CacheSet_ok:
  assumes "cache_ok c" "picks_a_key victim"
  shows "cache_ok (CacheSet victim now now' key v ttl c)"
proof (cases "ttl \<le> 0")
  case True
  then show ?thesis using assms by (simp add: CacheSet_def)
next
  case False
  define c' where "c' = (if map_of (ch_entries c) key = None \<and> CacheLen c \<ge> ch_max c
     then evictLocked victim now c else c)"
  have c': "cache_ok c'" "ch_max c' = ch_max c"
    "map_of (ch_entries c) key = None \<Longrightarrow> CacheLen c' < ch_max c"
    using evictLocked_ok [OF assms, of now] assms(1) by (auto simp: c'_def)
  have "length (AList.update key x (ch_entries c')) =
      (if key \<in> set (map fst (ch_entries c')) then length (ch_entries c') else length (ch_entries c') + 1)"
    for x :: "'a cache_entry"
    using arg_cong [OF update_keys [of key x "ch_entries c'"], of length] by (simp split: if_splits)
  moreover have "map_of (ch_entries c) key = None" if "key \<notin> set (map fst (ch_entries c'))"
  proof (rule ccontr)
    assume "map_of (ch_entries c) key \<noteq> None"
    then have "c' = c" by (auto simp: c'_def)
    with that \<open>map_of (ch_entries c) key \<noteq> None\<close> show False by (simp add: map_of_eq_None_iff)
  qed
  ultimately have "int (length (AList.update key x (ch_entries c'))) \<le> ch_max c" for x :: "'a cache_entry"
    using c' by (auto simp: cache_ok_def CacheLen_def split: if_splits)
  then show ?thesis using False c' distinct_update [of "ch_entries c'" key]
    unfolding CacheSet_def Let_def c'_def [symmetric] by (simp add: cache_ok_def CacheLen_def)
qed

section \<open>Runs\<close>

datatype 'v cache_step =
    StepSet time time string 'v duration
  | StepEvict time string

fun cache_run_step :: "(string list \<Rightarrow> string) \<Rightarrow> 'v cache_step \<Rightarrow> 'v ttl_cache \<Rightarrow> 'v ttl_cache" where
  "cache_run_step victim (StepSet now now' key v ttl) c = CacheSet victim now now' key v ttl c"
| "cache_run_step victim (StepEvict now key) c = CacheEvict now key c"

lemma cache_run_ok:
  "picks_a_key victim \<Longrightarrow> cache_ok c \<Longrightarrow> cache_ok (fold (cache_run_step victim) rs c)"
proof (induction rs arbitrary: c)
  case (Cons r rs)
  then have "cache_ok (cache_run_step victim r c)" by (cases r) (simp_all add: CacheSet_ok CacheEvict_ok)
  then show ?case using Cons by simp
qed simp

lemma CacheNew_ok: "cache_ok (CacheNew n)"
  by (simp add: CacheNew_def cache_ok_def CacheLen_def defaultMaxEntries_def)

text \<open>
  C18. The cache never holds more than its maximal number of entries (4096 when the size given is
  not positive), nor two entries of one key, after any run of writes and evictions.
\<close>

theorem cache_never_overflows:
  assumes "picks_a_key victim"
  shows "cache_ok (fold (cache_run_step victim) rs (CacheNew n)) \<and>
    CacheLen (fold (cache_run_step victim) rs (CacheNew n)) \<le> (if n \<le> 0 then 4096 else n)"
proof -
  have ok: "cache_ok (fold (cache_run_step victim) rs (CacheNew n))"
    using assms CacheNew_ok by (rule cache_run_ok)
  have "ch_max (fold (cache_run_step victim) rs c) = ch_max c" for c :: "'a ttl_cache"
  proof (induction rs arbitrary: c)
    case (Cons r rs)
    have "ch_max (cache_run_step victim r c) = ch_max c"
      by (cases r) (auto simp: CacheSet_def CacheEvict_def evictLocked_def Let_def split: option.split)
    then show ?case using Cons by simp
  qed simp
  moreover have "ch_max (CacheNew n :: 'a ttl_cache) = (if n \<le> 0 then 4096 else n)"
    by (simp add: CacheNew_def defaultMaxEntries_def)
  ultimately have "CacheLen (fold (cache_run_step victim) rs (CacheNew n)) \<le> (if n \<le> 0 then 4096 else n)"
    using ok unfolding cache_ok_def by metis
  with ok show ?thesis by blast
qed

text \<open>The last write of a key in a run that had an effect, with its expiry.\<close>

fun last_write :: "string \<Rightarrow> 'v cache_step list \<Rightarrow> ('v \<times> time) option" where
  "last_write key [] = None"
| "last_write key (StepSet now now' k v ttl # rs) =
    (case last_write key rs of
       Some w \<Rightarrow> Some w
     | None \<Rightarrow> (if k = key \<and> 0 < ttl then Some (v, now' + ttl) else None))"
| "last_write key (StepEvict now k # rs) = last_write key rs"

lemma last_write_snoc:
  "last_write key (rs @ [r]) =
    (case r of StepSet now now' k v ttl \<Rightarrow>
        (if k = key \<and> 0 < ttl then Some (v, now' + ttl) else last_write key rs)
     | StepEvict now k \<Rightarrow> last_write key rs)"
  by (induction key rs rule: last_write.induct) (auto split: cache_step.splits option.splits)

lemma map_of_delete_sub: "map_of (AList.delete k xs) key = Some e \<Longrightarrow> map_of xs key = Some e"
  by (auto simp: delete_conv fun_upd_def split: if_splits)

lemma evictLocked_sub:
  assumes "cache_ok c" "map_of (ch_entries (evictLocked victim now c)) key = Some e"
  shows "map_of (ch_entries c) key = Some e"
proof -
  have "map_of (ch_entries (dropExpired now c)) key = Some e"
    using assms(2) by (auto simp: evictLocked_def Let_def dest: map_of_delete_sub split: if_splits)
  then show ?thesis using assms(1) by (auto simp: dropExpired_map_of split: option.splits if_splits)
qed

lemma entry_is_last_write:
  assumes "picks_a_key victim"
    and "map_of (ch_entries (fold (cache_run_step victim) rs (CacheNew n))) key = Some e"
  shows "last_write key rs = Some (ce_value e, ce_expires e)"
  using assms(2)
proof (induction rs arbitrary: e rule: rev_induct)
  case Nil
  then show ?case by (simp add: CacheNew_def)
next
  case (snoc r rs)
  let ?c = "fold (cache_run_step victim) rs (CacheNew n)"
  have ok: "cache_ok ?c" using assms(1) CacheNew_ok by (rule cache_run_ok)
  show ?case
  proof (cases r)
    case (StepSet now now' k v ttl)
    have "map_of (ch_entries (CacheSet victim now now' k v ttl ?c)) key = Some e"
      using snoc.prems StepSet by simp
    then have "(k = key \<and> 0 < ttl \<and> e = \<lparr>ce_value = v, ce_expires = now' + ttl\<rparr>) \<or>
        (\<not> (k = key \<and> 0 < ttl) \<and> map_of (ch_entries ?c) key = Some e)"
      using evictLocked_sub [OF ok]
      by (auto simp: CacheSet_def Let_def update_conv' fun_upd_def split: if_splits)
    then show ?thesis using snoc.IH StepSet by (auto simp: last_write_snoc)
  next
    case (StepEvict now k)
    then have "map_of (ch_entries ?c) key = Some e"
      using snoc.prems by (auto simp: CacheEvict_def dest: map_of_delete_sub split: option.splits if_splits)
    then show ?thesis using snoc.IH StepEvict by (simp add: last_write_snoc)
  qed
qed

text \<open>
  What \<open>Get\<close> returns is the value of the last write of that key with a positive TTL, and
  that write has not expired: the cache never serves an expired or an overwritten value, however
  writes, evictions for space and the delayed deletions of expired reads interleave.
\<close>

theorem cache_serves_last_write:
  assumes "picks_a_key victim"
    and "fst (CacheRead now key (fold (cache_run_step victim) rs (CacheNew n))) = Some v"
  shows "\<exists>expires. last_write key rs = Some (v, expires) \<and> now \<le> expires"
proof -
  obtain e where e: "map_of (ch_entries (fold (cache_run_step victim) rs (CacheNew n))) key = Some e"
    "now \<le> ce_expires e" "v = ce_value e"
    using assms(2) cached_iff [unfolded cached_def] by metis
  then show ?thesis using entry_is_last_write [OF assms(1)] by blast
qed

text \<open>
  A write is readable until its TTL is over as long as nothing else is written: reads,
  delayed deletions of this or other keys and cleanups before the expiry do not lose it.
\<close>

theorem cached_until_expiry:
  assumes "cache_ok c" "picks_a_key victim" "0 < ttl" "t \<le> now' + ttl"
    and "\<forall>r \<in> set rs. \<exists>now k. r = StepEvict now k \<and> now \<le> now' + ttl"
  shows "fst (CacheRead t key (fold (cache_run_step victim) rs (CacheSet victim now now' key v ttl c))) = Some v"
proof -
  let ?e = "\<lparr>ce_value = v, ce_expires = now' + ttl\<rparr>"
  have start: "map_of (ch_entries (CacheSet victim now now' key v ttl c)) key = Some ?e"
    using assms(3) by (simp add: CacheSet_def Let_def update_conv')
  have "map_of (ch_entries (fold (cache_run_step victim) rs c')) key = Some ?e"
    if "map_of (ch_entries c') key = Some ?e" for c'
    using that assms(5)
  proof (induction rs arbitrary: c')
    case (Cons r rs)
    then obtain n k where r: "r = StepEvict n k" "n \<le> now' + ttl" by auto
    have "map_of (ch_entries (CacheEvict n k c')) key = Some ?e"
      using Cons.prems(1) r(2) by (auto simp: CacheEvict_def delete_conv split: option.split)
    then show ?case using Cons r by simp
  qed simp
  from this [OF start] assms(4) show ?thesis by (simp add: CacheRead_def)
qed

section \<open>Witnesses\<close>

definition demo_cache_run :: "nat cache_step list" where
  "demo_cache_run = [StepSet 1 1 ''a'' 1 10, StepSet 2 2 ''b'' 2 10, StepEvict 3 ''a'', StepSet 4 4 ''a'' 3 10]"

lemma picks_hd: "picks_a_key hd"
  by (simp add: picks_a_key_def)

lemma cache_never_overflows_witness: "CacheLen (fold (cache_run_step hd) demo_cache_run (CacheNew 1)) \<le> 1"
  using cache_never_overflows [OF picks_hd, of demo_cache_run 1] by simp

lemma cache_serves_last_write_witness:
  "\<exists>expires. last_write ''a'' demo_cache_run = Some (3, expires) \<and> 14 \<le> expires"
proof (rule cache_serves_last_write [OF picks_hd])
  show "fst (CacheRead 14 ''a'' (fold (cache_run_step hd) demo_cache_run (CacheNew 1))) = Some 3" by code_simp
qed

lemma cached_until_expiry_witness:
  "fst (CacheRead 10 ''k'' (fold (cache_run_step hd) [StepEvict 9 ''k''] (CacheSet hd 1 1 ''k'' (7 :: nat) 10 (CacheNew 2)))) = Some 7"
  using CacheNew_ok picks_hd by (rule cached_until_expiry) simp_all

end
