(* ===== verification/ProviderLimits.thy ===== *)
theory ProviderLimits
  imports Tables StateErr
begin

text \<open>
  Rate limits and daily quotas of the external providers
  (\<open>external-integrations-service/internal/providerlimits\<close>): the table of operations
  (\<open>types.go\<close>), the quota store on Postgres (\<open>store_postgres.go\<close>) and the guard
  (\<open>guard.go\<close>, \<open>errors.go\<close>). \<open>Reserve\<close> runs in a transaction that locks the provider's row
  of the day, so reservations are atomic; a failing statement rolls it back. \<open>BIGINT\<close> columns
  refuse a sum out of range; the Go sum \<open>used+cost\<close> wraps. The token bucket (\<open>limiter.go\<close>)
  computes in floating point: its verdict is an argument of the guard.
\<close>

section \<open>Operations and categories\<close>

definition operationCategory :: "(string \<times> string) list" where
  "operationCategory =
    [(''place_search'', ''places''), (''place_details'', ''places''),
     (''route_estimate'', ''routes''), (''weather_forecast'', ''weather''),
     (''calendar_event_create'', ''calendar''), (''calendar_event_update'', ''calendar''),
     (''calendar_event_delete'', ''calendar''), (''calendar_sync'', ''calendar''),
     (''calendar_free_busy'', ''calendar''), (''exchange_rate_latest'', ''exchange_rate''),
     (''exchange_rate_convert'', ''exchange_rate''), (''price_estimate'', ''price''),
     (''transport_search'', ''transport_search''), (''availability_search'', ''availability'')]"

definition categoryOperations :: "(string \<times> string list) list" where
  "categoryOperations =
    [(''places'', [''place_search'', ''place_details'']),
     (''routes'', [''route_estimate'']),
     (''weather'', [''weather_forecast'']),
     (''calendar'', [''calendar_event_create'', ''calendar_event_update'', ''calendar_event_delete'',
        ''calendar_sync'', ''calendar_free_busy'']),
     (''exchange_rate'', [''exchange_rate_latest'', ''exchange_rate_convert'']),
     (''price'', [''price_estimate'']),
     (''transport_search'', [''transport_search'']),
     (''availability'', [''availability_search''])]"

definition CategoryForOperation :: "string \<Rightarrow> string" where
  "CategoryForOperation p = (case map_of operationCategory p of None \<Rightarrow> [] | Some c \<Rightarrow> c)"

definition OperationsForCategory :: "string \<Rightarrow> string list" where
  "OperationsForCategory c = (case map_of categoryOperations c of None \<Rightarrow> [] | Some os \<Rightarrow> os)"

section \<open>The quota store\<close>

datatype quota_error = BigintOutOfRange | StoreFailure

record reservation =
  rs_allowed :: bool
  rs_exceeded :: bool
  rs_quota :: int
  rs_used :: int
  rs_remaining :: int

record totals_row =
  tt_provider :: string
  tt_date :: time
  tt_used :: int
  tt_blocked :: int
  tt_fallback :: int

record usage_row =
  us_provider :: string
  us_operation :: string
  us_date :: time
  us_used :: int
  us_blocked :: int
  us_fallback :: int
  us_last_allowed :: "time option"
  us_last_blocked :: "time option"
  us_last_fallback :: "time option"

record quota_db =
  qd_totals :: "totals_row list"
  qd_usage :: "usage_row list"

definition day_ns :: int where "day_ns = 86400 * second"

text \<open>\<open>date.UTC().Truncate(24 * time.Hour)\<close>: the zero time is a midnight.\<close>

definition usage_day :: "time \<Rightarrow> time" where
  "usage_day t = t - t mod day_ns"

definition remaining :: "int \<Rightarrow> int \<Rightarrow> int" where
  "remaining quota used = (if quota \<le> 0 then 0 else if used \<ge> quota then 0 else quota - used)"

definition totals_at :: "string \<Rightarrow> time \<Rightarrow> totals_row \<Rightarrow> bool" where
  "totals_at p d r \<longleftrightarrow> tt_provider r = p \<and> tt_date r = d"

definition usage_at :: "string \<Rightarrow> string \<Rightarrow> time \<Rightarrow> usage_row \<Rightarrow> bool" where
  "usage_at p oper d r \<longleftrightarrow> us_provider r = p \<and> us_operation r = oper \<and> us_date r = d"

definition ensure_totals :: "string \<Rightarrow> time \<Rightarrow> totals_row list \<Rightarrow> totals_row list" where
  "ensure_totals p d rows =
    (if select_row (totals_at p d) rows \<noteq> None then rows
     else rows @ [\<lparr>tt_provider = p, tt_date = d, tt_used = 0, tt_blocked = 0, tt_fallback = 0\<rparr>])"

definition ensure_usage :: "string \<Rightarrow> string \<Rightarrow> time \<Rightarrow> usage_row list \<Rightarrow> usage_row list" where
  "ensure_usage p oper d rows =
    (if select_row (usage_at p oper d) rows \<noteq> None then rows
     else rows @ [\<lparr>us_provider = p, us_operation = oper, us_date = d, us_used = 0, us_blocked = 0,
       us_fallback = 0, us_last_allowed = None, us_last_blocked = None, us_last_fallback = None\<rparr>])"

text \<open>\<open>UPDATE .. SET c = c + n\<close> on a \<open>BIGINT\<close> column.\<close>

definition add_where ::
  "('r \<Rightarrow> bool) \<Rightarrow> ('r \<Rightarrow> int) \<Rightarrow> ('r \<Rightarrow> 'r) \<Rightarrow> int \<Rightarrow> 'r list \<Rightarrow> quota_error + 'r list" where
  "add_where P col f n rows =
    (if \<exists>r \<in> set rows. P r \<and> col r + n > int64_max then Inl BigintOutOfRange
     else Inr (update_where P f rows))"

datatype counter = CountUsed | CountBlocked | CountFallback

fun totals_count :: "counter \<Rightarrow> totals_row \<Rightarrow> int" where
  "totals_count CountUsed r = tt_used r"
| "totals_count CountBlocked r = tt_blocked r"
| "totals_count CountFallback r = tt_fallback r"

fun usage_count :: "counter \<Rightarrow> usage_row \<Rightarrow> int" where
  "usage_count CountUsed r = us_used r"
| "usage_count CountBlocked r = us_blocked r"
| "usage_count CountFallback r = us_fallback r"

fun totals_add :: "counter \<Rightarrow> int \<Rightarrow> totals_row \<Rightarrow> totals_row" where
  "totals_add CountUsed n r = r\<lparr>tt_used := tt_used r + n\<rparr>"
| "totals_add CountBlocked n r = r\<lparr>tt_blocked := tt_blocked r + n\<rparr>"
| "totals_add CountFallback n r = r\<lparr>tt_fallback := tt_fallback r + n\<rparr>"

fun usage_add :: "counter \<Rightarrow> time \<Rightarrow> int \<Rightarrow> usage_row \<Rightarrow> usage_row" where
  "usage_add CountUsed now n r = r\<lparr>us_used := us_used r + n, us_last_allowed := Some now\<rparr>"
| "usage_add CountBlocked now n r = r\<lparr>us_blocked := us_blocked r + n, us_last_blocked := Some now\<rparr>"
| "usage_add CountFallback now n r = r\<lparr>us_fallback := us_fallback r + n, us_last_fallback := Some now\<rparr>"

text \<open>Both rows of an operation get the same increment.\<close>

definition add_totals ::
  "counter \<Rightarrow> string \<Rightarrow> time \<Rightarrow> int \<Rightarrow> quota_db \<Rightarrow> quota_error + quota_db" where
  "add_totals k p d n db =
    rbind (add_where (totals_at p d) (totals_count k) (totals_add k n) n (ensure_totals p d (qd_totals db)))
      (\<lambda>rows. Inr (db\<lparr>qd_totals := rows\<rparr>))"

definition add_usage ::
  "counter \<Rightarrow> time \<Rightarrow> string \<Rightarrow> string \<Rightarrow> time \<Rightarrow> int \<Rightarrow> quota_db \<Rightarrow> quota_error + quota_db" where
  "add_usage k now p oper d n db =
    rbind (add_where (usage_at p oper d) (usage_count k) (usage_add k now n) n (ensure_usage p oper d (qd_usage db)))
      (\<lambda>rows. Inr (db\<lparr>qd_usage := rows\<rparr>))"

definition Reserve ::
  "time \<Rightarrow> string \<Rightarrow> string \<Rightarrow> time \<Rightarrow> int \<Rightarrow> int \<Rightarrow> quota_db \<Rightarrow> quota_error + (reservation \<times> quota_db)" where
  "Reserve now p oper date raw quota db =
    (let cost = (if raw < 1 then 1 else raw);
         d = usage_day date;
         db1 = db\<lparr>qd_totals := ensure_totals p d (qd_totals db), qd_usage := ensure_usage p oper d (qd_usage db)\<rparr>;
         used = (case select_row (totals_at p d) (qd_totals db1) of None \<Rightarrow> 0 | Some r \<Rightarrow> tt_used r)
     in if quota > 0 \<and> wrap64 (used + cost) > quota then
          rbind (add_totals CountBlocked p d cost db1) (\<lambda>db2.
          rbind (add_usage CountBlocked now p oper d cost db2) (\<lambda>db3.
          Inr (\<lparr>rs_allowed = False, rs_exceeded = True, rs_quota = quota, rs_used = used,
                rs_remaining = remaining quota used\<rparr>, db3)))
        else
          rbind (add_totals CountUsed p d cost db1) (\<lambda>db2.
          rbind (add_usage CountUsed now p oper d cost db2) (\<lambda>db3.
          Inr (\<lparr>rs_allowed = True, rs_exceeded = False, rs_quota = quota, rs_used = wrap64 (used + cost),
                rs_remaining = remaining quota (wrap64 (used + cost))\<rparr>, db3))))"

text \<open>
  \<open>incrementCounter\<close> runs its two statements outside a transaction: the first stays when the
  second fails.
\<close>

definition incrementCounter ::
  "counter \<Rightarrow> time \<Rightarrow> string \<Rightarrow> string \<Rightarrow> time \<Rightarrow> int \<Rightarrow> (quota_db, quota_error, unit) op" where
  "incrementCounter k now p oper date raw =
    (let n = (if raw < 1 then 1 else raw); d = usage_day date
     in sbind (sstmt (\<lambda>db. rbind (add_totals k p d n db) (\<lambda>db'. Inr ((), db')))) (\<lambda>_.
        sstmt (\<lambda>db. rbind (add_usage k now p oper d n db) (\<lambda>db'. Inr ((), db')))))"

definition IncrementBlocked ::
  "time \<Rightarrow> string \<Rightarrow> string \<Rightarrow> time \<Rightarrow> int \<Rightarrow> (quota_db, quota_error, unit) op" where
  "IncrementBlocked = incrementCounter CountBlocked"

definition IncrementFallback ::
  "time \<Rightarrow> string \<Rightarrow> string \<Rightarrow> time \<Rightarrow> int \<Rightarrow> (quota_db, quota_error, unit) op" where
  "IncrementFallback = incrementCounter CountFallback"

definition ResetProviderForDate :: "string \<Rightarrow> time \<Rightarrow> quota_db \<Rightarrow> quota_db" where
  "ResetProviderForDate p date db =
    db\<lparr>qd_usage := filter (\<lambda>r. \<not> (us_provider r = p \<and> us_date r = usage_day date)) (qd_usage db),
       qd_totals := filter (\<lambda>r. \<not> totals_at p (usage_day date) r) (qd_totals db)\<rparr>"

section \<open>Totals and usage agree\<close>

definition total :: "counter \<Rightarrow> string \<Rightarrow> time \<Rightarrow> quota_db \<Rightarrow> int" where
  "total k p d db = (case select_row (totals_at p d) (qd_totals db) of None \<Rightarrow> 0 | Some r \<Rightarrow> totals_count k r)"

definition usage_sum :: "counter \<Rightarrow> string \<Rightarrow> time \<Rightarrow> quota_db \<Rightarrow> int" where
  "usage_sum k p d db = (\<Sum>r\<leftarrow>filter (\<lambda>r. us_provider r = p \<and> us_date r = d) (qd_usage db). usage_count k r)"

definition quota_ok :: "quota_db \<Rightarrow> bool" where
  "quota_ok db \<longleftrightarrow>
     key_unique (\<lambda>r. (tt_provider r, tt_date r)) (qd_totals db) \<and>
     key_unique (\<lambda>r. (us_provider r, us_operation r, us_date r)) (qd_usage db) \<and>
     (\<forall>r \<in> set (qd_totals db). \<forall>k. 0 \<le> totals_count k r) \<and>
     (\<forall>r \<in> set (qd_usage db). \<forall>k. 0 \<le> usage_count k r)"

definition balanced :: "quota_db \<Rightarrow> bool" where
  "balanced db \<longleftrightarrow> (\<forall>k p d. total k p d db = usage_sum k p d db)"

lemma counter_add [simp]:
  "totals_count k (totals_add k' n r) = totals_count k r + (if k = k' then n else 0)"
  "usage_count k (usage_add k' now n u) = usage_count k u + (if k = k' then n else 0)"
  "totals_at p d (totals_add k' n r) = totals_at p d r"
  "usage_at p oper d (usage_add k' now n u) = usage_at p oper d u"
  "tt_provider (totals_add k' n r) = tt_provider r" "tt_date (totals_add k' n r) = tt_date r"
  "us_provider (usage_add k' now n u) = us_provider u" "us_operation (usage_add k' now n u) = us_operation u"
  "us_date (usage_add k' now n u) = us_date u"
  by (cases k; cases k'; simp add: totals_at_def usage_at_def)+

text \<open>Ensuring a row changes no count.\<close>

lemma ensure_totals_total:
  "(case select_row (totals_at p' d') (ensure_totals p d rows) of None \<Rightarrow> 0 | Some r \<Rightarrow> totals_count k r) =
   (case select_row (totals_at p' d') rows of None \<Rightarrow> 0 | Some r \<Rightarrow> totals_count k r)"
  by (cases k) (auto simp: ensure_totals_def select_row_def find_append totals_at_def split: option.split)

lemma ensure_totals_some: "select_row (totals_at p d) (ensure_totals p d rows) \<noteq> None"
  by (auto simp: ensure_totals_def select_row_def find_append totals_at_def split: option.split)

lemma ensure_totals_key:
  assumes "key_unique (\<lambda>r. (tt_provider r, tt_date r)) rows"
  shows "key_unique (\<lambda>r. (tt_provider r, tt_date r)) (ensure_totals p d rows)"
proof (cases "select_row (totals_at p d) rows")
  case None
  then have "\<forall>r \<in> set rows. (tt_provider r, tt_date r) \<noteq> (p, d)"
    by (auto simp: select_row_None_iff totals_at_def)
  with None assms show ?thesis by (auto simp: ensure_totals_def intro!: key_unique_append)
qed (simp add: ensure_totals_def assms)

lemma ensure_usage_some: "select_row (usage_at p oper d) (ensure_usage p oper d rows) \<noteq> None"
  by (auto simp: ensure_usage_def select_row_def find_append usage_at_def split: option.split)

lemma ensure_usage_key:
  assumes "key_unique (\<lambda>r. (us_provider r, us_operation r, us_date r)) rows"
  shows "key_unique (\<lambda>r. (us_provider r, us_operation r, us_date r)) (ensure_usage p oper d rows)"
proof (cases "select_row (usage_at p oper d) rows")
  case None
  then have "\<forall>r \<in> set rows. (us_provider r, us_operation r, us_date r) \<noteq> (p, oper, d)"
    by (auto simp: select_row_None_iff usage_at_def)
  with None assms show ?thesis by (auto simp: ensure_usage_def intro!: key_unique_append)
qed (simp add: ensure_usage_def assms)

lemma ensure_usage_sum:
  "(\<Sum>r\<leftarrow>filter Q (ensure_usage p oper d rows). usage_count k r) = (\<Sum>r\<leftarrow>filter Q rows. usage_count k r)"
  by (cases k) (auto simp: ensure_usage_def)

lemma zero_counts [simp]:
  "usage_count k \<lparr>us_provider = p, us_operation = oper, us_date = d, us_used = 0, us_blocked = 0,
     us_fallback = 0, us_last_allowed = None, us_last_blocked = None, us_last_fallback = None\<rparr> = 0"
  "totals_count k \<lparr>tt_provider = p, tt_date = d, tt_used = 0, tt_blocked = 0, tt_fallback = 0\<rparr> = 0"
  by (cases k; simp)+

lemma ensure_totals_nonneg:
  "\<forall>r \<in> set rows. \<forall>k. 0 \<le> totals_count k r \<Longrightarrow> \<forall>r \<in> set (ensure_totals p d rows). \<forall>k. 0 \<le> totals_count k r"
  by (auto simp: ensure_totals_def)

lemma ensure_usage_nonneg:
  "\<forall>r \<in> set rows. \<forall>k. 0 \<le> usage_count k r \<Longrightarrow> \<forall>r \<in> set (ensure_usage p oper d rows). \<forall>k. 0 \<le> usage_count k r"
  by (auto simp: ensure_usage_def)

lemma add_totals_Inr:
  assumes "add_totals k p d n db = Inr db'" "quota_ok db" "0 \<le> n"
  shows "total k' p' d' db' = total k' p' d' db + (if k' = k \<and> p' = p \<and> d' = d then n else 0)"
    and "qd_usage db' = qd_usage db" "quota_ok db'" "total k p d db + n \<le> int64_max"
proof -
  let ?rows = "ensure_totals p d (qd_totals db)"
  have rows: "qd_totals db' = update_where (totals_at p d) (totals_add k n) ?rows"
    and us: "qd_usage db' = qd_usage db"
    and no: "\<forall>r \<in> set ?rows. totals_at p d r \<longrightarrow> totals_count k r + n \<le> int64_max"
    using assms(1) by (auto simp: add_totals_def add_where_def rbind_Inr_iff not_less split: if_splits)
  obtain r0 where r0: "select_row (totals_at p d) ?rows = Some r0" using ensure_totals_some by blast
  have e: "total k'' p'' d'' db = (case select_row (totals_at p'' d'') ?rows of None \<Rightarrow> 0 | Some r \<Rightarrow> totals_count k'' r)"
    for k'' p'' d'' by (simp add: total_def ensure_totals_total)
  show "total k' p' d' db' = total k' p' d' db + (if k' = k \<and> p' = p \<and> d' = d then n else 0)"
  proof (cases "p' = p \<and> d' = d")
    case True
    have "select_row (totals_at p d) (qd_totals db') = Some (totals_add k n r0)"
      unfolding rows using select_row_Some [OF r0] by (intro find_update_where_hit r0) simp_all
    then show ?thesis using True r0 e [of k' p d] by (simp add: total_def)
  next
    case False
    have "select_row (totals_at p' d') (qd_totals db') = select_row (totals_at p' d') ?rows"
      unfolding rows using False by (intro find_update_where_other) (auto simp: totals_at_def)
    then show ?thesis using False e [of k' p' d'] by (auto simp: total_def)
  qed
  show "qd_usage db' = qd_usage db" by (rule us)
  have "\<forall>r \<in> set ?rows. \<forall>k. 0 \<le> totals_count k r"
    using assms(2) by (intro ensure_totals_nonneg) (simp add: quota_ok_def)
  then have "\<forall>r \<in> set (qd_totals db'). \<forall>k. 0 \<le> totals_count k r"
    using assms(3) rows by (auto simp: set_update_where)
  moreover have "key_unique (\<lambda>r. (tt_provider r, tt_date r)) (qd_totals db')"
    unfolding rows using assms(2) by (intro key_unique_update_where ensure_totals_key) (simp_all add: quota_ok_def)
  ultimately show "quota_ok db'" using assms(2) us by (simp add: quota_ok_def)
  show "total k p d db + n \<le> int64_max" using no select_row_Some [OF r0] r0 e [of k p d] by simp
qed

lemma add_usage_effect:
  assumes "quota_ok db" "0 \<le> n" "db' = db\<lparr>qd_usage := update_where (usage_at p oper d) (usage_add k now n)
      (ensure_usage p oper d (qd_usage db))\<rparr>"
  shows "usage_sum k' p' d' db' = usage_sum k' p' d' db + (if k' = k \<and> p' = p \<and> d' = d then n else 0)"
    and "quota_ok db'"
proof -
  let ?rows = "ensure_usage p oper d (qd_usage db)"
  have ku: "key_unique (\<lambda>r. (us_provider r, us_operation r, us_date r)) ?rows"
    using assms(1) by (simp add: quota_ok_def ensure_usage_key)
  have one: "length (filter (usage_at p oper d) ?rows) = 1"
    using one_row_of_key [OF ku, of "usage_at p oper d" "(p, oper, d)"] ensure_usage_some [of p oper d "qd_usage db"]
    by (auto simp: usage_at_def)
  have "length (filter (\<lambda>r. (us_provider r = p' \<and> us_date r = d') \<and> usage_at p oper d r) ?rows) =
      (if p' = p \<and> d' = d then 1 else 0)"
  proof (cases "p' = p \<and> d' = d")
    case True
    then have "(\<lambda>r. (us_provider r = p' \<and> us_date r = d') \<and> usage_at p oper d r) = usage_at p oper d"
      by (auto simp: usage_at_def)
    with True one show ?thesis by simp
  next
    case False
    then have "filter (\<lambda>r. (us_provider r = p' \<and> us_date r = d') \<and> usage_at p oper d r) ?rows = []"
      by (auto simp: usage_at_def filter_empty_conv)
    with False show ?thesis by simp
  qed
  moreover have "(\<Sum>r\<leftarrow>filter (\<lambda>r. us_provider r = p' \<and> us_date r = d')
      (update_where (usage_at p oper d) (usage_add k now n) ?rows). usage_count k' r) =
    (\<Sum>r\<leftarrow>filter (\<lambda>r. us_provider r = p' \<and> us_date r = d') ?rows. usage_count k' r) +
    (if k' = k then n else 0) * int (length (filter (\<lambda>r. (us_provider r = p' \<and> us_date r = d') \<and> usage_at p oper d r) ?rows))"
    by (rule sum_update_where) simp_all
  ultimately show "usage_sum k' p' d' db' = usage_sum k' p' d' db + (if k' = k \<and> p' = p \<and> d' = d then n else 0)"
    using assms(3) by (simp add: usage_sum_def ensure_usage_sum)
  have "\<forall>r \<in> set ?rows. \<forall>k. 0 \<le> usage_count k r"
    using assms(1) by (intro ensure_usage_nonneg) (simp add: quota_ok_def)
  then have "\<forall>r \<in> set (qd_usage db'). \<forall>k. 0 \<le> usage_count k r"
    using assms(2,3) by (auto simp: set_update_where)
  moreover have "key_unique (\<lambda>r. (us_provider r, us_operation r, us_date r)) (qd_usage db')"
    using ku assms(3) by auto
  ultimately show "quota_ok db'" using assms(1,3) by (simp add: quota_ok_def)
qed

lemma add_usage_Inr:
  assumes "add_usage k now p oper d n db = Inr db'" "quota_ok db" "0 \<le> n"
  shows "usage_sum k' p' d' db' = usage_sum k' p' d' db + (if k' = k \<and> p' = p \<and> d' = d then n else 0)"
    and "quota_ok db'" "qd_totals db' = qd_totals db"
proof -
  have e: "db' = db\<lparr>qd_usage := update_where (usage_at p oper d) (usage_add k now n)
      (ensure_usage p oper d (qd_usage db))\<rparr>"
    using assms(1) by (auto simp: add_usage_def add_where_def rbind_Inr_iff split: if_splits)
  show "usage_sum k' p' d' db' = usage_sum k' p' d' db + (if k' = k \<and> p' = p \<and> d' = d then n else 0)"
    "quota_ok db'" using add_usage_effect [OF assms(2,3) e] by blast+
  show "qd_totals db' = qd_totals db" using e by simp
qed

lemma total_nonneg: "quota_ok db \<Longrightarrow> 0 \<le> total k p d db"
  by (auto simp: total_def quota_ok_def dest!: select_row_Some split: option.split)

lemma total_used: "total CountUsed p d db = (case select_row (totals_at p d) (qd_totals db) of None \<Rightarrow> 0 | Some r \<Rightarrow> tt_used r)"
  by (auto simp: total_def split: option.split)

text \<open>Ensuring both rows, as the transaction begins.\<close>

definition ensure_rows :: "string \<Rightarrow> string \<Rightarrow> time \<Rightarrow> quota_db \<Rightarrow> quota_db" where
  "ensure_rows p oper d db =
    db\<lparr>qd_totals := ensure_totals p d (qd_totals db), qd_usage := ensure_usage p oper d (qd_usage db)\<rparr>"

lemma ensure_rows_simps [simp]:
  "total k p' d' (ensure_rows p oper d db) = total k p' d' db"
  "usage_sum k p' d' (ensure_rows p oper d db) = usage_sum k p' d' db"
  by (simp_all add: ensure_rows_def total_def usage_sum_def ensure_totals_total ensure_usage_sum)

lemma ensure_rows_ok: "quota_ok db \<Longrightarrow> quota_ok (ensure_rows p oper d db)"
  unfolding quota_ok_def ensure_rows_def
  using ensure_totals_nonneg [of "qd_totals db" p d] ensure_usage_nonneg [of "qd_usage db" p oper d]
  by (simp add: ensure_totals_key ensure_usage_key)

lemma Reserve_Inr:
  assumes "Reserve now p oper date raw quota db = Inr (res, db')" "quota_ok db"
  defines "cost \<equiv> if raw < 1 then 1 else raw" and "d \<equiv> usage_day date"
  defines "k \<equiv> if rs_allowed res then CountUsed else CountBlocked"
  shows "quota_ok db'"
    and "total k' p' d' db' = total k' p' d' db + (if k' = k \<and> p' = p \<and> d' = d then cost else 0)"
    and "usage_sum k' p' d' db' = usage_sum k' p' d' db + (if k' = k \<and> p' = p \<and> d' = d then cost else 0)"
    and "rs_exceeded res \<longleftrightarrow> \<not> rs_allowed res" "rs_quota res = quota"
    and "rs_used res = total CountUsed p d db'" "rs_remaining res = remaining quota (total CountUsed p d db')"
    and "0 < quota \<Longrightarrow> rs_allowed res \<longleftrightarrow> total CountUsed p d db + cost \<le> quota"
    and "quota \<le> 0 \<Longrightarrow> rs_allowed res"
proof -
  let ?db1 = "ensure_rows p oper d db"
  let ?used = "total CountUsed p d db"
  have cost: "0 \<le> cost" by (simp add: cost_def)
  have ok1: "quota_ok ?db1" using assms(2) by (rule ensure_rows_ok)
  have used: "(case select_row (totals_at p d) (qd_totals ?db1) of None \<Rightarrow> 0 | Some r \<Rightarrow> tt_used r) = ?used"
    using total_used [of p d ?db1] by simp
  define full where "full \<longleftrightarrow> quota > 0 \<and> wrap64 (?used + cost) > quota"
  have "\<exists>db2. add_totals (if full then CountBlocked else CountUsed) p d cost ?db1 = Inr db2 \<and>
      add_usage (if full then CountBlocked else CountUsed) now p oper d cost db2 = Inr db' \<and>
      rs_allowed res = (\<not> full) \<and> rs_exceeded res = full \<and> rs_quota res = quota \<and>
      rs_used res = (if full then ?used else wrap64 (?used + cost)) \<and>
      rs_remaining res = remaining quota (if full then ?used else wrap64 (?used + cost))"
    using assms(1) by (auto simp: Reserve_def Let_def cost_def [symmetric] d_def [symmetric]
      ensure_rows_def [symmetric] used full_def [symmetric] rbind_Inr_iff split: if_splits)
  then obtain db2 where
    t: "add_totals (if full then CountBlocked else CountUsed) p d cost ?db1 = Inr db2" and
    u: "add_usage (if full then CountBlocked else CountUsed) now p oper d cost db2 = Inr db'" and
    r: "rs_allowed res = (\<not> full)" "rs_exceeded res = full" "rs_quota res = quota"
      "rs_used res = (if full then ?used else wrap64 (?used + cost))"
      "rs_remaining res = remaining quota (if full then ?used else wrap64 (?used + cost))" by blast
  have k: "k = (if full then CountBlocked else CountUsed)" using r(1) by (simp add: k_def)
  note t' = add_totals_Inr [OF t ok1 cost]
  note u' = add_usage_Inr [OF u t'(3) cost]
  show "quota_ok db'" by (rule u'(2))
  have tot: "total k' p' d' db' = total k' p' d' db + (if k' = k \<and> p' = p \<and> d' = d then cost else 0)" for k' p' d'
  proof -
    have "total k' p' d' db' = total k' p' d' db2" using u'(3) by (simp add: total_def)
    then show ?thesis using t'(1) [of k' p' d'] by (simp add: k)
  qed
  show "total k' p' d' db' = total k' p' d' db + (if k' = k \<and> p' = p \<and> d' = d then cost else 0)" by (rule tot)
  show "usage_sum k' p' d' db' = usage_sum k' p' d' db + (if k' = k \<and> p' = p \<and> d' = d then cost else 0)"
  proof -
    have "usage_sum k' p' d' db2 = usage_sum k' p' d' ?db1" using t'(2) by (simp add: usage_sum_def)
    then show ?thesis using u'(1) [of k' p' d'] by (simp add: k)
  qed
  have nonneg: "0 \<le> ?used" using assms(2) by (rule total_nonneg)
  have wrap: "wrap64 (?used + cost) = ?used + cost" if "\<not> full"
    using t'(4) that nonneg cost by (intro wrap64_id) simp_all
  have new: "total CountUsed p d db' = (if full then ?used else ?used + cost)"
    using tot [of CountUsed p d] by (simp add: k)
  show "rs_exceeded res \<longleftrightarrow> \<not> rs_allowed res" "rs_quota res = quota" using r by simp_all
  show "rs_used res = total CountUsed p d db'" "rs_remaining res = remaining quota (total CountUsed p d db')"
    using r(4,5) wrap new by auto
  show "rs_allowed res \<longleftrightarrow> ?used + cost \<le> quota" if "0 < quota"
  proof (cases full)
    case True
    then have "wrap64 (?used + cost) > quota" by (simp add: full_def)
    moreover have "?used + cost < 2 ^ 63 \<Longrightarrow> wrap64 (?used + cost) = ?used + cost"
      using nonneg cost by (intro wrap64_id) simp_all
    moreover have "wrap64 (?used + cost) < 2 ^ 63" using wrap64_range by blast
    ultimately have "\<not> ?used + cost \<le> quota" by linarith
    with True r(1) show ?thesis by simp
  next
    case False
    then show ?thesis using wrap that r(1) by (auto simp: full_def)
  qed
  show "rs_allowed res" if "quota \<le> 0" using that r(1) by (simp add: full_def)
qed

text \<open>The increments outside a transaction.\<close>

lemma incrementCounter_cases:
  assumes "incrementCounter k now p oper date raw db = (r, db')"
  defines "n \<equiv> if raw < 1 then 1 else raw" and "d \<equiv> usage_day date"
  shows "(isl r \<and> db' = db) \<or>
    (\<exists>db1. add_totals k p d n db = Inr db1 \<and>
      ((isl r \<and> db' = db1 \<and> (\<exists>e. add_usage k now p oper d n db1 = Inl e)) \<or>
       (r = Inr () \<and> add_usage k now p oper d n db1 = Inr db')))"
  using assms(1) unfolding incrementCounter_def Let_def n_def [symmetric] d_def [symmetric]
  by (cases "add_totals k p d n db")
    (auto simp: sbind_def sstmt_def split: sum.splits prod.splits elim: rbind.elims)

lemma incrementCounter_total:
  assumes "incrementCounter k now p oper date raw db = (r, db')" "quota_ok db"
  shows "quota_ok db'" "k' \<noteq> k \<Longrightarrow> total k' p' d' db' = total k' p' d' db"
proof (atomize (full))
  let ?n = "if raw < 1 then 1 else raw"
  have n: "0 \<le> ?n" by simp
  consider "db' = db" | db1 where "add_totals k p (usage_day date) ?n db = Inr db1"
      "db' = db1 \<or> add_usage k now p oper (usage_day date) ?n db1 = Inr db'"
    using incrementCounter_cases [OF assms(1)] by blast
  then show "quota_ok db' \<and> (k' \<noteq> k \<longrightarrow> total k' p' d' db' = total k' p' d' db)"
  proof cases
    case 1
    then show ?thesis using assms(2) by simp
  next
    case 2
    note t = add_totals_Inr [OF 2(1) assms(2) n]
    show ?thesis
    proof (cases "db' = db1")
      case True
      then show ?thesis using t(1) [of k' p' d'] t(3) by simp
    next
      case False
      then have "add_usage k now p oper (usage_day date) ?n db1 = Inr db'" using 2(2) by simp
      note u = add_usage_Inr [OF this t(3) n]
      have "total k' p' d' db' = total k' p' d' db1" using u(3) by (simp add: total_def)
      then show ?thesis using u(2) t(1) [of k' p' d'] by simp
    qed
  qed
qed

lemma usage_le_sum:
  assumes "\<forall>r \<in> set rows. (0 :: int) \<le> g r" "r \<in> set rows" "Q r"
  shows "g r \<le> (\<Sum>r\<leftarrow>filter Q rows. g r)"
proof -
  have "0 \<le> (\<Sum>r\<leftarrow>filter Q xs. g r)" if "\<forall>r \<in> set xs. 0 \<le> g r" for xs
    using that by (induction xs) auto
  then show ?thesis using assms by (induction rows) (auto intro: add_increasing)
qed

text \<open>
  The second increment cannot overflow when the first did not: the operation's count is at most
  the provider's total, as long as totals and usage agree.
\<close>

lemma incrementCounter_balanced:
  assumes "incrementCounter k now p oper date raw db = (r, db')" "quota_ok db" "balanced db"
  shows "balanced db'"
proof -
  let ?n = "if raw < 1 then 1 else raw" and ?d = "usage_day date"
  have n: "0 \<le> ?n" by simp
  consider "db' = db" | (part) db1 e where "add_totals k p ?d ?n db = Inr db1"
      "add_usage k now p oper ?d ?n db1 = Inl e"
    | (full) db1 where "add_totals k p ?d ?n db = Inr db1" "add_usage k now p oper ?d ?n db1 = Inr db'"
    using incrementCounter_cases [OF assms(1)] by blast
  then show ?thesis
  proof cases
    case 1
    then show ?thesis using assms(3) by simp
  next
    case part
    note t = add_totals_Inr [OF part(1) assms(2) n]
    let ?rows = "ensure_usage p oper ?d (qd_usage db)"
    obtain r where r: "r \<in> set ?rows" "usage_at p oper ?d r" "usage_count k r + ?n > int64_max"
      using part(2) t(2) by (auto simp: add_usage_def add_where_def rbind_Inl_iff split: if_splits)
    have "\<forall>r \<in> set ?rows. 0 \<le> usage_count k r"
      using assms(2) ensure_usage_nonneg [of "qd_usage db" p oper ?d] by (auto simp: quota_ok_def)
    then have "usage_count k r \<le> (\<Sum>r\<leftarrow>filter (\<lambda>r. us_provider r = p \<and> us_date r = ?d) ?rows. usage_count k r)"
      using r(1,2) by (intro usage_le_sum) (auto simp: usage_at_def)
    then have "usage_count k r \<le> total k p ?d db"
      using assms(3) by (simp add: ensure_usage_sum balanced_def usage_sum_def)
    then have False using t(4) r(3) by linarith
    then show ?thesis ..
  next
    case full
    note t = add_totals_Inr [OF full(1) assms(2) n]
    note u = add_usage_Inr [OF full(2) t(3) n]
    have "total k' p' d' db' = usage_sum k' p' d' db'" for k' p' d'
    proof -
      have "total k' p' d' db' = total k' p' d' db1" using u(3) by (simp add: total_def)
      moreover have "usage_sum k' p' d' db1 = usage_sum k' p' d' db" using t(2) by (simp add: usage_sum_def)
      ultimately show ?thesis using t(1) [of k' p' d'] u(1) [of k' p' d'] assms(3) by (simp add: balanced_def)
    qed
    then show ?thesis by (simp add: balanced_def)
  qed
qed

lemma find_filter: "find P (filter Q xs) = find (\<lambda>x. Q x \<and> P x) xs"
  by (induction xs) auto

lemma Reset_ok: "quota_ok db \<Longrightarrow> quota_ok (ResetProviderForDate p date db)"
  by (auto simp: quota_ok_def ResetProviderForDate_def)

lemma Reset_balanced:
  assumes "balanced db"
  shows "balanced (ResetProviderForDate p date db)"
  unfolding balanced_def
proof (intro allI)
  fix k p' d'
  show "total k p' d' (ResetProviderForDate p date db) = usage_sum k p' d' (ResetProviderForDate p date db)"
  proof (cases "p' = p \<and> d' = usage_day date")
    case True
    have "find (\<lambda>x. \<not> totals_at p (usage_day date) x \<and> totals_at p (usage_day date) x) xs = None" for xs
      by (simp add: find_None_iff)
    moreover have "filter (\<lambda>r. us_provider r = p \<and> us_date r = usage_day date)
        (qd_usage (ResetProviderForDate p date db)) = []"
      by (auto simp: ResetProviderForDate_def filter_empty_conv)
    ultimately show ?thesis using True
      by (simp add: total_def usage_sum_def select_row_def ResetProviderForDate_def find_filter)
  next
    case False
    then have "(\<lambda>x. \<not> totals_at p (usage_day date) x \<and> totals_at p' d' x) = totals_at p' d'"
      by (auto simp: totals_at_def)
    moreover have "filter (\<lambda>r. us_provider r = p' \<and> us_date r = d') (qd_usage (ResetProviderForDate p date db)) =
        filter (\<lambda>r. us_provider r = p' \<and> us_date r = d') (qd_usage db)"
      using False by (auto simp: ResetProviderForDate_def intro!: filter_cong)
    ultimately show ?thesis using assms
      by (simp add: total_def usage_sum_def select_row_def ResetProviderForDate_def find_filter balanced_def)
  qed
qed

section \<open>Runs of the store\<close>

datatype quota_request =
    QReserve time string string time int int
  | QBlocked time string string time int
  | QFallback time string string time int
  | QReset string time

fun quota_step :: "quota_request \<Rightarrow> quota_db \<Rightarrow> quota_db" where
  "quota_step (QReserve now p oper date cost quota) db =
     (case Reserve now p oper date cost quota db of Inl _ \<Rightarrow> db | Inr (_, db') \<Rightarrow> db')"
| "quota_step (QBlocked now p oper date n) db = snd (IncrementBlocked now p oper date n db)"
| "quota_step (QFallback now p oper date n) db = snd (IncrementFallback now p oper date n db)"
| "quota_step (QReset p date) db = ResetProviderForDate p date db"

lemma quota_step_ok: "quota_ok db \<Longrightarrow> quota_ok (quota_step r db)"
  by (cases r) (auto simp: IncrementBlocked_def IncrementFallback_def Reset_ok
    intro: Reserve_Inr(1) incrementCounter_total(1) [OF prod.collapse [symmetric]] split: sum.split)

lemma quota_step_balanced:
  assumes "quota_ok db" "balanced db"
  shows "balanced (quota_step r db)"
proof (cases r)
  case (QReserve now p oper date cost quota)
  show ?thesis
  proof (cases "Reserve now p oper date cost quota db")
    case (Inr x)
    then obtain res db' where x: "Reserve now p oper date cost quota db = Inr (res, db')" by (cases x) auto
    then show ?thesis using QReserve Reserve_Inr(2,3) [OF x assms(1)] assms(2) by (simp add: balanced_def)
  qed (use QReserve assms in simp)
next
  case (QBlocked now p oper date n)
  then show ?thesis using incrementCounter_balanced [OF prod.collapse [symmetric] assms] by (simp add: IncrementBlocked_def)
next
  case (QFallback now p oper date n)
  then show ?thesis using incrementCounter_balanced [OF prod.collapse [symmetric] assms] by (simp add: IncrementFallback_def)
next
  case (QReset p date)
  then show ?thesis using assms(2) by (simp add: Reset_balanced)
qed

interpretation quota: request_system quota_step "\<lambda>db. quota_ok db \<and> balanced db"
  by unfold_locales (simp add: quota_step_ok quota_step_balanced)

text \<open>
  After any run of reservations, blocked and fallback counts and resets, each count of a
  provider's day is the sum of the counts of its operations on that day, so the quota is enforced
  on what the operations consumed; in particular the two statements of an increment, which run
  outside a transaction, never drift apart by an overflow.
\<close>

theorem totals_match_usage:
  assumes "quota_ok db" "balanced db"
  shows "total k p d (fold quota_step rs db) = usage_sum k p d (fold quota_step rs db)"
  using quota.inv_run [of db rs] assms by (simp add: balanced_def)

lemma totals_match_usage_witness:
  "total CountUsed ''ors'' 0 (fold quota_step [QReserve 1 ''ors'' ''route_estimate'' 5 2 10]
     \<lparr>qd_totals = [], qd_usage = []\<rparr>) =
   usage_sum CountUsed ''ors'' 0 (fold quota_step [QReserve 1 ''ors'' ''route_estimate'' 5 2 10]
     \<lparr>qd_totals = [], qd_usage = []\<rparr>)"
  by (rule totals_match_usage)
    (simp_all add: quota_ok_def balanced_def key_unique_def total_def usage_sum_def select_row_def)

end
