(* ===== verification/ProviderGuard.thy ===== *)
theory ProviderGuard
  imports ProviderLimits
begin

text \<open>
  The guard every provider call goes through (\<open>guard.go\<close>) and the errors made of its
  decisions (\<open>errors.go\<close>). It is written against the interface \<open>QuotaStore\<close>
  (\<open>quota_store.go\<close>), here a record of operations. The locale \<open>quota_store_laws\<close> states what
  the interface's comments promise; the guard's theorems are proved from it, and it is
  interpreted on the Postgres store. \<open>now\<close> is the clock at the call, and \<open>verdict\<close> what
  \<open>rateAllow\<close> answered. The zone of the guard is a fixed offset from UTC.
\<close>

section \<open>The guard\<close>

record 'q quota_store =
  qs_reserve :: "time \<Rightarrow> string \<Rightarrow> string \<Rightarrow> time \<Rightarrow> int \<Rightarrow> int \<Rightarrow> ('q, quota_error, reservation) op"
  qs_blocked :: "time \<Rightarrow> string \<Rightarrow> string \<Rightarrow> time \<Rightarrow> int \<Rightarrow> ('q, quota_error, unit) op"
  qs_fallback :: "time \<Rightarrow> string \<Rightarrow> string \<Rightarrow> time \<Rightarrow> int \<Rightarrow> ('q, quota_error, unit) op"

record provider_limit =
  pl_category :: string
  pl_provider :: string
  pl_rate_per_minute :: int
  pl_burst :: int
  pl_daily_quota :: int

record guard =
  gd_enabled :: bool
  gd_fail_open :: bool
  gd_offset :: duration
  gd_max_wait :: duration
  gd_registry :: "string \<Rightarrow> provider_limit option"

record provider_call =
  pc_provider :: string
  pc_operation :: string
  pc_cost :: int

record decision =
  dc_allowed :: bool
  dc_limited :: bool
  dc_quota_exceeded :: bool
  dc_unavailable :: bool
  dc_retry_after :: int
  dc_reason :: string
  dc_provider :: string
  dc_operation :: string
  dc_category :: string
  dc_quota :: int
  dc_used :: int
  dc_remaining :: int

definition UnlimitedQuota :: "provider_limit \<Rightarrow> bool" where
  "UnlimitedQuota l \<longleftrightarrow> pl_daily_quota l \<le> 0"

text \<open>\<open>NewGuard\<close> fills the registry in order, so a later limit of a category wins.\<close>

definition guardRegistry :: "provider_limit list \<Rightarrow> string \<Rightarrow> provider_limit option" where
  "guardRegistry limits = fold (\<lambda>l m. m(pl_category l \<mapsto> l)) limits Map.empty"

definition NewGuard :: "bool \<Rightarrow> bool \<Rightarrow> duration option \<Rightarrow> duration \<Rightarrow> provider_limit list \<Rightarrow> guard" where
  "NewGuard enabled failOpen loc maxWait limits =
    \<lparr>gd_enabled = enabled, gd_fail_open = failOpen, gd_offset = (case loc of None \<Rightarrow> 0 | Some z \<Rightarrow> z),
     gd_max_wait = maxWait, gd_registry = guardRegistry limits\<rparr>"

definition GuardLimits :: "guard \<Rightarrow> provider_limit list" where
  "GuardLimits g = List.map_filter (gd_registry g)
    [''places'', ''routes'', ''weather'', ''calendar'', ''exchange_rate'', ''price'',
     ''transport_search'', ''availability'']"

text \<open>\<open>time.Now().In(loc).UTC()\<close> is the same instant in UTC, so the zone plays no part.\<close>

definition Today :: "guard \<Rightarrow> time \<Rightarrow> time" where
  "Today g now = usage_day now"

definition secondsUntilTomorrow :: "guard \<Rightarrow> time \<Rightarrow> int" where
  "secondsUntilTomorrow g now =
    (let wall = now + gd_offset g;
         tomorrow = usage_day wall + day_ns;
         s = ceil_seconds (tomorrow - wall)
     in if s < 1 then 1 else s)"

text \<open>The limiter's first answer and the one after the bounded wait.\<close>

definition rateAllow :: "guard \<Rightarrow> bool \<times> duration \<Rightarrow> bool \<times> duration \<Rightarrow> bool \<times> duration" where
  "rateAllow g first again =
    (if fst first \<or> gd_max_wait g \<le> 0 \<or> snd first > gd_max_wait g then first else again)"

definition start_decision :: "provider_call \<Rightarrow> decision" where
  "start_decision call =
    \<lparr>dc_allowed = False, dc_limited = False, dc_quota_exceeded = False, dc_unavailable = False,
     dc_retry_after = 0, dc_reason = [], dc_provider = pc_provider call,
     dc_operation = pc_operation call, dc_category = CategoryForOperation (pc_operation call),
     dc_quota = 0, dc_used = 0, dc_remaining = 0\<rparr>"

definition CheckAndReserve ::
  "'q quota_store \<Rightarrow> guard \<Rightarrow> time \<Rightarrow> bool \<times> duration \<Rightarrow> provider_call \<Rightarrow> 'q \<Rightarrow> decision \<times> 'q" where
  "CheckAndReserve store g now verdict call q =
    (let d0 = start_decision call in
     if \<not> gd_enabled g then (d0\<lparr>dc_allowed := True, dc_reason := ''disabled''\<rparr>, q)
     else
      (let cost = (if pc_cost call < 1 then 1 else pc_cost call) in
       case gd_registry g (dc_category d0) of
         None \<Rightarrow> (d0\<lparr>dc_allowed := True, dc_reason := ''allowed''\<rparr>, q)
       | Some limit \<Rightarrow>
          (let d1 = d0\<lparr>dc_quota := pl_daily_quota limit\<rparr>; date = Today g now in
           if \<not> fst verdict then
             (let retry = ceil_seconds (snd verdict) in
              (d1\<lparr>dc_limited := True, dc_reason := ''rate_limited'',
                  dc_retry_after := (if retry < 1 then 1 else retry), dc_remaining := 0\<rparr>,
               snd (qs_blocked store now (pc_provider call) (pc_operation call) date cost q)))
           else
             (case qs_reserve store now (pc_provider call) (pc_operation call) date cost
                     (pl_daily_quota limit) q of
                (Inl e, q') \<Rightarrow>
                  (if gd_fail_open g
                   then (d1\<lparr>dc_allowed := True, dc_reason := ''fail_open''\<rparr>, q')
                   else (d1\<lparr>dc_unavailable := True, dc_reason := ''limits_unavailable'',
                            dc_retry_after := 30\<rparr>, q'))
              | (Inr res, q') \<Rightarrow>
                  (let d2 = d1\<lparr>dc_quota := rs_quota res, dc_used := rs_used res,
                        dc_remaining := rs_remaining res\<rparr> in
                   if rs_exceeded res
                   then (d2\<lparr>dc_quota_exceeded := True, dc_reason := ''quota_exceeded'',
                            dc_retry_after := secondsUntilTomorrow g now\<rparr>, q')
                   else (d2\<lparr>dc_allowed := True, dc_reason := ''allowed''\<rparr>, q'))))))"

definition RecordFallback :: "'q quota_store \<Rightarrow> guard \<Rightarrow> time \<Rightarrow> string \<Rightarrow> string \<Rightarrow> 'q \<Rightarrow> 'q" where
  "RecordFallback store g now p oper q =
    (if \<not> gd_enabled g then q else snd (qs_fallback store now p oper (Today g now) 1 q))"

section \<open>Errors\<close>

datatype limit_code = CodeRateLimited | CodeQuotaExceeded | CodeLimitsUnavailable

definition safeMessage :: "limit_code \<Rightarrow> string \<Rightarrow> string" where
  "safeMessage code category =
    (let label = (if category = [] then ''provider'' else category) in
     case code of
       CodeRateLimited \<Rightarrow> ''The '' @ label @ '' provider is temporarily rate limited. Please try again later.''
     | CodeQuotaExceeded \<Rightarrow> ''The '' @ label @ '' provider daily quota has been reached. Please try again later.''
     | CodeLimitsUnavailable \<Rightarrow>
         ''The '' @ label @ '' provider limit service is temporarily unavailable. Please try again later.'')"

record limit_error =
  le_code :: limit_code
  le_provider :: string
  le_operation :: string
  le_retry_after :: int
  le_message :: string

definition limit_error_of :: "limit_code \<Rightarrow> decision \<Rightarrow> limit_error" where
  "limit_error_of code d =
    \<lparr>le_code = code, le_provider = dc_provider d, le_operation = dc_operation d,
     le_retry_after = dc_retry_after d, le_message = safeMessage code (dc_category d)\<rparr>"

definition LimitErrorFrom :: "decision \<Rightarrow> limit_error option" where
  "LimitErrorFrom d =
    (if dc_limited d then Some (limit_error_of CodeRateLimited d)
     else if dc_quota_exceeded d then Some (limit_error_of CodeQuotaExceeded d)
     else if dc_unavailable d then Some (limit_error_of CodeLimitsUnavailable d)
     else None)"

section \<open>The interface\<close>

locale quota_store_laws =
  fixes store :: "'q quota_store"
    and ok :: "'q \<Rightarrow> bool"
    and used :: "string \<Rightarrow> time \<Rightarrow> 'q \<Rightarrow> int"
  assumes reserve_ok: "ok q \<Longrightarrow> ok (snd (qs_reserve store now p oper date cost quota q))"
    and blocked_ok: "ok q \<Longrightarrow> ok (snd (qs_blocked store now p oper date n q))"
    and fallback_ok: "ok q \<Longrightarrow> ok (snd (qs_fallback store now p oper date n q))"
    and reserve_allowed: "ok q \<Longrightarrow> qs_reserve store now p oper date cost quota q = (Inr res, q') \<Longrightarrow>
      rs_allowed res \<Longrightarrow> used p (usage_day date) q' = used p (usage_day date) q + max 1 cost \<and>
      (0 < quota \<longrightarrow> used p (usage_day date) q' \<le> quota)"
    and reserve_refused: "ok q \<Longrightarrow> qs_reserve store now p oper date cost quota q = (r, q') \<Longrightarrow>
      (\<And>res. r = Inr res \<Longrightarrow> \<not> rs_allowed res) \<Longrightarrow> used p' d' q' = used p' d' q"
    and reserve_other: "ok q \<Longrightarrow> \<not> (p' = p \<and> d' = usage_day date) \<Longrightarrow>
      used p' d' (snd (qs_reserve store now p oper date cost quota q)) = used p' d' q"
    and reserve_exceeded: "ok q \<Longrightarrow> qs_reserve store now p oper date cost quota q = (Inr res, q') \<Longrightarrow>
      rs_exceeded res \<longleftrightarrow> \<not> rs_allowed res"
    and blocked_used: "ok q \<Longrightarrow> used p' d' (snd (qs_blocked store now p oper date n q)) = used p' d' q"
    and fallback_used: "ok q \<Longrightarrow> used p' d' (snd (qs_fallback store now p oper date n q)) = used p' d' q"

lemma usage_day_idem [simp]: "usage_day (usage_day t) = usage_day t"
proof -
  have "(t - t mod day_ns) mod day_ns = (t - t) mod day_ns" by (rule mod_diff_right_eq)
  then show ?thesis by (simp add: usage_day_def)
qed

text \<open>Whether a decision rests on a reservation.\<close>

definition reserved :: "guard \<Rightarrow> provider_call \<Rightarrow> decision \<Rightarrow> bool" where
  "reserved g call d \<longleftrightarrow>
     gd_enabled g \<and> gd_registry g (CategoryForOperation (pc_operation call)) \<noteq> None \<and>
     dc_reason d = ''allowed''"

datatype guard_request =
    GCall time "bool \<times> duration" provider_call
  | GFallback time string string

fun guard_step :: "'q quota_store \<Rightarrow> guard \<Rightarrow> guard_request \<Rightarrow> 'q \<Rightarrow> 'q" where
  "guard_step store g (GCall now v call) q = snd (CheckAndReserve store g now v call q)"
| "guard_step store g (GFallback now p oper) q = RecordFallback store g now p oper q"

text \<open>The quota units of a provider's day that a run's decisions reserved.\<close>

fun reserved_units :: "'q quota_store \<Rightarrow> guard \<Rightarrow> string \<Rightarrow> time \<Rightarrow> guard_request list \<Rightarrow> 'q \<Rightarrow> int" where
  "reserved_units store g p d [] q = 0"
| "reserved_units store g p d (r # rs) q =
    (case r of
       GCall now v call \<Rightarrow>
         (if reserved g call (fst (CheckAndReserve store g now v call q)) \<and> pc_provider call = p \<and> usage_day now = d
          then max 1 (pc_cost call) else 0)
     | GFallback _ _ _ \<Rightarrow> 0) + reserved_units store g p d rs (guard_step store g r q)"

lemma max_one_eq: "(if c < 1 then 1 else c) = max 1 (c :: int)"
  by auto

context quota_store_laws
begin

lemma check_used:
  assumes "ok q" "CheckAndReserve store g now v call q = (dec, q')"
  shows "ok q'"
    and "used p d q' = used p d q +
      (if reserved g call dec \<and> pc_provider call = p \<and> usage_day now = d then max 1 (pc_cost call) else 0)"
    and "reserved g call dec \<Longrightarrow> gd_registry g (CategoryForOperation (pc_operation call)) = Some limit \<Longrightarrow>
      0 < pl_daily_quota limit \<Longrightarrow> used (pc_provider call) (usage_day now) q' \<le> pl_daily_quota limit"
proof (atomize (full), cases "gd_enabled g \<and> (\<exists>limit. gd_registry g (CategoryForOperation (pc_operation call)) = Some limit) \<and> fst v")
  case False
  then have "dec = dec \<and> (q' = q \<or> q' = snd (qs_blocked store now (pc_provider call) (pc_operation call) (Today g now)
      (max 1 (pc_cost call)) q)) \<and> \<not> reserved g call dec"
    using assms(2) by (auto simp: CheckAndReserve_def Let_def reserved_def start_decision_def max_one_eq split: if_splits option.splits)
  then show "ok q' \<and> used p d q' = used p d q +
      (if reserved g call dec \<and> pc_provider call = p \<and> usage_day now = d then max 1 (pc_cost call) else 0) \<and>
      (reserved g call dec \<longrightarrow> gd_registry g (CategoryForOperation (pc_operation call)) = Some limit \<longrightarrow>
       0 < pl_daily_quota limit \<longrightarrow> used (pc_provider call) (usage_day now) q' \<le> pl_daily_quota limit)"
    using assms(1) blocked_ok blocked_used by auto
next
  case True
  then obtain lim where lim: "gd_enabled g" "gd_registry g (CategoryForOperation (pc_operation call)) = Some lim" "fst v"
    by blast
  obtain r q1 where r: "qs_reserve store now (pc_provider call) (pc_operation call) (usage_day now)
      (max 1 (pc_cost call)) (pl_daily_quota lim) q = (r, q1)" by fastforce
  have q1: "q' = q1" and res: "reserved g call dec \<longleftrightarrow> (\<exists>res. r = Inr res \<and> rs_allowed res)"
    using assms lim r reserve_exceeded [OF assms(1)]
    by (auto simp: CheckAndReserve_def Let_def reserved_def start_decision_def max_one_eq Today_def split: sum.splits if_splits)
  have ok: "ok q'" using reserve_ok [OF assms(1)] r q1 by (metis snd_conv)
  show "ok q' \<and> used p d q' = used p d q +
      (if reserved g call dec \<and> pc_provider call = p \<and> usage_day now = d then max 1 (pc_cost call) else 0) \<and>
      (reserved g call dec \<longrightarrow> gd_registry g (CategoryForOperation (pc_operation call)) = Some limit \<longrightarrow>
       0 < pl_daily_quota limit \<longrightarrow> used (pc_provider call) (usage_day now) q' \<le> pl_daily_quota limit)"
  proof (cases "\<exists>res. r = Inr res \<and> rs_allowed res")
    case True
    then obtain x where x: "r = Inr x" "rs_allowed x" by blast
    have a: "used (pc_provider call) (usage_day now) q' =
        used (pc_provider call) (usage_day now) q + max 1 (pc_cost call)"
      "0 < pl_daily_quota lim \<Longrightarrow> used (pc_provider call) (usage_day now) q' \<le> pl_daily_quota lim"
      using reserve_allowed [OF assms(1) r [unfolded x(1)] x(2)] q1 by auto
    have "used p d q' = used p d q" if "\<not> (pc_provider call = p \<and> usage_day now = d)"
      using reserve_other [OF assms(1), of p "pc_provider call" d "usage_day now"] that r q1 by (metis snd_conv usage_day_idem)
    then show ?thesis using ok a res True lim(2) by auto
  next
    case False
    then have "used p d q' = used p d q" using reserve_refused [OF assms(1) r] q1 by blast
    then show ?thesis using ok res False by simp
  qed
qed

lemma guard_step_ok: "ok q \<Longrightarrow> ok (guard_step store g r q)"
  by (cases r) (auto simp: RecordFallback_def fallback_ok intro: check_used(1) [OF _ prod.collapse [symmetric]])

lemma run_accounting:
  "ok q \<Longrightarrow> used p d (fold (guard_step store g) rs q) = used p d q + reserved_units store g p d rs q"
proof (induction rs arbitrary: q)
  case (Cons r rs)
  have "used p d (guard_step store g r q) = used p d q +
    (case r of GCall now v call \<Rightarrow>
        (if reserved g call (fst (CheckAndReserve store g now v call q)) \<and> pc_provider call = p \<and> usage_day now = d
         then max 1 (pc_cost call) else 0) | GFallback _ _ _ \<Rightarrow> 0)"
    by (cases r) (simp_all add: check_used(2) [OF Cons.prems prod.collapse [symmetric]] RecordFallback_def
      fallback_used [OF Cons.prems])
  then show ?case using Cons.IH [OF guard_step_ok [OF Cons.prems]] by simp
qed simp

lemma run_below_quota:
  assumes "ok q" "\<And>now v call. GCall now v call \<in> set rs \<Longrightarrow> pc_provider call = p \<Longrightarrow>
      \<exists>limit. gd_registry g (CategoryForOperation (pc_operation call)) = Some limit \<and>
        0 < pl_daily_quota limit \<and> pl_daily_quota limit \<le> Q"
  shows "used p d (fold (guard_step store g) rs q) \<le> max Q (used p d q)"
  using assms
proof (induction rs arbitrary: q)
  case (Cons r rs)
  have step: "used p d (guard_step store g r q) \<le> max Q (used p d q)"
  proof (cases r)
    case (GCall now v call)
    let ?dec = "fst (CheckAndReserve store g now v call q)"
    have run: "CheckAndReserve store g now v call q = (?dec, snd (CheckAndReserve store g now v call q))" by simp
    show ?thesis
    proof (cases "reserved g call ?dec \<and> pc_provider call = p \<and> usage_day now = d")
      case True
      then obtain limit where "gd_registry g (CategoryForOperation (pc_operation call)) = Some limit"
        "0 < pl_daily_quota limit" "pl_daily_quota limit \<le> Q" using Cons.prems(2) GCall by (metis list.set_intros(1))
      then show ?thesis using check_used(3) [OF Cons.prems(1) run] True GCall by fastforce
    next
      case False
      then show ?thesis using check_used(2) [OF Cons.prems(1) run, of p d] GCall by auto
    qed
  next
    case (GFallback now p' oper)
    then show ?thesis using fallback_used [OF Cons.prems(1)] by (simp add: RecordFallback_def)
  qed
  have "used p d (fold (guard_step store g) rs (guard_step store g r q)) \<le> max Q (used p d (guard_step store g r q))"
  proof (rule Cons.IH)
    show "ok (guard_step store g r q)" using Cons.prems(1) by (rule guard_step_ok)
    show "\<exists>limit. gd_registry g (CategoryForOperation (pc_operation call)) = Some limit \<and>
        0 < pl_daily_quota limit \<and> pl_daily_quota limit \<le> Q"
      if "GCall now v call \<in> set rs" "pc_provider call = p" for now v call
      using that(2) by (intro Cons.prems(2) [of now v call]) (simp_all add: that(1))
  qed
  with step show ?case by simp
qed simp

end

section \<open>The Postgres store provides the interface\<close>

definition PostgresStore :: "quota_db quota_store" where
  "PostgresStore =
    \<lparr>qs_reserve = (\<lambda>now p oper date cost quota. sstmt (Reserve now p oper date cost quota)),
     qs_blocked = IncrementBlocked, qs_fallback = IncrementFallback\<rparr>"

lemma PostgresStore_simps [simp]:
  "qs_reserve PostgresStore now p oper date cost quota = sstmt (Reserve now p oper date cost quota)"
  "qs_blocked PostgresStore = IncrementBlocked" "qs_fallback PostgresStore = IncrementFallback"
  by (simp_all add: PostgresStore_def)

interpretation postgres: quota_store_laws PostgresStore quota_ok "total CountUsed"
proof (unfold_locales, goal_cases)
  case (1 q now p oper date cost quota)
  then show ?case by (auto simp: sstmt_def intro: Reserve_Inr(1) split: sum.split prod.split)
next
  case (2 q now p oper date n)
  then show ?case by (auto simp: IncrementBlocked_def intro: incrementCounter_total(1) [OF prod.collapse [symmetric]])
next
  case (3 q now p oper date n)
  then show ?case by (auto simp: IncrementFallback_def intro: incrementCounter_total(1) [OF prod.collapse [symmetric]])
next
  case (4 q now p oper date cost quota res q')
  have run: "Reserve now p oper date cost quota q = Inr (res, q')" using 4(2) by (simp add: sstmt_Inr)
  show ?case using Reserve_Inr(2) [OF run 4(1), of CountUsed p "usage_day date"] Reserve_Inr(8) [OF run 4(1)] 4(3)
    by (auto simp: max_one_eq)
next
  case (5 q now p oper date cost quota r q' p' d')
  show ?case
  proof (cases r)
    case (Inl e)
    then show ?thesis using 5(2) by (simp add: sstmt_Inl)
  next
    case (Inr res)
    then have run: "Reserve now p oper date cost quota q = Inr (res, q')" using 5(2) by (simp add: sstmt_Inr)
    show ?thesis using Reserve_Inr(2) [OF run 5(1), of CountUsed p' d'] 5(3) [OF Inr] by simp
  qed
next
  case (6 q p' p d' date now oper cost quota)
  show ?case
  proof (cases "Reserve now p oper date cost quota q")
    case (Inl e)
    then show ?thesis by (simp add: sstmt_def)
  next
    case (Inr x)
    then obtain res q' where run: "Reserve now p oper date cost quota q = Inr (res, q')" by (cases x) auto
    show ?thesis using Reserve_Inr(2) [OF run 6(1), of CountUsed p' d'] 6(2) run by (auto simp: sstmt_def)
  qed
next
  case (7 q now p oper date cost quota res q')
  then show ?case using Reserve_Inr(4) [of now p oper date cost quota q res q'] by (simp add: sstmt_Inr)
next
  case (8 q p' d' now p oper date n)
  then show ?case by (simp add: IncrementBlocked_def incrementCounter_total(2) [OF prod.collapse [symmetric]])
next
  case (9 q p' d' now p oper date n)
  then show ?case by (simp add: IncrementFallback_def incrementCounter_total(2) [OF prod.collapse [symmetric]])
qed

text \<open>
  C19. The daily quota holds for every run of guarded calls and fallbacks, in any order and for
  any answers of the rate limiter: when every call to a provider is of a category whose daily
  quota is positive and at most \<open>Q\<close>, the provider's usage of a day never grows beyond \<open>Q\<close>
  (or stays where it was, if it was above).
\<close>

theorem quota_never_exceeded:
  assumes "quota_ok db"
    and "\<And>now v call. GCall now v call \<in> set rs \<Longrightarrow> pc_provider call = p \<Longrightarrow>
      \<exists>limit. gd_registry g (CategoryForOperation (pc_operation call)) = Some limit \<and>
        0 < pl_daily_quota limit \<and> pl_daily_quota limit \<le> Q"
  shows "total CountUsed p d (fold (guard_step PostgresStore g) rs db) \<le> max Q (total CountUsed p d db)"
  using assms by (rule postgres.run_below_quota)

text \<open>
  Exact accounting: the usage of a provider's day grows by exactly the units of the calls
  that the guard decided to allow on a reservation that day. Calls refused by the rate limiter or
  the quota, calls let through because the store failed, and fallbacks consume nothing.
\<close>

theorem quota_accounting_exact:
  assumes "quota_ok db"
  shows "total CountUsed p d (fold (guard_step PostgresStore g) rs db) =
    total CountUsed p d db + reserved_units PostgresStore g p d rs db"
  using assms by (rule postgres.run_accounting)

section \<open>Decisions and errors\<close>

text \<open>
  A decision of the guard is either allowed, and then no error is made of it, or it carries
  exactly one of the three reasons, the error has its code and a retry hint of at least one
  second. A guard that is switched off allows everything and touches no count.
\<close>

theorem decision_or_error:
  "(case LimitErrorFrom (fst (CheckAndReserve store g now v call q)) of
      None \<Rightarrow> dc_allowed (fst (CheckAndReserve store g now v call q))
    | Some e \<Rightarrow> \<not> dc_allowed (fst (CheckAndReserve store g now v call q)) \<and> 1 \<le> le_retry_after e \<and>
        (le_code e, dc_reason (fst (CheckAndReserve store g now v call q))) \<in>
          {(CodeRateLimited, ''rate_limited''), (CodeQuotaExceeded, ''quota_exceeded''),
           (CodeLimitsUnavailable, ''limits_unavailable'')}) \<and>
   (if gd_enabled g then True
    else fst (CheckAndReserve store g now v call q) = (start_decision call)\<lparr>dc_allowed := True, dc_reason := ''disabled''\<rparr> \<and>
      snd (CheckAndReserve store g now v call q) = q)"
proof -
  have s: "1 \<le> secondsUntilTomorrow g now" by (auto simp: secondsUntilTomorrow_def Let_def)
  have e: "le_retry_after (limit_error_of c d) = dc_retry_after d" "le_code (limit_error_of c d) = c" for c d
    by (simp_all add: limit_error_of_def)
  show ?thesis
  proof (cases "gd_enabled g")
    case False
    then show ?thesis by (simp add: CheckAndReserve_def LimitErrorFrom_def start_decision_def)
  next
    case on: True
    show ?thesis
    proof (cases "gd_registry g (CategoryForOperation (pc_operation call))")
      case None
      then show ?thesis using on by (simp add: CheckAndReserve_def LimitErrorFrom_def start_decision_def Let_def)
    next
      case (Some limit)
      then show ?thesis using on s e
        by (auto simp: CheckAndReserve_def LimitErrorFrom_def start_decision_def Let_def split: prod.splits sum.splits)
    qed
  qed
qed

text \<open>
  The category table and the operations table are each other's inverse: an operation is
  listed for a category exactly if that is its category.
\<close>

theorem operation_tables_agree:
  "oper \<in> set (OperationsForCategory c) \<longleftrightarrow> CategoryForOperation oper = c \<and> c \<noteq> []"
proof
  assume "oper \<in> set (OperationsForCategory c)"
  then obtain os where "map_of categoryOperations c = Some os" "oper \<in> set os"
    by (cases "map_of categoryOperations c") (auto simp: OperationsForCategory_def)
  moreover have "list_all (\<lambda>(c, os). c \<noteq> [] \<and> list_all (\<lambda>x. CategoryForOperation x = c) os) categoryOperations"
    by code_simp
  ultimately show "CategoryForOperation oper = c \<and> c \<noteq> []"
    by (auto simp: list_all_iff dest!: map_of_SomeD)
next
  assume *: "CategoryForOperation oper = c \<and> c \<noteq> []"
  then have "map_of operationCategory oper = Some c"
    by (cases "map_of operationCategory oper") (auto simp: CategoryForOperation_def)
  moreover have "list_all (\<lambda>(x, c). x \<in> set (OperationsForCategory c)) operationCategory" by code_simp
  ultimately show "oper \<in> set (OperationsForCategory c)"
    by (auto simp: list_all_iff dest!: map_of_SomeD)
qed

text \<open>
  The retry hint of an exhausted quota counts to the next midnight of the guard's zone, but
  the usage day changes at midnight UTC, since \<open>Today\<close> drops the zone: with a zone two hours
  east of UTC, a call refused at 21:00 UTC is told to retry in an hour, when the usage day, and
  with it the exhausted quota, is still the same.
\<close>

theorem retry_hint_ignores_usage_day:
  assumes "gd_offset g = 2 * 3600 * second" "now = n * day_ns + 21 * 3600 * second"
  shows "secondsUntilTomorrow g now = 3600 \<and>
    Today g (now + secondsUntilTomorrow g now * second) = Today g now"
proof -
  have d: "(n * day_ns + x) mod day_ns = x" if "0 \<le> x" "x < day_ns" for x
    using that by simp
  have "(now + gd_offset g) mod day_ns = 23 * 3600 * second"
    using d [of "23 * 3600 * second"] assms by (simp add: day_ns_def add.assoc flip: distrib_right)
  then have hint: "secondsUntilTomorrow g now = 3600"
    using ceil_seconds_mult [of 3600] by (simp add: secondsUntilTomorrow_def usage_day_def Let_def day_ns_def)
  have "(now + 3600 * second) mod day_ns = 22 * 3600 * second" "now mod day_ns = 21 * 3600 * second"
    using d [of "22 * 3600 * second"] d [of "21 * 3600 * second"] assms(2)
    by (simp_all add: day_ns_def add.assoc flip: distrib_right)
  then have "Today g (now + 3600 * second) = Today g now"
    by (simp add: Today_def usage_day_def)
  with hint show ?thesis by simp
qed

section \<open>Witnesses\<close>

definition demo_limit :: provider_limit where
  "demo_limit = \<lparr>pl_category = ''routes'', pl_provider = ''ors'', pl_rate_per_minute = 40, pl_burst = 10,
     pl_daily_quota = 2\<rparr>"

definition demo_guard :: guard where
  "demo_guard = NewGuard True False (Some (2 * 3600 * second)) 0 [demo_limit]"

definition demo_call :: provider_call where
  "demo_call = \<lparr>pc_provider = ''ors'', pc_operation = ''route_estimate'', pc_cost = 1\<rparr>"

definition demo_calls :: "guard_request list" where
  "demo_calls = [GCall 1 (True, 0) demo_call, GCall 2 (False, 5) demo_call, GFallback 3 ''ors'' ''route_estimate'',
     GCall 4 (True, 0) demo_call, GCall 5 (True, 0) demo_call]"

lemma empty_quota_ok: "quota_ok \<lparr>qd_totals = [], qd_usage = []\<rparr>"
  by (simp add: quota_ok_def key_unique_def)

lemma quota_never_exceeded_witness:
  "total CountUsed ''ors'' 0 (fold (guard_step PostgresStore demo_guard) demo_calls \<lparr>qd_totals = [], qd_usage = []\<rparr>) \<le>
     max 2 (total CountUsed ''ors'' 0 \<lparr>qd_totals = [], qd_usage = []\<rparr>)"
proof (rule quota_never_exceeded [OF empty_quota_ok])
  fix now v call
  assume "GCall now v call \<in> set demo_calls"
  then have "call = demo_call" by (auto simp: demo_calls_def)
  moreover have "gd_registry demo_guard (CategoryForOperation ''route_estimate'') = Some demo_limit" by code_simp
  ultimately show "\<exists>limit. gd_registry demo_guard (CategoryForOperation (pc_operation call)) = Some limit \<and>
      0 < pl_daily_quota limit \<and> pl_daily_quota limit \<le> 2"
    by (simp add: demo_call_def demo_limit_def)
qed

lemma quota_accounting_exact_witness:
  "total CountUsed ''ors'' 0 (fold (guard_step PostgresStore demo_guard) demo_calls \<lparr>qd_totals = [], qd_usage = []\<rparr>) =
     total CountUsed ''ors'' 0 \<lparr>qd_totals = [], qd_usage = []\<rparr> +
     reserved_units PostgresStore demo_guard ''ors'' 0 demo_calls \<lparr>qd_totals = [], qd_usage = []\<rparr>"
  by (rule quota_accounting_exact [OF empty_quota_ok])

lemma retry_hint_ignores_usage_day_witness:
  "secondsUntilTomorrow demo_guard (5 * day_ns + 21 * 3600 * second) = 3600"
  using retry_hint_ignores_usage_day [of demo_guard "5 * day_ns + 21 * 3600 * second" 5]
  by (simp add: demo_guard_def NewGuard_def)

end
