(* ===== verification/Utf8.thy ===== *)
theory Utf8
  imports Prelude
begin

text \<open>
  UTF-8 in Go strings and in Postgres: the length of the character a string starts with,
  well-formedness, the texts a text column accepts, and the characters a \<open>range\<close> over a string
  visits.
\<close>

definition cont_byte :: "char \<Rightarrow> bool" where
  "cont_byte c \<longleftrightarrow> (0x80 :: nat) \<le> of_char c \<and> of_char c \<le> (0xBF :: nat)"

definition in_bytes :: "nat \<Rightarrow> nat \<Rightarrow> char \<Rightarrow> bool" where
  "in_bytes lo hi c \<longleftrightarrow> lo \<le> of_char c \<and> of_char c \<le> hi"

text \<open>The length of the well-formed encoding a string starts with, 0 if there is none.\<close>

definition rune_len :: "string \<Rightarrow> nat" where
  "rune_len s =
    (case s of
       [] \<Rightarrow> 0
     | a # r \<Rightarrow>
        (if in_bytes 0 0x7F a then 1
         else (case r of
            [] \<Rightarrow> 0
          | b # r' \<Rightarrow>
             (if in_bytes 0xC2 0xDF a then (if cont_byte b then 2 else 0)
              else (case r' of
                 [] \<Rightarrow> 0
               | c # r'' \<Rightarrow>
                  (if in_bytes 0xE0 0xEF a then
                     (if cont_byte c \<and>
                         (if in_bytes 0xE0 0xE0 a then in_bytes 0xA0 0xBF b
                          else if in_bytes 0xED 0xED a then in_bytes 0x80 0x9F b else cont_byte b)
                      then 3 else 0)
                   else (case r'' of
                      [] \<Rightarrow> 0
                    | d # _ \<Rightarrow>
                       (if in_bytes 0xF0 0xF4 a \<and> cont_byte c \<and> cont_byte d \<and>
                           (if in_bytes 0xF0 0xF0 a then in_bytes 0x90 0xBF b
                            else if in_bytes 0xF4 0xF4 a then in_bytes 0x80 0x8F b else cont_byte b)
                        then 4 else 0))))))))"

function valid_utf8 :: "string \<Rightarrow> bool" where
  "valid_utf8 s =
    (if s = [] then True else if rune_len s = 0 then False else valid_utf8 (drop (rune_len s) s))"
  by pat_completeness auto
termination
  by (relation "measure length") auto

declare valid_utf8.simps [simp del]

definition char_count :: "string \<Rightarrow> nat" where
  "char_count s = length (filter (\<lambda>c. \<not> cont_byte c) s)"

definition storable :: "string \<Rightarrow> bool" where
  "storable s \<longleftrightarrow> valid_utf8 s \<and> CHR 0x00 \<notin> set s"

lemma valid_utf8_Nil [simp]: "valid_utf8 []"
  by (simp add: valid_utf8.simps)

lemma valid_utf8_ascii: "in_bytes 0 0x7F a \<Longrightarrow> valid_utf8 (a # s) = valid_utf8 s"
  by (subst valid_utf8.simps) (simp add: rune_len_def)

lemma valid_utf8_ascii_run: "in_bytes 0 0x7F a \<Longrightarrow> valid_utf8 (replicate n a @ s) = valid_utf8 s"
  by (induction n) (simp_all add: valid_utf8_ascii)

text \<open>\<open>len([]rune(s))\<close>: a byte that starts no character counts as one.\<close>

function rune_count :: "string \<Rightarrow> nat" where
  "rune_count s = (if s = [] then 0 else Suc (rune_count (drop (max 1 (rune_len s)) s)))"
  by pat_completeness auto
termination
  by (relation "measure length") auto

declare rune_count.simps [simp del]

text \<open>
  The characters of a \<open>range\<close> loop, each as its bytes; a byte that starts no character is
  visited alone.
\<close>

function runes :: "string \<Rightarrow> string list" where
  "runes s =
    (if s = [] then [] else take (max 1 (rune_len s)) s # runes (drop (max 1 (rune_len s)) s))"
  by pat_completeness auto
termination
  by (relation "measure length") auto

declare runes.simps [simp del]

lemma runes_Nil [simp]: "runes [] = []"
  by (simp add: runes.simps)

lemma rune_count_Nil [simp]: "rune_count [] = 0"
  by (simp add: rune_count.simps)

lemma length_runes: "length (runes s) = rune_count s"
proof (induction s rule: runes.induct)
  case (1 s)
  then show ?case by (cases "s = []") (simp_all add: runes.simps [of s] rune_count.simps [of s])
qed

lemma concat_runes: "concat (runes s) = s"
proof (induction s rule: runes.induct)
  case (1 s)
  then show ?case by (cases "s = []") (simp_all add: runes.simps [of s])
qed

lemma runes_ascii: "in_bytes 0 0x7F a \<Longrightarrow> runes (a # s) = [a] # runes s"
  by (subst runes.simps) (simp add: rune_len_def)

lemma runes_ascii_run: "in_bytes 0 0x7F a \<Longrightarrow> runes (replicate n a) = replicate n [a]"
  by (induction n) (simp_all add: runes_ascii)

end
