(* ===== verification/JobTable.thy ===== *)
theory JobTable
  imports Tables GoText Utf8 TripStore
begin

text \<open>
  The table \<open>trip_generation_jobs\<close> with its CHECK constraints, and the statements of
  \<open>infrastructure/repository/postgres/generation_job.go\<close> on it. \<open>now\<close> is the server's
  \<open>NOW()\<close>. A text parameter must be well-formed UTF-8 without NUL, or Postgres refuses the
  statement. \<open>OtherJobType\<close> is any string the request may hold that is none of the constants.
  The database state also holds the audit events of the ops console and the messages the
  publisher had confirmed, each with its attempt number.
\<close>

section \<open>Rows\<close>

datatype job_status = JQueued | JRunning | JCompleted | JFailed | JCancelled

datatype job_type =
    FullGeneration | DayRegeneration | ItemRegeneration | QualityImprovementDay
  | QualityImprovementItem | BudgetOptimizationDay | TemplateAdaptation | PolicyRepair
  | OtherJobType string

record generation_job =
  gj_id :: uuid
  gj_trip :: uuid
  gj_requester :: uuid
  gj_type :: job_type
  gj_status :: job_status
  gj_expected :: int
  gj_instruction :: "string option"
  gj_day :: "int option"
  gj_item :: "int option"
  gj_payload :: string
  gj_result :: string
  gj_correlation :: "string option"
  gj_request :: "string option"
  gj_retried_from :: "uuid option"
  gj_error_code :: "string option"
  gj_error_message :: "string option"
  gj_result_revision :: "int option"
  gj_created_at :: time
  gj_started_at :: "time option"
  gj_completed_at :: "time option"
  gj_cancelled_at :: "time option"
  gj_updated_at :: time

record queue_message =
  qm_id :: uuid
  qm_job :: uuid
  qm_trip :: uuid
  qm_type :: job_type
  qm_created_at :: time
  qm_correlation :: string
  qm_request :: string

record ops_audit =
  oa_actor :: uuid
  oa_actor_email :: string
  oa_action :: string
  oa_entity :: uuid
  oa_reason :: string
  oa_new_job :: "uuid option"

record job_db =
  jb_jobs :: "generation_job list"
  jb_audit :: "ops_audit list"
  jb_sent :: "(queue_message \<times> int) list"

datatype job_err =
    AppErr app_error
  | ErrDisabled
  | ErrNotCancellable
  | ErrJobDispatchFailed
  | ErrJobAlreadyFinished
  | ErrOpsInvalidAction
  | ErrOpsJobNotStale

definition int32_range :: "int \<Rightarrow> bool" where
  "int32_range i \<longleftrightarrow> - 2147483648 \<le> i \<and> i \<le> 2147483647"

definition day_job :: "job_type \<Rightarrow> bool" where
  "day_job t \<longleftrightarrow> t \<in> {DayRegeneration, QualityImprovementDay, BudgetOptimizationDay}"

definition item_job :: "job_type \<Rightarrow> bool" where
  "item_job t \<longleftrightarrow> t \<in> {ItemRegeneration, QualityImprovementItem}"

definition IsSupportedJobType :: "job_type \<Rightarrow> bool" where
  "IsSupportedJobType t \<longleftrightarrow> (case t of OtherJobType _ \<Rightarrow> False | _ \<Rightarrow> True)"

text \<open>The CHECK constraints the migrations leave on a row.\<close>

definition opt_all :: "('a \<Rightarrow> bool) \<Rightarrow> 'a option \<Rightarrow> bool" where
  "opt_all P x = (case x of None \<Rightarrow> True | Some v \<Rightarrow> P v)"

definition opt_at_least :: "int \<Rightarrow> int option \<Rightarrow> bool" where
  "opt_at_least n x = (case x of None \<Rightarrow> False | Some v \<Rightarrow> n \<le> v)"

definition job_checks :: "generation_job \<Rightarrow> bool" where
  "job_checks j \<longleftrightarrow>
     IsSupportedJobType (gj_type j) \<and> 0 \<le> gj_expected j \<and>
     (day_job (gj_type j) \<longrightarrow> opt_at_least 1 (gj_day j)) \<and>
     (item_job (gj_type j) \<longrightarrow> opt_at_least 1 (gj_day j) \<and> opt_at_least 0 (gj_item j)) \<and>
     opt_all (\<lambda>s. char_count s \<le> 2000) (gj_instruction j) \<and>
     opt_all (\<lambda>s. char_count s \<le> 2000) (gj_error_message j)"

section \<open>Statements\<close>

definition job_params_ok :: "generation_job \<Rightarrow> bool" where
  "job_params_ok j \<longleftrightarrow>
     int32_range (gj_expected j) \<and> opt_all int32_range (gj_day j) \<and> opt_all int32_range (gj_item j) \<and>
     opt_all storable (gj_instruction j)"

definition CreateGenerationJob ::
  "time \<Rightarrow> generation_job \<Rightarrow> job_db \<Rightarrow> job_err + (generation_job \<times> job_db)" where
  "CreateGenerationJob now job db =
    (let j = job\<lparr>gj_created_at := now, gj_updated_at := now, gj_started_at := None, gj_completed_at := None,
           gj_cancelled_at := None, gj_error_code := None, gj_error_message := None,
           gj_result_revision := None, gj_result := []\<rparr>
     in if select_row (\<lambda>r. gj_id r = gj_id j) (jb_jobs db) \<noteq> None \<or> \<not> job_params_ok j \<or> \<not> job_checks j
        then Inl (AppErr (DatabaseErr ''insert generation job''))
        else Inr (j, db\<lparr>jb_jobs := jb_jobs db @ [j]\<rparr>))"

definition GetGenerationJobByID :: "uuid \<Rightarrow> job_db \<Rightarrow> job_err + generation_job" where
  "GetGenerationJobByID jid db =
    (case select_row (\<lambda>j. gj_id j = jid) (jb_jobs db) of
       None \<Rightarrow> Inl (AppErr ErrNotFound) | Some j \<Rightarrow> Inr j)"

definition GetGenerationJobByIDAndTrip :: "uuid \<Rightarrow> uuid \<Rightarrow> job_db \<Rightarrow> job_err + generation_job" where
  "GetGenerationJobByIDAndTrip jid tid db =
    (case select_row (\<lambda>j. gj_id j = jid \<and> gj_trip j = tid) (jb_jobs db) of
       None \<Rightarrow> Inl (AppErr ErrNotFound) | Some j \<Rightarrow> Inr j)"

definition ListGenerationJobsByTrip :: "uuid \<Rightarrow> int \<Rightarrow> job_db \<Rightarrow> generation_job list" where
  "ListGenerationJobsByTrip tid limit db =
    take (nat limit) (rev (sort_key gj_created_at (filter (\<lambda>j. gj_trip j = tid) (jb_jobs db))))"

text \<open>\<open>UPDATE .. WHERE id = jid AND P RETURNING ..\<close>; no row is \<open>ErrNotFound\<close>.\<close>

definition update_job ::
  "uuid \<Rightarrow> (generation_job \<Rightarrow> bool) \<Rightarrow> (generation_job \<Rightarrow> generation_job) \<Rightarrow> job_db \<Rightarrow>
   job_err + (generation_job \<times> job_db)" where
  "update_job jid P f db =
    (case update_returning (\<lambda>j. gj_id j = jid \<and> P j) f (jb_jobs db) of
       None \<Rightarrow> Inl (AppErr ErrNotFound)
     | Some (j, rows) \<Rightarrow> Inr (j, db\<lparr>jb_jobs := rows\<rparr>))"

definition checked_texts :: "string list \<Rightarrow> job_err + 'a \<Rightarrow> job_err + 'a" where
  "checked_texts ss r =
    (if list_all (\<lambda>s. storable s \<and> char_count s \<le> 2000) ss then r
     else Inl (AppErr (DatabaseErr ''update generation job'')))"

definition claim :: "time \<Rightarrow> generation_job \<Rightarrow> generation_job" where
  "claim now j = j\<lparr>gj_status := JRunning, gj_started_at := Some now, gj_updated_at := now\<rparr>"

definition ClaimGenerationJob :: "time \<Rightarrow> uuid \<Rightarrow> job_db \<Rightarrow> job_err + (generation_job \<times> job_db)" where
  "ClaimGenerationJob now jid db = update_job jid (\<lambda>j. gj_status j = JQueued) (claim now) db"

text \<open>
  \<open>ORDER BY created_at ASC LIMIT 1 FOR UPDATE SKIP LOCKED\<close>; \<open>skip\<close> holds of the rows that
  another transaction has locked at that moment.
\<close>

definition ClaimNextGenerationJob ::
  "time \<Rightarrow> (uuid \<Rightarrow> bool) \<Rightarrow> job_db \<Rightarrow> job_err + (generation_job \<times> job_db)" where
  "ClaimNextGenerationJob now skip db =
    (case sort_key gj_created_at (filter (\<lambda>j. gj_status j = JQueued \<and> \<not> skip (gj_id j)) (jb_jobs db)) of
       [] \<Rightarrow> Inl (AppErr ErrNotFound)
     | j # _ \<Rightarrow> update_job (gj_id j) (\<lambda>_. True) (claim now) db)"

definition CompleteGenerationJob ::
  "time \<Rightarrow> uuid \<Rightarrow> int \<Rightarrow> job_db \<Rightarrow> job_err + (generation_job \<times> job_db)" where
  "CompleteGenerationJob now jid result db =
    (if \<not> int32_range result then Inl (AppErr (DatabaseErr ''complete generation job''))
     else update_job jid (\<lambda>_. True)
       (\<lambda>j. j\<lparr>gj_status := JCompleted, gj_result_revision := Some result, gj_completed_at := Some now,
              gj_updated_at := now\<rparr>) db)"

definition SetGenerationJobResultPayload :: "time \<Rightarrow> uuid \<Rightarrow> string \<Rightarrow> job_db \<Rightarrow> job_db" where
  "SetGenerationJobResultPayload now jid payload db =
    (if payload = [] then db
     else db\<lparr>jb_jobs := update_where (\<lambda>j. gj_id j = jid)
       (\<lambda>j. j\<lparr>gj_result := payload, gj_updated_at := now\<rparr>) (jb_jobs db)\<rparr>)"

definition FailGenerationJob ::
  "time \<Rightarrow> uuid \<Rightarrow> string \<Rightarrow> string \<Rightarrow> job_db \<Rightarrow> job_err + (generation_job \<times> job_db)" where
  "FailGenerationJob now jid code msg db =
    checked_texts [code, msg] (update_job jid (\<lambda>_. True)
      (\<lambda>j. j\<lparr>gj_status := JFailed, gj_error_code := Some code, gj_error_message := Some msg,
             gj_completed_at := Some now, gj_updated_at := now\<rparr>) db)"

definition ResetRunningGenerationJobToQueued ::
  "time \<Rightarrow> uuid \<Rightarrow> string \<Rightarrow> string \<Rightarrow> job_db \<Rightarrow> job_err + (generation_job \<times> job_db)" where
  "ResetRunningGenerationJobToQueued now jid code msg db =
    checked_texts [code, msg] (update_job jid (\<lambda>j. gj_status j = JRunning)
      (\<lambda>j. j\<lparr>gj_status := JQueued, gj_started_at := None, gj_error_code := Some code,
             gj_error_message := Some msg, gj_updated_at := now\<rparr>) db)"

definition CancelQueuedGenerationJob :: "time \<Rightarrow> uuid \<Rightarrow> job_db \<Rightarrow> job_err + (generation_job \<times> job_db)" where
  "CancelQueuedGenerationJob now jid db =
    update_job jid (\<lambda>j. gj_status j = JQueued)
      (\<lambda>j. j\<lparr>gj_status := JCancelled, gj_cancelled_at := Some now, gj_updated_at := now\<rparr>) db"

definition CancelOpsGenerationJob ::
  "time \<Rightarrow> uuid \<Rightarrow> string \<Rightarrow> string \<Rightarrow> job_db \<Rightarrow> job_err + (generation_job \<times> job_db)" where
  "CancelOpsGenerationJob now jid code msg db =
    checked_texts [code, msg] (update_job jid (\<lambda>j. gj_status j = JQueued)
      (\<lambda>j. j\<lparr>gj_status := JCancelled, gj_cancelled_at := Some now, gj_error_code := Some code,
             gj_error_message := Some msg, gj_updated_at := now\<rparr>) db)"

definition stale_running :: "time \<Rightarrow> generation_job \<Rightarrow> bool" where
  "stale_running before j \<longleftrightarrow>
     gj_status j = JRunning \<and> (case gj_started_at j of None \<Rightarrow> False | Some t \<Rightarrow> t < before)"

definition mark_failed :: "time \<Rightarrow> string \<Rightarrow> string \<Rightarrow> generation_job \<Rightarrow> generation_job" where
  "mark_failed now code msg j =
    j\<lparr>gj_status := JFailed, gj_error_code := Some code, gj_error_message := Some msg,
      gj_completed_at := Some now, gj_updated_at := now\<rparr>"

definition MarkOpsGenerationJobFailed ::
  "time \<Rightarrow> uuid \<Rightarrow> time \<Rightarrow> string \<Rightarrow> string \<Rightarrow> job_db \<Rightarrow> job_err + (generation_job \<times> job_db)" where
  "MarkOpsGenerationJobFailed now jid before code msg db =
    checked_texts [code, msg] (update_job jid (stale_running before) (mark_failed now code msg) db)"

definition MarkStaleRunningGenerationJobsFailed ::
  "time \<Rightarrow> time \<Rightarrow> string \<Rightarrow> string \<Rightarrow> job_db \<Rightarrow> int \<times> job_db" where
  "MarkStaleRunningGenerationJobsFailed now before code msg db =
    (int (length (filter (stale_running before) (jb_jobs db))),
     db\<lparr>jb_jobs := update_where (stale_running before) (mark_failed now code msg) (jb_jobs db)\<rparr>)"

end
