(* ===== verification/GenerationJobs.thy ===== *)
theory GenerationJobs
  imports JobTable Access StateErr
begin

text \<open>
  The use cases of \<open>internal/generationjobs/service.go\<close> and \<open>ops.go\<close>: creating, dispatching,
  reading and cancelling jobs, and the actions of the ops console. \<open>job_call\<close> is what a request
  brings from outside: the caller, the request's ids, the clock and the uuids it draws. The
  publisher answers each message with a confirmation, a loss, or an error although the broker has
  the message. Trips are read, never changed, here. Metrics and the JSON of the responses are left
  out: a handler returns the job its response is made of.
\<close>

section \<open>Configuration and messages\<close>

record job_config =
  jc_enabled :: bool
  jc_worker_enabled :: bool
  jc_mode :: string
  jc_poll :: duration
  jc_max_concurrent :: int
  jc_max_running :: duration
  jc_publish_timeout :: duration
  jc_fail_open :: bool

definition NormalizeConfig :: "job_config \<Rightarrow> job_config" where
  "NormalizeConfig c =
    c\<lparr>jc_mode := (if jc_mode c = [] then ''in_process'' else jc_mode c),
      jc_poll := (if jc_poll c \<le> 0 then 2 * second else jc_poll c),
      jc_max_concurrent := (if jc_max_concurrent c < 1 then 1 else jc_max_concurrent c),
      jc_max_running := (if jc_max_running c \<le> 0 then 10 * minute else jc_max_running c),
      jc_publish_timeout := (if jc_publish_timeout c \<le> 0 then 5 * second else jc_publish_timeout c)\<rparr>"

definition QueueMode :: "job_config \<Rightarrow> bool" where
  "QueueMode c \<longleftrightarrow> jc_mode c = ''queue''"

record job_call =
  jx_user :: "auth_user option"
  jx_request :: string
  jx_correlation :: string
  jx_now :: time
  jx_job :: uuid
  jx_message :: uuid

datatype publish_outcome = Confirmed | Lost | Unconfirmed

type_synonym publisher = "queue_message \<Rightarrow> publish_outcome"
type_synonym 'a job_handler = "(job_db, job_err, 'a) op"

definition maxInstructionLength :: nat where "maxInstructionLength = 2000"
definition defaultLimit :: int where "defaultLimit = 20"
definition maxLimit :: int where "maxLimit = 100"

definition stringPtrValue :: "string option \<Rightarrow> string" where
  "stringPtrValue v = (case v of None \<Rightarrow> [] | Some s \<Rightarrow> trim_space s)"

definition NewQueueMessageFromContext :: "job_call \<Rightarrow> generation_job \<Rightarrow> queue_message" where
  "NewQueueMessageFromContext cx job =
    (let r = stringPtrValue (gj_request job); c = stringPtrValue (gj_correlation job);
         r' = (if trim_space r = [] then jx_request cx else r);
         c' = (if trim_space c = [] then jx_correlation cx else c)
     in \<lparr>qm_id = jx_message cx, qm_job = gj_id job, qm_trip = gj_trip job, qm_type = gj_type job,
         qm_created_at = jx_now cx, qm_correlation = trim_space c', qm_request = trim_space r'\<rparr>)"

definition ValidateQueueMessage :: "queue_message \<Rightarrow> string + unit" where
  "ValidateQueueMessage m =
    (if qm_id m = 0 then Inl ''messageId is required''
     else if qm_job m = 0 then Inl ''jobId is required''
     else if qm_trip m = 0 then Inl ''tripId is required''
     else if \<not> IsSupportedJobType (qm_type m) then Inl ''jobType is invalid''
     else Inr ())"

section \<open>Validation\<close>

definition requireExpectedRevision :: "int option \<Rightarrow> app_error + int" where
  "requireExpectedRevision expected =
    (case expected of
       None \<Rightarrow> Inl ExpectedRevisionRequired
     | Some r \<Rightarrow> (if r < 0 then Inl (InvalidInput ''expectedItineraryRevision must be >= 0'') else Inr r))"

definition normalizeInstruction :: "string option \<Rightarrow> app_error + string option" where
  "normalizeInstruction inp =
    (case inp of
       None \<Rightarrow> Inr None
     | Some s \<Rightarrow>
        (let t = trim_space s in
         if length t > maxInstructionLength then Inl (InvalidInput ''instruction must be at most 2000 characters'')
         else if t = [] then Inr None
         else Inr (Some t)))"

definition getCurrentItineraryDay :: "trip \<Rightarrow> int \<Rightarrow> app_error + nat" where
  "getCurrentItineraryDay t day =
    (case day_counts t of
       None \<Rightarrow> Inl (InvalidInput ''current itinerary is invalid'')
     | Some days \<Rightarrow>
        (case find (\<lambda>(d, items). d = day) days of
           None \<Rightarrow> Inl (InvalidInput ''current itinerary is invalid'')
         | Some (d, items) \<Rightarrow> Inr items))"

definition requireDayExists :: "trip \<Rightarrow> int \<Rightarrow> app_error + unit" where
  "requireDayExists t day = rbind (getCurrentItineraryDay t day) (\<lambda>_. Inr ())"

definition requireItemExists :: "trip \<Rightarrow> int \<Rightarrow> int \<Rightarrow> app_error + unit" where
  "requireItemExists t day item =
    rbind (getCurrentItineraryDay t day) (\<lambda>items.
      if item \<ge> int items then Inl (InvalidInput ''current itinerary is invalid'') else Inr ())"

definition validateJobTarget ::
  "job_type \<Rightarrow> trip \<Rightarrow> int option \<Rightarrow> int option \<Rightarrow> app_error + unit" where
  "validateJobTarget jt t day item =
    (if jt \<in> {FullGeneration, PolicyRepair} then Inr ()
     else if day_job jt then
       (if \<not> opt_at_least 1 day then Inl (InvalidInput ''dayNumber is required and must be > 0'')
        else requireDayExists t (the day))
     else if item_job jt then
       (if \<not> opt_at_least 1 day then Inl (InvalidInput ''dayNumber is required and must be > 0'')
        else if \<not> opt_at_least 0 item then Inl (InvalidInput ''itemIndex is required and must be >= 0'')
        else requireItemExists t (the day) (the item))
     else Inl (InvalidInput ''jobType is invalid''))"

section \<open>Creating and dispatching\<close>

definition dispatch_message :: string where
  "dispatch_message = ''Generation job could not be dispatched.''"

definition failDispatch :: "job_call \<Rightarrow> uuid \<Rightarrow> 'a job_handler" where
  "failDispatch cx jid =
    sbind (stry (sstmt (FailGenerationJob (jx_now cx) jid ''job_dispatch_failed'' dispatch_message)))
      (\<lambda>_. sfail ErrJobDispatchFailed)"

definition record_sent :: "queue_message \<Rightarrow> int \<Rightarrow> job_db \<Rightarrow> job_db" where
  "record_sent m attempt db = db\<lparr>jb_sent := jb_sent db @ [(m, attempt)]\<rparr>"

text \<open>Publishing with confirmation: \<open>True\<close> when the broker confirmed.\<close>

definition publishMessage :: "publisher \<Rightarrow> queue_message \<Rightarrow> int \<Rightarrow> bool job_handler" where
  "publishMessage publish m attempt =
    (case publish m of
       Confirmed \<Rightarrow> sbind (sdo (record_sent m attempt)) (\<lambda>_. sret True)
     | Unconfirmed \<Rightarrow> sbind (sdo (record_sent m attempt)) (\<lambda>_. sret False)
     | Lost \<Rightarrow> sret False)"

definition dispatchGenerationJob ::
  "publisher option \<Rightarrow> job_config \<Rightarrow> job_call \<Rightarrow> generation_job \<Rightarrow> generation_job job_handler" where
  "dispatchGenerationJob pub cfg cx job =
    (if \<not> QueueMode cfg then sret job
     else (case pub of
       None \<Rightarrow> failDispatch cx (gj_id job)
     | Some publish \<Rightarrow>
        sbind (publishMessage publish (NewQueueMessageFromContext cx job) 1) (\<lambda>confirmed.
        if confirmed \<or> jc_fail_open cfg then sret job else failDispatch cx (gj_id job))))"

record create_request =
  cr_type :: job_type
  cr_expected :: "int option"
  cr_instruction :: "string option"
  cr_day :: "int option"
  cr_item :: "int option"
  cr_payload :: string

definition new_job :: "job_call \<Rightarrow> uuid \<Rightarrow> uuid \<Rightarrow> job_type \<Rightarrow> int \<Rightarrow> generation_job" where
  "new_job cx tid requester jt expected =
    \<lparr>gj_id = jx_job cx, gj_trip = tid, gj_requester = requester, gj_type = jt, gj_status = JQueued,
     gj_expected = expected, gj_instruction = None, gj_day = None, gj_item = None, gj_payload = [],
     gj_result = [], gj_correlation = Some (jx_correlation cx), gj_request = Some (jx_request cx),
     gj_retried_from = None, gj_error_code = None, gj_error_message = None, gj_result_revision = None,
     gj_created_at = 0, gj_started_at = None, gj_completed_at = None, gj_cancelled_at = None,
     gj_updated_at = 0\<rparr>"

definition app :: "app_error + 'a \<Rightarrow> 'a job_handler" where
  "app r = spure (map_err AppErr r)"

definition Create ::
  "svc_env \<Rightarrow> trip_db \<Rightarrow> publisher option \<Rightarrow> job_config \<Rightarrow> job_call \<Rightarrow> uuid \<Rightarrow> create_request \<Rightarrow>
   generation_job job_handler" where
  "Create env db pub cfg cx tid req =
    sbind (scheck (jc_enabled cfg) ErrDisabled) (\<lambda>_.
    sbind (app (MustUserFromContext (jx_user cx))) (\<lambda>user.
    sbind (app (requireViewerEditorOrOwner env db tid (au_id user))) (\<lambda>(t, access).
    sbind (scheck (CanEdit access) (AppErr ErrForbidden)) (\<lambda>_.
    sbind (app (requireExpectedRevision (cr_expected req))) (\<lambda>expected.
    sbind (scheck (expected = tr_itinerary_revision t)
      (AppErr (ItineraryConflict (tr_itinerary_revision t)))) (\<lambda>_.
    sbind (app (normalizeInstruction (cr_instruction req))) (\<lambda>instruction.
    sbind (app (validateJobTarget (cr_type req) t (cr_day req) (cr_item req))) (\<lambda>_.
    sbind (sstmt (CreateGenerationJob (jx_now cx)
      ((new_job cx tid (au_id user) (cr_type req) expected)
        \<lparr>gj_instruction := instruction, gj_day := cr_day req, gj_item := cr_item req,
         gj_payload := cr_payload req\<rparr>))) (\<lambda>job.
    dispatchGenerationJob pub cfg cx job)))))))))"

text \<open>
  \<open>prepared\<close> is what \<open>PrepareTemplateAdaptation\<close> of the trip service answers: the draft trip it
  stored and the payload for the worker.
\<close>

definition CreateTemplateAdaptation ::
  "publisher option \<Rightarrow> job_config \<Rightarrow> job_call \<Rightarrow> app_error + (trip \<times> string) \<Rightarrow> generation_job job_handler" where
  "CreateTemplateAdaptation pub cfg cx prepared =
    sbind (scheck (jc_enabled cfg) ErrDisabled) (\<lambda>_.
    sbind (app (MustUserFromContext (jx_user cx))) (\<lambda>user.
    sbind (app prepared) (\<lambda>(t, payload).
    sbind (sstmt (CreateGenerationJob (jx_now cx)
      ((new_job cx (tr_id t) (au_id user) TemplateAdaptation (tr_itinerary_revision t))
        \<lparr>gj_payload := payload\<rparr>))) (\<lambda>job.
    dispatchGenerationJob pub cfg cx job))))"

section \<open>Reading and cancelling\<close>

definition requireViewAccess :: "svc_env \<Rightarrow> trip_db \<Rightarrow> job_call \<Rightarrow> uuid \<Rightarrow> app_error + unit" where
  "requireViewAccess env db cx tid =
    rbind (MustUserFromContext (jx_user cx)) (\<lambda>user.
    rbind (requireViewerEditorOrOwner env db tid (au_id user)) (\<lambda>(t, access).
    guard_err (CanView access) ErrNotFound))"

definition Get ::
  "svc_env \<Rightarrow> trip_db \<Rightarrow> job_config \<Rightarrow> job_call \<Rightarrow> uuid \<Rightarrow> uuid \<Rightarrow> generation_job job_handler" where
  "Get env db cfg cx tid jid =
    sbind (scheck (jc_enabled cfg) ErrDisabled) (\<lambda>_.
    sbind (app (requireViewAccess env db cx tid)) (\<lambda>_.
    sread (GetGenerationJobByIDAndTrip jid tid)))"

definition ListJobs ::
  "svc_env \<Rightarrow> trip_db \<Rightarrow> job_config \<Rightarrow> job_call \<Rightarrow> uuid \<Rightarrow> int \<Rightarrow> (generation_job list \<times> int) job_handler" where
  "ListJobs env db cfg cx tid raw =
    sbind (scheck (jc_enabled cfg) ErrDisabled) (\<lambda>_.
    sbind (app (requireViewAccess env db cx tid)) (\<lambda>_.
    let limit = (if raw = 0 then defaultLimit else raw) in
    sbind (scheck (\<not> (limit < 1 \<or> limit > maxLimit))
      (AppErr (InvalidInput ''limit must be between 1 and 100''))) (\<lambda>_.
    sread (\<lambda>jobs. Inr (ListGenerationJobsByTrip tid limit jobs, limit)))))"

definition Cancel ::
  "svc_env \<Rightarrow> trip_db \<Rightarrow> job_config \<Rightarrow> job_call \<Rightarrow> uuid \<Rightarrow> uuid \<Rightarrow> generation_job job_handler" where
  "Cancel env db cfg cx tid jid =
    sbind (scheck (jc_enabled cfg) ErrDisabled) (\<lambda>_.
    sbind (app (MustUserFromContext (jx_user cx))) (\<lambda>user.
    sbind (app (requireViewerEditorOrOwner env db tid (au_id user))) (\<lambda>(t, access).
    sbind (scheck (CanView access) (AppErr ErrNotFound)) (\<lambda>_.
    sbind (sread (GetGenerationJobByIDAndTrip jid tid)) (\<lambda>job.
    sbind (scheck (gj_status job = JQueued) ErrNotCancellable) (\<lambda>_.
    sbind (scheck (ta_level access = LevelOwner \<or> gj_requester job = au_id user) (AppErr ErrForbidden)) (\<lambda>_.
    sstmt (CancelQueuedGenerationJob (jx_now cx) jid))))))))"

end
