(* ===== verification/JobOps.thy ===== *)
theory JobOps
  imports GenerationJobs
begin

text \<open>
  The ops console of \<open>generationjobs/ops.go\<close>: lists, the summary, and the three actions, which
  write an audit event whose failure the code drops. The workspace of each trip, which the
  responses add, is left out.
\<close>

definition opsDefaultLimit :: int where "opsDefaultLimit = 50"
definition opsMaxLimit :: int where "opsMaxLimit = 200"
definition opsReasonMaxLen :: nat where "opsReasonMaxLen = 500"

section \<open>Lists\<close>

record ops_filters =
  of_status :: "job_status option"
  of_type :: "job_type option"
  of_trip :: "uuid option"
  of_user :: "uuid option"
  of_error :: string
  of_after :: "time option"
  of_before :: "time option"
  of_limit :: int
  of_offset :: int

definition normalizeOpsFilters :: "ops_filters \<Rightarrow> ops_filters" where
  "normalizeOpsFilters f =
    (let l0 = (if of_limit f = 0 then opsDefaultLimit else of_limit f);
         l1 = (if l0 < 1 then 1 else l0);
         l2 = (if l1 > opsMaxLimit then opsMaxLimit else l1)
     in f\<lparr>of_limit := l2, of_offset := (if of_offset f < 0 then 0 else of_offset f),
          of_error := trim_space (of_error f)\<rparr>)"

definition ops_match :: "ops_filters \<Rightarrow> generation_job \<Rightarrow> bool" where
  "ops_match f j \<longleftrightarrow>
     opt_all (\<lambda>s. gj_status j = s) (of_status f) \<and>
     opt_all (\<lambda>t. gj_type j = t) (of_type f) \<and>
     opt_all (\<lambda>t. gj_trip j = t) (of_trip f) \<and>
     opt_all (\<lambda>u. gj_requester j = u) (of_user f) \<and>
     (of_error f \<noteq> [] \<longrightarrow> gj_error_code j = Some (of_error f)) \<and>
     opt_all (\<lambda>t. t \<le> gj_created_at j) (of_after f) \<and>
     opt_all (\<lambda>t. gj_created_at j \<le> t) (of_before f)"

text \<open>\<open>ORDER BY created_at DESC, id DESC\<close>: a total order, since ids are unique.\<close>

definition ListOpsGenerationJobs :: "ops_filters \<Rightarrow> job_db \<Rightarrow> generation_job list" where
  "ListOpsGenerationJobs f db =
    take (nat (of_limit f)) (drop (nat (of_offset f))
      (rev (sort_key gj_created_at (sort_key gj_id (filter (ops_match f) (jb_jobs db))))))"

definition OpsList :: "ops_filters \<Rightarrow> job_db \<Rightarrow> generation_job list \<times> int option" where
  "OpsList raw db =
    (let f = normalizeOpsFilters raw; jobs = ListOpsGenerationJobs f db
     in (jobs, if int (length jobs) = of_limit f then Some (of_offset f + of_limit f) else None))"

definition OpsGet :: "uuid \<Rightarrow> generation_job job_handler" where
  "OpsGet jid = sread (GetGenerationJobByID jid)"

definition CountOpsJobsByStatus :: "job_db \<Rightarrow> job_status \<Rightarrow> nat" where
  "CountOpsJobsByStatus db s = length (filter (\<lambda>j. gj_status j = s) (jb_jobs db))"

definition CountStaleRunningGenerationJobs :: "time \<Rightarrow> job_db \<Rightarrow> nat" where
  "CountStaleRunningGenerationJobs before db = length (filter (stale_running before) (jb_jobs db))"

definition ListRecentFailedOpsJobs :: "int \<Rightarrow> job_db \<Rightarrow> generation_job list" where
  "ListRecentFailedOpsJobs raw db =
    take (nat (if raw < 1 then 10 else raw))
      (rev (sort_key gj_updated_at (sort_key gj_created_at
        (filter (\<lambda>j. gj_status j = JFailed) (jb_jobs db)))))"

record ops_summary =
  sm_by_status :: "(job_status \<times> nat) list"
  sm_failures :: "generation_job list"
  sm_stale :: nat

definition OpsSummary :: "time \<Rightarrow> duration \<Rightarrow> job_db \<Rightarrow> ops_summary" where
  "OpsSummary now threshold db =
    \<lparr>sm_by_status = map (\<lambda>s. (s, CountOpsJobsByStatus db s)) [JQueued, JRunning, JCompleted, JFailed, JCancelled],
     sm_failures = ListRecentFailedOpsJobs 10 db,
     sm_stale = CountStaleRunningGenerationJobs (now - threshold) db\<rparr>"

section \<open>Actions\<close>

definition normalizeOpsReason :: "string \<Rightarrow> app_error + string" where
  "normalizeOpsReason raw =
    (let r = trim_space raw
     in if r = [] then Inl (InvalidInput ''reason is required'')
        else Inr (if length r > opsReasonMaxLen then take opsReasonMaxLen r else r))"

definition CreateOpsAuditEvent :: "ops_audit \<Rightarrow> job_db \<Rightarrow> job_err + (unit \<times> job_db)" where
  "CreateOpsAuditEvent a db =
    (if \<not> storable (oa_reason a) \<or> \<not> storable (oa_actor_email a) \<or>
        char_count (oa_reason a) < 1 \<or> char_count (oa_reason a) > 500
     then Inl (AppErr (DatabaseErr ''create ops audit event''))
     else Inr ((), db\<lparr>jb_audit := jb_audit db @ [a]\<rparr>))"

definition auditEvent :: "auth_user \<Rightarrow> string \<Rightarrow> uuid \<Rightarrow> string \<Rightarrow> uuid option \<Rightarrow> unit option job_handler" where
  "auditEvent actor action jid reason newid =
    stry (sstmt (CreateOpsAuditEvent
      \<lparr>oa_actor = au_id actor, oa_actor_email = to_lower (trim_space (au_email actor)),
       oa_action = action, oa_entity = jid, oa_reason = reason, oa_new_job = newid\<rparr>))"

definition dispatchOpsJob ::
  "publisher option \<Rightarrow> job_config \<Rightarrow> job_call \<Rightarrow> generation_job \<Rightarrow> unit job_handler" where
  "dispatchOpsJob pub cfg cx job =
    (if \<not> QueueMode cfg then sret ()
     else (case pub of
       None \<Rightarrow> failDispatch cx (gj_id job)
     | Some publish \<Rightarrow>
        sbind (publishMessage publish (NewQueueMessageFromContext cx job) 1) (\<lambda>confirmed.
        if confirmed \<or> jc_fail_open cfg then sret () else failDispatch cx (gj_id job))))"

definition OpsRetry ::
  "svc_env \<Rightarrow> trip_db \<Rightarrow> publisher option \<Rightarrow> job_config \<Rightarrow> job_call \<Rightarrow> uuid \<Rightarrow> string \<Rightarrow>
   generation_job job_handler" where
  "OpsRetry env db pub cfg cx jid raw =
    sbind (app (normalizeOpsReason raw)) (\<lambda>reason.
    sbind (app (MustUserFromContext (jx_user cx))) (\<lambda>actor.
    sbind (sread (GetGenerationJobByID jid)) (\<lambda>old.
    sbind (scheck (gj_status old = JFailed \<or> gj_status old = JCancelled) ErrOpsInvalidAction) (\<lambda>_.
    sbind (scheck (IsSupportedJobType (gj_type old)) ErrOpsInvalidAction) (\<lambda>_.
    sbind (app (requireViewerEditorOrOwner env db (gj_trip old) (gj_requester old))) (\<lambda>(t, access).
    sbind (scheck (CanEdit access) (AppErr ErrForbidden)) (\<lambda>_.
    sbind (sstmt (CreateGenerationJob (jx_now cx)
      ((new_job cx (gj_trip old) (gj_requester old) (gj_type old) (tr_itinerary_revision t))
        \<lparr>gj_instruction := gj_instruction old, gj_day := gj_day old, gj_item := gj_item old,
         gj_payload := gj_payload old, gj_retried_from := Some (gj_id old)\<rparr>))) (\<lambda>job.
    sbind (dispatchOpsJob pub cfg cx job) (\<lambda>_.
    sbind (auditEvent actor ''ops_job_retried'' (gj_id old) reason (Some (gj_id job))) (\<lambda>_.
    sret job))))))))))"

definition OpsCancel :: "job_call \<Rightarrow> uuid \<Rightarrow> string \<Rightarrow> generation_job job_handler" where
  "OpsCancel cx jid raw =
    sbind (app (normalizeOpsReason raw)) (\<lambda>reason.
    sbind (app (MustUserFromContext (jx_user cx))) (\<lambda>actor.
    sbind (sread (GetGenerationJobByID jid)) (\<lambda>job.
    sbind (scheck (gj_status job = JQueued) ErrNotCancellable) (\<lambda>_.
    sbind (sstmt (CancelOpsGenerationJob (jx_now cx) jid ''ops_cancelled'' reason)) (\<lambda>cancelled.
    sbind (auditEvent actor ''ops_job_cancelled'' jid reason None) (\<lambda>_.
    sret cancelled))))))"

definition OpsMarkFailed :: "job_call \<Rightarrow> uuid \<Rightarrow> string \<Rightarrow> duration \<Rightarrow> generation_job job_handler" where
  "OpsMarkFailed cx jid raw threshold =
    sbind (app (normalizeOpsReason raw)) (\<lambda>reason.
    sbind (app (MustUserFromContext (jx_user cx))) (\<lambda>actor.
    sbind (sread (GetGenerationJobByID jid)) (\<lambda>job.
    sbind (scheck (gj_status job = JRunning) ErrOpsInvalidAction) (\<lambda>_.
    let before = jx_now cx - threshold in
    sbind (scheck (case gj_started_at job of None \<Rightarrow> False | Some s \<Rightarrow> \<not> s > before) ErrOpsJobNotStale) (\<lambda>_.
    sbind (sstmt (MarkOpsGenerationJobFailed (jx_now cx) jid before ''ops_marked_failed'' reason)) (\<lambda>failed.
    sbind (auditEvent actor ''ops_job_marked_failed'' jid reason None) (\<lambda>_.
    sret failed)))))))"

end
