(* ===== verification/JobWorker.thy ===== *)
theory JobWorker
  imports JobOps
begin

text \<open>
  The worker of \<open>generationjobs/worker.go\<close>: claiming, running and finishing jobs, and the
  classification of errors. \<open>trip_work\<close> is the part of the interface \<open>TripService\<close> the worker
  calls; a call gives the new revision and a result payload, an error, or panics. An error is the
  chain of its layers, as \<open>errors.As\<close> and \<open>errors.Is\<close> walk it, with the text of its
  \<open>Error()\<close>. Traces, logs, metrics and the activity of failed jobs are left out.
\<close>

section \<open>Errors of a job\<close>

datatype err_layer =
    LAdaptation string string
  | LLimit string string
  | LValidation string string
  | LConflict
  | LInvalid
  | LRevisionRequired
  | LDependency string
  | LForbidden
  | LNotFound
  | LCanceled
  | LOther

record go_error =
  ge_text :: string
  ge_chain :: "err_layer list"

fun first_layer :: "(err_layer \<Rightarrow> 'a option) \<Rightarrow> err_layer list \<Rightarrow> 'a option" where
  "first_layer f [] = None"
| "first_layer f (l # ls) = (case f l of None \<Rightarrow> first_layer f ls | Some x \<Rightarrow> Some x)"

definition as_adaptation :: "err_layer \<Rightarrow> (string \<times> string) option" where
  "as_adaptation l = (case l of LAdaptation c m \<Rightarrow> Some (c, m) | _ \<Rightarrow> None)"

definition as_limit :: "err_layer \<Rightarrow> (string \<times> string) option" where
  "as_limit l = (case l of LLimit c p \<Rightarrow> Some (c, p) | _ \<Rightarrow> None)"

definition as_validation :: "err_layer \<Rightarrow> (string \<times> string) option" where
  "as_validation l = (case l of LValidation c m \<Rightarrow> Some (c, m) | _ \<Rightarrow> None)"

definition as_dependency :: "err_layer \<Rightarrow> string option" where
  "as_dependency l = (case l of LDependency m \<Rightarrow> Some m | _ \<Rightarrow> None)"

definition truncateSafeMessage :: "string \<Rightarrow> string" where
  "truncateSafeMessage raw =
    (let m = trim_space raw
     in if m = [] then ''Generation job failed.''
        else if length m \<le> maxInstructionLength then m
        else take maxInstructionLength m)"

definition safeProviderLimitMessage :: "string \<Rightarrow> string \<Rightarrow> string \<Rightarrow> string" where
  "safeProviderLimitMessage code operation fallback =
    (let category = trim_space operation
     in if category = [] then fallback
        else if code = ''provider_rate_limited'' then ''Provider rate limited: '' @ category
        else if code = ''provider_quota_exceeded'' then ''Provider daily quota exceeded: '' @ category
        else if code = ''provider_limits_unavailable'' then ''Provider limit service unavailable: '' @ category
        else fallback)"

definition classifyProviderLimit :: "string \<Rightarrow> string \<Rightarrow> string \<times> string" where
  "classifyProviderLimit code operation =
    (if code = ''provider_rate_limited'' then
       (code, safeProviderLimitMessage code operation ''A provider is temporarily rate limited.'')
     else if code = ''provider_quota_exceeded'' then
       (code, safeProviderLimitMessage code operation ''A provider daily quota has been reached.'')
     else if code = ''provider_limits_unavailable'' then
       (code, safeProviderLimitMessage code operation ''The provider limit service is temporarily unavailable.'')
     else (''unknown_error'', ''Generation job failed.''))"

definition ClassifyJobError :: "go_error \<Rightarrow> string \<times> string" where
  "ClassifyJobError e =
    (case first_layer as_adaptation (ge_chain e) of
       Some (code, msg) \<Rightarrow> (code, truncateSafeMessage msg)
     | None \<Rightarrow>
    (case first_layer as_limit (ge_chain e) of
       Some (code, operation) \<Rightarrow> classifyProviderLimit code operation
     | None \<Rightarrow>
    (case first_layer as_validation (ge_chain e) of
       Some (code, msg) \<Rightarrow> (code, msg)
     | None \<Rightarrow>
       (if LConflict \<in> set (ge_chain e) then
          (''itinerary_conflict'', ''The itinerary changed while this job was running.'')
        else if LInvalid \<in> set (ge_chain e) \<or> LRevisionRequired \<in> set (ge_chain e) then
          (if sublist ''no_repairable_issues'' (ge_text e) then
             (''no_repairable_issues'', ''No repairable policy or risk issues were found.'')
           else (''validation_failed'', ge_text e))
        else (case first_layer as_dependency (ge_chain e) of
          Some msg \<Rightarrow>
            (if sublist ''no_optimization_found'' msg then
               (''no_optimization_found'', ''No useful lower-cost proposal was found.'')
             else if sublist ''validation_failed'' msg then
               (''validation_failed'', ''AI repair returned an invalid itinerary.'')
             else if sublist ''repair proposal'' msg then
               (''proposal_build_failed'', ''AI repair proposal could not be built.'')
             else (''ai_generation_failed'', msg))
        | None \<Rightarrow>
            (if LForbidden \<in> set (ge_chain e) then
               (''permission_denied'', ''You no longer have permission to modify this trip.'')
             else if LNotFound \<in> set (ge_chain e) then (''trip_not_found'', ''Trip not found.'')
             else if LCanceled \<in> set (ge_chain e) then (''cancelled'', ''Generation job was cancelled.'')
             else (''unknown_error'', ''Generation job failed.'')))))))"

definition IsRetryableErrorCode :: "string \<Rightarrow> bool" where
  "IsRetryableErrorCode code \<longleftrightarrow>
     code \<in> {''ai_generation_failed'', ''enrichment_failed'', ''unknown_error'', ''ai_adaptation_failed'',
       ''provider_rate_limited'', ''provider_limits_unavailable''}"

section \<open>The work\<close>

datatype work_result =
    WorkDone int string
  | WorkError go_error
  | WorkPanic

record trip_work =
  tw_generate :: "uuid \<Rightarrow> uuid \<Rightarrow> int \<Rightarrow> work_result"
  tw_regenerate_day :: "uuid \<Rightarrow> uuid \<Rightarrow> int \<Rightarrow> string \<Rightarrow> int \<Rightarrow> work_result"
  tw_regenerate_item :: "uuid \<Rightarrow> uuid \<Rightarrow> int \<Rightarrow> int \<Rightarrow> string \<Rightarrow> int \<Rightarrow> work_result"
  tw_optimize_day :: "uuid \<Rightarrow> uuid \<Rightarrow> uuid \<Rightarrow> int \<Rightarrow> string \<Rightarrow> int \<Rightarrow> string \<Rightarrow> work_result"
  tw_adapt_template :: "uuid \<Rightarrow> uuid \<Rightarrow> int \<Rightarrow> string \<Rightarrow> work_result"
  tw_repair :: "uuid \<Rightarrow> uuid \<Rightarrow> uuid \<Rightarrow> int \<Rightarrow> string \<Rightarrow> work_result"
  tw_with_quality :: "generation_job \<Rightarrow> string \<Rightarrow> string"

definition no_payload :: "work_result \<Rightarrow> work_result" where
  "no_payload r = (case r of WorkDone v _ \<Rightarrow> WorkDone v [] | _ \<Rightarrow> r)"

definition invalid_work :: "string \<Rightarrow> work_result" where
  "invalid_work msg = WorkError \<lparr>ge_text = msg, ge_chain = [LInvalid]\<rparr>"

definition safeInstruction :: "generation_job \<Rightarrow> string" where
  "safeInstruction job = (case gj_instruction job of None \<Rightarrow> [] | Some s \<Rightarrow> s)"

definition process_day ::
  "generation_job \<Rightarrow> (int \<Rightarrow> work_result) \<Rightarrow> work_result" where
  "process_day job f =
    (case gj_day job of None \<Rightarrow> invalid_work ''dayNumber is required'' | Some d \<Rightarrow> no_payload (f d))"

definition process :: "trip_work \<Rightarrow> generation_job \<Rightarrow> work_result" where
  "process tw job =
    (let t = gj_trip job; u = gj_requester job; r = gj_expected job
     in case gj_type job of
          FullGeneration \<Rightarrow> no_payload (tw_generate tw t u r)
        | DayRegeneration \<Rightarrow> process_day job (\<lambda>d. tw_regenerate_day tw t u d (safeInstruction job) r)
        | QualityImprovementDay \<Rightarrow> process_day job (\<lambda>d. tw_regenerate_day tw t u d (safeInstruction job) r)
        | ItemRegeneration \<Rightarrow>
            (case gj_item job of
               None \<Rightarrow> invalid_work ''dayNumber and itemIndex are required''
             | Some i \<Rightarrow> (case gj_day job of
                 None \<Rightarrow> invalid_work ''dayNumber and itemIndex are required''
               | Some d \<Rightarrow> no_payload (tw_regenerate_item tw t u d i (safeInstruction job) r)))
        | QualityImprovementItem \<Rightarrow>
            (case gj_item job of
               None \<Rightarrow> invalid_work ''dayNumber and itemIndex are required''
             | Some i \<Rightarrow> (case gj_day job of
                 None \<Rightarrow> invalid_work ''dayNumber and itemIndex are required''
               | Some d \<Rightarrow> no_payload (tw_regenerate_item tw t u d i (safeInstruction job) r)))
        | BudgetOptimizationDay \<Rightarrow>
            process_day job (\<lambda>d. tw_optimize_day tw t u (gj_id job) d (safeInstruction job) r (gj_payload job))
        | TemplateAdaptation \<Rightarrow> tw_adapt_template tw t u r (gj_payload job)
        | PolicyRepair \<Rightarrow> tw_repair tw t u (gj_id job) r (gj_payload job)
        | OtherJobType _ \<Rightarrow> invalid_work ''jobType is invalid'')"

section \<open>Running a job\<close>

datatype process_status = PCompleted | PFailed | PSkipped

record process_result =
  pr_status :: process_status
  pr_job :: generation_job
  pr_code :: string
  pr_message :: string
  pr_retryable :: bool
  pr_revision :: "int option"

definition failed_result :: "generation_job \<Rightarrow> string \<Rightarrow> string \<Rightarrow> bool \<Rightarrow> process_result" where
  "failed_result job code msg retryable =
    \<lparr>pr_status = PFailed, pr_job = job, pr_code = code, pr_message = msg, pr_retryable = retryable,
     pr_revision = None\<rparr>"

text \<open>When the job was claimed, when its work was over, and whether its deadline had passed.\<close>

record worker_call =
  wc_claimed_at :: time
  wc_done_at :: time
  wc_timed_out :: bool

definition failJob :: "time \<Rightarrow> generation_job \<Rightarrow> string \<Rightarrow> string \<Rightarrow> unit job_handler" where
  "failJob now job code msg =
    sbind (sstmt (FailGenerationJob now (gj_id job) code (truncateSafeMessage msg))) (\<lambda>_. sret ())"

definition processClaimedJob ::
  "trip_work \<Rightarrow> worker_call \<Rightarrow> generation_job \<Rightarrow> bool \<Rightarrow> process_result job_handler" where
  "processClaimedJob tw wc job failOnError =
    (case process tw job of
       WorkPanic \<Rightarrow>
         sbind (if failOnError then failJob (wc_done_at wc) job ''panic'' ''Generation job failed.'' else sret ()) (\<lambda>_.
         sret (failed_result job ''panic'' ''Generation job failed.'' False))
     | WorkError e \<Rightarrow>
         (let (code, msg) = (if wc_timed_out wc then (''ai_generation_failed'', ''generation job timed out'')
                             else ClassifyJobError e)
          in sbind (if failOnError then failJob (wc_done_at wc) job code msg else sret ()) (\<lambda>_.
             sret (failed_result job code msg (IsRetryableErrorCode code))))
     | WorkDone revision payload \<Rightarrow>
         sbind (sdo (SetGenerationJobResultPayload (wc_done_at wc) (gj_id job) (tw_with_quality tw job payload))) (\<lambda>_.
         sbind (sstmt (CompleteGenerationJob (wc_done_at wc) (gj_id job) revision)) (\<lambda>completed.
         sret \<lparr>pr_status = PCompleted, pr_job = completed, pr_code = [], pr_message = [],
           pr_retryable = False, pr_revision = Some revision\<rparr>)))"

text \<open>A claim that finds no queued row with that id reads the job; the result says if it is claimed.\<close>

definition claimGenerationJob :: "time \<Rightarrow> uuid \<Rightarrow> (generation_job \<times> bool) job_handler" where
  "claimGenerationJob now jid db =
    (case ClaimGenerationJob now jid db of
       Inr (job, db') \<Rightarrow> (Inr (job, True), db')
     | Inl e \<Rightarrow>
        (if e \<noteq> AppErr ErrNotFound then (Inl e, db)
         else (case GetGenerationJobByID jid db of
            Inl e' \<Rightarrow> (Inl e', db)
          | Inr job \<Rightarrow>
             (if gj_status job \<in> {JRunning, JCompleted, JFailed, JCancelled} then (Inr (job, False), db)
              else (Inl ErrJobAlreadyFinished, db)))))"

definition ProcessJobByID ::
  "trip_work \<Rightarrow> worker_call \<Rightarrow> uuid \<Rightarrow> bool \<Rightarrow> process_result job_handler" where
  "ProcessJobByID tw wc jid failOnError =
    sbind (claimGenerationJob (wc_claimed_at wc) jid) (\<lambda>(job, claimed).
    if \<not> claimed then
      sret \<lparr>pr_status = PSkipped, pr_job = job, pr_code = [], pr_message = [], pr_retryable = False,
        pr_revision = None\<rparr>
    else processClaimedJob tw wc job failOnError)"

text \<open>One round of the in-process poller: \<open>True\<close> when it found a job.\<close>

definition processNext :: "trip_work \<Rightarrow> worker_call \<Rightarrow> (uuid \<Rightarrow> bool) \<Rightarrow> bool job_handler" where
  "processNext tw wc skip =
    sbind (stry (sstmt (ClaimNextGenerationJob (wc_claimed_at wc) skip))) (\<lambda>claimed.
    case claimed of
      None \<Rightarrow> sret False
    | Some job \<Rightarrow> sbind (stry (processClaimedJob tw wc job True)) (\<lambda>_. sret True))"

definition ResetRunningJobForRetry :: "time \<Rightarrow> uuid \<Rightarrow> string \<Rightarrow> string \<Rightarrow> unit job_handler" where
  "ResetRunningJobForRetry now jid code msg =
    sbind (sstmt (ResetRunningGenerationJobToQueued now jid code (truncateSafeMessage msg))) (\<lambda>_. sret ())"

definition FailClaimedJob :: "time \<Rightarrow> generation_job option \<Rightarrow> string \<Rightarrow> string \<Rightarrow> unit job_handler" where
  "FailClaimedJob now job code msg =
    (case job of None \<Rightarrow> sfail (AppErr ErrNotFound) | Some j \<Rightarrow> failJob now j code msg)"

definition failStaleRunningJobs :: "job_config \<Rightarrow> time \<Rightarrow> job_db \<Rightarrow> job_db" where
  "failStaleRunningJobs cfg now db =
    snd (MarkStaleRunningGenerationJobsFailed now (now - jc_max_running cfg) ''worker_restarted''
      ''Generation job was interrupted by service restart.'' db)"

end
