(* ===== verification/JobConsumer.thy ===== *)
theory JobConsumer
  imports JobWorker
begin

text \<open>
  The consumer of the worker service (\<open>worker-service/internal/rabbitmq/consumer.go\<close>): what one
  delivery does to the jobs, and how the broker is told. A delivery has its body decoded (\<open>None\<close>
  when it is not a message), and its headers. The table of active jobs, logs and metrics are left
  out. Last, the sweep the worker service makes once when it starts (\<open>app/di.go\<close>).
\<close>

datatype header_value =
    HInt int
  | HInt64 int
  | HUint64 int
  | HText string
  | HOther

record delivery =
  dl_content_type :: string
  dl_body :: "queue_message option"
  dl_headers :: "(string \<times> header_value) list"

datatype disposition = Ack | Requeue | DeadLetter

definition readStringHeader :: "(string \<times> header_value) list \<Rightarrow> string \<Rightarrow> string" where
  "readStringHeader hs name = (case map_of hs name of Some (HText s) \<Rightarrow> s | _ \<Rightarrow> [])"

definition int64HeaderValue :: "int \<Rightarrow> int" where
  "int64HeaderValue v = (if v < 0 \<or> v > int64_max then 0 else v)"

definition uint64HeaderValue :: "int \<Rightarrow> int" where
  "uint64HeaderValue v = (if v > int64_max then 0 else v)"

definition readAttempt :: "(string \<times> header_value) list \<Rightarrow> int" where
  "readAttempt hs =
    (case map_of hs ''x-attempts'' of
       Some (HInt v) \<Rightarrow> v
     | Some (HInt64 v) \<Rightarrow> int64HeaderValue v
     | Some (HUint64 v) \<Rightarrow> uint64HeaderValue v
     | _ \<Rightarrow> 0)"

definition decodeMessage :: "delivery \<Rightarrow> string + queue_message" where
  "decodeMessage d =
    (if dl_content_type d \<noteq> [] \<and> dl_content_type d \<noteq> ''application/json'' then
       Inl ''unsupported content type''
     else (case dl_body d of
       None \<Rightarrow> Inl ''decode generation job message''
     | Some m \<Rightarrow>
        (let r = (if qm_request m = [] then readStringHeader (dl_headers d) ''x-request-id'' else qm_request m);
             c = (if qm_correlation m = [] then readStringHeader (dl_headers d) ''x-correlation-id''
                  else qm_correlation m);
             c' = (if c = [] then r else c);
             m' = m\<lparr>qm_request := r, qm_correlation := c'\<rparr>
         in rbind (ValidateQueueMessage m') (\<lambda>_. Inr m'))))"

text \<open>\<open>ContextWithRequestIDs\<close>, with the id it would draw.\<close>

definition withRequestIDs :: "string \<Rightarrow> queue_message \<Rightarrow> queue_message" where
  "withRequestIDs fresh m =
    (let r = (if trim_space (qm_request m) = [] then fresh else trim_space (qm_request m))
     in m\<lparr>qm_request := r,
          qm_correlation := (if trim_space (qm_correlation m) = [] then r else trim_space (qm_correlation m))\<rparr>)"

record consumer =
  cs_max_attempts :: int
  cs_publish :: publisher
  cs_work :: trip_work

definition NewConsumer :: "int \<Rightarrow> publisher \<Rightarrow> trip_work \<Rightarrow> consumer" where
  "NewConsumer n publish tw =
    \<lparr>cs_max_attempts = (if n < 1 then 3 else n), cs_publish = publish, cs_work = tw\<rparr>"

record delivery_call =
  dc_worker :: worker_call
  dc_request_id :: string
  dc_message_id :: uuid

text \<open>
  The publisher refuses an attempt that is negative or does not fit the 32-bit header. The answer
  says whether the retry was confirmed.
\<close>

definition PublishRetry :: "publisher \<Rightarrow> queue_message \<Rightarrow> int \<Rightarrow> bool job_handler" where
  "PublishRetry publish m attempt =
    (if attempt < 0 \<or> \<not> int32_range attempt then sret False else publishMessage publish m attempt)"

definition retryMessage :: "delivery_call \<Rightarrow> queue_message \<Rightarrow> queue_message" where
  "retryMessage dc m = m\<lparr>qm_id := dc_message_id dc, qm_created_at := wc_done_at (dc_worker dc)\<rparr>"

definition publishRetryOrRequeue ::
  "consumer \<Rightarrow> delivery_call \<Rightarrow> queue_message \<Rightarrow> int \<Rightarrow> disposition job_handler" where
  "publishRetryOrRequeue cs dc m attempt =
    sbind (PublishRetry (cs_publish cs) (retryMessage dc m) (attempt + 1)) (\<lambda>confirmed.
    sret (if confirmed then Ack else Requeue))"

definition retryOrRequeue ::
  "consumer \<Rightarrow> delivery_call \<Rightarrow> queue_message \<Rightarrow> int \<Rightarrow> disposition job_handler" where
  "retryOrRequeue cs dc m attempt =
    (if attempt \<ge> cs_max_attempts cs then sret DeadLetter else publishRetryOrRequeue cs dc m attempt)"

text \<open>What follows a run of the job that failed: a retry, or the end.\<close>

definition afterFailure ::
  "consumer \<Rightarrow> delivery_call \<Rightarrow> queue_message \<Rightarrow> int \<Rightarrow> process_result \<Rightarrow> disposition job_handler" where
  "afterFailure cs dc m attempt result =
    (if pr_retryable result \<and> attempt < cs_max_attempts cs then
       sbind (stry (ResetRunningJobForRetry (wc_done_at (dc_worker dc)) (qm_job m) (pr_code result)
         (pr_message result))) (\<lambda>reset.
       if reset = None then sret Requeue else publishRetryOrRequeue cs dc m attempt)
     else
       sbind (stry (FailClaimedJob (wc_done_at (dc_worker dc)) (Some (pr_job result)) (pr_code result)
         (pr_message result))) (\<lambda>failed.
       sret (if failed = None then Requeue else DeadLetter)))"

definition delivery_attempt :: "delivery \<Rightarrow> int" where
  "delivery_attempt d = (let a = readAttempt (dl_headers d) in if a < 1 then 1 else a)"

definition handleDelivery :: "consumer \<Rightarrow> delivery_call \<Rightarrow> delivery \<Rightarrow> disposition job_handler" where
  "handleDelivery cs dc d =
    (case decodeMessage d of
       Inl _ \<Rightarrow> sret DeadLetter
     | Inr m0 \<Rightarrow>
        (let m = withRequestIDs (dc_request_id dc) m0; attempt = delivery_attempt d
         in sbind (stry (ProcessJobByID (cs_work cs) (dc_worker dc) (qm_job m) False)) (\<lambda>outcome.
            case outcome of
              None \<Rightarrow> retryOrRequeue cs dc m attempt
            | Some result \<Rightarrow>
               (case pr_status result of
                  PSkipped \<Rightarrow> sret Ack
                | PCompleted \<Rightarrow> sret Ack
                | PFailed \<Rightarrow> afterFailure cs dc m attempt result))))"

definition startupSweep :: "job_config \<Rightarrow> time \<Rightarrow> job_db \<Rightarrow> job_db" where
  "startupSweep cfg now db =
    snd (MarkStaleRunningGenerationJobsFailed now (now - jc_max_running cfg) ''worker_interrupted''
      ''Generation job was interrupted by worker shutdown.'' db)"

end
