(* ===== verification/JobLaws.thy ===== *)
theory JobLaws
  imports JobConsumer
begin

text \<open>
  What every statement on the table of jobs keeps: keys and CHECK constraints, timestamps that
  fit the status, the part of a row that is the request, and that a finished job never becomes
  runnable again.
\<close>

section \<open>The life of a row\<close>

definition finished :: "generation_job \<Rightarrow> bool" where
  "finished j \<longleftrightarrow> gj_status j \<in> {JCompleted, JFailed, JCancelled}"

definition stamped :: "generation_job \<Rightarrow> bool" where
  "stamped j \<longleftrightarrow>
     (case gj_status j of
        JQueued \<Rightarrow> gj_started_at j = None
      | JRunning \<Rightarrow> gj_started_at j \<noteq> None
      | JCompleted \<Rightarrow> gj_completed_at j \<noteq> None \<and> gj_result_revision j \<noteq> None
      | JFailed \<Rightarrow> gj_completed_at j \<noteq> None \<and> gj_error_code j \<noteq> None
      | JCancelled \<Rightarrow> gj_cancelled_at j \<noteq> None)"

definition jobs_ok :: "job_db \<Rightarrow> bool" where
  "jobs_ok db \<longleftrightarrow> key_unique gj_id (jb_jobs db) \<and> (\<forall>j \<in> set (jb_jobs db). job_checks j \<and> stamped j)"

text \<open>The request a row carries: it never changes.\<close>

definition request_part ::
  "generation_job \<Rightarrow> uuid \<times> uuid \<times> uuid \<times> job_type \<times> int \<times> string option \<times> int option \<times> int option \<times>
   string \<times> uuid option" where
  "request_part j = (gj_id j, gj_trip j, gj_requester j, gj_type j, gj_expected j, gj_instruction j,
     gj_day j, gj_item j, gj_payload j, gj_retried_from j)"

text \<open>What may become of a row.\<close>

definition next_row :: "generation_job \<Rightarrow> generation_job \<Rightarrow> bool" where
  "next_row j j' \<longleftrightarrow> request_part j' = request_part j \<and> (finished j \<longrightarrow> finished j')"

definition life :: "job_db \<Rightarrow> job_db \<Rightarrow> bool" where
  "life db db' \<longleftrightarrow>
     (jobs_ok db \<longrightarrow>
        jobs_ok db' \<and> (\<forall>j \<in> set (jb_jobs db). \<exists>j' \<in> set (jb_jobs db'). next_row j j'))"

lemma next_row_refl [simp]: "next_row j j"
  by (simp add: next_row_def)

lemma next_row_trans: "next_row a b \<Longrightarrow> next_row b c \<Longrightarrow> next_row a c"
  by (auto simp: next_row_def)

lemma life_ok: "rel_ok life"
proof (rule rel_okI)
  show "life s s" for s by (auto simp: life_def intro: next_row_refl)
  show "life s u" if "life s t" "life t u" for s t u
    using that unfolding life_def by (meson next_row_trans)
qed

section \<open>Statements\<close>

text \<open>An update of some rows that keeps each of them sound.\<close>

definition good_change :: "(generation_job \<Rightarrow> bool) \<Rightarrow> (generation_job \<Rightarrow> generation_job) \<Rightarrow> bool" where
  "good_change P f \<longleftrightarrow>
     (\<forall>j. P j \<longrightarrow> next_row j (f j) \<and> (job_checks j \<and> stamped j \<longrightarrow> job_checks (f j) \<and> stamped (f j))) \<and>
     (\<forall>j. gj_id (f j) = gj_id j)"

lemma life_update_where:
  assumes "good_change P f"
  shows "life db (db\<lparr>jb_jobs := update_where P f (jb_jobs db)\<rparr>)"
  unfolding life_def
proof (intro impI conjI ballI)
  show "jobs_ok (db\<lparr>jb_jobs := update_where P f (jb_jobs db)\<rparr>)" if "jobs_ok db"
    using that assms by (auto simp: jobs_ok_def good_change_def set_update_where)
  show "\<exists>j' \<in> set (jb_jobs (db\<lparr>jb_jobs := update_where P f (jb_jobs db)\<rparr>)). next_row j j'"
    if "j \<in> set (jb_jobs db)" for j
    using that assms by (cases "P j") (auto simp: set_update_where good_change_def intro: next_row_refl)
qed

lemma update_job_Inr:
  "update_job jid P f db = Inr (j, db') \<longleftrightarrow>
     (\<exists>old. select_row (\<lambda>j. gj_id j = jid \<and> P j) (jb_jobs db) = Some old \<and> j = f old \<and>
       db' = db\<lparr>jb_jobs := update_where (\<lambda>j. gj_id j = jid \<and> P j) f (jb_jobs db)\<rparr>)"
  by (auto simp: update_job_def update_returning_def select_row_def split: option.splits)

lemma life_update_job:
  assumes "update_job jid P f db = Inr (j, db')" "good_change (\<lambda>j. gj_id j = jid \<and> P j) f"
  shows "life db db'"
  using assms life_update_where by (auto simp: update_job_Inr)

lemma checked_texts_Inr:
  "checked_texts ss r = Inr x \<longleftrightarrow> list_all (\<lambda>s. storable s \<and> char_count s \<le> 2000) ss \<and> r = Inr x"
  by (simp add: checked_texts_def)

lemma good_change_rules:
  "good_change (\<lambda>j. gj_id j = jid \<and> gj_status j = JQueued) (claim now)"
  "good_change P (\<lambda>j. j\<lparr>gj_status := JCompleted, gj_result_revision := Some v, gj_completed_at := Some now,
     gj_updated_at := now\<rparr>)"
  "good_change P (\<lambda>j. j\<lparr>gj_result := payload, gj_updated_at := now\<rparr>)"
  "char_count msg \<le> 2000 \<Longrightarrow> good_change P (mark_failed now code msg)"
  "char_count msg \<le> 2000 \<Longrightarrow> good_change (\<lambda>j. gj_id j = jid \<and> gj_status j = JRunning)
     (\<lambda>j. j\<lparr>gj_status := JQueued, gj_started_at := None, gj_error_code := Some code,
       gj_error_message := Some msg, gj_updated_at := now\<rparr>)"
  "good_change (\<lambda>j. gj_id j = jid \<and> gj_status j = JQueued)
     (\<lambda>j. j\<lparr>gj_status := JCancelled, gj_cancelled_at := Some now, gj_updated_at := now\<rparr>)"
  "char_count msg \<le> 2000 \<Longrightarrow> good_change (\<lambda>j. gj_id j = jid \<and> gj_status j = JQueued)
     (\<lambda>j. j\<lparr>gj_status := JCancelled, gj_cancelled_at := Some now, gj_error_code := Some code,
       gj_error_message := Some msg, gj_updated_at := now\<rparr>)"
  by (auto simp: good_change_def next_row_def request_part_def finished_def job_checks_def stamped_def
      claim_def mark_failed_def opt_all_def split: job_status.splits)

lemma FailGenerationJob_mark:
  "FailGenerationJob now jid code msg db =
     checked_texts [code, msg] (update_job jid (\<lambda>_. True) (mark_failed now code msg) db)"
  by (simp add: FailGenerationJob_def mark_failed_def [abs_def])

lemma CreateGenerationJob_Inr:
  "CreateGenerationJob now job db = Inr (j, db') \<Longrightarrow>
     (\<forall>r \<in> set (jb_jobs db). gj_id r \<noteq> gj_id job) \<and> job_checks j \<and>
     request_part j = request_part job \<and> gj_status j = gj_status job \<and> gj_started_at j = None \<and>
     db' = db\<lparr>jb_jobs := jb_jobs db @ [j]\<rparr> \<and>
     j = job\<lparr>gj_created_at := now, gj_updated_at := now, gj_started_at := None, gj_completed_at := None,
       gj_cancelled_at := None, gj_error_code := None, gj_error_message := None,
       gj_result_revision := None, gj_result := []\<rparr>"
  by (auto simp: CreateGenerationJob_def Let_def request_part_def select_row_None_iff split: if_splits)

lemma life_create:
  assumes "CreateGenerationJob now job db = Inr (j, db')" "gj_status job = JQueued"
  shows "life db db'"
  using CreateGenerationJob_Inr [OF assms(1)] assms(2)
  by (auto simp: life_def jobs_ok_def stamped_def request_part_def intro: next_row_refl)

lemma life_same_jobs: "jb_jobs db' = jb_jobs db \<Longrightarrow> life db db'"
  unfolding life_def jobs_ok_def by (simp, blast intro: next_row_refl)

lemma claim_next_is_claim:
  assumes "ClaimNextGenerationJob now skip db = Inr (j, db')" "jobs_ok db"
  shows "\<not> skip (gj_id j) \<and> ClaimGenerationJob now (gj_id j) db = Inr (j, db')"
proof -
  let ?q = "filter (\<lambda>j. gj_status j = JQueued \<and> \<not> skip (gj_id j)) (jb_jobs db)"
  obtain old rest where q: "sort_key gj_created_at ?q = old # rest"
    "update_job (gj_id old) (\<lambda>_. True) (claim now) db = Inr (j, db')"
    using assms(1) by (auto simp: ClaimNextGenerationJob_def split: list.splits)
  have "old \<in> set (sort_key gj_created_at ?q)" using q(1) by simp
  then have old: "old \<in> set (jb_jobs db)" "gj_status old = JQueued" "\<not> skip (gj_id old)" by auto
  have key: "key_unique gj_id (jb_jobs db)" using assms(2) by (simp add: jobs_ok_def)
  have one: "gj_id r = gj_id old \<longleftrightarrow> r = old" if "r \<in> set (jb_jobs db)" for r
    using key_unique_inj [OF key that old(1)] by auto
  have sel: "select_row (\<lambda>j. gj_id j = gj_id old \<and> P j) (jb_jobs db) = Some old" if "P old" for P
    by (rule select_row_key [OF key old(1)]) (simp_all add: that)
  have upd: "update_where (\<lambda>j. gj_id j = gj_id old \<and> True) f (jb_jobs db) =
      update_where (\<lambda>j. gj_id j = gj_id old \<and> gj_status j = JQueued) f (jb_jobs db)" for f
    unfolding update_where_def using one old(2) by (intro map_cong) auto
  show ?thesis
    using q(2) old(2,3) sel [of "\<lambda>_. True"] sel [of "\<lambda>j. gj_status j = JQueued"] upd [of "claim now"]
    by (simp add: ClaimGenerationJob_def update_job_Inr claim_def)
qed

lemma life_stmts:
  "ClaimGenerationJob now jid db = Inr (j, db') \<Longrightarrow> life db db'"
  "ClaimNextGenerationJob now skip db = Inr (j, db') \<Longrightarrow> life db db'"
  "CompleteGenerationJob now jid v db = Inr (j, db') \<Longrightarrow> life db db'"
  "FailGenerationJob now jid code msg db = Inr (j, db') \<Longrightarrow> life db db'"
  "ResetRunningGenerationJobToQueued now jid code msg db = Inr (j, db') \<Longrightarrow> life db db'"
  "CancelQueuedGenerationJob now jid db = Inr (j, db') \<Longrightarrow> life db db'"
  "CancelOpsGenerationJob now jid code msg db = Inr (j, db') \<Longrightarrow> life db db'"
  "MarkOpsGenerationJobFailed now jid before code msg db = Inr (j, db') \<Longrightarrow> life db db'"
proof -
  show claim: "ClaimGenerationJob now jid db = Inr (j, db') \<Longrightarrow> life db db'" for jid
    unfolding ClaimGenerationJob_def by (erule life_update_job) (rule good_change_rules)
  show "ClaimNextGenerationJob now skip db = Inr (j, db') \<Longrightarrow> life db db'"
    using claim_next_is_claim claim unfolding life_def by blast
qed (auto simp: CompleteGenerationJob_def FailGenerationJob_mark ResetRunningGenerationJobToQueued_def
    CancelQueuedGenerationJob_def CancelOpsGenerationJob_def MarkOpsGenerationJobFailed_def checked_texts_Inr
    split: if_splits elim!: life_update_job intro!: good_change_rules)

lemma sweep_texts:
  "char_count ''Generation job was interrupted by service restart.'' \<le> 2000"
  "char_count ''Generation job was interrupted by worker shutdown.'' \<le> 2000"
  by code_simp+

lemma life_sweep:
  "life db (failStaleRunningJobs cfg now db)" "life db (startupSweep cfg now db)"
  unfolding failStaleRunningJobs_def startupSweep_def MarkStaleRunningGenerationJobsFailed_def snd_conv
  by (rule life_update_where, rule good_change_rules, rule sweep_texts)+

end
