(* ===== verification/JobRuns.thy ===== *)
theory JobRuns
  imports JobLaws
begin

text \<open>
  Runs of the job system. First as a sequence of whole requests; then with the statements of
  concurrent workers, the API and the ops console interleaved in any order, as the step relation
  \<open>job_step\<close> on the database and the jobs that live workers hold.
\<close>

section \<open>Sequences of requests\<close>

record job_site =
  je_env :: svc_env
  je_trips :: trip_db
  je_pub :: "publisher option"
  je_cfg :: job_config

datatype job_request =
    RqCreate job_site job_call uuid create_request
  | RqAdapt job_site job_call "app_error + (trip \<times> string)"
  | RqCancel job_site job_call uuid uuid
  | RqOpsRetry job_site job_call uuid string
  | RqOpsCancel job_call uuid string
  | RqOpsFail job_call uuid string duration
  | RqPoll trip_work worker_call "uuid \<Rightarrow> bool"
  | RqDeliver consumer delivery_call delivery
  | RqSweep job_config time
  | RqStartup job_config time

fun job_serve :: "job_request \<Rightarrow> job_db \<Rightarrow> job_db" where
  "job_serve (RqCreate st cx tid req) db =
     snd (Create (je_env st) (je_trips st) (je_pub st) (je_cfg st) cx tid req db)"
| "job_serve (RqAdapt st cx prepared) db =
     snd (CreateTemplateAdaptation (je_pub st) (je_cfg st) cx prepared db)"
| "job_serve (RqCancel st cx tid jid) db = snd (Cancel (je_env st) (je_trips st) (je_cfg st) cx tid jid db)"
| "job_serve (RqOpsRetry st cx jid reason) db =
     snd (OpsRetry (je_env st) (je_trips st) (je_pub st) (je_cfg st) cx jid reason db)"
| "job_serve (RqOpsCancel cx jid reason) db = snd (OpsCancel cx jid reason db)"
| "job_serve (RqOpsFail cx jid reason threshold) db = snd (OpsMarkFailed cx jid reason threshold db)"
| "job_serve (RqPoll tw wc skip) db = snd (processNext tw wc skip db)"
| "job_serve (RqDeliver cs dc d) db = snd (handleDelivery cs dc d db)"
| "job_serve (RqSweep cfg now) db = failStaleRunningJobs cfg now db"
| "job_serve (RqStartup cfg now) db = startupSweep cfg now db"

section \<open>Interleaved statements\<close>

type_synonym job_world = "job_db \<times> uuid list"

inductive job_step :: "job_world \<Rightarrow> job_world \<Rightarrow> bool" where
  claim: "ClaimGenerationJob now jid db = Inr (j, db') \<Longrightarrow> job_step (db, held) (db', jid # held)"
| claim_next: "ClaimNextGenerationJob now skip db = Inr (j, db') \<Longrightarrow> job_step (db, held) (db', gj_id j # held)"
| payload: "jid \<in> set held \<Longrightarrow> job_step (db, held) (SetGenerationJobResultPayload now jid p db, held)"
| complete: "jid \<in> set held \<Longrightarrow> CompleteGenerationJob now jid v db = Inr (j, db') \<Longrightarrow>
    job_step (db, held) (db', remove1 jid held)"
| fail: "jid \<in> set held \<Longrightarrow> FailGenerationJob now jid code msg db = Inr (j, db') \<Longrightarrow>
    job_step (db, held) (db', remove1 jid held)"
| retry: "jid \<in> set held \<Longrightarrow> ResetRunningGenerationJobToQueued now jid code msg db = Inr (j, db') \<Longrightarrow>
    job_step (db, held) (db', remove1 jid held)"
| abandon: "jid \<in> set held \<Longrightarrow> job_step (db, held) (db, remove1 jid held)"
| create: "CreateGenerationJob now job db = Inr (j, db') \<Longrightarrow> gj_status job = JQueued \<Longrightarrow>
    job_step (db, held) (db', held)"
| undispatched: "FailGenerationJob now jid code msg db = Inr (j, db') \<Longrightarrow> job_step (db, held) (db', held)"
| cancel: "CancelQueuedGenerationJob now jid db = Inr (j, db') \<Longrightarrow> job_step (db, held) (db', held)"
| ops_cancel: "CancelOpsGenerationJob now jid code msg db = Inr (j, db') \<Longrightarrow> job_step (db, held) (db', held)"
| ops_fail: "MarkOpsGenerationJobFailed now jid before code msg db = Inr (j, db') \<Longrightarrow>
    job_step (db, held) (db', held)"
| sweep: "job_step (db, held) (failStaleRunningJobs cfg now db, held)"
| startup: "job_step (db, held) (startupSweep cfg now db, held)"
| quiet: "jb_jobs db' = jb_jobs db \<Longrightarrow> job_step (db, held) (db', held)"

inductive_cases job_stepE: "job_step (db, held) (db', held')"

lemma life_refl [simp]: "life db db"
  by (rule life_same_jobs) (rule refl)

lemma step_life: "job_step w w' \<Longrightarrow> life (fst w) (fst w')"
proof (induction rule: job_step.induct)
  case (payload jid held now p db)
  show ?case by (simp add: SetGenerationJobResultPayload_def life_update_where good_change_rules)
next
  case (quiet db' db held)
  then show ?case by (simp add: life_same_jobs)
qed (simp_all only: fst_conv life_refl life_sweep, (erule life_stmts | erule (1) life_create)+)

text \<open>The status of a job that a live worker holds: running, or failed behind its back.\<close>

definition held_status :: "job_db \<Rightarrow> uuid \<Rightarrow> bool" where
  "held_status db jid \<longleftrightarrow>
     (\<exists>j \<in> set (jb_jobs db). gj_id j = jid) \<and>
     (\<forall>j \<in> set (jb_jobs db). gj_id j = jid \<longrightarrow> gj_status j \<in> {JRunning, JFailed})"

definition world_ok :: "job_world \<Rightarrow> bool" where
  "world_ok w \<longleftrightarrow> jobs_ok (fst w) \<and> distinct (snd w) \<and> (\<forall>jid \<in> set (snd w). held_status (fst w) jid)"

text \<open>A change that leaves every running or failed row of that id so.\<close>

lemma held_update_where:
  assumes "held_status db jid" "\<And>j. gj_id (f j) = gj_id j"
    "\<And>j. P j \<Longrightarrow> gj_id j = jid \<Longrightarrow> gj_status j \<in> {JRunning, JFailed} \<Longrightarrow> gj_status (f j) \<in> {JRunning, JFailed}"
  shows "held_status (db\<lparr>jb_jobs := update_where P f (jb_jobs db)\<rparr>) jid"
  unfolding held_status_def
proof
  let ?db' = "db\<lparr>jb_jobs := update_where P f (jb_jobs db)\<rparr>"
  have rows: "jb_jobs ?db' = map (\<lambda>j. if P j then f j else j) (jb_jobs db)"
    by (simp add: update_where_def)
  obtain j where "j \<in> set (jb_jobs db)" "gj_id j = jid" using assms(1) by (auto simp: held_status_def)
  then have "(if P j then f j else j) \<in> set (jb_jobs ?db')" "gj_id (if P j then f j else j) = jid"
    unfolding rows using assms(2) by auto
  then show "\<exists>j \<in> set (jb_jobs ?db'). gj_id j = jid" by blast
  have "gj_status (if P j then f j else j) \<in> {JRunning, JFailed}"
    if "j \<in> set (jb_jobs db)" "gj_id (if P j then f j else j) = jid" for j
  proof -
    have i: "gj_id j = jid" using that(2) assms(2) by (simp split: if_splits)
    with that(1) assms(1) have st: "gj_status j \<in> {JRunning, JFailed}" unfolding held_status_def by blast
    show ?thesis by (cases "P j") (use assms(3) [OF _ i st] st in auto)
  qed
  then show "\<forall>j \<in> set (jb_jobs ?db'). gj_id j = jid \<longrightarrow> gj_status j \<in> {JRunning, JFailed}"
    unfolding rows set_map ball_simps by blast
qed

lemma held_update_job:
  assumes "update_job jid' P f db = Inr (j, db')" "held_status db jid" "\<And>j. gj_id (f j) = gj_id j"
    "\<And>j. P j \<Longrightarrow> gj_id j = jid' \<Longrightarrow> gj_id j = jid \<Longrightarrow> gj_status j \<in> {JRunning, JFailed} \<Longrightarrow>
       gj_status (f j) \<in> {JRunning, JFailed}"
  shows "held_status db' jid"
  using assms(1) held_update_where [OF assms(2,3), of "\<lambda>j. gj_id j = jid' \<and> P j"] assms(4)
  by (auto simp: update_job_Inr)

lemma held_stmts:
  assumes "held_status db jid"
  shows "ClaimGenerationJob now jid' db = Inr (j, db') \<Longrightarrow> held_status db' jid"
    "CompleteGenerationJob now jid' v db = Inr (j, db') \<Longrightarrow> jid' \<noteq> jid \<Longrightarrow> held_status db' jid"
    "FailGenerationJob now jid' code msg db = Inr (j, db') \<Longrightarrow> held_status db' jid"
    "ResetRunningGenerationJobToQueued now jid' code msg db = Inr (j, db') \<Longrightarrow> jid' \<noteq> jid \<Longrightarrow> held_status db' jid"
    "CancelQueuedGenerationJob now jid' db = Inr (j, db') \<Longrightarrow> held_status db' jid"
    "CancelOpsGenerationJob now jid' code msg db = Inr (j, db') \<Longrightarrow> held_status db' jid"
    "MarkOpsGenerationJobFailed now jid' before code msg db = Inr (j, db') \<Longrightarrow> held_status db' jid"
  using assms
  by (auto simp: ClaimGenerationJob_def CompleteGenerationJob_def FailGenerationJob_mark
      ResetRunningGenerationJobToQueued_def CancelQueuedGenerationJob_def CancelOpsGenerationJob_def
      MarkOpsGenerationJobFailed_def checked_texts_Inr claim_def mark_failed_def
      split: if_splits elim!: held_update_job)

lemma ClaimGenerationJob_Inr:
  assumes "ClaimGenerationJob now jid db = Inr (j, db')"
  shows "\<exists>old \<in> set (jb_jobs db). gj_id old = jid \<and> gj_status old = JQueued \<and> j = claim now old \<and>
    j \<in> set (jb_jobs db')"
  using assms
  by (auto simp: ClaimGenerationJob_def update_job_Inr set_update_where dest!: select_row_Some)

lemma claim_world:
  assumes "ClaimGenerationJob now jid db = Inr (j, db')" "world_ok (db, held)"
  shows "world_ok (db', jid # held)"
proof -
  obtain old where old: "old \<in> set (jb_jobs db)" "gj_id old = jid" "gj_status old = JQueued"
    "j = claim now old" "j \<in> set (jb_jobs db')" using ClaimGenerationJob_Inr [OF assms(1)] by blast
  have ok: "jobs_ok db'" using life_stmts(1) [OF assms(1)] assms(2) by (simp add: life_def world_ok_def)
  have "jid \<notin> set held"
  proof
    assume "jid \<in> set held"
    then have "held_status db jid" using assms(2) by (simp add: world_ok_def)
    then show False using old(1-3) by (auto simp: held_status_def)
  qed
  moreover have "held_status db' jid"
    unfolding held_status_def
  proof (intro conjI ballI impI)
    show "\<exists>j \<in> set (jb_jobs db'). gj_id j = jid" 
      using old(2,4,5) by (intro bexI [of _ j]) (simp_all add: claim_def)
    fix r assume r: "r \<in> set (jb_jobs db')" "gj_id r = jid"
    have "r = j"
      
      using key_unique_inj [of gj_id, OF _ r(1) old(5)] ok r(2) old(2,4) by (simp add: jobs_ok_def claim_def)
    then show "gj_status r \<in> {JRunning, JFailed}" using old(4) by (simp add: claim_def)
  qed
  moreover have "held_status db' x" if "x \<in> set held" for x
    using held_stmts(1) [OF _ assms(1)] that assms(2) by (simp add: world_ok_def)
  ultimately show ?thesis using ok assms(2) by (simp add: world_ok_def)
qed

lemma held_same: "held_status db x \<Longrightarrow> jb_jobs db' = jb_jobs db \<Longrightarrow> held_status db' x"
  by (simp add: held_status_def)

lemma held_create:
  assumes "CreateGenerationJob now job db = Inr (j, db')" "held_status db x"
  shows "held_status db' x"
  using CreateGenerationJob_Inr [OF assms(1)] assms(2) by (auto simp: held_status_def)

lemma held_sweep:
  assumes "held_status db x"
  shows "held_status (failStaleRunningJobs cfg now db) x" "held_status (startupSweep cfg now db) x"
  unfolding failStaleRunningJobs_def startupSweep_def MarkStaleRunningGenerationJobsFailed_def snd_conv
  by (rule held_update_where [OF assms]; simp add: mark_failed_def)+

lemma held_payload: "held_status db x \<Longrightarrow> held_status (SetGenerationJobResultPayload now jid p db) x"
  by (auto simp: SetGenerationJobResultPayload_def intro: held_update_where)

lemma world_okI:
  assumes "life db db'" "world_ok (db, held)" "distinct held'" "\<And>x. x \<in> set held' \<Longrightarrow> held_status db' x"
  shows "world_ok (db', held')"
  using assms by (simp add: life_def world_ok_def)

lemma world_remove1:
  "world_ok (db, held) \<Longrightarrow> x \<in> set (remove1 jid held) \<Longrightarrow> x \<noteq> jid \<and> held_status db x"
  "world_ok (db, held) \<Longrightarrow> distinct (remove1 jid held)"
  by (simp_all add: world_ok_def)

lemma world_keep:
  assumes "life db db'" "world_ok (db, held)" "\<And>x. held_status db x \<Longrightarrow> held_status db' x"
  shows "world_ok (db', held)"
  by (rule world_okI [OF assms(1,2)]) (use assms(2,3) in \<open>simp_all add: world_ok_def\<close>)

lemma step_world_ok: "job_step w w' \<Longrightarrow> world_ok w \<Longrightarrow> world_ok w'"
proof (induction rule: job_step.induct)
  case (claim now jid db j db' held)
  then show ?case by (rule claim_world)
next
  case (claim_next now skip db j db' held)
  have "ClaimGenerationJob now (gj_id j) db = Inr (j, db')"
    using claim_next_is_claim [OF claim_next.hyps] claim_next.prems by (simp add: world_ok_def)
  then show ?case using claim_next.prems by (rule claim_world)
next
  case (complete jid held now v db j db')
  have "held_status db' x" if "x \<in> set (remove1 jid held)" for x

    using world_remove1(1) [OF complete.prems that] held_stmts(2) [OF _ complete.hyps(2)] by blast
  then show ?case
    by (rule world_okI [OF life_stmts(3) [OF complete.hyps(2)] complete.prems world_remove1(2) [OF complete.prems]])
next
  case (fail jid held now code msg db j db')
  have "held_status db' x" if "x \<in> set (remove1 jid held)" for x

    using world_remove1(1) [OF fail.prems that] held_stmts(3) [OF _ fail.hyps(2)] by blast
  then show ?case
    by (rule world_okI [OF life_stmts(4) [OF fail.hyps(2)] fail.prems world_remove1(2) [OF fail.prems]])
next
  case (retry jid held now code msg db j db')
  have "held_status db' x" if "x \<in> set (remove1 jid held)" for x

    using world_remove1(1) [OF retry.prems that] held_stmts(4) [OF _ retry.hyps(2)] by blast
  then show ?case
    by (rule world_okI [OF life_stmts(5) [OF retry.hyps(2)] retry.prems world_remove1(2) [OF retry.prems]])
next
  case (abandon jid held db)
  show ?case
    by (rule world_okI [OF life_refl abandon.prems world_remove1(2) [OF abandon.prems]])
      (use world_remove1(1) [OF abandon.prems] in blast)
next
  case (create now job db j db' held)
  show ?case by (rule world_keep [OF life_create [OF create.hyps] create.prems])
      (erule held_create [OF create.hyps(1)])
next
  case (undispatched now jid code msg db j db' held)
  show ?case by (rule world_keep [OF life_stmts(4) [OF undispatched.hyps] undispatched.prems])
      (erule held_stmts(3) [OF _ undispatched.hyps])
next
  case (cancel now jid db j db' held)
  show ?case by (rule world_keep [OF life_stmts(6) [OF cancel.hyps] cancel.prems])
      (erule held_stmts(5) [OF _ cancel.hyps])
next
  case (ops_cancel now jid code msg db j db' held)
  show ?case by (rule world_keep [OF life_stmts(7) [OF ops_cancel.hyps] ops_cancel.prems])
      (erule held_stmts(6) [OF _ ops_cancel.hyps])
next
  case (ops_fail now jid before code msg db j db' held)
  show ?case by (rule world_keep [OF life_stmts(8) [OF ops_fail.hyps] ops_fail.prems])
      (erule held_stmts(7) [OF _ ops_fail.hyps])
next
  case (payload jid held now p db)
  show ?case
    by (rule world_keep [OF step_life [OF job_step.payload [OF payload.hyps], unfolded fst_conv] payload.prems])
      (erule held_payload)
next
  case (quiet db' db held)
  show ?case by (rule world_keep [OF life_same_jobs [OF quiet.hyps] quiet.prems])
      (erule held_same [OF _ quiet.hyps])
next
  case (sweep db held cfg now)
  show ?case by (rule world_keep [OF life_sweep(1) sweep.prems]) (erule held_sweep(1))
next
  case (startup db held cfg now)
  show ?case by (rule world_keep [OF life_sweep(2) startup.prems]) (erule held_sweep(2))
qed

lemma steps_world_ok: "job_step\<^sup>*\<^sup>* w w' \<Longrightarrow> world_ok w \<Longrightarrow> world_ok w'"
  by (induction rule: rtranclp_induct) (auto intro: step_world_ok)


section \<open>Handlers are steps\<close>

text \<open>\<open>steps held\<close> relates the database before and after, when the caller holds no job of its own.\<close>

definition steps :: "uuid list \<Rightarrow> job_db \<Rightarrow> job_db \<Rightarrow> bool" where
  "steps held db db' \<longleftrightarrow> job_step\<^sup>*\<^sup>* (db, held) (db', held)"

lemma steps_ok: "rel_ok (steps held)"
  by (rule rel_okI) (auto simp: steps_def)

lemma one_step: "job_step (db, held) (db', held') \<Longrightarrow> job_step\<^sup>*\<^sup>* (db, held) (db', held')"
  by (rule r_into_rtranclp)

named_theorems job_ops

lemma steps_stmts [job_ops]:
  "step_rel (steps held) (sstmt (FailGenerationJob now jid code msg))"
  "step_rel (steps held) (sstmt (CancelQueuedGenerationJob now jid))"
  "step_rel (steps held) (sstmt (CancelOpsGenerationJob now jid code msg))"
  "step_rel (steps held) (sstmt (MarkOpsGenerationJobFailed now jid before code msg))"
  "gj_status job = JQueued \<Longrightarrow> step_rel (steps held) (sstmt (CreateGenerationJob now job))"
  by (rule step_rel_sstmt [OF steps_ok]; unfold steps_def;
      erule job_step.intros [THEN one_step] | rule job_step.create [THEN one_step]; assumption)+

lemma steps_quiet [job_ops]:
  "step_rel (steps held) (sdo (record_sent m attempt))"
  "step_rel (steps held) (sstmt (CreateOpsAuditEvent a))"
proof -
  have q: "jb_jobs db' = jb_jobs db \<Longrightarrow> steps held db db'" for db db'
    unfolding steps_def by (rule one_step, rule job_step.quiet)
  show "step_rel (steps held) (sdo (record_sent m attempt))"
    by (rule step_rel_sdo) (simp add: record_sent_def q)
  show "step_rel (steps held) (sstmt (CreateOpsAuditEvent a))"
    by (rule step_rel_sstmt [OF steps_ok]) (auto simp: CreateOpsAuditEvent_def q split: if_splits)
qed

lemma new_job_queued [simp]: "gj_status (new_job cx tid u jt expected) = JQueued"
  by (simp add: new_job_def)

lemma steps_publish [job_ops]: "step_rel (steps held) (publishMessage publish m attempt)"
  by (cases "publish m"; simp add: publishMessage_def; intro step_intros job_ops steps_ok)

lemma steps_dispatch [job_ops]:
  "step_rel (steps held) (dispatchGenerationJob pub cfg cx job)"
  "step_rel (steps held) (dispatchOpsJob pub cfg cx job)"
  unfolding dispatchGenerationJob_def dispatchOpsJob_def failDispatch_def
  by (intro step_intros job_ops steps_ok)+

lemma steps_requests:
  "step_rel (steps held) (Create env db pub cfg cx tid req)"
  "step_rel (steps held) (CreateTemplateAdaptation pub cfg cx prepared)"
  "step_rel (steps held) (Cancel env db cfg cx tid jid)"
  "step_rel (steps held) (OpsRetry env db pub cfg cx jid raw)"
  "step_rel (steps held) (OpsCancel cx jid raw)"
  "step_rel (steps held) (OpsMarkFailed cx jid raw threshold)"
  unfolding Create_def CreateTemplateAdaptation_def Cancel_def OpsRetry_def OpsCancel_def
    OpsMarkFailed_def app_def auditEvent_def
  by (intro step_intros job_ops steps_ok; simp)+

text \<open>Finishing a held job releases it, also when the statement fails and the worker gives up.\<close>

lemma finish_steps:
  assumes "\<And>j db'. f db = Inr (j, db') \<Longrightarrow> job_step (db, jid # held) (db', held)"
  shows "job_step\<^sup>*\<^sup>* (db, jid # held) (snd (sstmt f db), held)"
proof (cases "f db")
  case (Inl e)
  have "job_step (db, jid # held) (db, remove1 jid (jid # held))" by (rule job_step.abandon) simp
  then show ?thesis using Inl by (auto simp: sstmt_def)
next
  case (Inr x)
  then show ?thesis using assms by (cases x) (auto simp: sstmt_def)
qed

lemma held_finish:
  "FailGenerationJob now jid code msg db = Inr (j, db') \<Longrightarrow> job_step (db, jid # held) (db', held)"
  "CompleteGenerationJob now jid v db = Inr (j, db') \<Longrightarrow> job_step (db, jid # held) (db', held)"
  "ResetRunningGenerationJobToQueued now jid code msg db = Inr (j, db') \<Longrightarrow> job_step (db, jid # held) (db', held)"
  using job_step.fail [of jid "jid # held" now code msg db j db'] job_step.complete [of jid "jid # held" now v db j db']
    job_step.retry [of jid "jid # held" now code msg db j db'] by simp_all

lemma snd_sbind_sret [simp]: "snd (sbind m (\<lambda>_. sret x) db) = snd (m db)"
  by (auto simp: sbind_def sret_def split: prod.splits sum.splits)

lemma failJob_steps:
  assumes "failJob now job code msg db = (r, db')"
  shows "job_step\<^sup>*\<^sup>* (db, gj_id job # held) (db', held)"
proof -
  have "db' = snd (sstmt (FailGenerationJob now (gj_id job) code (truncateSafeMessage msg)) db)"
    using assms unfolding failJob_def by (metis snd_conv snd_sbind_sret)
  then show ?thesis
    using finish_steps [of "FailGenerationJob now (gj_id job) code (truncateSafeMessage msg)", OF held_finish(1)]
    by simp
qed

definition not_failed :: "job_err + process_result \<Rightarrow> bool" where
  "not_failed r \<longleftrightarrow> (\<forall>res. r = Inr res \<longrightarrow> pr_status res \<noteq> PFailed)"

lemma processClaimed_steps:
  assumes "processClaimedJob tw wc job foe db = (r, db')"
  shows "(foe \<or> not_failed r) \<and> job_step\<^sup>*\<^sup>* (db, gj_id job # held) (db', held) \<or>
    (\<exists>res. \<not> foe \<and> r = Inr res \<and> pr_status res = PFailed \<and> pr_job res = job \<and> db' = db)"
proof (cases "process tw job")
  case (WorkDone v p)
  let ?db1 = "SetGenerationJobResultPayload (wc_done_at wc) (gj_id job) (tw_with_quality tw job p) db"
  have "db' = snd (sstmt (CompleteGenerationJob (wc_done_at wc) (gj_id job) v) ?db1)" "not_failed r"
    using assms WorkDone
    by (auto simp: processClaimedJob_def sbind_def sdo_def sret_def not_failed_def split: prod.splits sum.splits)
  moreover have "job_step (db, gj_id job # held) (?db1, gj_id job # held)" by (rule job_step.payload) simp
  ultimately show ?thesis
    using finish_steps [of "CompleteGenerationJob (wc_done_at wc) (gj_id job) v", OF held_finish(2)]
    by (meson converse_rtranclp_into_rtranclp)
next
  case (WorkError e)
  then show ?thesis using assms
    by (cases foe) (auto simp: processClaimedJob_def Let_def sbind_def sret_def failed_result_def
        split: prod.splits sum.splits intro: failJob_steps)
next
  case WorkPanic
  then show ?thesis using assms
    by (cases foe) (auto simp: processClaimedJob_def Let_def sbind_def sret_def failed_result_def
        split: prod.splits sum.splits intro: failJob_steps)
qed

lemma claimed_id: "ClaimGenerationJob now jid db = Inr (j, db') \<Longrightarrow> gj_id j = jid"
  using ClaimGenerationJob_Inr by (fastforce simp: claim_def)

lemma claim_cases:
  "claimGenerationJob now jid db = (r, db') \<Longrightarrow>
     (\<exists>j. r = Inr (j, True) \<and> gj_id j = jid \<and> ClaimGenerationJob now jid db = Inr (j, db')) \<or>
     (db' = db \<and> (\<forall>j. r \<noteq> Inr (j, True)))"
  by (auto simp: claimGenerationJob_def dest: claimed_id split: sum.splits if_splits)

lemma ProcessJobByID_steps:
  assumes "ProcessJobByID tw wc jid foe db = (r, db')"
  shows "(foe \<or> not_failed r) \<and> job_step\<^sup>*\<^sup>* (db, held) (db', held) \<or>
    (\<exists>res. \<not> foe \<and> r = Inr res \<and> pr_status res = PFailed \<and> gj_id (pr_job res) = jid \<and>
       job_step\<^sup>*\<^sup>* (db, held) (db', jid # held))"
proof -
  obtain c db1 where c: "claimGenerationJob (wc_claimed_at wc) jid db = (c, db1)" by fastforce
  from claim_cases [OF c] show ?thesis
  proof
    assume "\<exists>j. c = Inr (j, True) \<and> gj_id j = jid \<and> ClaimGenerationJob (wc_claimed_at wc) jid db = Inr (j, db1)"
    then obtain j where j: "c = Inr (j, True)" "gj_id j = jid"
      and st: "job_step (db, held) (db1, jid # held)" using job_step.claim by blast
    have "processClaimedJob tw wc j foe db1 = (r, db')"
      using assms c j(1) by (simp add: ProcessJobByID_def sbind_def)
    from processClaimed_steps [OF this, of held] show ?thesis
    proof
      assume *: "(foe \<or> not_failed r) \<and> job_step\<^sup>*\<^sup>* (db1, gj_id j # held) (db', held)"
      then have "job_step\<^sup>*\<^sup>* (db, held) (db', held)"
        using st j(2) by (auto intro: converse_rtranclp_into_rtranclp)
      with * show ?thesis by simp
    next
      assume "\<exists>res. \<not> foe \<and> r = Inr res \<and> pr_status res = PFailed \<and> pr_job res = j \<and> db' = db1"
      then show ?thesis using r_into_rtranclp [of job_step, OF st] j(2) by blast
    qed
  next
    assume "db1 = db \<and> (\<forall>j. c \<noteq> Inr (j, True))"
    then have "db' = db \<and> not_failed r" using assms c
      by (auto simp: ProcessJobByID_def sbind_def sret_def not_failed_def split: sum.splits prod.splits if_splits)
    then show ?thesis by simp
  qed
qed

lemma processNext_steps:
  assumes "processNext tw wc skip db = (r, db')"
  shows "job_step\<^sup>*\<^sup>* (db, held) (db', held)"
proof (cases "ClaimNextGenerationJob (wc_claimed_at wc) skip db")
  case (Inl e)
  then show ?thesis using assms by (simp add: processNext_def sbind_def stry_def sstmt_def sret_def)
next
  case (Inr x)
  then obtain j db1 where x: "ClaimNextGenerationJob (wc_claimed_at wc) skip db = Inr (j, db1)" by (cases x) auto
  obtain p db2 where p: "processClaimedJob tw wc j True db1 = (p, db2)" by fastforce
  have "db' = db2"
    using assms x p by (cases p) (simp_all add: processNext_def sbind_def stry_def sstmt_def sret_def)
  then show ?thesis
    using processClaimed_steps [OF p, of held] job_step.claim_next [OF x, of held]
    by (meson converse_rtranclp_into_rtranclp)
qed

lemma steps_publishRetry [job_ops]:
  "step_rel (steps held) (PublishRetry publish m attempt)"
  "step_rel (steps held) (publishRetryOrRequeue cs dc m attempt)"
  "step_rel (steps held) (retryOrRequeue cs dc m attempt)"
  unfolding PublishRetry_def publishRetryOrRequeue_def retryOrRequeue_def
  by (intro step_intros job_ops steps_ok)+

lemma steps_op: "step_rel (steps held) m \<Longrightarrow> job_step\<^sup>*\<^sup>* (db, held) (snd (m db), held)"
  by (simp add: step_rel_def steps_def)

text \<open>After a failed run the consumer gives its job back or ends it.\<close>

lemma release_then:
  assumes "\<And>j db'. f db = Inr (j, db') \<Longrightarrow> job_step (db, jid # held) (db', held)"
    "\<And>x. step_rel (steps held) (g x)"
  shows "job_step\<^sup>*\<^sup>* (db, jid # held) (snd (sbind (stry (sbind (sstmt f) (\<lambda>_. sret ()))) g db), held)"
proof -
  let ?db1 = "snd (sstmt f db)"
  have "job_step\<^sup>*\<^sup>* (db, jid # held) (?db1, held)" using assms(1) by (rule finish_steps)
  moreover obtain x where "sbind (stry (sbind (sstmt f) (\<lambda>_. sret ()))) g db = g x ?db1"
    by (cases "f db") (auto simp: sbind_def stry_def sret_def sstmt_def split: sum.splits prod.splits)
  then have "job_step\<^sup>*\<^sup>* (?db1, held) (snd (sbind (stry (sbind (sstmt f) (\<lambda>_. sret ()))) g db), held)"
    using steps_op [OF assms(2)] by simp
  ultimately show ?thesis by (rule rtranclp_trans)
qed

lemma afterFailure_steps:
  assumes "gj_id (pr_job result) = qm_job m"
  shows "job_step\<^sup>*\<^sup>* (db, qm_job m # held) (snd (afterFailure cs dc m attempt result db), held)"
proof -
  have g: "step_rel (steps held) (if reset = None then sret Requeue else publishRetryOrRequeue cs dc m attempt)"
    for reset :: "unit option" by (intro step_intros job_ops steps_ok)
  have h: "step_rel (steps held) (sret (if failed = None then Requeue else DeadLetter))"
    for failed :: "unit option" by (intro step_intros steps_ok)
  show ?thesis
    unfolding afterFailure_def ResetRunningJobForRetry_def FailClaimedJob_def failJob_def option.case assms
    by (simp, intro conjI impI release_then g h) (erule held_finish)+
qed

lemma deliver_steps: "job_step\<^sup>*\<^sup>* (db, held) (snd (handleDelivery cs dc d db), held)"
proof (cases "decodeMessage d")
  case (Inl e)
  then show ?thesis by (simp add: handleDelivery_def sret_def)
next
  case (Inr m0)
  define m where "m = withRequestIDs (dc_request_id dc) m0"
  obtain r db1 where run: "ProcessJobByID (cs_work cs) (dc_worker dc) (qm_job m) False db = (r, db1)" by fastforce
  let ?a = "delivery_attempt d"
  have eq: "handleDelivery cs dc d db =
    (case r of Inl _ \<Rightarrow> retryOrRequeue cs dc m ?a db1
     | Inr res \<Rightarrow> (case pr_status res of PSkipped \<Rightarrow> sret Ack | PCompleted \<Rightarrow> sret Ack
         | PFailed \<Rightarrow> afterFailure cs dc m ?a res) db1)"
    using Inr run by (cases r) (simp_all add: handleDelivery_def m_def Let_def sbind_def stry_def split: process_status.split)
  show ?thesis
  proof (cases "\<exists>res. r = Inr res \<and> pr_status res = PFailed \<and> gj_id (pr_job res) = qm_job m \<and>
      job_step\<^sup>*\<^sup>* (db, held) (db1, qm_job m # held)")
    case True
    then obtain res where res: "r = Inr res" "pr_status res = PFailed" "gj_id (pr_job res) = qm_job m"
      "job_step\<^sup>*\<^sup>* (db, held) (db1, qm_job m # held)" by blast
    show ?thesis using rtranclp_trans [OF res(4) afterFailure_steps [OF res(3)]] res(1,2) by (simp add: eq)
  next
    case False
    then have st: "not_failed r" "job_step\<^sup>*\<^sup>* (db, held) (db1, held)"
      using ProcessJobByID_steps [OF run, of held] by blast+
    have "job_step\<^sup>*\<^sup>* (db1, held) (snd (handleDelivery cs dc d db), held)"
      using st(1) steps_op [OF steps_publishRetry(3), where db = db1]
      by (auto simp: eq not_failed_def sret_def split: sum.split process_status.split)
    with st(2) show ?thesis by (rule rtranclp_trans)
  qed
qed


section \<open>What holds of every run\<close>

lemma serve_steps: "job_step\<^sup>*\<^sup>* (db, held) (job_serve r db, held)"
proof (cases r)
  case (RqPoll tw wc skip)
  then show ?thesis using processNext_steps [OF surjective_pairing] by simp
qed (simp_all add: steps_op steps_requests deliver_steps r_into_rtranclp job_step.sweep job_step.startup)

lemma steps_life: "job_step\<^sup>*\<^sup>* w w' \<Longrightarrow> life (fst w) (fst w')"
proof (induction rule: rtranclp_induct)
  case (step v w')
  then show ?case using step_life [OF step.hyps(2)] life_ok by (auto simp: rel_ok_def dest: transpD)
qed simp

text \<open>
  C23. Every run of API and ops requests, rounds of the poller, deliveries of the queue and sweeps
  is a sequence of the interleaved statements that leaves no job in the hands of the worker: what
  is proved of all interleavings holds of the operations of the code.
\<close>

theorem requests_are_steps: "job_step\<^sup>*\<^sup>* (db, held) (fold job_serve rs db, held)"
proof (induction rs arbitrary: db)
  case (Cons r rs)
  have "job_step\<^sup>*\<^sup>* (job_serve r db, held) (fold job_serve rs (job_serve r db), held)" by (rule Cons.IH)
  then show ?case using rtranclp_trans [OF serve_steps] by simp
qed simp

text \<open>
  In every interleaving of workers, API, ops console and sweeps the rows keep their unique
  ids, their CHECK constraints and the timestamps and results their status calls for; no row is
  lost, none changes what was asked for, and a job that is completed, failed or cancelled never
  becomes queued or running again.
\<close>

theorem finished_jobs_never_run_again:
  assumes "jobs_ok db" "job_step\<^sup>*\<^sup>* (db, held) (db', held')"
  shows "jobs_ok db' \<and>
    (\<forall>j \<in> set (jb_jobs db). \<exists>j' \<in> set (jb_jobs db').
       request_part j' = request_part j \<and> (finished j \<longrightarrow> finished j'))"
  using steps_life [OF assms(2)] assms(1) unfolding life_def next_row_def by simp

text \<open>
  C20. At most one worker has a job at any time: in every interleaving that starts with no job in
  the hands of a worker, a job that a live worker holds cannot be claimed, neither by its id nor
  as the next queued one, until that worker has completed, failed, returned or abandoned it.
\<close>

theorem one_worker_per_job:
  assumes "jobs_ok db" "job_step\<^sup>*\<^sup>* (db, []) (db', held)"
  shows "distinct held \<and>
    (\<forall>now jid. jid \<in> set held \<longrightarrow> ClaimGenerationJob now jid db' = Inl (AppErr ErrNotFound)) \<and>
    (\<forall>now skip j db2. ClaimNextGenerationJob now skip db' = Inr (j, db2) \<longrightarrow> gj_id j \<notin> set held)"
proof -
  have ok: "world_ok (db', held)" using steps_world_ok [OF assms(2)] assms(1) by (simp add: world_ok_def)
  have refused: "ClaimGenerationJob now jid db' = Inl (AppErr ErrNotFound)" if "jid \<in> set held" for now jid
  proof (cases "ClaimGenerationJob now jid db'")
    case (Inr x)
    then have "world_ok (snd x, jid # held)" using claim_world [OF _ ok, of now jid "fst x" "snd x"] by simp
    with that show ?thesis by (simp add: world_ok_def)
  qed (simp add: ClaimGenerationJob_def update_job_def split: option.splits prod.splits)
  moreover have "gj_id j \<notin> set held" if "ClaimNextGenerationJob now skip db' = Inr (j, db2)" for now skip j db2
    using claim_next_is_claim [OF that] ok refused by (auto simp: world_ok_def)
  ultimately show ?thesis using ok unfolding world_ok_def by simp
qed

end
