(* ===== verification/JobOutcomes.thy ===== *)
theory JobOutcomes
  imports JobRuns
begin

text \<open>
  What the operations on jobs do, branch by branch: creating and cancelling, duplicate deliveries,
  retries and their end, and three places where the code does not do what it means to.
\<close>

section \<open>Reading after a statement\<close>

definition job_at :: "job_db \<Rightarrow> uuid \<Rightarrow> generation_job option" where
  "job_at db jid = select_row (\<lambda>j. gj_id j = jid) (jb_jobs db)"

lemma job_at_select:
  assumes "jobs_ok db" "job_at db jid = Some old"
  shows "select_row (\<lambda>j. gj_id j = jid \<and> P j) (jb_jobs db) = (if P old then Some old else None)"
proof -
  have old: "old \<in> set (jb_jobs db)" "gj_id old = jid"
    using select_row_Some [OF assms(2) [unfolded job_at_def]] by simp_all
  have key: "key_unique gj_id (jb_jobs db)" using assms(1) by (simp add: jobs_ok_def)
  show ?thesis
  proof (cases "P old")
    case True
    then show ?thesis using select_row_key [OF key old(1), of "\<lambda>j. gj_id j = jid \<and> P j"] old(2) by simp
  next
    case False
    have "r = old" if "r \<in> set (jb_jobs db)" "gj_id r = jid" for r
      using key_unique_inj [OF key that(1) old(1)] that(2) old(2) by simp
    then show ?thesis using False by (auto simp: select_row_None_iff)
  qed
qed

lemma update_job_at:
  assumes "jobs_ok db" "job_at db jid = Some old" "\<And>j. gj_id (f j) = gj_id j"
  shows "\<not> P old \<Longrightarrow> update_job jid P f db = Inl (AppErr ErrNotFound)"
    and "P old \<Longrightarrow> \<exists>db'. update_job jid P f db = Inr (f old, db') \<and> job_at db' jid = Some (f old) \<and>
      jb_sent db' = jb_sent db \<and> jb_audit db' = jb_audit db"
proof -
  note sel = job_at_select [OF assms(1,2), of P]
  show "update_job jid P f db = Inl (AppErr ErrNotFound)" if "\<not> P old"
    using sel that by (simp add: update_job_def update_returning_def select_row_def)
  let ?db' = "db\<lparr>jb_jobs := update_where (\<lambda>j. gj_id j = jid \<and> P j) f (jb_jobs db)\<rparr>"
  have "job_at ?db' jid = Some (f old)" if "P old"
    unfolding job_at_def job_db.simps
    by (simp, rule find_update_where_hit [OF _ assms(2) [unfolded job_at_def]])
      (use assms(3) that select_row_Some [OF assms(2) [unfolded job_at_def]] in simp_all)
  then show "\<exists>db'. update_job jid P f db = Inr (f old, db') \<and> job_at db' jid = Some (f old) \<and>
      jb_sent db' = jb_sent db \<and> jb_audit db' = jb_audit db" if "P old"
    using sel that by (intro exI [of _ ?db']) (simp add: update_job_Inr)
qed

lemma job_at_get: "job_at db jid = Some j \<Longrightarrow> GetGenerationJobByID jid db = Inr j"
  by (simp add: GetGenerationJobByID_def job_at_def)

lemma job_at_id: "job_at db jid = Some j \<Longrightarrow> gj_id j = jid \<and> j \<in> set (jb_jobs db)"
  using select_row_Some by (fastforce simp: job_at_def)

section \<open>Duplicate deliveries\<close>

lemma withRequestIDs_job [simp]: "qm_job (withRequestIDs fresh m) = qm_job m"
  by (simp add: withRequestIDs_def Let_def)

lemma duplicate_ack:
  assumes "jobs_ok db" "decodeMessage d = Inr m" "job_at db (qm_job m) = Some j" "gj_status j \<noteq> JQueued"
  shows "handleDelivery cs dc d db = (Inr Ack, db)"
proof -
  have "ClaimGenerationJob (wc_claimed_at (dc_worker dc)) (qm_job m) db = Inl (AppErr ErrNotFound)"
    unfolding ClaimGenerationJob_def by (rule update_job_at(1) [OF assms(1,3)]) (simp_all add: claim_def assms(4))
  moreover have "gj_status j \<in> {JRunning, JCompleted, JFailed, JCancelled}" using assms(4) by (cases "gj_status j") auto
  ultimately have "claimGenerationJob (wc_claimed_at (dc_worker dc)) (qm_job m) db = (Inr (j, False), db)"
    using job_at_get [OF assms(3)] by (simp add: claimGenerationJob_def)
  then show ?thesis
    using assms(2) by (simp add: handleDelivery_def ProcessJobByID_def sbind_def stry_def sret_def Let_def)
qed

text \<open>
  A delivery for a job that is not queued is acknowledged and changes nothing, however often
  the broker repeats it: the work of a job that another worker runs, or that is over, is never
  done a second time.
\<close>

theorem duplicate_deliveries_do_nothing:
  assumes "jobs_ok db" "job_at db jid = Some j" "gj_status j \<noteq> JQueued"
    and "\<And>cs dc d. (cs, dc, d) \<in> set ds \<Longrightarrow> \<exists>m. decodeMessage d = Inr m \<and> qm_job m = jid"
  shows "fold (\<lambda>(cs, dc, d) db. snd (handleDelivery cs dc d db)) ds db = db \<and>
    (\<forall>(cs, dc, d) \<in> set ds. handleDelivery cs dc d db = (Inr Ack, db))"
proof -
  have ack: "handleDelivery cs dc d db = (Inr Ack, db)" if "(cs, dc, d) \<in> set ds" for cs dc d
    using assms(4) [OF that] duplicate_ack [OF assms(1) _ _ assms(3)] assms(2) by metis
  have "fold (\<lambda>(cs, dc, d) db. snd (handleDelivery cs dc d db)) xs db = db" if "set xs \<subseteq> set ds" for xs
    using that by (induction xs) (auto simp: ack)
  then show ?thesis using ack by blast
qed

section \<open>Retries\<close>

lemma length_truncateSafeMessage: "length (truncateSafeMessage msg) \<le> 2000"
  by (simp add: truncateSafeMessage_def Let_def maxInstructionLength_def)

lemma char_count_le: "char_count s \<le> length s"
  by (simp add: char_count_def)

lemma char_count_truncate: "char_count (truncateSafeMessage msg) \<le> 2000"
  using char_count_le length_truncateSafeMessage by (rule le_trans)

text \<open>A queued job is claimed, and a run that ends in an error leaves it running.\<close>

lemma claim_at:
  assumes "jobs_ok db" "job_at db jid = Some j" "gj_status j = JQueued"
  shows "\<exists>db1. claimGenerationJob now jid db = (Inr (claim now j, True), db1) \<and> jobs_ok db1 \<and>
    job_at db1 jid = Some (claim now j) \<and> jb_sent db1 = jb_sent db"
proof -
  obtain db1 where db1: "ClaimGenerationJob now jid db = Inr (claim now j, db1)"
    "job_at db1 jid = Some (claim now j)" "jb_sent db1 = jb_sent db"
    using update_job_at(2) [OF assms(1,2), of "claim now" "\<lambda>j. gj_status j = JQueued"] assms(3)
    by (auto simp: ClaimGenerationJob_def claim_def)
  have "jobs_ok db1" using life_stmts(1) [OF db1(1)] assms(1) by (simp add: life_def)
  with db1 show ?thesis by (simp add: claimGenerationJob_def)
qed

lemma error_run:
  assumes "jobs_ok db" "job_at db jid = Some j" "gj_status j = JQueued"
    "process tw (claim (wc_claimed_at wc) j) = WorkError e" "\<not> wc_timed_out wc" "ClassifyJobError e = (code, msg)"
  shows "\<exists>db1. ProcessJobByID tw wc jid False db =
      (Inr (failed_result (claim (wc_claimed_at wc) j) code msg (IsRetryableErrorCode code)), db1) \<and>
    jobs_ok db1 \<and> job_at db1 jid = Some (claim (wc_claimed_at wc) j) \<and> jb_sent db1 = jb_sent db"
  using claim_at [OF assms(1-3), of "wc_claimed_at wc"] assms(4-6)
  by (auto simp: ProcessJobByID_def processClaimedJob_def sbind_def sret_def)

text \<open>
  A run that fails is retried or ended, never left running. With a retryable code and
  attempts left the job is queued again, with its error, and when the broker confirms the new
  message, which has the next attempt number, the old one is acknowledged; otherwise the old one
  is requeued. Without, the job is failed with the code and the message goes to the dead letters.
\<close>

theorem failed_run_is_retried_or_ended:
  assumes "jobs_ok db" "decodeMessage d = Inr m" "job_at db (qm_job m) = Some j" "gj_status j = JQueued"
    and "process (cs_work cs) (claim (wc_claimed_at (dc_worker dc)) j) = WorkError e"
    and "\<not> wc_timed_out (dc_worker dc)" "ClassifyJobError e = (code, msg)"
    and "storable code" "char_count code \<le> 2000" "storable (truncateSafeMessage msg)"
    and "int32_range (cs_max_attempts cs)"
  shows "\<exists>db' j'. job_at db' (qm_job m) = Some j' \<and> gj_error_code j' = Some code \<and>
    (if IsRetryableErrorCode code \<and> delivery_attempt d < cs_max_attempts cs
     then gj_status j' = JQueued \<and>
       (let retry = retryMessage dc (withRequestIDs (dc_request_id dc) m); sent = (retry, delivery_attempt d + 1)
        in case cs_publish cs retry of
             Confirmed \<Rightarrow> handleDelivery cs dc d db = (Inr Ack, db') \<and> jb_sent db' = jb_sent db @ [sent]
           | Unconfirmed \<Rightarrow> handleDelivery cs dc d db = (Inr Requeue, db') \<and> jb_sent db' = jb_sent db @ [sent]
           | Lost \<Rightarrow> handleDelivery cs dc d db = (Inr Requeue, db') \<and> jb_sent db' = jb_sent db)
     else gj_status j' = JFailed \<and> handleDelivery cs dc d db = (Inr DeadLetter, db') \<and> jb_sent db' = jb_sent db)"
proof -
  let ?now = "wc_done_at (dc_worker dc)" and ?jid = "qm_job m" and ?a = "delivery_attempt d"
  let ?j1 = "claim (wc_claimed_at (dc_worker dc)) j" and ?m = "withRequestIDs (dc_request_id dc) m"
  let ?res = "failed_result ?j1 code msg (IsRetryableErrorCode code)"
  obtain db1 where run: "ProcessJobByID (cs_work cs) (dc_worker dc) ?jid False db = (Inr ?res, db1)"
    and db1: "jobs_ok db1" "job_at db1 ?jid = Some ?j1" "jb_sent db1 = jb_sent db"
    using error_run [OF assms(1,3,4,5,6,7)] by blast
  have eq: "handleDelivery cs dc d db = afterFailure cs dc ?m ?a ?res db1"
    using assms(2) run by (simp add: handleDelivery_def sbind_def stry_def Let_def failed_result_def)
  have texts: "checked_texts [code, truncateSafeMessage msg] r = r" for r :: "job_err + generation_job \<times> job_db"
    using assms(8-10) char_count_truncate by (simp add: checked_texts_def)
  have a: "1 \<le> ?a" by (simp add: delivery_attempt_def Let_def)
  show ?thesis
  proof (cases "IsRetryableErrorCode code \<and> ?a < cs_max_attempts cs")
    case True
    let ?f = "\<lambda>j. j\<lparr>gj_status := JQueued, gj_started_at := None, gj_error_code := Some code,
      gj_error_message := Some (truncateSafeMessage msg), gj_updated_at := ?now\<rparr>"
    obtain db2 where db2: "ResetRunningGenerationJobToQueued ?now ?jid code (truncateSafeMessage msg) db1 = Inr (?f ?j1, db2)"
      "job_at db2 ?jid = Some (?f ?j1)" "jb_sent db2 = jb_sent db1"
      using update_job_at(2) [OF db1(1,2), of ?f "\<lambda>j. gj_status j = JRunning"]
      by (auto simp: ResetRunningGenerationJobToQueued_def texts claim_def)
    have int32: "int32_range (?a + 1)" using True assms(11) a by (simp add: int32_range_def)
    have "afterFailure cs dc ?m ?a ?res db1 = publishRetryOrRequeue cs dc ?m ?a db2"
      using True db2(1) by (simp add: afterFailure_def ResetRunningJobForRetry_def failed_result_def
          sbind_def sstmt_def stry_def sret_def)
    moreover have "job_at (record_sent x y db2) ?jid = job_at db2 ?jid" for x y
      by (simp add: record_sent_def job_at_def)
    ultimately show ?thesis using True db2(2,3) db1(3) int32 a
      by (cases "cs_publish cs (retryMessage dc ?m)")
        (auto simp: eq publishRetryOrRequeue_def PublishRetry_def publishMessage_def sbind_def sdo_def sret_def
          record_sent_def Let_def)
  next
    case False
    let ?f = "mark_failed ?now code (truncateSafeMessage msg)"
    obtain db2 where db2: "FailGenerationJob ?now ?jid code (truncateSafeMessage msg) db1 = Inr (?f ?j1, db2)"
      "job_at db2 ?jid = Some (?f ?j1)" "jb_sent db2 = jb_sent db1"
      using update_job_at(2) [OF db1(1,2), of ?f "\<lambda>_. True"]
      by (auto simp: FailGenerationJob_mark texts mark_failed_def)
    have id: "gj_id ?j1 = ?jid" using job_at_id [OF db1(2)] by simp
    have "afterFailure cs dc ?m ?a ?res db1 = (Inr DeadLetter, db2)"
      using False db2(1) id by (auto simp: afterFailure_def FailClaimedJob_def failJob_def failed_result_def
          sbind_def sstmt_def stry_def sret_def)
    then show ?thesis using False db2(2,3) db1(3)
      by (intro exI [of _ db2] exI [of _ "?f ?j1"]) (auto simp: eq mark_failed_def)
  qed
qed

section \<open>Creating and cancelling\<close>

lemma failDispatch_result: "failDispatch cx jid db = (r, db') \<Longrightarrow> r = Inl ErrJobDispatchFailed"
  by (auto simp: failDispatch_def sbind_def stry_def sfail_def split: prod.splits sum.splits)

lemma dispatch_result:
  assumes "dispatchGenerationJob pub cfg cx job db = (r, db')"
  shows "r = Inr job \<and> jb_jobs db' = jb_jobs db \<and>
      (QueueMode cfg \<and> \<not> jc_fail_open cfg \<longrightarrow> (NewQueueMessageFromContext cx job, 1) \<in> set (jb_sent db')) \<or>
    r = Inl ErrJobDispatchFailed \<and> QueueMode cfg"
proof (cases "QueueMode cfg")
  case True
  show ?thesis
  proof (cases pub)
    case None
    then show ?thesis using assms True by (auto simp: dispatchGenerationJob_def dest: failDispatch_result)
  next
    case (Some publish)
    let ?m = "NewQueueMessageFromContext cx job"
    show ?thesis using assms True Some
      by (cases "publish ?m"; cases "jc_fail_open cfg")
        (auto simp: dispatchGenerationJob_def publishMessage_def sbind_def sdo_def sret_def record_sent_def
          dest!: failDispatch_result)
  qed
next
  case False
  then show ?thesis using assms by (auto simp: dispatchGenerationJob_def sret_def)
qed

lemma app_Inr [op_run]: "app r s = (Inr x, t) \<longleftrightarrow> r = Inr x \<and> t = s"
  by (simp add: app_def op_run)

text \<open>What \<open>validateJobTarget\<close> lets through: the target is in the itinerary.\<close>

definition target_exists :: "trip \<Rightarrow> create_request \<Rightarrow> bool" where
  "target_exists t req \<longleftrightarrow>
     cr_type req \<in> {FullGeneration, PolicyRepair} \<or>
     (\<exists>d n days. (day_job (cr_type req) \<or> item_job (cr_type req)) \<and> cr_day req = Some d \<and> 1 \<le> d \<and>
        day_counts t = Some days \<and> (d, n) \<in> set days \<and>
        (item_job (cr_type req) \<longrightarrow> (\<exists>i. cr_item req = Some i \<and> 0 \<le> i \<and> i < int n)))"

lemma getCurrentItineraryDay_Inr:
  "getCurrentItineraryDay t d = Inr n \<Longrightarrow> \<exists>days. day_counts t = Some days \<and> (d, n) \<in> set days"
  by (auto simp: getCurrentItineraryDay_def find_Some_iff split: option.splits) (metis nth_mem)

lemma day_not_item: "day_job t \<Longrightarrow> \<not> item_job t"
  by (auto simp: day_job_def item_job_def)

lemma validateJobTarget_Inr:
  "validateJobTarget (cr_type req) t (cr_day req) (cr_item req) = Inr u \<Longrightarrow> target_exists t req"
  by (auto simp: validateJobTarget_def target_exists_def requireDayExists_def requireItemExists_def
      opt_at_least_def rbind_Inr_iff not_le split: if_splits option.splits dest!: getCurrentItineraryDay_Inr)
    (blast dest: day_not_item)+

text \<open>
  C24. The create request of the API makes a job only for a caller who may edit the trip, on the
  itinerary revision the caller saw, for a day or item that the itinerary has (\<open>OpsRetry\<close> and
  \<open>CreateTemplateAdaptation\<close> make theirs in other ways); exactly one row is added, queued, in the
  caller's name and with the trimmed instruction, and when the queue is used (and its failures
  are not let pass) the broker has its first message.
\<close>

theorem job_is_created_for_editor_on_current_revision:
  assumes "Create env db pub cfg cx tid req jobs = (Inr job, jobs')"
  shows "\<exists>user t access. jx_user cx = Some user \<and> tripForAccess env db tid (au_id user) = Inr (t, access) \<and>
      CanEdit access \<and> cr_expected req = Some (tr_itinerary_revision t) \<and> target_exists t req \<and>
      gj_trip job = tid \<and> gj_requester job = au_id user \<and> gj_type job = cr_type req \<and>
      gj_expected job = tr_itinerary_revision t \<and>
      normalizeInstruction (cr_instruction req) = Inr (gj_instruction job) \<and> gj_status job = JQueued \<and> jb_jobs jobs' = jb_jobs jobs @ [job] \<and>
      (QueueMode cfg \<and> \<not> jc_fail_open cfg \<longrightarrow> (NewQueueMessageFromContext cx job, 1) \<in> set (jb_sent jobs'))"
proof -
  obtain user t access expected instruction jobs1 j where
    u: "MustUserFromContext (jx_user cx) = Inr user"
    and t: "requireViewerEditorOrOwner env db tid (au_id user) = Inr (t, access)" "CanEdit access"
    and r: "requireExpectedRevision (cr_expected req) = Inr expected" "expected = tr_itinerary_revision t"
    and i: "normalizeInstruction (cr_instruction req) = Inr instruction"
    and v: "validateJobTarget (cr_type req) t (cr_day req) (cr_item req) = Inr ()"
    and c: "CreateGenerationJob (jx_now cx) ((new_job cx tid (au_id user) (cr_type req) expected)
        \<lparr>gj_instruction := instruction, gj_day := cr_day req, gj_item := cr_item req,
         gj_payload := cr_payload req\<rparr>) jobs = Inr (j, jobs1)"
    and d: "dispatchGenerationJob pub cfg cx j jobs1 = (Inr job, jobs')"
    using assms by (auto simp: Create_def op_run split: prod.splits)
  have j: "job = j" "jb_jobs jobs' = jb_jobs jobs1" using dispatch_result [OF d] by auto
  note created = CreateGenerationJob_Inr [OF c]
  have user: "jx_user cx = Some user" using u by (auto simp: MustUserFromContext_def split: option.splits)
  have rev: "cr_expected req = Some (tr_itinerary_revision t)"
    using r by (auto simp: requireExpectedRevision_def split: option.splits if_splits)
  have "gj_status job = JQueued \<and> jb_jobs jobs' = jb_jobs jobs @ [job] \<and>
      (QueueMode cfg \<and> \<not> jc_fail_open cfg \<longrightarrow> (NewQueueMessageFromContext cx job, 1) \<in> set (jb_sent jobs'))"
    using created j dispatch_result [OF d] by auto
  then show ?thesis using user rev t(2) i validateJobTarget_Inr [OF v] created j(1) r(2) t(1)
    unfolding requireViewer_Inr by (intro exI [of _ user] exI [of _ t] exI [of _ access]) (simp add: new_job_def)
qed

text \<open>
  C25. The cancel request of the API cancels a job only while it is queued, for the owner of the trip
  or the one who asked for the job; it is then cancelled for good. Every refusal leaves the jobs as
  they were. (The ops console cancels by \<open>OpsCancel\<close>.)
\<close>

theorem cancel_only_queued_by_owner_or_requester:
  assumes "jobs_ok jobs" "Cancel env db cfg cx tid jid jobs = (r, jobs')"
  shows "case r of
      Inl e \<Rightarrow> jobs' = jobs
    | Inr job \<Rightarrow> (\<exists>user t access old. jx_user cx = Some user \<and>
        tripForAccess env db tid (au_id user) = Inr (t, access) \<and>
        job_at jobs jid = Some old \<and> gj_trip old = tid \<and> gj_status old = JQueued \<and>
        (ta_level access = LevelOwner \<or> gj_requester old = au_id user) \<and>
        job_at jobs' jid = Some job \<and> gj_status job = JCancelled \<and> request_part job = request_part old)"
proof (cases r)
  case (Inl e)
  have "atomic (Cancel env db cfg cx tid jid)"
    unfolding Cancel_def app_def by (intro atomic_intros)
  then show ?thesis using assms(2) Inl by (auto dest: atomicD)
next
  case (Inr job)
  obtain user t access old where u: "MustUserFromContext (jx_user cx) = Inr user"
    and t: "requireViewerEditorOrOwner env db tid (au_id user) = Inr (t, access)"
    and old: "GetGenerationJobByIDAndTrip jid tid jobs = Inr old" "gj_status old = JQueued"
    and who: "ta_level access = LevelOwner \<or> gj_requester old = au_id user"
    and c: "CancelQueuedGenerationJob (jx_now cx) jid jobs = Inr (job, jobs')"
    using assms(2) Inr by (auto simp: Cancel_def op_run split: prod.splits)
  have user: "jx_user cx = Some user" using u by (auto simp: MustUserFromContext_def split: option.splits)
  have mem: "old \<in> set (jb_jobs jobs)" "gj_id old = jid" "gj_trip old = tid"
    using old(1) select_row_Some [of "\<lambda>j. gj_id j = jid \<and> gj_trip j = tid" "jb_jobs jobs" old]
    by (auto simp: GetGenerationJobByIDAndTrip_def split: option.splits)
  have at: "job_at jobs jid = Some old"
    unfolding job_at_def using assms(1) mem by (intro select_row_key [of gj_id]) (simp_all add: jobs_ok_def)
  let ?f = "\<lambda>j. j\<lparr>gj_status := JCancelled, gj_cancelled_at := Some (jx_now cx), gj_updated_at := jx_now cx\<rparr>"
  have "job = ?f old \<and> job_at jobs' jid = Some (?f old)"
    using update_job_at(2) [OF assms(1) at, of ?f "\<lambda>j. gj_status j = JQueued"] old(2) c
    by (auto simp: CancelQueuedGenerationJob_def)
  then show ?thesis using user t at mem(3) old(2) who Inr unfolding requireViewer_Inr
    by (auto simp: request_part_def)
qed

section \<open>Where the code does not do what it means to\<close>

text \<open>
  C26. A job whose worker dies is not recovered by the queue: when the worker service starts again
  before the job has run for its maximal time, its sweep leaves the job running, and the message
  that the broker delivers again is acknowledged as a duplicate. No message is left, and nothing
  sweeps again until the next start.
\<close>

theorem interrupted_job_stays_running:
  assumes "jobs_ok db" "ClaimGenerationJob now jid db = Inr (j, db1)"
    and "now' - jc_max_running cfg \<le> now" "decodeMessage d = Inr m" "qm_job m = jid"
  shows "let db2 = startupSweep cfg now' db1
    in job_at db2 jid = Some j \<and> gj_status j = JRunning \<and> handleDelivery cs dc d db2 = (Inr Ack, db2)"
proof -
  have ok1: "jobs_ok db1" using life_stmts(1) [OF assms(2)] assms(1) by (simp add: life_def)
  obtain old where old: "gj_id old = jid" "j = claim now old" "j \<in> set (jb_jobs db1)"
    using ClaimGenerationJob_Inr [OF assms(2)] by blast
  have at1: "job_at db1 jid = Some j"
    unfolding job_at_def using ok1 old by (intro select_row_key [of gj_id]) (simp_all add: jobs_ok_def claim_def)
  let ?db2 = "startupSweep cfg now' db1"
  have st: "gj_status j = JRunning" "\<not> stale_running (now' - jc_max_running cfg) j"
    using old(2) assms(3) by (simp_all add: claim_def stale_running_def)
  have ok2: "jobs_ok ?db2" using life_sweep(2) [of db1 cfg now'] ok1 by (simp add: life_def)
  have "j \<in> set (jb_jobs ?db2)"
    using old(3) st(2) by (simp add: startupSweep_def MarkStaleRunningGenerationJobsFailed_def set_update_where)
  then have "job_at ?db2 jid = Some j"
    unfolding job_at_def using ok2 old by (intro select_row_key [of gj_id]) (simp_all add: jobs_ok_def claim_def)
  then show ?thesis using duplicate_ack [OF ok2 assms(4), of j] assms(5) st(1) by (simp add: Let_def)
qed

text \<open>
  A worker that is only slow overwrites what the ops console decided: after a stale running
  job was marked failed, the late result makes it completed, with the error still on the row.
\<close>

theorem late_result_overwrites_failure:
  assumes "jobs_ok db" "MarkOpsGenerationJobFailed now jid before code msg db = Inr (f, db1)" "int32_range v"
  shows "\<exists>c db2. CompleteGenerationJob now' jid v db1 = Inr (c, db2) \<and> job_at db2 jid = Some c \<and>
    gj_status f = JFailed \<and> gj_status c = JCompleted \<and> gj_error_code c = Some code"
proof -
  have ok1: "jobs_ok db1" using life_stmts(8) [OF assms(2)] assms(1) by (simp add: life_def)
  obtain old where sel: "select_row (\<lambda>j. gj_id j = jid \<and> stale_running before j) (jb_jobs db) = Some old"
    and f: "f = mark_failed now code msg old"
    and db1: "db1 = db\<lparr>jb_jobs := update_where (\<lambda>j. gj_id j = jid \<and> stale_running before j) (mark_failed now code msg) (jb_jobs db)\<rparr>"
    using assms(2) by (auto simp: MarkOpsGenerationJobFailed_def checked_texts_Inr update_job_Inr)
  have old: "old \<in> set (jb_jobs db)" "gj_id old = jid" "stale_running before old"
    using select_row_Some [OF sel] by auto
  have "f \<in> set (jb_jobs db1)" "gj_id f = jid"
    using old by (auto simp: db1 f set_update_where mark_failed_def)
  then have at1: "job_at db1 jid = Some f"
    unfolding job_at_def using ok1 by (intro select_row_key [of gj_id]) (simp_all add: jobs_ok_def)
  let ?g = "\<lambda>j. j\<lparr>gj_status := JCompleted, gj_result_revision := Some v, gj_completed_at := Some now',
              gj_updated_at := now'\<rparr>"
  obtain db2 where "CompleteGenerationJob now' jid v db1 = Inr (?g f, db2)" "job_at db2 jid = Some (?g f)"
    using update_job_at(2) [OF ok1 at1, of ?g "\<lambda>_. True"] assms(3) by (auto simp: CompleteGenerationJob_def)
  then show ?thesis using f by (intro exI [of _ "?g f"] exI [of _ db2]) (simp add: mark_failed_def)
qed

lemma in_bytes_plain: "in_bytes 0x21 0x7E a \<Longrightarrow> in_bytes 0 0x7F a \<and> plain_byte a"
  by (simp add: in_bytes_def plain_byte_def)

text \<open>
  The reason of an ops action is cut after 500 bytes, also inside a character: a reason of 499
  letters, an accented letter and more is valid text, but its cut is not, and the database refuses
  the action.
\<close>

theorem long_reason_breaks_ops_cancel:
  assumes "in_bytes 0x21 0x7E a" "raw = replicate 499 a @ [CHR 0xC3, CHR 0xA9] @ [a]"
    and "jx_user cx = Some actor" "job_at db jid = Some j" "gj_status j = JQueued"
  shows "storable raw \<and>
    OpsCancel cx jid raw db = (Inl (AppErr (DatabaseErr ''update generation job'')), db)"
proof -
  have a: "in_bytes 0 0x7F a" "plain_byte a" using in_bytes_plain [OF assms(1)] by blast+
  have "valid_utf8 ([CHR 0xC3, CHR 0xA9] @ [a])" "\<not> valid_utf8 [CHR 0xC3]"
    using a(1) by (simp_all add: valid_utf8.simps rune_len_def in_bytes_def cont_byte_def)
  then have v: "valid_utf8 raw" "\<not> valid_utf8 (replicate 499 a @ [CHR 0xC3])"
    unfolding assms(2) valid_utf8_ascii_run [OF a(1)] by simp_all
  have "CHR 0x00 \<noteq> a" using assms(1) by (auto simp: in_bytes_def)
  then have s: "storable raw" using v(1) by (auto simp: storable_def assms(2))
  have "trim_space raw = raw"
    using a(2) by (intro trim_space_plain) (simp_all add: assms(2) hd_append)
  then have "normalizeOpsReason raw = Inr (take 500 raw)"
    by (simp add: normalizeOpsReason_def opsReasonMaxLen_def Let_def assms(2))
  moreover have "take 500 raw = replicate 499 a @ [CHR 0xC3]" by (simp add: assms(2))
  moreover have "checked_texts [code, replicate 499 a @ [CHR 0xC3]] r =
      Inl (AppErr (DatabaseErr ''update generation job''))" for code and r :: "job_err + generation_job \<times> job_db"
    using v(2) by (simp add: checked_texts_def storable_def)
  ultimately show ?thesis using s assms(3,5) job_at_get [OF assms(4)]
    by (simp add: OpsCancel_def app_def spure_def sread_def scheck_def sbind_def sstmt_def
        MustUserFromContext_def CancelOpsGenerationJob_def map_err_def)
qed

end
