(* ===== verification/JobQueue.thy ===== *)
theory JobQueue
  imports JobOutcomes
begin

text \<open>
  The jobs together with the queue: the messages under way are the published ones that were not
  yet acknowledged or dead-lettered; the broker delivers any of them next, and again when it was
  requeued. A publication reaches the queue when the broker confirmed it, and also when only the
  confirmation was lost.
\<close>

section \<open>The system\<close>

definition delivery_of :: "queue_message \<times> int \<Rightarrow> delivery" where
  "delivery_of p =
    \<lparr>dl_content_type = ''application/json'', dl_body = Some (fst p),
     dl_headers = [(''x-attempts'', HInt (snd p)), (''x-request-id'', HText (qm_request (fst p))),
       (''x-correlation-id'', HText (qm_correlation (fst p)))]\<rparr>"

record queue_state =
  qs_db :: job_db
  qs_flight :: "delivery list"

datatype queue_event =
    EvRequest job_request
  | EvDeliver consumer delivery_call nat

definition newly_sent :: "job_db \<Rightarrow> job_db \<Rightarrow> delivery list" where
  "newly_sent db db' = map delivery_of (drop (length (jb_sent db)) (jb_sent db'))"

definition deliver_at :: "consumer \<Rightarrow> delivery_call \<Rightarrow> nat \<Rightarrow> queue_state \<Rightarrow> queue_state" where
  "deliver_at cs dc i s =
    (if i < length (qs_flight s) then
       (case handleDelivery cs dc (qs_flight s ! i) (qs_db s) of
          (disp, db') \<Rightarrow>
            \<lparr>qs_db = db',
             qs_flight = (if disp = Inr Requeue then qs_flight s
                else take i (qs_flight s) @ drop (Suc i) (qs_flight s)) @ newly_sent (qs_db s) db'\<rparr>)
     else s)"

fun queue_step :: "queue_event \<Rightarrow> queue_state \<Rightarrow> queue_state" where
  "queue_step (EvRequest r) s =
     \<lparr>qs_db = job_serve r (qs_db s), qs_flight = qs_flight s @ newly_sent (qs_db s) (job_serve r (qs_db s))\<rparr>"
| "queue_step (EvDeliver cs dc i) s = deliver_at cs dc i s"

text \<open>A delivery that is a message for a job; a job that no message is under way for.\<close>

definition carries :: "delivery \<Rightarrow> uuid \<Rightarrow> bool" where
  "carries d jid = (case decodeMessage d of Inl _ \<Rightarrow> False | Inr m \<Rightarrow> qm_job m = jid)"

definition no_orphans :: "queue_state \<Rightarrow> bool" where
  "no_orphans s \<longleftrightarrow>
     (\<forall>j \<in> set (jb_jobs (qs_db s)). gj_status j = JQueued \<longrightarrow> (\<exists>d \<in> set (qs_flight s). carries d (gj_id j)))"

lemma carries_delivery_of:
  "ValidateQueueMessage m = Inr () \<Longrightarrow> carries (delivery_of (m, a)) (qm_job m)"
  by (auto simp: carries_def delivery_of_def decodeMessage_def ValidateQueueMessage_def readStringHeader_def
      Let_def split: if_splits)

section \<open>Which rows are queued\<close>

definition queued :: "job_db \<Rightarrow> uuid set" where
  "queued db = {gj_id j |j. j \<in> set (jb_jobs db) \<and> gj_status j = JQueued}"

lemma queued_iff: "x \<in> queued db \<longleftrightarrow> (\<exists>j \<in> set (jb_jobs db). gj_id j = x \<and> gj_status j = JQueued)"
  by (auto simp: queued_def)

definition carried :: "(queue_message \<times> int) list \<Rightarrow> uuid set" where
  "carried new = qm_job ` {m. ValidateQueueMessage m = Inr () \<and> m \<in> fst ` set new}"

lemma carried_append [simp]: "carried (a @ b) = carried a \<union> carried b" "carried [] = {}"
  by (auto simp: carried_def)

text \<open>
  The messages that are new in \<open>db'\<close> cover the jobs that are newly queued in it, and every row
  is of a trip, if it was so before.
\<close>

definition trips_ok :: "job_db \<Rightarrow> bool" where
  "trips_ok db \<longleftrightarrow> (\<forall>j \<in> set (jb_jobs db). gj_trip j \<noteq> 0)"

definition covered :: "job_db \<Rightarrow> job_db \<Rightarrow> bool" where
  "covered db db' \<longleftrightarrow>
     (trips_ok db \<longrightarrow> trips_ok db' \<and>
        (\<exists>new. jb_sent db' = jb_sent db @ new \<and> queued db' \<subseteq> queued db \<union> carried new))"

lemma coveredI:
  "trips_ok db' \<Longrightarrow> jb_sent db' = jb_sent db @ new \<Longrightarrow> queued db' \<subseteq> queued db \<union> carried new \<Longrightarrow> covered db db'"
  by (auto simp: covered_def)

lemma covered_ok: "rel_ok covered"
proof (rule rel_okI)
  show "covered s s" for s by (simp add: covered_def)
  show "covered s u" if st: "covered s t" "covered t u" for s t u
    unfolding covered_def
  proof
    assume ok: "trips_ok s"
    then obtain n1 where n1: "jb_sent t = jb_sent s @ n1" "queued t \<subseteq> queued s \<union> carried n1" "trips_ok t"
      using st(1) unfolding covered_def by blast
    obtain n2 where n2: "jb_sent u = jb_sent t @ n2" "queued u \<subseteq> queued t \<union> carried n2" "trips_ok u"
      using st(2) n1(3) unfolding covered_def by blast
    have "jb_sent u = jb_sent s @ (n1 @ n2)" "queued u \<subseteq> queued s \<union> carried (n1 @ n2)"
      using n1 n2 by auto
    then show "trips_ok u \<and> (\<exists>new. jb_sent u = jb_sent s @ new \<and> queued u \<subseteq> queued s \<union> carried new)"
      using n2(3) by blast
  qed
qed

lemma queued_update_where:
  assumes "\<And>j. P j \<Longrightarrow> gj_status (f j) = JQueued \<Longrightarrow> gj_status j = JQueued" "\<And>j. gj_id (f j) = gj_id j"
  shows "queued (db\<lparr>jb_jobs := update_where P f (jb_jobs db)\<rparr>) \<subseteq> queued db"
proof
  fix x assume "x \<in> queued (db\<lparr>jb_jobs := update_where P f (jb_jobs db)\<rparr>)"
  then obtain j where j: "j \<in> set (update_where P f (jb_jobs db))" "gj_status j = JQueued" "x = gj_id j"
    by (auto simp: queued_def)
  from j(1) consider "j \<in> set (jb_jobs db)" | j0 where "j0 \<in> set (jb_jobs db)" "P j0" "j = f j0"
    by (auto simp: set_update_where)
  then show "x \<in> queued db"
    using j(2,3) assms by cases (auto simp: queued_def)
qed

lemma not_queued_update_where:
  assumes "\<And>j. P j \<Longrightarrow> gj_status (f j) \<noteq> JQueued" "\<And>j. gj_id (f j) = gj_id j"
    "\<And>j. gj_id j = jid \<Longrightarrow> gj_status j = JQueued \<Longrightarrow> P j"
  shows "jid \<notin> queued (db\<lparr>jb_jobs := update_where P f (jb_jobs db)\<rparr>)"
proof
  assume "jid \<in> queued (db\<lparr>jb_jobs := update_where P f (jb_jobs db)\<rparr>)"
  then obtain j where j: "j \<in> set (update_where P f (jb_jobs db))" "gj_id j = jid" "gj_status j = JQueued"
    unfolding queued_iff by auto
  from j(1) consider "\<not> P j" | j0 where "P j0" "j = f j0" by (auto simp: set_update_where)
  then show False
  proof cases
    case 1
    then show False using assms(3) [OF j(2,3)] by contradiction
  next
    case 2
    then show False using assms(1) j(3) by blast
  qed
qed

lemma trips_update_where:
  "trips_ok db \<Longrightarrow> (\<And>j. gj_trip (f j) = gj_trip j) \<Longrightarrow>
     trips_ok (db\<lparr>jb_jobs := update_where P f (jb_jobs db)\<rparr>)"
  by (auto simp: trips_ok_def set_update_where)

text \<open>A change that queues no job and sends no message.\<close>

definition calm :: "job_db \<Rightarrow> job_db \<Rightarrow> bool" where
  "calm db db' \<longleftrightarrow>
     jb_sent db' = jb_sent db \<and> queued db' \<subseteq> queued db \<and> (trips_ok db \<longrightarrow> trips_ok db')"

lemma calm_ok: "rel_ok calm"
  by (rule rel_okI) (auto simp: calm_def)

lemma calm_covered: "calm db db' \<Longrightarrow> covered db db'"
  by (auto simp: calm_def covered_def)

lemma calm_op: "step_rel calm m \<Longrightarrow> step_rel covered m"
  by (auto simp: step_rel_def intro: calm_covered)

lemma calm_update_where:
  assumes "\<And>j. P j \<Longrightarrow> gj_status (f j) = JQueued \<Longrightarrow> gj_status j = JQueued"
    "\<And>j. gj_id (f j) = gj_id j" "\<And>j. gj_trip (f j) = gj_trip j"
  shows "calm db (db\<lparr>jb_jobs := update_where P f (jb_jobs db)\<rparr>)"
  using queued_update_where [OF assms(1,2), of P db] trips_update_where [OF _ assms(3), of db P]
  by (auto simp: calm_def)

lemma calm_update_job:
  assumes "update_job jid P f db = Inr (j, db')" "\<And>j. gj_id (f j) = gj_id j" "\<And>j. gj_trip (f j) = gj_trip j"
    "\<And>j. P j \<Longrightarrow> gj_status (f j) = JQueued \<Longrightarrow> gj_status j = JQueued"
  shows "calm db db'"
  using assms(1) calm_update_where [of "\<lambda>j. gj_id j = jid \<and> P j" f db] assms(2-)
  by (auto simp: update_job_Inr)

lemma calm_stmts:
  "ClaimGenerationJob now jid db = Inr (j, db') \<Longrightarrow> calm db db'"
  "ClaimNextGenerationJob now skip db = Inr (j, db') \<Longrightarrow> calm db db'"
  "CompleteGenerationJob now jid v db = Inr (j, db') \<Longrightarrow> calm db db'"
  "FailGenerationJob now jid code msg db = Inr (j, db') \<Longrightarrow> calm db db'"
  "CancelQueuedGenerationJob now jid db = Inr (j, db') \<Longrightarrow> calm db db'"
  "CancelOpsGenerationJob now jid code msg db = Inr (j, db') \<Longrightarrow> calm db db'"
  "MarkOpsGenerationJobFailed now jid before code msg db = Inr (j, db') \<Longrightarrow> calm db db'"
  by (auto simp: ClaimGenerationJob_def ClaimNextGenerationJob_def CompleteGenerationJob_def FailGenerationJob_mark
      CancelQueuedGenerationJob_def CancelOpsGenerationJob_def MarkOpsGenerationJobFailed_def checked_texts_Inr
      claim_def mark_failed_def split: if_splits list.splits elim!: calm_update_job)

lemma calm_ops:
  "step_rel calm (sstmt (FailGenerationJob now jid code msg))"
  "step_rel calm (sstmt (ClaimNextGenerationJob now skip))"
  "step_rel calm (sstmt (CompleteGenerationJob now jid v))"
  "step_rel calm (sstmt (CancelQueuedGenerationJob now jid))"
  "step_rel calm (sstmt (CancelOpsGenerationJob now jid code msg))"
  "step_rel calm (sstmt (MarkOpsGenerationJobFailed now jid before code msg))"
  "step_rel calm (sdo (SetGenerationJobResultPayload now jid payload))"
proof -
  show "step_rel calm (sdo (SetGenerationJobResultPayload now jid payload))"
    using calm_ok by (intro step_rel_sdo)
      (auto simp: SetGenerationJobResultPayload_def rel_ok_def reflpD intro: calm_update_where)
qed (rule step_rel_sstmt [OF calm_ok]; erule calm_stmts)+

lemmas covered_ops = calm_ops [THEN calm_op]

lemma covered_same_jobs:
  "jb_jobs db' = jb_jobs db \<Longrightarrow> jb_sent db' = jb_sent db @ new \<Longrightarrow> covered db db'"
  by (auto simp: covered_def queued_def trips_ok_def)

lemma covered_quiet:
  "step_rel covered (sdo (record_sent m attempt))"
  "step_rel covered (sstmt (CreateOpsAuditEvent a))"
proof -
  show "step_rel covered (sdo (record_sent m attempt))"
    by (rule step_rel_sdo) (rule covered_same_jobs, simp_all add: record_sent_def)
  show "step_rel covered (sstmt (CreateOpsAuditEvent a))"
    by (rule step_rel_sstmt [OF covered_ok])
      (auto simp: CreateOpsAuditEvent_def intro: covered_same_jobs split: if_splits)
qed

section \<open>Requests\<close>

text \<open>A new job is covered by its first message, or failed when it cannot be dispatched.\<close>

lemma dispatch_texts: "checked_texts [''job_dispatch_failed'', dispatch_message] r = r"
proof -
  have "list_all (\<lambda>s. storable s \<and> char_count s \<le> 2000) [''job_dispatch_failed'', dispatch_message]"
    by code_simp
  then show ?thesis by (simp add: checked_texts_def)
qed

lemma fail_at:
  assumes "\<And>r :: job_err + generation_job \<times> job_db. checked_texts [code, msg] r = r"
    "job \<in> set (jb_jobs db)"
  shows "\<exists>j. FailGenerationJob now (gj_id job) code msg db =
    Inr (j, db\<lparr>jb_jobs := update_where (\<lambda>j. gj_id j = gj_id job) (mark_failed now code msg) (jb_jobs db)\<rparr>)"
proof -
  have "select_row (\<lambda>j. gj_id j = gj_id job) (jb_jobs db) \<noteq> None"
    using assms(2) by (auto simp: select_row_None_iff)
  then show ?thesis
    by (auto simp: FailGenerationJob_mark assms(1) update_job_def update_returning_def select_row_def)
qed

lemma failDispatch_queued:
  assumes "job \<in> set (jb_jobs db)" "failDispatch cx (gj_id job) db = (r, db')"
  shows "jb_sent db' = jb_sent db \<and> queued db' \<subseteq> queued db - {gj_id job} \<and> (trips_ok db \<longrightarrow> trips_ok db')"
proof -
  let ?f = "mark_failed (jx_now cx) ''job_dispatch_failed'' dispatch_message" and ?P = "\<lambda>j. gj_id j = gj_id job"
  let ?db' = "db\<lparr>jb_jobs := update_where ?P ?f (jb_jobs db)\<rparr>"
  obtain j where "FailGenerationJob (jx_now cx) (gj_id job) ''job_dispatch_failed'' dispatch_message db = Inr (j, ?db')"
    using fail_at [OF dispatch_texts assms(1)] by blast
  then have db': "db' = ?db'"
    using assms(2) unfolding failDispatch_def sbind_def stry_def sstmt_def sfail_def by simp
  have "queued ?db' \<subseteq> queued db" by (rule queued_update_where) (simp_all add: mark_failed_def)
  moreover have "gj_id job \<notin> queued ?db'"
    by (rule not_queued_update_where) (simp_all add: mark_failed_def)
  moreover have "trips_ok db \<longrightarrow> trips_ok ?db'" by (auto intro: trips_update_where simp: mark_failed_def)
  ultimately show ?thesis unfolding db' by auto
qed

lemma dispatch_is_ops_dispatch:
  "dispatchGenerationJob pub cfg cx job = sbind (dispatchOpsJob pub cfg cx job) (\<lambda>_. sret job)"
  by (rule ext) (auto simp: dispatchGenerationJob_def dispatchOpsJob_def failDispatch_def sbind_def sret_def
      sfail_def split: option.split sum.split prod.split)

lemma dispatch_queued:
  assumes "dispatchOpsJob pub cfg cx job db = (r, db')" "job \<in> set (jb_jobs db)"
    "QueueMode cfg" "\<not> jc_fail_open cfg"
    "ValidateQueueMessage (NewQueueMessageFromContext cx job) = Inr ()"
  shows "\<exists>new. jb_sent db' = jb_sent db @ new \<and> queued db' \<subseteq> (queued db - {gj_id job}) \<union> carried new \<and>
    (trips_ok db \<longrightarrow> trips_ok db')"
proof (cases pub)
  case None
  then have "failDispatch cx (gj_id job) db = (r, db')" using assms(1,3) by (simp add: dispatchOpsJob_def)
  from failDispatch_queued [OF assms(2) this] show ?thesis by (intro exI [of _ "[]"]) simp
next
  case (Some publish)
  let ?m = "NewQueueMessageFromContext cx job" and ?db1 = "record_sent (NewQueueMessageFromContext cx job) 1 db"
  have c: "gj_id job \<in> carried [(?m, 1)]"
    using assms(5) by (auto simp: carried_def NewQueueMessageFromContext_def Let_def)
  have q: "queued ?db1 = queued db" "jb_sent ?db1 = jb_sent db @ [(?m, 1)]" "job \<in> set (jb_jobs ?db1)"
    "trips_ok ?db1 = trips_ok db"
    using assms(2) by (simp_all add: queued_def record_sent_def trips_ok_def)
  show ?thesis
  proof (cases "publish ?m")
    case Confirmed
    then have "db' = ?db1" using assms(1,3) Some
      by (simp add: dispatchOpsJob_def publishMessage_def sbind_def sdo_def sret_def)
    then show ?thesis using q c by (intro exI [of _ "[(?m, 1)]"]) auto
  next
    case Lost
    then have "failDispatch cx (gj_id job) db = (r, db')" using assms(1,3,4) Some
      by (simp add: dispatchOpsJob_def publishMessage_def sbind_def sret_def)
    from failDispatch_queued [OF assms(2) this] show ?thesis by (intro exI [of _ "[]"]) simp
  next
    case Unconfirmed
    then have "failDispatch cx (gj_id job) ?db1 = (r, db')" using assms(1,3,4) Some
      by (simp add: dispatchOpsJob_def publishMessage_def sbind_def sdo_def sret_def)
    from failDispatch_queued [OF q(3) this] q show ?thesis by (intro exI [of _ "[(?m, 1)]"]) auto
  qed
qed

text \<open>The ids a request draws are never the nil id.\<close>

definition call_ok :: "job_call \<Rightarrow> bool" where
  "call_ok cx \<longleftrightarrow> jx_job cx \<noteq> 0 \<and> jx_message cx \<noteq> 0"

lemma create_dispatch_covered:
  assumes "QueueMode cfg" "\<not> jc_fail_open cfg" "gj_id job \<noteq> 0" "gj_trip job \<noteq> 0" "jx_message cx \<noteq> 0"
    and g: "\<And>j x. step_rel covered (g j x)"
  shows "step_rel covered (sbind (sstmt (CreateGenerationJob now job)) (\<lambda>j. sbind (dispatchOpsJob pub cfg cx j) (g j)))"
  unfolding step_rel_def
proof
  fix db
  show "covered db (snd (sbind (sstmt (CreateGenerationJob now job)) (\<lambda>j. sbind (dispatchOpsJob pub cfg cx j) (g j)) db))"
  proof (cases "CreateGenerationJob now job db")
    case (Inl e)
    then show ?thesis using covered_ok by (simp add: sbind_def sstmt_def rel_ok_def reflpD)
  next
    case (Inr x)
    then obtain j db1 where c: "CreateGenerationJob now job db = Inr (j, db1)" by (cases x) auto
    note new = CreateGenerationJob_Inr [OF c]
    have jobs1: "jb_jobs db1 = jb_jobs db @ [j]" "jb_sent db1 = jb_sent db" "gj_trip j \<noteq> 0"
      using new assms(4) by (auto simp: request_part_def)
    have "ValidateQueueMessage (NewQueueMessageFromContext cx j) = Inr ()"
      using assms(3-5) new by (auto simp: ValidateQueueMessage_def NewQueueMessageFromContext_def Let_def
          request_part_def job_checks_def)
    moreover obtain r db2 where d: "dispatchOpsJob pub cfg cx j db1 = (r, db2)" by fastforce
    ultimately obtain n where n: "jb_sent db2 = jb_sent db1 @ n"
      "queued db2 \<subseteq> (queued db1 - {gj_id j}) \<union> carried n" "trips_ok db1 \<longrightarrow> trips_ok db2"
      using dispatch_queued [OF d _ assms(1,2)] jobs1 by auto
    have "covered db db2"
    proof -
      have "trips_ok db \<longrightarrow> trips_ok db2" using n(3) jobs1 by (auto simp: trips_ok_def)
      moreover have "queued db1 \<subseteq> queued db \<union> {gj_id j}" using jobs1(1) by (auto simp: queued_def)
      then have "queued db2 \<subseteq> queued db \<union> carried n" using n(2) by blast
      ultimately show ?thesis using n(1) jobs1(2) by (auto simp: covered_def)
    qed
    moreover have "snd (sbind (sstmt (CreateGenerationJob now job)) (\<lambda>j. sbind (dispatchOpsJob pub cfg cx j) (g j)) db) =
        (case r of Inl e \<Rightarrow> db2 | Inr u \<Rightarrow> snd (g j u db2))"
      using c d by (simp add: sbind_def sstmt_def split: sum.split)
    moreover have "covered db2 (snd (g j u db2))" for u using g by (simp add: step_rel_def)
    ultimately show ?thesis using covered_ok by (auto simp: rel_ok_def split: sum.split dest: transpD)
  qed
qed


lemma covered_after_read:
  assumes "\<And>old. gj_trip old \<noteq> 0 \<Longrightarrow> step_rel covered (g old)"
  shows "step_rel covered (sbind (sread (GetGenerationJobByID jid)) g)"
  unfolding step_rel_def
proof
  fix db
  show "covered db (snd (sbind (sread (GetGenerationJobByID jid)) g db))"
  proof (cases "select_row (\<lambda>j. gj_id j = jid) (jb_jobs db)")
    case None
    then show ?thesis using covered_ok
      by (simp add: sbind_def sread_def GetGenerationJobByID_def rel_ok_def reflpD)
  next
    case (Some old)
    then have eq: "sbind (sread (GetGenerationJobByID jid)) g db = g old db"
      by (simp add: sbind_def sread_def GetGenerationJobByID_def)
    have "old \<in> set (jb_jobs db)" using select_row_Some [OF Some] by simp
    then have "gj_trip old \<noteq> 0 \<or> \<not> trips_ok db" by (auto simp: trips_ok_def)
    then show ?thesis using assms [of old] unfolding eq by (auto simp: step_rel_def covered_def)
  qed
qed

text \<open>Requests that use the queue, fail when it fails, and draw no nil ids.\<close>

definition site_ok :: "job_site \<Rightarrow> bool" where
  "site_ok st \<longleftrightarrow> QueueMode (je_cfg st) \<and> \<not> jc_fail_open (je_cfg st)"

fun request_ok :: "job_request \<Rightarrow> bool" where
  "request_ok (RqCreate st cx tid req) \<longleftrightarrow> site_ok st \<and> call_ok cx \<and> tid \<noteq> 0"
| "request_ok (RqAdapt st cx prepared) \<longleftrightarrow> site_ok st \<and> call_ok cx \<and>
     (case prepared of Inl _ \<Rightarrow> True | Inr (t, payload) \<Rightarrow> tr_id t \<noteq> 0)"
| "request_ok (RqOpsRetry st cx jid reason) \<longleftrightarrow> site_ok st \<and> call_ok cx"
| "request_ok (RqDeliver cs dc d) \<longleftrightarrow> False"
| "request_ok _ \<longleftrightarrow> True"

lemmas covered_rules = covered_ops covered_quiet covered_ok

lemma calm_processClaimed: "step_rel calm (processClaimedJob tw wc job foe)"
  unfolding processClaimedJob_def failJob_def
  by (cases "process tw job"; simp only: work_result.case Let_def; intro step_intros calm_ops calm_ok)

lemma covered_sweeps:
  "covered db (failStaleRunningJobs cfg now db)" "covered db (startupSweep cfg now db)"
  unfolding failStaleRunningJobs_def startupSweep_def MarkStaleRunningGenerationJobsFailed_def snd_conv
  by (rule calm_covered, rule calm_update_where; simp add: mark_failed_def)+

lemma app_Inl: "sbind (spure (map_err f (Inl e))) g = sfail (f e)"
  by (rule ext) (simp add: sbind_def spure_def sfail_def map_err_def)

lemma app_Inr_bind: "sbind (spure (map_err f (Inr x))) g = g x"
  by (rule ext) (simp add: sbind_def spure_def map_err_def)

lemma request_covered: "request_ok r \<Longrightarrow> covered db (job_serve r db)"
proof -
  assume ok: "request_ok r"
  have at: "step_rel covered m \<Longrightarrow> covered db (snd (m db))" for m :: "'x job_handler"
    by (simp add: step_rel_def)
  have new: "gj_id (new_job cx t u jt e) = jx_job cx" "gj_trip (new_job cx t u jt e) = t" for cx t u jt e
    by (simp_all add: new_job_def)
  show ?thesis
  proof (cases r)
    case (RqCreate st cx tid req)
    then show ?thesis using ok unfolding RqCreate job_serve.simps
      by (intro at) (unfold Create_def app_def dispatch_is_ops_dispatch, intro step_intros covered_ok create_dispatch_covered;
        simp add: new site_ok_def call_ok_def)
  next
    case (RqAdapt st cx prepared)
    show ?thesis
    proof (cases prepared)
      case (Inl e)
      show ?thesis unfolding RqAdapt job_serve.simps Inl
        by (intro at) (unfold CreateTemplateAdaptation_def app_def app_Inl, intro step_intros covered_ok)
    next
      case (Inr p)
      obtain t payload where p: "p = (t, payload)" by (cases p)
      show ?thesis using ok unfolding RqAdapt job_serve.simps Inr p
        by (intro at) (unfold CreateTemplateAdaptation_def app_def app_Inr_bind prod.case dispatch_is_ops_dispatch,
          intro step_intros covered_ok create_dispatch_covered; simp add: new site_ok_def call_ok_def Inr p)
    qed
  next
    case (RqOpsRetry st cx jid reason)
    show ?thesis using ok unfolding RqOpsRetry job_serve.simps
      by (intro at) (unfold OpsRetry_def app_def auditEvent_def, intro step_intros covered_ok covered_after_read create_dispatch_covered covered_quiet;
        simp add: new site_ok_def call_ok_def)
  next
    case (RqCancel st cx tid jid)
    show ?thesis unfolding RqCancel job_serve.simps
      by (intro at) (unfold Cancel_def app_def, intro step_intros covered_rules)
  next
    case (RqOpsCancel cx jid reason)
    show ?thesis unfolding RqOpsCancel job_serve.simps
      by (intro at) (unfold OpsCancel_def app_def auditEvent_def, intro step_intros covered_rules)
  next
    case (RqOpsFail cx jid reason threshold)
    show ?thesis unfolding RqOpsFail job_serve.simps
      by (intro at) (unfold OpsMarkFailed_def app_def auditEvent_def, intro step_intros covered_rules)
  next
    case (RqPoll tw wc skip)
    show ?thesis unfolding RqPoll job_serve.simps
      by (intro at) (unfold processNext_def, intro step_intros covered_rules calm_op [OF calm_processClaimed])
  next
    case (RqDeliver cs dc d)
    then show ?thesis using ok by simp
  qed (simp_all add: covered_sweeps)
qed

section \<open>Deliveries\<close>

text \<open>After a claim no row of that id is queued; a claim that fails found none.\<close>

lemma claim_queued:
  assumes "claimGenerationJob now jid db = (r, db1)"
  shows "jid \<notin> queued db1 \<and> calm db db1"
proof (cases "ClaimGenerationJob now jid db")
  case (Inl e)
  then have "\<forall>j \<in> set (jb_jobs db). \<not> (gj_id j = jid \<and> gj_status j = JQueued)"
    by (auto simp: ClaimGenerationJob_def update_job_def update_returning_None_iff split: option.splits)
  moreover have "db1 = db" using assms Inl
    by (auto simp: claimGenerationJob_def split: sum.splits if_splits)
  ultimately show ?thesis by (auto simp: queued_def calm_def)
next
  case (Inr x)
  then obtain j where c: "ClaimGenerationJob now jid db = Inr (j, db1)"
    using assms by (cases x) (simp add: claimGenerationJob_def)
  then have db1: "db1 = db\<lparr>jb_jobs := update_where (\<lambda>j. gj_id j = jid \<and> gj_status j = JQueued) (claim now) (jb_jobs db)\<rparr>"
    by (auto simp: ClaimGenerationJob_def update_job_Inr)
  have "jid \<notin> queued db1"
    unfolding db1 by (rule not_queued_update_where) (simp_all add: claim_def)
  then show ?thesis using calm_stmts(1) [OF c] by simp
qed

text \<open>What a delivery may do: \<open>jid\<close> is its job, \<open>disp\<close> the answer to the broker.\<close>

definition delivered :: "uuid \<Rightarrow> job_db \<Rightarrow> job_err + disposition \<Rightarrow> job_db \<Rightarrow> bool" where
  "delivered jid db disp db' \<longleftrightarrow>
     (\<exists>new. jb_sent db' = jb_sent db @ new \<and>
        queued db' \<subseteq> (queued db - {jid}) \<union> carried new \<union> (if disp = Inr Requeue then {jid} else {}))"

lemma publish_delivered:
  assumes "publishRetryOrRequeue cs dc m a db1 = (disp, db')"
    and "jb_sent db1 = jb_sent db" "queued db1 \<subseteq> queued db \<union> {jid}"
    and "ValidateQueueMessage m = Inr ()" "qm_job m = jid" "dc_message_id dc \<noteq> 0"
  shows "delivered jid db disp db' \<and> jb_jobs db' = jb_jobs db1"
proof -
  let ?r = "retryMessage dc m"
  have r: "ValidateQueueMessage ?r = Inr ()" "qm_job ?r = jid"
    using assms(4-6) by (auto simp: retryMessage_def ValidateQueueMessage_def split: if_splits)
  have c: "jid \<in> carried [(?r, a + 1)]" using r by (auto simp: carried_def)
  have q: "queued (record_sent x y db1) = queued db1" for x y by (simp add: queued_def record_sent_def)
  show ?thesis
  proof (cases "a + 1 < 0 \<or> \<not> int32_range (a + 1) \<or> cs_publish cs ?r = Lost")
    case True
    then have "disp = Inr Requeue" "db' = db1"
      using assms(1) by (auto simp: publishRetryOrRequeue_def PublishRetry_def publishMessage_def sbind_def sret_def
          split: if_splits)
    then show ?thesis using assms(2,3) by (auto simp: delivered_def)
  next
    case False
    then have "db' = record_sent ?r (a + 1) db1"
      using assms(1) by (cases "cs_publish cs ?r")
        (auto simp: publishRetryOrRequeue_def PublishRetry_def publishMessage_def sbind_def sdo_def sret_def)
    then have "jb_sent db' = jb_sent db @ [(?r, a + 1)]" "queued db' \<subseteq> queued db \<union> {jid}" "jb_jobs db' = jb_jobs db1"
      using assms(2,3) q by (simp_all add: record_sent_def)
    moreover have "queued db' \<subseteq> (queued db - {jid}) \<union> carried [(?r, a + 1)]" using calculation(2) c by blast
    ultimately show ?thesis unfolding delivered_def by blast
  qed
qed

lemma run_queued:
  assumes "ProcessJobByID tw wc jid False db = (r, db1)"
  shows "jid \<notin> queued db1 \<and> calm db db1"
proof -
  obtain c db0 where c: "claimGenerationJob (wc_claimed_at wc) jid db = (c, db0)" by fastforce
  note q0 = claim_queued [OF c]
  have run: "calm db0 (snd (processClaimedJob tw wc job False db0))" for job
    using calm_processClaimed [of tw wc job False] by (simp add: step_rel_def)
  have "db1 = db0 \<or> (\<exists>job. db1 = snd (processClaimedJob tw wc job False db0))"
    using assms c
    by (auto simp: ProcessJobByID_def sbind_def sret_def split: sum.splits prod.splits if_splits) (metis snd_conv)
  then have "calm db0 db1" using run calm_ok by (auto simp: rel_ok_def reflpD)
  then show ?thesis using q0 calm_ok by (auto simp: calm_def)
qed

lemma reset_queued:
  assumes "ResetRunningJobForRetry now jid code msg db = (r, db1)"
  shows "jb_sent db1 = jb_sent db \<and> queued db1 \<subseteq> queued db \<union> {jid} \<and> (trips_ok db \<longrightarrow> trips_ok db1) \<and>
    (r \<noteq> Inr () \<longrightarrow> db1 = db)"
proof (cases "ResetRunningGenerationJobToQueued now jid code (truncateSafeMessage msg) db")
  case (Inl e)
  then show ?thesis using assms by (auto simp: ResetRunningJobForRetry_def sbind_def sstmt_def)
next
  case (Inr x)
  obtain j db2 where x: "x = (j, db2)" by (cases x)
  let ?P = "\<lambda>j. gj_id j = jid \<and> gj_status j = JRunning"
  let ?f = "\<lambda>j. j\<lparr>gj_status := JQueued, gj_started_at := None, gj_error_code := Some code,
       gj_error_message := Some (truncateSafeMessage msg), gj_updated_at := now\<rparr>"
  have eq: "r = Inr ()" "db1 = db2" using assms Inr x
    by (auto simp: ResetRunningJobForRetry_def sbind_def sstmt_def sret_def)
  have db2: "db2 = db\<lparr>jb_jobs := update_where ?P ?f (jb_jobs db)\<rparr>"
    using Inr x by (auto simp: ResetRunningGenerationJobToQueued_def checked_texts_Inr update_job_Inr)
  have "queued db2 \<subseteq> queued db \<union> {jid}"
    unfolding db2 by (auto simp: queued_iff set_update_where)
  moreover have "trips_ok db \<longrightarrow> trips_ok db2" unfolding db2 by (auto intro: trips_update_where)
  ultimately show ?thesis using eq db2 by simp
qed

lemma quiet_delivered:
  "jb_sent db' = jb_sent db \<Longrightarrow> queued db' \<subseteq> queued db \<Longrightarrow> jid \<notin> queued db' \<Longrightarrow> delivered jid db disp db'"
  by (auto simp: delivered_def carried_def)

lemma afterFailure_delivered:
  assumes "afterFailure cs dc m a res db1 = (disp, db')" "jid \<notin> queued db1"
    "ValidateQueueMessage m = Inr ()" "qm_job m = jid" "dc_message_id dc \<noteq> 0"
  shows "delivered jid db1 disp db' \<and> (trips_ok db1 \<longrightarrow> trips_ok db')"
proof (cases "pr_retryable res \<and> a < cs_max_attempts cs")
  case True
  obtain r db2 where r: "ResetRunningJobForRetry (wc_done_at (dc_worker dc)) jid (pr_code res) (pr_message res) db1 = (r, db2)"
    by fastforce
  note reset = reset_queued [OF r]
  show ?thesis
  proof (cases r)
    case (Inl e)
    then show ?thesis using assms True r reset
      by (auto simp: afterFailure_def sbind_def stry_def sret_def intro: quiet_delivered)
  next
    case (Inr u)
    then have "publishRetryOrRequeue cs dc m a db2 = (disp, db')"
      using assms(1,4) True r by (auto simp: afterFailure_def sbind_def stry_def)
    from publish_delivered [OF this, of db1 jid] reset assms(3-5) show ?thesis by (auto simp: trips_ok_def)
  qed
next
  case False
  have "step_rel calm (FailClaimedJob (wc_done_at (dc_worker dc)) (Some (pr_job res)) (pr_code res) (pr_message res))"
    unfolding FailClaimedJob_def failJob_def option.case by (intro step_intros calm_ops calm_ok)
  then have "calm db1 db'"
    using assms(1) False
    by (auto simp: afterFailure_def sbind_def stry_def sret_def step_rel_def split: sum.splits prod.splits dest: spec [of _ db1])
  then show ?thesis using assms(2) by (auto simp: calm_def intro: quiet_delivered)
qed

lemma handle_delivered:
  assumes "handleDelivery cs dc d db = (disp, db')" "decodeMessage d = Inr m" "dc_message_id dc \<noteq> 0"
  shows "delivered (qm_job m) db disp db' \<and> (trips_ok db \<longrightarrow> trips_ok db')"
proof -
  let ?m = "withRequestIDs (dc_request_id dc) m" and ?a = "delivery_attempt d"
  obtain r db1 where r: "ProcessJobByID (cs_work cs) (dc_worker dc) (qm_job m) False db = (r, db1)" by fastforce
  note run = run_queued [OF r]
  have m: "ValidateQueueMessage ?m = Inr ()" "qm_job ?m = qm_job m"
    using assms(2) by (auto simp: decodeMessage_def withRequestIDs_def ValidateQueueMessage_def Let_def rbind_Inr_iff
      split: if_splits option.splits)
  have after: "delivered (qm_job m) db disp db' \<and> (trips_ok db \<longrightarrow> trips_ok db')"
    if "delivered (qm_job m) db1 disp db' \<and> (trips_ok db1 \<longrightarrow> trips_ok db')"
    using that run by (fastforce simp: delivered_def calm_def)
  have eq: "(case r of Inl e \<Rightarrow> retryOrRequeue cs dc ?m ?a db1
      | Inr res \<Rightarrow> (case pr_status res of PFailed \<Rightarrow> afterFailure cs dc ?m ?a res db1 | _ \<Rightarrow> (Inr Ack, db1))) = (disp, db')"
    using assms(1,2) r m(2)
    by (simp add: handleDelivery_def sbind_def stry_def sret_def Let_def split: sum.splits process_status.splits)
  have quiet: "delivered (qm_job m) db1 disp db1" using run by (auto intro: quiet_delivered)
  show ?thesis
  proof (rule after, cases r)
    case (Inl e)
    have publish: "delivered (qm_job m) db1 disp db' \<and> jb_jobs db' = jb_jobs db1"
      if "publishRetryOrRequeue cs dc ?m ?a db1 = (disp, db')"
      by (rule publish_delivered [OF that]) (use m assms(3) in auto)
    show "delivered (qm_job m) db1 disp db' \<and> (trips_ok db1 \<longrightarrow> trips_ok db')"
      using eq Inl quiet publish
      by (cases "?a \<ge> cs_max_attempts cs") (auto simp: retryOrRequeue_def sret_def trips_ok_def)
  next
    case (Inr res)
    then show "delivered (qm_job m) db1 disp db' \<and> (trips_ok db1 \<longrightarrow> trips_ok db')"
      using eq quiet afterFailure_delivered [of cs dc ?m ?a res db1 disp db' "qm_job m"] run m assms(3)
      by (auto split: process_status.splits)
  qed
qed

section \<open>No job is forgotten\<close>

fun event_ok :: "queue_event \<Rightarrow> bool" where
  "event_ok (EvRequest r) \<longleftrightarrow> request_ok r"
| "event_ok (EvDeliver cs dc i) \<longleftrightarrow> dc_message_id dc \<noteq> 0"

definition waiting :: "queue_state \<Rightarrow> uuid set" where
  "waiting s = {jid. \<exists>d \<in> set (qs_flight s). carries d jid}"

lemma no_orphans_iff: "no_orphans s \<longleftrightarrow> queued (qs_db s) \<subseteq> waiting s"
  by (auto simp: no_orphans_def queued_def waiting_def)

lemma carried_waiting:
  "jb_sent db' = jb_sent db @ new \<Longrightarrow> carried new \<subseteq> waiting \<lparr>qs_db = db', qs_flight = fl @ newly_sent db db'\<rparr>"
proof
  fix jid assume sent: "jb_sent db' = jb_sent db @ new" and "jid \<in> carried new"
  then obtain m a where m: "ValidateQueueMessage m = Inr ()" "(m, a) \<in> set new" "jid = qm_job m"
    by (auto simp: carried_def)
  have "delivery_of (m, a) \<in> set (fl @ newly_sent db db')" using m(2) sent by (auto simp: newly_sent_def)
  then show "jid \<in> waiting \<lparr>qs_db = db', qs_flight = fl @ newly_sent db db'\<rparr>"
    using carries_delivery_of [OF m(1), of a] m(3) by (auto simp: waiting_def)
qed

lemma carries_one: "carries d x \<Longrightarrow> decodeMessage d = Inr m \<Longrightarrow> x = qm_job m"
  by (simp add: carries_def)

lemma step_no_orphans:
  assumes "event_ok ev" "no_orphans s" "trips_ok (qs_db s)"
  shows "no_orphans (queue_step ev s) \<and> trips_ok (qs_db (queue_step ev s))"
proof (cases ev)
  case (EvRequest r)
  let ?db = "qs_db s" and ?db' = "job_serve r (qs_db s)"
  have "covered ?db ?db'" using assms(1) EvRequest by (simp add: request_covered)
  then obtain new where new: "jb_sent ?db' = jb_sent ?db @ new" "queued ?db' \<subseteq> queued ?db \<union> carried new" "trips_ok ?db'"
    using assms(3) by (auto simp: covered_def)
  have "queued ?db \<subseteq> waiting \<lparr>qs_db = ?db', qs_flight = qs_flight s @ newly_sent ?db ?db'\<rparr>"
    using assms(2) by (auto simp: no_orphans_iff waiting_def)
  then show ?thesis using new carried_waiting [OF new(1), of "qs_flight s"] EvRequest
    by (auto simp: no_orphans_iff)
next
  case (EvDeliver cs dc i)
  show ?thesis
  proof (cases "i < length (qs_flight s)")
    case False
    then show ?thesis using EvDeliver assms by (simp add: deliver_at_def)
  next
    case True
    let ?d = "qs_flight s ! i" and ?db = "qs_db s"
    let ?rest = "take i (qs_flight s) @ drop (Suc i) (qs_flight s)"
    obtain disp db' where h: "handleDelivery cs dc ?d ?db = (disp, db')" by fastforce
    let ?fl = "if disp = Inr Requeue then qs_flight s else ?rest"
    have step: "queue_step ev s = \<lparr>qs_db = db', qs_flight = ?fl @ newly_sent ?db db'\<rparr>"
      using True EvDeliver h by (simp add: deliver_at_def)
    have split: "set (qs_flight s) = insert ?d (set ?rest)"
      using id_take_nth_drop [OF True] by (metis list.simps(15) set_append Un_insert_right)
    show ?thesis
    proof (cases "decodeMessage ?d")
      case (Inl e)
      then have db': "db' = ?db" "disp = Inr DeadLetter" using h by (auto simp: handleDelivery_def sret_def)
      have "waiting s \<subseteq> waiting (queue_step ev s)"
        unfolding step using db' split Inl by (auto simp: waiting_def carries_def)
      then show ?thesis using assms(2,3) step db' by (auto simp: no_orphans_iff)
    next
      case (Inr m)
      have "delivered (qm_job m) ?db disp db' \<and> (trips_ok ?db \<longrightarrow> trips_ok db')"
        using handle_delivered [OF h Inr] assms(1) EvDeliver by simp
      then obtain new where new: "jb_sent db' = jb_sent ?db @ new" "trips_ok db'"
        "queued db' \<subseteq> (queued ?db - {qm_job m}) \<union> carried new \<union> (if disp = Inr Requeue then {qm_job m} else {})"
        using assms(3) by (auto simp: delivered_def)
      have kept: "x \<in> waiting (queue_step ev s)" if "x \<in> waiting s" "x \<noteq> qm_job m \<or> disp = Inr Requeue" for x
        using that split carries_one [OF _ Inr] unfolding step waiting_def by (auto split: if_splits)
      have "qm_job m \<in> waiting (queue_step ev s)" if "disp = Inr Requeue"
        using that Inr True unfolding step waiting_def by (auto simp: carries_def intro!: bexI [of _ ?d])
      then have "queued db' \<subseteq> waiting (queue_step ev s)"
        using new(3) kept assms(2) carried_waiting [OF new(1), of ?fl] unfolding step no_orphans_iff
        by (auto split: if_splits)
      then show ?thesis using step new(2) by (simp add: no_orphans_iff)
    qed
  qed
qed

text \<open>
  C21. No queued job is forgotten: whatever requests and deliveries follow one another, with
  confirmations lost, messages repeated and runs that fail, every job that is queued has a message
  under way, as long as the service dispatches by the queue (the default is in the process, without
  messages), failures to publish are not let pass (\<open>publish_fail_open\<close>) and no nil id is drawn.
\<close>

theorem queued_jobs_have_a_message:
  assumes "no_orphans s" "trips_ok (qs_db s)" "\<And>ev. ev \<in> set evs \<Longrightarrow> event_ok ev"
  shows "no_orphans (fold queue_step evs s)"
proof -
  have "no_orphans (fold queue_step evs s) \<and> trips_ok (qs_db (fold queue_step evs s))"
    using assms by (induction evs arbitrary: s) (simp_all add: step_no_orphans)
  then show ?thesis ..
qed

section \<open>The queue drains\<close>

text \<open>How often the messages under way can still be handled, if the broker is not told to requeue.\<close>

definition handlings_left :: "int \<Rightarrow> delivery \<Rightarrow> nat" where
  "handlings_left n d = Suc (nat (n - delivery_attempt d))"

definition work_left :: "int \<Rightarrow> queue_state \<Rightarrow> nat" where
  "work_left n s = sum_list (map (handlings_left n) (qs_flight s))"

text \<open>A delivery of a message under way that does not end in a requeue.\<close>

definition settles :: "int \<Rightarrow> queue_state \<Rightarrow> queue_event \<Rightarrow> bool" where
  "settles n s ev =
    (case ev of
       EvRequest r \<Rightarrow> False
     | EvDeliver cs dc i \<Rightarrow> cs_max_attempts cs = n \<and> i < length (qs_flight s) \<and>
         fst (handleDelivery cs dc (qs_flight s ! i) (qs_db s)) \<noteq> Inr Requeue)"

fun all_settle :: "int \<Rightarrow> queue_state \<Rightarrow> queue_event list \<Rightarrow> bool" where
  "all_settle n s [] \<longleftrightarrow> True"
| "all_settle n s (ev # evs) \<longleftrightarrow> settles n s ev \<and> all_settle n (queue_step ev s) evs"

lemma publish_sent:
  assumes "publishRetryOrRequeue cs dc m a db = (disp, db')" "disp \<noteq> Inr Requeue"
  shows "\<exists>m'. jb_sent db' = jb_sent db @ [(m', a + 1)]"
  using assms by (cases "cs_publish cs (retryMessage dc m)")
    (auto simp: publishRetryOrRequeue_def PublishRetry_def publishMessage_def record_sent_def sbind_def sdo_def
      sret_def split: if_splits)

text \<open>What a delivery that is not requeued sends: nothing, or one retry with the next attempt.\<close>

definition sends_retry :: "int \<Rightarrow> int \<Rightarrow> job_db \<Rightarrow> job_db \<Rightarrow> bool" where
  "sends_retry n a db db' \<longleftrightarrow>
     jb_sent db' = jb_sent db \<or> (a < n \<and> (\<exists>m'. jb_sent db' = jb_sent db @ [(m', a + 1)]))"

lemma afterFailure_sends:
  assumes "afterFailure cs dc m a res db = (disp, db')" "disp \<noteq> Inr Requeue"
  shows "sends_retry (cs_max_attempts cs) a db db'"
proof (cases "pr_retryable res \<and> a < cs_max_attempts cs")
  case True
  obtain r db2 where r: "ResetRunningJobForRetry (wc_done_at (dc_worker dc)) (qm_job m) (pr_code res) (pr_message res) db = (r, db2)"
    by fastforce
  show ?thesis using assms True r reset_queued [OF r] publish_sent [of cs dc m a db2 disp db']
    by (cases r) (auto simp: afterFailure_def sbind_def stry_def sret_def sends_retry_def)
next
  case False
  have "step_rel calm (FailClaimedJob (wc_done_at (dc_worker dc)) (Some (pr_job res)) (pr_code res) (pr_message res))"
    unfolding FailClaimedJob_def failJob_def option.case by (intro step_intros calm_ops calm_ok)
  then show ?thesis using assms False
    by (auto simp: afterFailure_def sbind_def stry_def sret_def step_rel_def sends_retry_def calm_def
        split: sum.splits prod.splits dest: spec [of _ db])
qed

lemma handle_sends:
  assumes "handleDelivery cs dc d db = (disp, db')" "disp \<noteq> Inr Requeue"
  shows "sends_retry (cs_max_attempts cs) (delivery_attempt d) db db'"
proof (cases "decodeMessage d")
  case (Inl e)
  then show ?thesis using assms by (simp add: handleDelivery_def sret_def sends_retry_def)
next
  case (Inr m)
  let ?m = "withRequestIDs (dc_request_id dc) m" and ?a = "delivery_attempt d"
  obtain r db1 where r: "ProcessJobByID (cs_work cs) (dc_worker dc) (qm_job m) False db = (r, db1)" by fastforce
  have sent: "jb_sent db1 = jb_sent db" using run_queued [OF r] by (simp add: calm_def)
  have eq: "(case r of Inl e \<Rightarrow> retryOrRequeue cs dc ?m ?a db1
      | Inr res \<Rightarrow> (case pr_status res of PFailed \<Rightarrow> afterFailure cs dc ?m ?a res db1 | _ \<Rightarrow> (Inr Ack, db1))) = (disp, db')"
    using assms(1) Inr r
    by (simp add: handleDelivery_def sbind_def stry_def sret_def Let_def split: sum.splits process_status.splits)
  then have "sends_retry (cs_max_attempts cs) ?a db1 db'"
    using assms(2) publish_sent [of cs dc ?m ?a db1 disp db'] afterFailure_sends [of cs dc ?m ?a _ db1 disp db']
    by (auto simp: retryOrRequeue_def sret_def sends_retry_def split: sum.splits process_status.splits if_splits)
  then show ?thesis using sent by (simp add: sends_retry_def)
qed

lemma attempt_pos: "delivery_attempt d \<ge> 1"
  by (simp add: delivery_attempt_def Let_def)

lemma attempt_delivery_of: "a \<ge> 1 \<Longrightarrow> delivery_attempt (delivery_of (m, a)) = a"
  by (simp add: delivery_attempt_def delivery_of_def readAttempt_def)

lemma settles_less:
  assumes "settles n s ev"
  shows "work_left n (queue_step ev s) < work_left n s"
proof -
  obtain cs dc i where ev: "ev = EvDeliver cs dc i" "cs_max_attempts cs = n" "i < length (qs_flight s)"
    and fst: "fst (handleDelivery cs dc (qs_flight s ! i) (qs_db s)) \<noteq> Inr Requeue"
    using assms by (auto simp: settles_def split: queue_event.splits)
  let ?d = "qs_flight s ! i" and ?db = "qs_db s"
  let ?rest = "take i (qs_flight s) @ drop (Suc i) (qs_flight s)"
  obtain disp db' where h: "handleDelivery cs dc ?d ?db = (disp, db')" by fastforce
  have disp: "disp \<noteq> Inr Requeue" using fst h by simp
  have step: "queue_step ev s = \<lparr>qs_db = db', qs_flight = ?rest @ newly_sent ?db db'\<rparr>"
    using ev h disp by (simp add: deliver_at_def)
  have split: "work_left n s = sum_list (map (handlings_left n) ?rest) + handlings_left n ?d"
    unfolding work_left_def by (subst id_take_nth_drop [OF ev(3)]) simp
  have "sum_list (map (handlings_left n) (newly_sent ?db db')) < handlings_left n ?d"
    using handle_sends [OF h disp] ev(2) attempt_pos [of ?d]
    by (auto simp: sends_retry_def newly_sent_def handlings_left_def attempt_delivery_of)
  then show ?thesis using split step by (simp add: work_left_def)
qed

text \<open>
  C22. The queue drains: while the broker is never told to requeue, the messages under way are
  handled, retries included, at most as often as their attempts allow, each message once more than
  the attempts it has left; then nothing is under way that was not asked for anew.
\<close>

theorem queue_drains:
  assumes "all_settle n s evs"
  shows "length evs \<le> work_left n s"
  using assms
proof (induction evs arbitrary: s)
  case Nil
  show ?case by simp
next
  case (Cons ev evs)
  then have "length evs \<le> work_left n (queue_step ev s)" "work_left n (queue_step ev s) < work_left n s"
    using settles_less by auto
  then show ?case by simp
qed

end
