(* ===== verification/JobWitnesses.thy ===== *)
theory JobWitnesses
  imports JobQueue Demo
begin

text \<open>
  A table with one job of the demo trip, in a given status, and the requests and deliveries on
  which the theorems about generation jobs are applied.
\<close>

definition demo_job :: "job_status \<Rightarrow> generation_job" where
  "demo_job st = \<lparr>gj_id = 300, gj_trip = 10, gj_requester = 1, gj_type = FullGeneration, gj_status = st,
     gj_expected = 1, gj_instruction = None, gj_day = None, gj_item = None, gj_payload = [], gj_result = [],
     gj_correlation = None, gj_request = None, gj_retried_from = None,
     gj_error_code = (if st = JFailed then Some ''panic'' else None), gj_error_message = None,
     gj_result_revision = (if st = JCompleted then Some 2 else None), gj_created_at = 1,
     gj_started_at = (if st = JQueued then None else Some 2),
     gj_completed_at = (if st \<in> {JCompleted, JFailed} then Some 3 else None),
     gj_cancelled_at = (if st = JCancelled then Some 3 else None), gj_updated_at = 3\<rparr>"

definition demo_jobs :: "job_status \<Rightarrow> job_db" where
  "demo_jobs st = \<lparr>jb_jobs = [demo_job st], jb_audit = [], jb_sent = []\<rparr>"

definition demo_message :: queue_message where
  "demo_message = \<lparr>qm_id = 400, qm_job = 300, qm_trip = 10, qm_type = FullGeneration, qm_created_at = 1,
     qm_correlation = ''c'', qm_request = ''r''\<rparr>"

definition demo_delivery :: delivery where
  "demo_delivery = delivery_of (demo_message, 1)"

definition failing_work :: trip_work where
  "failing_work =
    (let e = WorkError \<lparr>ge_text = ''x'', ge_chain = [LOther]\<rparr>
     in \<lparr>tw_generate = (\<lambda>_ _ _. e), tw_regenerate_day = (\<lambda>_ _ _ _ _. e), tw_regenerate_item = (\<lambda>_ _ _ _ _ _. e),
         tw_optimize_day = (\<lambda>_ _ _ _ _ _ _. e), tw_adapt_template = (\<lambda>_ _ _ _. e), tw_repair = (\<lambda>_ _ _ _ _. e),
         tw_with_quality = (\<lambda>_ p. p)\<rparr>)"

definition demo_consumer :: consumer where
  "demo_consumer = NewConsumer 2 (\<lambda>_. Confirmed) failing_work"

definition demo_delivery_call :: delivery_call where
  "demo_delivery_call = \<lparr>dc_worker = \<lparr>wc_claimed_at = 5, wc_done_at = 6, wc_timed_out = False\<rparr>,
     dc_request_id = ''f'', dc_message_id = 401\<rparr>"

definition demo_config :: job_config where
  "demo_config = \<lparr>jc_enabled = True, jc_worker_enabled = True, jc_mode = ''queue'', jc_poll = 1, jc_max_concurrent = 1, jc_max_running = 100,
     jc_publish_timeout = 1, jc_fail_open = False\<rparr>"

definition demo_job_call :: "uuid \<Rightarrow> job_call" where
  "demo_job_call u = \<lparr>jx_user = Some (demo_user u), jx_request = ''r'', jx_correlation = ''c'', jx_now = 5,
     jx_job = 301, jx_message = 402\<rparr>"

definition demo_create :: create_request where
  "demo_create = \<lparr>cr_type = DayRegeneration, cr_expected = Some 1, cr_instruction = Some ''more food'',
     cr_day = Some 2, cr_item = None, cr_payload = []\<rparr>"

lemma demo_jobs_ok: "jobs_ok (demo_jobs st)"
  by (cases st) (simp_all add: jobs_ok_def demo_jobs_def demo_job_def key_unique_def job_checks_def stamped_def
      opt_all_def opt_at_least_def job_params_ok_def day_job_def item_job_def IsSupportedJobType_def)

lemma demo_job_at: "job_at (demo_jobs st) 300 = Some (demo_job st)" "gj_status (demo_job st) = st"
  by (simp_all add: job_at_def demo_jobs_def demo_job_def select_row_def)

lemma demo_decode: "decodeMessage demo_delivery = Inr demo_message" "qm_job demo_message = 300"
  by code_simp+

section \<open>Runs\<close>

lemma demo_held:
  "job_step\<^sup>*\<^sup>* (demo_jobs JQueued, []) (snd (projr (ClaimGenerationJob 5 300 (demo_jobs JQueued))), [300])"
proof -
  have "\<not> isl (ClaimGenerationJob 5 300 (demo_jobs JQueued))" by code_simp
  then obtain j db' where "ClaimGenerationJob 5 300 (demo_jobs JQueued) = Inr (j, db')"
    by (metis sum.collapse(2) surj_pair)
  then show ?thesis using job_step.claim by fastforce
qed

lemma finished_jobs_never_run_again_witness:
  "jobs_ok (snd (projr (ClaimGenerationJob 5 300 (demo_jobs JQueued))))"
  using finished_jobs_never_run_again [OF demo_jobs_ok demo_held] by simp

lemma one_worker_per_job_witness:
  "ClaimGenerationJob 6 300 (snd (projr (ClaimGenerationJob 5 300 (demo_jobs JQueued)))) =
     Inl (AppErr ErrNotFound)"
  using one_worker_per_job [OF demo_jobs_ok demo_held] by simp

section \<open>Deliveries\<close>

lemma duplicate_deliveries_do_nothing_witness:
  "handleDelivery demo_consumer demo_delivery_call demo_delivery (demo_jobs JRunning) =
     (Inr Ack, demo_jobs JRunning)"
  using duplicate_deliveries_do_nothing [OF demo_jobs_ok demo_job_at(1),
      of JRunning "[(demo_consumer, demo_delivery_call, demo_delivery)]"] demo_job_at(2) demo_decode
  by simp

lemma failed_run_is_retried_or_ended_witness:
  "\<exists>db' j'. job_at db' 300 = Some j' \<and> gj_status j' = JQueued \<and>
    handleDelivery demo_consumer demo_delivery_call demo_delivery (demo_jobs JQueued) = (Inr Ack, db')"
proof -
  let ?e = "\<lparr>ge_text = ''x'', ge_chain = [LOther]\<rparr>"
  have 1: "process (cs_work demo_consumer) (claim (wc_claimed_at (dc_worker demo_delivery_call)) (demo_job JQueued)) =
      WorkError ?e" by code_simp
  have 2: "\<not> wc_timed_out (dc_worker demo_delivery_call)" by code_simp
  have 3: "ClassifyJobError ?e = (''unknown_error'', ''Generation job failed.'')" by code_simp
  have 4: "storable ''unknown_error''" "char_count ''unknown_error'' \<le> 2000"
    "storable (truncateSafeMessage ''Generation job failed.'')" by code_simp+
  have 5: "int32_range (cs_max_attempts demo_consumer)" by code_simp
  have 6: "IsRetryableErrorCode ''unknown_error''" "delivery_attempt demo_delivery < cs_max_attempts demo_consumer"
    by code_simp+
  have 7: "cs_publish demo_consumer m = Confirmed" for m by (simp add: demo_consumer_def NewConsumer_def)
  have 8: "job_at (demo_jobs JQueued) (qm_job demo_message) = Some (demo_job JQueued)"
    by (simp add: demo_decode(2) demo_job_at)
  show ?thesis
    using failed_run_is_retried_or_ended [OF demo_jobs_ok demo_decode(1) 8 demo_job_at(2) 1 2 3 4 5] 6 7
      demo_decode(2) by (auto simp: Let_def)
qed

lemma interrupted_job_stays_running_witness:
  "\<exists>j db1. ClaimGenerationJob 5 300 (demo_jobs JQueued) = Inr (j, db1) \<and>
    handleDelivery demo_consumer demo_delivery_call demo_delivery (startupSweep demo_config 10 db1) =
      (Inr Ack, startupSweep demo_config 10 db1)"
proof -
  have "\<not> isl (ClaimGenerationJob 5 300 (demo_jobs JQueued))" by code_simp
  then obtain j db1 where c: "ClaimGenerationJob 5 300 (demo_jobs JQueued) = Inr (j, db1)"
    by (metis sum.collapse(2) surj_pair)
  have "10 - jc_max_running demo_config \<le> 5" by (simp add: demo_config_def)
  from interrupted_job_stays_running [OF demo_jobs_ok c this demo_decode] c show ?thesis by (auto simp: Let_def)
qed

section \<open>Requests\<close>

lemma job_is_created_for_editor_on_current_revision_witness:
  "\<exists>job jobs'. Create demo_env demo_db (Some (\<lambda>_. Confirmed)) demo_config (demo_job_call 1) 10 demo_create
      (demo_jobs JCompleted) = (Inr job, jobs') \<and> gj_requester job = 1 \<and> gj_status job = JQueued \<and>
    (NewQueueMessageFromContext (demo_job_call 1) job, 1) \<in> set (jb_sent jobs')"
proof -
  let ?r = "Create demo_env demo_db (Some (\<lambda>_. Confirmed)) demo_config (demo_job_call 1) 10 demo_create
      (demo_jobs JCompleted)"
  have "\<not> isl (fst ?r)" by code_simp
  then have r: "?r = (Inr (projr (fst ?r)), snd ?r)" by (rule run_result)
  show ?thesis
    using job_is_created_for_editor_on_current_revision [OF r] r
    by (intro exI [of _ "projr (fst ?r)"] exI [of _ "snd ?r"])
      (auto simp: demo_job_call_def demo_user_def demo_config_def QueueMode_def)
qed

lemma cancel_only_queued_by_owner_or_requester_witness:
  "\<exists>job jobs'. Cancel demo_env demo_db demo_config (demo_job_call 1) 10 300 (demo_jobs JQueued) = (Inr job, jobs') \<and>
    gj_status job = JCancelled"
proof -
  let ?r = "Cancel demo_env demo_db demo_config (demo_job_call 1) 10 300 (demo_jobs JQueued)"
  have "\<not> isl (fst ?r)" by code_simp
  then have r: "?r = (Inr (projr (fst ?r)), snd ?r)" by (rule run_result)
  show ?thesis using cancel_only_queued_by_owner_or_requester [OF demo_jobs_ok r] r by auto
qed

lemma late_result_overwrites_failure_witness:
  "\<exists>f db1 c db2. MarkOpsGenerationJobFailed 9 300 8 ''e'' ''m'' (demo_jobs JRunning) = Inr (f, db1) \<and>
    CompleteGenerationJob 10 300 2 db1 = Inr (c, db2) \<and> gj_status c = JCompleted \<and> gj_error_code c = Some ''e''"
proof -
  have "\<not> isl (MarkOpsGenerationJobFailed 9 300 8 ''e'' ''m'' (demo_jobs JRunning))" by code_simp
  then obtain f db1 where m: "MarkOpsGenerationJobFailed 9 300 8 ''e'' ''m'' (demo_jobs JRunning) = Inr (f, db1)"
    by (metis sum.collapse(2) surj_pair)
  have "int32_range 2" by code_simp
  from late_result_overwrites_failure [OF demo_jobs_ok m this, of 10] m show ?thesis by blast
qed

lemma long_reason_breaks_ops_cancel_witness:
  "OpsCancel (demo_job_call 1) 300 (replicate 499 CHR ''a'' @ [CHR 0xC3, CHR 0xA9] @ [CHR ''a'']) (demo_jobs JQueued) =
    (Inl (AppErr (DatabaseErr ''update generation job'')), demo_jobs JQueued)"
proof -
  have 1: "in_bytes 0x21 0x7E CHR ''a''" by code_simp
  have 2: "jx_user (demo_job_call 1) = Some (demo_user 1)" by (simp add: demo_job_call_def)
  show ?thesis using long_reason_breaks_ops_cancel [OF 1 refl 2 demo_job_at] by simp
qed

section \<open>The queue\<close>

definition demo_queue :: queue_state where
  "demo_queue = \<lparr>qs_db = demo_jobs JQueued, qs_flight = [demo_delivery]\<rparr>"

definition demo_site :: job_site where
  "demo_site = \<lparr>je_env = demo_env, je_trips = demo_db, je_pub = Some (\<lambda>_. Confirmed), je_cfg = demo_config\<rparr>"

definition demo_events :: "queue_event list" where
  "demo_events = [EvRequest (RqCreate demo_site (demo_job_call 1) 10 demo_create),
     EvDeliver demo_consumer demo_delivery_call 0]"

lemma queued_jobs_have_a_message_witness: "no_orphans (fold queue_step demo_events demo_queue)"
proof (rule queued_jobs_have_a_message)
  show "no_orphans demo_queue"
    using demo_decode by (simp add: no_orphans_def demo_queue_def demo_jobs_def carries_def demo_job_def)
  show "trips_ok (qs_db demo_queue)" by (simp add: trips_ok_def demo_queue_def demo_jobs_def demo_job_def)
  show "event_ok ev" if "ev \<in> set demo_events" for ev
    using that by (auto simp: demo_events_def demo_delivery_call_def site_ok_def call_ok_def demo_site_def
        demo_config_def QueueMode_def demo_job_call_def)
qed

lemma queue_drains_witness:
  "all_settle 2 demo_queue (replicate 2 (EvDeliver demo_consumer demo_delivery_call 0)) \<and>
    2 \<le> work_left 2 demo_queue"
proof -
  let ?evs = "replicate 2 (EvDeliver demo_consumer demo_delivery_call 0)"
  have "all_settle 2 demo_queue ?evs" by code_simp
  then show ?thesis using queue_drains [of 2 demo_queue ?evs] by simp
qed

end
