(* ===== verification/Float64.thy ===== *)
theory Float64
  imports Complex_Main "HOL-Library.Log_Nat"
begin

text \<open>
  Go's \<open>float64\<close> as the rational numbers it holds: every operation is the exact one followed by
  \<open>fl\<close>, the rounding to 53 significant bits, to nearest with ties to even. Overflow to infinity,
  NaN, the sign of zero and the subnormal numbers are not modelled; the amounts the program
  computes with are far from them. \<open>math.Round\<close> rounds half away from zero.
\<close>

definition float_exp :: "rat \<Rightarrow> int" where
  "float_exp x =
    (case quotient_of \<bar>x\<bar> of (p, q) \<Rightarrow>
       (let k = int (floorlog 2 (nat p)) - int (floorlog 2 (nat q))
        in if 2 powi k \<le> \<bar>x\<bar> then k else k - 1))"

definition round_half_even :: "rat \<Rightarrow> int" where
  "round_half_even y =
    (let f = \<lfloor>y\<rfloor>; d = y - of_int f
     in if d < 1 / 2 then f else if d > 1 / 2 then f + 1 else if even f then f else f + 1)"

definition fl :: "rat \<Rightarrow> rat" where
  "fl x = (if x = 0 then 0 else (let u = 2 powi (float_exp x - 52) in of_int (round_half_even (x / u)) * u))"

definition fadd :: "rat \<Rightarrow> rat \<Rightarrow> rat" where "fadd a b = fl (a + b)"
definition fsub :: "rat \<Rightarrow> rat \<Rightarrow> rat" where "fsub a b = fl (a - b)"
definition fmul :: "rat \<Rightarrow> rat \<Rightarrow> rat" where "fmul a b = fl (a * b)"
definition fdiv :: "rat \<Rightarrow> rat \<Rightarrow> rat" where "fdiv a b = fl (a / b)"

definition go_round :: "rat \<Rightarrow> int" where
  "go_round x = (if x < 0 then - \<lfloor>- x + 1 / 2\<rfloor> else \<lfloor>x + 1 / 2\<rfloor>)"

section \<open>Rounding errors\<close>

lemma round_half_even_error: "\<bar>of_int (round_half_even y) - y\<bar> \<le> 1 / 2"
  using floor_correct [of y] unfolding round_half_even_def Let_def
  by (cases "y - of_int \<lfloor>y\<rfloor> < 1 / 2"; cases "y - of_int \<lfloor>y\<rfloor> > 1 / 2"; simp del: of_int_floor_le; linarith)

lemma round_half_even_int [simp]: "round_half_even (of_int n) = n"
  by (simp add: round_half_even_def)

lemma floorlog_int:
  assumes "0 < (n :: int)"
  shows "2 ^ (floorlog 2 (nat n) - 1) \<le> n \<and> n < 2 ^ floorlog 2 (nat n)"
proof -
  obtain m where m: "n = int m" "0 < m" using assms zero_less_imp_eq_int by blast
  have "2 ^ (floorlog 2 m - 1) \<le> m \<and> m < 2 ^ floorlog 2 m" using floorlog_bounds [of m 2] m(2) by simp
  then have "int (2 ^ (floorlog 2 m - 1)) \<le> int m \<and> int m < int (2 ^ floorlog 2 m)" by (simp only: of_nat_le_iff of_nat_less_iff)
  then show ?thesis using m(1) by simp
qed

lemma float_exp_le:
  assumes "x \<noteq> 0"
  shows "2 powi float_exp x \<le> \<bar>x\<bar>"
proof -
  obtain p q where pq: "quotient_of \<bar>x\<bar> = (p, q)" by fastforce
  have x: "\<bar>x\<bar> = of_int p / of_int q" and q: "q > 0"
    using quotient_of_div [OF pq] quotient_of_denom_pos [OF pq] by simp_all
  have "of_int p / of_int q > (0 :: rat)" using assms by (simp flip: x)
  then have p: "p > 0" using q by (simp add: zero_less_divide_iff)
  let ?b = "\<lambda>n. floorlog 2 (nat n)"
  have pos: "?b p > 0" using p by (simp add: floorlog_def)
  have p2: "2 ^ (?b p - 1) \<le> p" using floorlog_int [OF p] by simp
  have q2: "q < 2 ^ ?b q" using floorlog_int [OF q] by simp
  have "(2 :: rat) ^ (?b p - 1) \<le> of_int p" using p2 by (metis of_int_le_iff of_int_numeral of_int_power)
  moreover have "of_int q \<le> (2 :: rat) ^ ?b q" using q2 by (metis of_int_le_iff of_int_numeral of_int_power order_less_imp_le)
  ultimately have "(2 :: rat) ^ (?b p - 1) / 2 ^ ?b q \<le> of_int p / of_int q"
    using p q by (intro frac_le) simp_all
  moreover have "(2 :: rat) powi (int (?b p) - int (?b q) - 1) = 2 ^ (?b p - 1) / 2 ^ ?b q"
  proof -
    have e: "int (?b p) - int (?b q) - 1 = int (?b p - 1) - int (?b q)" using pos by simp
    show ?thesis unfolding e by (simp add: power_int_diff)
  qed
  ultimately have "2 powi (int (?b p) - int (?b q) - 1) \<le> \<bar>x\<bar>" using x by simp
  then show ?thesis unfolding float_exp_def pq prod.case Let_def by simp
qed

lemma fl_error: "\<bar>fl x - x\<bar> \<le> \<bar>x\<bar> / 2 ^ 53"
proof (cases "x = 0")
  case False
  let ?u = "2 powi (float_exp x - 52) :: rat"
  have u: "?u > 0" by simp
  have "fl x - x = (of_int (round_half_even (x / ?u)) - x / ?u) * ?u"
    using False by (simp add: fl_def Let_def field_simps)
  then have "\<bar>fl x - x\<bar> \<le> 1 / 2 * ?u"
    using round_half_even_error [of "x / ?u"] u by (simp add: abs_mult mult_right_mono)
  also have "\<dots> = 2 powi float_exp x / 2 ^ 53" by (simp add: power_int_diff)
  also have "\<dots> \<le> \<bar>x\<bar> / 2 ^ 53" using float_exp_le [OF False] by (intro divide_right_mono) simp_all
  finally show ?thesis .
qed (simp add: fl_def)

lemma fl_0 [simp]: "fl 0 = 0"
  by (simp add: fl_def)

text \<open>Whole numbers below \<open>2 ^ 53\<close> are exact.\<close>

lemma fl_of_int:
  assumes "\<bar>n\<bar> < 2 ^ 53"
  shows "fl (of_int n) = of_int n"
proof (cases "n = 0")
  case False
  let ?e = "float_exp (of_int n)"
  have "(2 :: rat) powi ?e \<le> of_int \<bar>n\<bar>" using float_exp_le [of "of_int n"] False by simp
  also have "\<dots> < of_int (2 ^ 53)" using assms by (simp only: of_int_less_iff)
  also have "\<dots> = 2 powi 53" by simp
  finally have "\<not> (2 :: rat) powi 53 \<le> 2 powi ?e" by simp
  then have "?e < 53" using power_int_increasing [of 53 ?e "2 :: rat"] by force
  then obtain m where m: "52 - ?e = int m" using zero_le_imp_eq_int [of "52 - ?e"] by auto
  have e: "?e - 52 = - int m" using m by simp
  have "of_int n / 2 powi (?e - 52) = (of_int (n * 2 ^ m) :: rat)"
    unfolding e by (simp add: power_int_minus divide_inverse)
  then have "fl (of_int n) = of_int (n * 2 ^ m) * 2 powi (?e - 52)"
    using False unfolding fl_def Let_def by (simp only: round_half_even_int of_int_eq_0_iff if_False)
  also have "\<dots> = of_int n" unfolding e by (simp add: power_int_minus)
  finally show ?thesis .
qed simp

lemma go_round_near:
  assumes "\<bar>x - of_int n\<bar> < 1 / 2"
  shows "go_round x = n"
proof (cases "x < 0")
  case True
  have "\<lfloor>- x + 1 / 2\<rfloor> = - n" using assms by (intro floor_unique; simp; linarith)
  then show ?thesis using True by (simp add: go_round_def)
next
  case False
  have "\<lfloor>x + 1 / 2\<rfloor> = n" using assms by (intro floor_unique; simp; linarith)
  then show ?thesis using False by (simp add: go_round_def)
qed

lemma go_round_error: "\<bar>of_int (go_round x) - x\<bar> \<le> 1 / 2"
  using floor_correct [of "x + 1 / 2"] floor_correct [of "- x + 1 / 2"]
  unfolding go_round_def by (cases "x < 0"; simp only: if_True if_False of_int_minus; linarith)

lemma go_round_nonneg: "0 \<le> x \<Longrightarrow> 0 \<le> go_round x"
  by (simp add: go_round_def)

lemma go_round_mono:
  assumes "x \<le> y"
  shows "go_round x \<le> go_round y"
proof (cases "x < 0 \<and> 0 \<le> y")
  case True
  then have "go_round x \<le> 0" by (simp add: go_round_def)
  then show ?thesis using go_round_nonneg [of y] True by simp
next
  case False
  have "\<lfloor>x + 1 / 2\<rfloor> \<le> \<lfloor>y + 1 / 2\<rfloor>" "\<lfloor>- y + 1 / 2\<rfloor> \<le> \<lfloor>- x + 1 / 2\<rfloor>"
    using assms by (intro floor_mono; simp)+
  then show ?thesis using False assms by (auto simp: go_round_def)
qed

lemma fl_nonneg: "0 \<le> x \<Longrightarrow> 0 \<le> fl x"
proof -
  assume x: "0 \<le> x"
  have "\<bar>fl x - x\<bar> \<le> x / 2 ^ 53" using fl_error [of x] x by simp
  also have "\<dots> \<le> x" using x by simp
  finally show ?thesis by linarith
qed

lemma round_half_even_minus: "round_half_even (- y) = - round_half_even y"
proof (cases "y = of_int \<lfloor>y\<rfloor>")
  case True
  then have "round_half_even (- y) = - \<lfloor>y\<rfloor>" "round_half_even y = \<lfloor>y\<rfloor>"
    using round_half_even_int [of "- \<lfloor>y\<rfloor>"] round_half_even_int [of "\<lfloor>y\<rfloor>"] by simp_all
  then show ?thesis by simp
next
  case False
  then have f: "\<lfloor>- y\<rfloor> = - \<lfloor>y\<rfloor> - 1"
    using floor_correct [of y] by (intro floor_unique; simp only: of_int_diff of_int_minus of_int_1; linarith)
  show ?thesis unfolding round_half_even_def Let_def f by auto
qed

lemma fl_minus [simp]: "fl (- x) = - fl x"
  by (simp add: fl_def Let_def float_exp_def round_half_even_minus)

lemma go_round_minus [simp]: "go_round (- x) = - go_round x"
proof (cases "x = 0")
  case True
  then show ?thesis using go_round_near [of 0 0] by simp
qed (auto simp: go_round_def)

text \<open>A coarse bound, for numbers of any size.\<close>

lemma fl_half: "0 \<le> x \<Longrightarrow> x / 2 \<le> fl x"
proof -
  assume x: "0 \<le> x"
  have "\<bar>fl x - x\<bar> \<le> x / 2 ^ 53" using fl_error [of x] x by simp
  also have "\<dots> \<le> x / 2" using x by (intro divide_left_mono) simp_all
  finally show ?thesis by linarith
qed

lemmas float_ops = fadd_def fsub_def fmul_def fdiv_def

end
