(* ===== verification/Money.thy ===== *)
theory Money
  imports Float64
begin

text \<open>
  Amounts of money as the services keep them (\<open>application/service/expense.go\<close>,
  \<open>cost_splitting.go\<close>): a \<open>float64\<close> that \<open>round2\<close> has rounded to two decimals. \<open>cash c\<close> is the
  \<open>float64\<close> nearest to \<open>c\<close> cents. The lemmas show that up to \<open>2 ^ 45\<close> cents the rounding of the
  code always finds the cents back, so its sums, differences and minima are the exact ones.
\<close>

definition round2 :: "rat \<Rightarrow> rat" where
  "round2 v = fdiv (of_int (go_round (fmul v 100))) 100"

definition round4 :: "rat \<Rightarrow> rat" where
  "round4 v = fdiv (of_int (go_round (fmul v 10000))) 10000"

text \<open>
  Go's conversion of a whole \<open>float64\<close> to the 64-bit \<open>int\<close>: what does not fit becomes the least
  number on amd64 (the language leaves it to the machine).
\<close>

definition go_int :: "int \<Rightarrow> int" where
  "go_int n = (if - (2 ^ 63) \<le> n \<and> n < 2 ^ 63 then n else - (2 ^ 63))"

definition moneyCents :: "rat \<Rightarrow> int" where
  "moneyCents amount = go_int (go_round (fmul amount 100))"

definition centsMoney :: "int \<Rightarrow> rat" where
  "centsMoney cents = round2 (fdiv (fl (of_int cents)) 100)"

definition settlementTolerance :: rat where "settlementTolerance = fl (1 / 100)"

lemma go_int_id [simp]: "- (2 ^ 63) \<le> n \<Longrightarrow> n < 2 ^ 63 \<Longrightarrow> go_int n = n"
  by (simp add: go_int_def)

lemma go_int_range: "- (2 ^ 63) \<le> go_int n \<and> go_int n < 2 ^ 63"
  by (simp add: go_int_def)

lemma go_int_small:
  assumes "\<bar>go_int n\<bar> < 10 ^ 12"
  shows "go_int n = n"
  using assms by (simp add: go_int_def split: if_splits)

section \<open>Cents\<close>

definition cash :: "int \<Rightarrow> rat" where
  "cash c = fdiv (of_int c) 100"

text \<open>Within \<open>e\<close> cents of \<open>c\<close> cents.\<close>

definition near :: "rat \<Rightarrow> int \<Rightarrow> rat \<Rightarrow> bool" where
  "near e c v \<longleftrightarrow> \<bar>v * 100 - of_int c\<bar> \<le> e"

abbreviation max_cents :: int where "max_cents \<equiv> 2 ^ 45"

lemma near_iff: "near e c v \<longleftrightarrow> of_int c - e \<le> v * 100 \<and> v * 100 \<le> of_int c + e"
  by (auto simp: near_def abs_le_iff)

lemma near_mono: "near e c v \<Longrightarrow> e \<le> e' \<Longrightarrow> near e' c v"
  by (simp add: near_def)

lemma near_fl:
  assumes "of_int c - e \<le> x * 100" "x * 100 \<le> of_int c + e" "\<bar>c\<bar> \<le> m" "0 \<le> e" "e \<le> 1"
  shows "near (e + (of_int m + 1) / 2 ^ 53) c (fl x)"
proof -
  have "of_int \<bar>c\<bar> \<le> (of_int m :: rat)" using assms(3) by (simp only: of_int_le_iff)
  then have m: "\<bar>x * 100\<bar> \<le> of_int m + 1" using assms unfolding abs_le_iff of_int_abs by linarith
  have x: "\<bar>x\<bar> / 2 ^ 53 * 100 = \<bar>x * 100\<bar> / 2 ^ 53" by (simp add: abs_mult)
  have "\<bar>fl x * 100 - x * 100\<bar> = \<bar>fl x - x\<bar> * 100" using abs_mult [of "fl x - x" 100] by (simp add: left_diff_distrib)
  also have "\<dots> \<le> \<bar>x\<bar> / 2 ^ 53 * 100" by (rule mult_right_mono [OF fl_error]) simp
  also have "\<dots> \<le> (of_int m + 1) / 2 ^ 53" unfolding x by (rule divide_right_mono [OF m]) simp
  finally show ?thesis using assms(1,2) unfolding near_iff abs_le_iff by linarith
qed

lemma near_cash: "\<bar>c\<bar> \<le> m \<Longrightarrow> near ((of_int m + 1) / 2 ^ 53) c (cash c)"
  using near_fl [of c 0 "of_int c / 100" m] by (simp add: cash_def fdiv_def)

lemma near_cents:
  assumes "near (2 / 5) c v" "\<bar>c\<bar> \<le> max_cents"
  shows "moneyCents v = c" "round2 v = cash c"
proof -
  have "near (2 / 5 + 1 / 20) c (fl (v * 100) / 100)"
  proof -
    have "of_int \<bar>c\<bar> \<le> (of_int max_cents :: rat)" using assms(2) by (simp only: of_int_le_iff)
    then have "\<bar>v * 100\<bar> \<le> 2 ^ 45 + 1" using assms(1) unfolding near_iff abs_le_iff of_int_abs by simp
    then have "\<bar>v * 100\<bar> / 2 ^ 53 \<le> (2 ^ 45 + 1) / 2 ^ 53" by (intro divide_right_mono) simp_all
    then have "\<bar>v * 100\<bar> / 2 ^ 53 \<le> 1 / 20" by (rule order_trans) simp
    then show ?thesis using assms(1) fl_error [of "v * 100"] unfolding near_iff abs_le_iff by simp
  qed
  then have "\<bar>fmul v 100 - of_int c\<bar> < 1 / 2" unfolding near_iff fmul_def by linarith
  then have r: "go_round (fmul v 100) = c" by (rule go_round_near)
  show "moneyCents v = c" using r assms(2) by (simp add: moneyCents_def)
  show "round2 v = cash c" using r by (simp add: round2_def cash_def)
qed

lemma cash_near: "\<bar>c\<bar> \<le> max_cents \<Longrightarrow> near (1 / 100) c (cash c)"
  using near_cash [of c max_cents] by (rule near_mono) simp_all

lemma cash_cents [simp]:
  assumes "\<bar>c\<bar> \<le> max_cents"
  shows "moneyCents (cash c) = c" "round2 (cash c) = cash c"
  using near_cents [OF near_mono [OF cash_near [OF assms]] assms] by simp_all

lemma centsMoney_cash [simp]: "\<bar>c\<bar> \<le> max_cents \<Longrightarrow> centsMoney c = cash c"
  using fl_of_int [of c] by (simp add: centsMoney_def flip: cash_def)

text \<open>An amount of more than \<open>2 ^ 45\<close> cents, however inexact, stays far above \<open>10 ^ 12\<close> cents.\<close>

lemma centsMoney_minus: "centsMoney (- c) = - centsMoney c"
  by (simp add: centsMoney_def round2_def fdiv_def fmul_def)

lemma centsMoney_big:
  assumes "max_cents \<le> c"
  shows "10 ^ 12 \<le> go_round (fmul (centsMoney c) 100)"
proof -
  define r where "r = (of_int c :: rat)"
  have "(of_int max_cents :: rat) \<le> r" unfolding r_def using assms by (simp only: of_int_le_iff)
  then have r: "2 ^ 45 \<le> r" by simp
  define a where "a = fl r"
  define b where "b = fl (a / 100)"
  define d where "d = fl (b * 100)"
  define e where "e = fl (of_int (go_round d) / 100)"
  define f where "f = fl (e * 100)"
  have "r / 2 \<le> a" unfolding a_def using r by (intro fl_half) simp
  moreover from this have "a / 100 / 2 \<le> b" unfolding b_def using r by (intro fl_half) simp
  moreover from calculation have "b * 100 / 2 \<le> d" unfolding d_def using r by (intro fl_half) simp
  moreover have "d - 1 / 2 \<le> of_int (go_round d)" using go_round_error [of d] unfolding abs_le_iff by linarith
  ultimately have g: "r / 8 - 1 / 2 \<le> of_int (go_round d)" by linarith
  then have "of_int (go_round d) / 100 / 2 \<le> e" unfolding e_def using r by (intro fl_half) simp
  moreover from this have "e * 100 / 2 \<le> f" unfolding f_def using g r by (intro fl_half) simp
  moreover have "f - 1 / 2 \<le> of_int (go_round f)" using go_round_error [of f] unfolding abs_le_iff by linarith
  ultimately have "10 ^ 12 \<le> (of_int (go_round f) :: rat)" using g r by simp
  then have "(of_int (10 ^ 12) :: rat) \<le> of_int (go_round f)" by simp
  then have "10 ^ 12 \<le> go_round f" by (simp only: of_int_le_iff)
  then show ?thesis
    by (simp add: centsMoney_def round2_def fdiv_def fmul_def f_def e_def d_def b_def a_def r_def)
qed

lemma centsMoney_fits:
  assumes "0 \<le> moneyCents (centsMoney c)" "moneyCents (centsMoney c) < 10 ^ 12"
  shows "moneyCents (centsMoney c) = c"
proof (cases "\<bar>c\<bar> \<le> max_cents")
  case False
  have "moneyCents (centsMoney c) = go_round (fmul (centsMoney c) 100)"
    using assms unfolding moneyCents_def by (intro go_int_small) linarith
  moreover have "\<not> max_cents \<le> c" using centsMoney_big [of c] assms(2) calculation by linarith
  moreover have "\<not> max_cents \<le> - c"
    using centsMoney_big [of "- c"] assms(1) calculation by (auto simp: centsMoney_minus fmul_def)
  ultimately show ?thesis using False by linarith
qed simp

text \<open>Order, difference and negation of amounts are those of their cents.\<close>

lemma cash_less_iff [simp]:
  assumes "\<bar>a\<bar> \<le> max_cents" "\<bar>b\<bar> \<le> max_cents"
  shows "cash a < cash b \<longleftrightarrow> a < b"
proof -
  have *: "cash a < cash b" if "a < b" "\<bar>a\<bar> \<le> max_cents" "\<bar>b\<bar> \<le> max_cents" for a b
  proof -
    have "of_int (a + 1) \<le> (of_int b :: rat)" using that(1) by (simp only: of_int_le_iff)
    then show ?thesis using cash_near [OF that(2)] cash_near [OF that(3)] unfolding near_iff by simp
  qed
  have "a = b \<or> a < b \<or> b < a" by linarith
  then show ?thesis using * [OF _ assms] * [OF _ assms(2,1)] by force
qed

lemma cash_le_iff [simp]: "\<bar>a\<bar> \<le> max_cents \<Longrightarrow> \<bar>b\<bar> \<le> max_cents \<Longrightarrow> cash a \<le> cash b \<longleftrightarrow> a \<le> b"
  using cash_less_iff [of b a] by (metis not_less)

lemma cash_eq_iff [simp]: "\<bar>a\<bar> \<le> max_cents \<Longrightarrow> \<bar>b\<bar> \<le> max_cents \<Longrightarrow> cash a = cash b \<longleftrightarrow> a = b"
  by (metis cash_cents(1))

lemma settlementTolerance_cash: "settlementTolerance = cash 1"
  by (simp add: settlementTolerance_def cash_def fdiv_def)

lemma cash_0 [simp]: "cash 0 = 0"
  by (simp add: cash_def fdiv_def)

lemma round2_diff [simp]:
  assumes "\<bar>a\<bar> \<le> 2 ^ 44" "\<bar>b\<bar> \<le> 2 ^ 44"
  shows "round2 (fsub (cash a) (cash b)) = cash (a - b)"
proof -
  have ab: "\<bar>a\<bar> \<le> max_cents" "\<bar>b\<bar> \<le> max_cents" "\<bar>a - b\<bar> \<le> max_cents" using assms by simp_all
  have "of_int (a - b) - 1 / 50 \<le> (cash a - cash b) * 100" "(cash a - cash b) * 100 \<le> of_int (a - b) + 1 / 50"
    using cash_near [OF ab(1)] cash_near [OF ab(2)] unfolding near_iff by simp_all
  from near_fl [OF this ab(3)] have "near (1 / 50 + (of_int max_cents + 1) / 2 ^ 53) (a - b) (fsub (cash a) (cash b))"
    by (simp add: fsub_def)
  then have "near (2 / 5) (a - b) (fsub (cash a) (cash b))" by (rule near_mono) simp
  from near_cents(2) [OF this ab(3)] show ?thesis .
qed

lemma cash_minus: "cash (- c) = - cash c"
  by (simp add: cash_def fdiv_def)

lemma round2_minus [simp]: "\<bar>a\<bar> \<le> max_cents \<Longrightarrow> round2 (- cash a) = cash (- a)"
  using cash_cents(2) [of "- a"] by (simp add: cash_minus)

end
