(* ===== verification/ExpenseShares.thy ===== *)
theory ExpenseShares
  imports Money TripStore GoText "HOL-Library.AList"
begin

text \<open>
  How an expense is divided (\<open>calculateExpenseParticipants\<close> of
  \<open>application/service/expense.go\<close>). A Go map from user ids to numbers is an association list,
  read with the default 0; ids are ordered by their text, which is the order of the 128-bit
  numbers. \<open>fresh i\<close> is the id drawn for the i-th row. Cents are 64-bit numbers whose sums wrap around
  (\<open>wrap64\<close>).
\<close>

section \<open>Go maps to numbers\<close>

definition entry :: "('k \<times> 'v :: zero) list \<Rightarrow> 'k \<Rightarrow> 'v" where
  "entry t k = (case map_of t k of None \<Rightarrow> 0 | Some v \<Rightarrow> v)"

definition put :: "'k \<Rightarrow> 'v \<Rightarrow> ('k \<times> 'v) list \<Rightarrow> ('k \<times> 'v) list" where
  "put k v t = AList.update k v t"

lemma entry_put [simp]: "entry (put k v t) = (entry t)(k := v)"
  by (rule ext) (simp add: entry_def put_def AList.update_conv')

lemma entry_Nil [simp]: "entry [] k = 0"
  by (simp add: entry_def)

lemma keys_put [simp]: "fst ` set (put k v t) = insert k (fst ` set t)"
  by (simp add: put_def AList.dom_update)

lemma distinct_put [simp]: "distinct (map fst t) \<Longrightarrow> distinct (map fst (put k v t))"
  by (simp add: put_def AList.distinct_update)

section \<open>Rows and inputs\<close>

datatype expense_split =
    SplitEqual | SplitSelectedEqual | SplitCustomAmounts | SplitCustomPercentages | SplitPayerOnly
  | OtherSplit string

datatype expense_category =
    CatTransport | CatAccommodation | CatFood | CatTickets | CatActivities | CatShopping | CatFuel
  | CatParking | CatTolls | CatCamping | CatGroceries | CatHealthSafety | CatOther

datatype expense_status = ExpenseActive | ExpenseDeleted

record trip_expense =
  ex_id :: uuid
  ex_trip :: uuid
  ex_title :: string
  ex_description :: "string option"
  ex_amount :: rat
  ex_currency :: string
  ex_category :: expense_category
  ex_date :: time
  ex_payer :: uuid
  ex_split :: expense_split
  ex_day :: "int option"
  ex_item :: "int option"
  ex_item_id :: "string option"
  ex_leg :: "string option"
  ex_accommodation :: bool
  ex_notes :: "string option"
  ex_status :: expense_status
  ex_created_by :: uuid
  ex_updated_by :: "uuid option"
  ex_deleted_by :: "uuid option"
  ex_deleted_at :: "time option"
  ex_created_at :: time
  ex_updated_at :: time

record expense_participant =
  pt_id :: uuid
  pt_expense :: uuid
  pt_trip :: uuid
  pt_user :: uuid
  pt_amount :: "rat option"
  pt_currency :: "string option"
  pt_percentage :: "rat option"

record custom_amount =
  ca_user :: uuid
  ca_amount :: rat
  ca_currency :: string

record custom_percentage =
  cp_user :: uuid
  cp_percentage :: rat

record traveler =
  tv_name :: string
  tv_user :: "uuid option"

type_synonym expense_users = "(uuid \<times> string) list"

section \<open>Lists of ids\<close>

definition dedupeUUIDs :: "uuid list \<Rightarrow> uuid list" where
  "dedupeUUIDs ids = fold (\<lambda>i out. if i = 0 \<or> i \<in> set out then out else out @ [i]) ids []"

definition linkedTravelerUserIDs :: "traveler list \<Rightarrow> uuid list" where
  "linkedTravelerUserIDs travelers = dedupeUUIDs (List.map_filter tv_user travelers)"

definition sortedUserIDs :: "expense_users \<Rightarrow> uuid list" where
  "sortedUserIDs users = sort (map fst users)"

definition sortedShareKeys :: "(uuid \<times> int) list \<Rightarrow> uuid list" where
  "sortedShareKeys shares = sort (map fst shares)"

section \<open>Shares\<close>

definition assignEqualShares :: "int \<Rightarrow> uuid list \<Rightarrow> (uuid \<times> int) list \<Rightarrow> (uuid \<times> int) list" where
  "assignEqualShares cents ids out =
    (if ids = [] then out
     else (let base = go_div cents (int (length ids)); extra = go_mod cents (int (length ids))
           in fold (\<lambda>(index, i) out. put i (if int index < extra then base + 1 else base) out)
                (enumerate 0 (sort ids)) out))"

definition percentageCents :: "int \<Rightarrow> rat \<Rightarrow> int" where
  "percentageCents cents p = go_int (go_round (fdiv (fmul (fl (of_int cents)) p) 100))"

function spreadRemainder :: "uuid list \<Rightarrow> nat \<Rightarrow> int \<Rightarrow> (uuid \<times> int) list \<Rightarrow> (uuid \<times> int) list" where
  "spreadRemainder ids i left out =
    (if left = 0 \<or> ids = [] then out
     else (let k = ids ! (i mod length ids)
           in if left > 0 then spreadRemainder ids (i + 1) (left - 1) (put k (wrap64 (entry out k + 1)) out)
              else if entry out k > 0 then spreadRemainder ids (i + 1) (left + 1) (put k (entry out k - 1) out)
              else spreadRemainder ids (i + 1) (left + 1) out))"
  by pat_completeness auto
termination
  by (relation "measure (\<lambda>(ids, i, left, out). nat \<bar>left\<bar>)") auto

declare spreadRemainder.simps [simp del]

definition assignPercentageShares ::
  "int \<Rightarrow> uuid list \<Rightarrow> (uuid \<times> rat) list \<Rightarrow> (uuid \<times> int) list \<Rightarrow> (uuid \<times> int) list" where
  "assignPercentageShares cents ids percentages out =
    (let s = sort ids;
         (out', added) = fold (\<lambda>i (out, added). (put i (percentageCents cents (entry percentages i)) out,
                          wrap64 (added + percentageCents cents (entry percentages i)))) s (out, 0)
     in spreadRemainder s 0 (wrap64 (cents - added)) out')"

text \<open>
  The custom amounts and percentages, added up per user while they are checked. The cents are Go
  \<open>int\<close>s: their sums wrap around at 64 bits.
\<close>

fun addCustomAmounts ::
  "trip_expense \<Rightarrow> expense_users \<Rightarrow> custom_amount list \<Rightarrow> (uuid \<times> int) list \<times> int \<Rightarrow>
   app_error + (uuid \<times> int) list \<times> int" where
  "addCustomAmounts expense users [] acc = Inr acc"
| "addCustomAmounts expense users (a # as) (shares, added) =
    (if ca_user a \<notin> fst ` set users then Inl (InvalidInput ''custom share references an unknown participant'')
     else if to_upper (trim_space (ca_currency a)) \<noteq> ex_currency expense then
       Inl (InvalidInput ''custom share currency must match expense currency'')
     else if moneyCents (ca_amount a) < 0 then
       Inl (InvalidInput ''custom share amount must be non-negative'')
     else addCustomAmounts expense users as
       (put (ca_user a) (wrap64 (entry shares (ca_user a) + moneyCents (ca_amount a))) shares,
        wrap64 (added + moneyCents (ca_amount a))))"

fun addCustomPercentages ::
  "expense_users \<Rightarrow> custom_percentage list \<Rightarrow> (uuid \<times> rat) list \<times> rat \<Rightarrow>
   app_error + (uuid \<times> rat) list \<times> rat" where
  "addCustomPercentages users [] acc = Inr acc"
| "addCustomPercentages users (a # as) (percentages, added) =
    (if cp_user a \<notin> fst ` set users then
       Inl (InvalidInput ''custom percentage references an unknown participant'')
     else if cp_percentage a < 0 then Inl (InvalidInput ''custom percentage must be non-negative'')
     else addCustomPercentages users as
       (put (cp_user a) (fadd (entry percentages (cp_user a)) (cp_percentage a)) percentages,
        fadd added (cp_percentage a)))"

text \<open>Who takes part, with which shares in cents and which percentages.\<close>

definition splitExpense ::
  "trip_expense \<Rightarrow> uuid list \<Rightarrow> custom_amount list \<Rightarrow> custom_percentage list \<Rightarrow> expense_users \<Rightarrow>
   traveler list \<Rightarrow> app_error + uuid list \<times> (uuid \<times> int) list \<times> (uuid \<times> rat) list" where
  "splitExpense expense selected customShares customPercentages users travelers =
    (let cents = moneyCents (ex_amount expense)
     in case ex_split expense of
          SplitEqual \<Rightarrow>
            (let linked = linkedTravelerUserIDs travelers;
                 ids = (if linked = [] then sortedUserIDs users else linked)
             in Inr (sort ids, assignEqualShares cents ids [], []))
        | SplitSelectedEqual \<Rightarrow>
            (let ids = dedupeUUIDs selected
             in if ids = [] then Inl (InvalidInput ''participantUserIds is required'')
                else Inr (sort ids, assignEqualShares cents ids [], []))
        | SplitCustomAmounts \<Rightarrow>
            (if customShares = [] then Inl (InvalidInput ''customShares is required'')
             else rbind (addCustomAmounts expense users customShares ([], 0)) (\<lambda>(shares, added).
               if added \<noteq> cents then Inl (InvalidInput ''customShares must sum to the expense amount'')
               else Inr (sortedShareKeys shares, shares, [])))
        | SplitCustomPercentages \<Rightarrow>
            (if customPercentages = [] then Inl (InvalidInput ''customPercentages is required'')
             else rbind (addCustomPercentages users customPercentages ([], 0)) (\<lambda>(percentages, added).
               if \<bar>fsub added 100\<bar> > fl (1 / 100) then
                 Inl (InvalidInput ''customPercentages must sum to 100'')
               else (let ids = dedupeUUIDs (map cp_user customPercentages)
                     in Inr (sort ids, assignPercentageShares cents ids percentages [], percentages))))
        | SplitPayerOnly \<Rightarrow>
            Inr ([ex_payer expense], [(ex_payer expense, cents)], [(ex_payer expense, 100)])
        | OtherSplit _ \<Rightarrow> Inl (InvalidInput ''splitType is invalid''))"

definition participantRow ::
  "trip_expense \<Rightarrow> (uuid \<times> int) list \<Rightarrow> (uuid \<times> rat) list \<Rightarrow> uuid \<Rightarrow> uuid \<Rightarrow> expense_participant" where
  "participantRow expense shares percentages rid uid =
    (let cents = moneyCents (ex_amount expense); p = entry percentages uid
     in \<lparr>pt_id = rid, pt_expense = ex_id expense, pt_trip = ex_trip expense, pt_user = uid,
         pt_amount = Some (centsMoney (entry shares uid)), pt_currency = Some (ex_currency expense),
         pt_percentage = Some (if p = 0 \<and> cents > 0
           then round4 (fmul (fdiv (fl (of_int (entry shares uid))) (fl (of_int cents))) 100) else p)\<rparr>)"

definition calculateExpenseParticipants ::
  "(nat \<Rightarrow> uuid) \<Rightarrow> trip_expense \<Rightarrow> uuid list \<Rightarrow> custom_amount list \<Rightarrow> custom_percentage list \<Rightarrow>
   expense_users \<Rightarrow> traveler list \<Rightarrow> app_error + expense_participant list" where
  "calculateExpenseParticipants fresh expense selected customShares customPercentages users travelers =
    rbind (splitExpense expense selected customShares customPercentages users travelers)
      (\<lambda>(ids, shares, percentages).
       if ids = [] then Inl (InvalidInput ''at least one participant is required'')
       else if \<not> set ids \<subseteq> fst ` set users then
         Inl (InvalidInput ''participantUserIds references a user without trip access'')
       else Inr (map (\<lambda>(n, uid). participantRow expense shares percentages (fresh n) uid) (enumerate 0 (sort ids))))"

end
