(* ===== verification/Settlements.thy ===== *)
theory Settlements
  imports ExpenseShares
begin

text \<open>
  Who pays whom (\<open>settlementSuggestions\<close> of \<open>application/service/expense.go\<close>): the largest debtor
  pays the largest creditor until one side is within the tolerance of a cent. The loop is a
  \<open>partial_function\<close>, so that not returning is \<open>None\<close>; the two indices into the sorted slices are
  the lists of what is left of them. The text of a suggestion's id is the tuple it is printed from.
\<close>

datatype settlement_id =
    Calculated uuid uuid uuid rat string string
  | Stored uuid
  | Malformed

record settlement_side =
  sd_user :: uuid
  sd_amount :: rat

datatype balance_status = Settled | GetsBack | Owes

record expense_balance =
  eb_user :: uuid
  eb_paid :: rat
  eb_share :: rat
  eb_net :: rat
  eb_settled :: rat
  eb_outstanding :: rat
  eb_status :: balance_status

record settlement_suggestion =
  sg_id :: settlement_id
  sg_from :: uuid
  sg_to :: uuid
  sg_amount :: rat
  sg_currency :: string
  sg_hash :: string

definition calculatedSettlementID ::
  "uuid \<Rightarrow> uuid \<Rightarrow> uuid \<Rightarrow> rat \<Rightarrow> string \<Rightarrow> string \<Rightarrow> settlement_id" where
  "calculatedSettlementID tid from to amount currency hash = Calculated tid from to amount currency hash"

text \<open>By amount, the largest first, then by user: two stable sorts.\<close>

definition sortSides :: "settlement_side list \<Rightarrow> settlement_side list" where
  "sortSides items = sort_key (\<lambda>s. - sd_amount s) (sort_key sd_user items)"

definition settlementSides :: "expense_balance list \<Rightarrow> settlement_side list \<times> settlement_side list" where
  "settlementSides balances =
    (List.map_filter (\<lambda>b. if eb_outstanding b < - settlementTolerance
        then Some \<lparr>sd_user = eb_user b, sd_amount = round2 (- eb_outstanding b)\<rparr> else None) balances,
     List.map_filter (\<lambda>b. if \<not> eb_outstanding b < - settlementTolerance \<and> eb_outstanding b > settlementTolerance
        then Some \<lparr>sd_user = eb_user b, sd_amount = round2 (eb_outstanding b)\<rparr> else None) balances)"

partial_function (option) settleLoop ::
  "(uuid \<Rightarrow> uuid \<Rightarrow> rat \<Rightarrow> settlement_suggestion) \<Rightarrow> settlement_side list \<Rightarrow> settlement_side list \<Rightarrow>
   settlement_suggestion list \<Rightarrow> settlement_suggestion list option" where
  "settleLoop mk debtors creditors out =
    (if debtors = [] \<or> creditors = [] then Some out
     else (let d = hd debtors; c = hd creditors;
               amount = round2 (min (sd_amount d) (sd_amount c));
               out' = (if amount > settlementTolerance then out @ [mk (sd_user d) (sd_user c) amount] else out);
               d' = d\<lparr>sd_amount := round2 (fsub (sd_amount d) amount)\<rparr>;
               c' = c\<lparr>sd_amount := round2 (fsub (sd_amount c) amount)\<rparr>
           in settleLoop mk
                (if sd_amount d' \<le> settlementTolerance then tl debtors else d' # tl debtors)
                (if sd_amount c' \<le> settlementTolerance then tl creditors else c' # tl creditors) out'))"

definition settlementSuggestions ::
  "uuid \<Rightarrow> string \<Rightarrow> expense_balance list \<Rightarrow> string \<Rightarrow> settlement_suggestion list option" where
  "settlementSuggestions tid currency balances hash =
    (case settlementSides balances of (debtors, creditors) \<Rightarrow>
       settleLoop (\<lambda>from to amount.
           \<lparr>sg_id = calculatedSettlementID tid from to amount currency hash, sg_from = from, sg_to = to,
            sg_amount = round2 amount, sg_currency = currency, sg_hash = hash\<rparr>)
         (sortSides debtors) (sortSides creditors) [])"

section \<open>The same in cents\<close>

type_synonym cent_side = "uuid \<times> int"

function settleCents :: "cent_side list \<Rightarrow> cent_side list \<Rightarrow> (uuid \<times> uuid \<times> int) list" where
  "settleCents ((u, d) # ds) ((v, c) # cs) =
    (let a = min d c
     in (if a > 1 then [(u, v, a)] else []) @
        settleCents (if d - a \<le> 1 then ds else (u, d - a) # ds) (if c - a \<le> 1 then cs else (v, c - a) # cs))"
| "settleCents [] cs = []"
| "settleCents ((u, d) # ds) [] = []"
  by pat_completeness auto
termination
  by (relation "measure (\<lambda>(ds, cs). length ds + length cs)") (auto simp: min_def)

declare settleCents.simps(1) [simp del]

lemma settleCents_none: "settleCents ds [] = []"
  by (cases ds) auto

text \<open>One of the two sides is always done with.\<close>

lemma settleCents_step:
  assumes "1 < d" "1 < c"
  obtains (debtor) "d \<le> c" "settleCents ((u, d) # ds) ((v, c) # cs) =
      (u, v, d) # settleCents ds (if c - d \<le> 1 then cs else (v, c - d) # cs)"
    | (creditor) "c < d" "settleCents ((u, d) # ds) ((v, c) # cs) =
      (u, v, c) # settleCents (if d - c \<le> 1 then ds else (u, d - c) # ds) cs"
  using assms that by (cases "d \<le> c") (simp_all add: settleCents.simps Let_def)

definition sideCash :: "cent_side \<Rightarrow> settlement_side" where
  "sideCash p = \<lparr>sd_user = fst p, sd_amount = cash (snd p)\<rparr>"

lemma side_sel: "sd_user (sideCash (u, d)) = u" "sd_amount (sideCash (u, d)) = cash d"
  "(sideCash (u, d))\<lparr>sd_amount := cash e\<rparr> = sideCash (u, e)"
  by (simp_all add: sideCash_def)

definition small_sides :: "cent_side list \<Rightarrow> bool" where
  "small_sides ps \<longleftrightarrow> (\<forall>(u, d) \<in> set ps. 1 < d \<and> d \<le> 2 ^ 44)"

lemma small_sides_Cons [simp]: "small_sides ((u, d) # ps) \<longleftrightarrow> 1 < d \<and> d \<le> 2 ^ 44 \<and> small_sides ps"
  "small_sides []"
  by (auto simp: small_sides_def)

lemma settleLoop_step:
  assumes "amount = round2 (min (sd_amount d) (sd_amount c))" "settlementTolerance < amount"
    and "x = round2 (fsub (sd_amount d) amount)" "y = round2 (fsub (sd_amount c) amount)"
  shows "settleLoop mk (d # ds) (c # cs) out =
    settleLoop mk (if x \<le> settlementTolerance then ds else d\<lparr>sd_amount := x\<rparr> # ds)
      (if y \<le> settlementTolerance then cs else c\<lparr>sd_amount := y\<rparr> # cs) (out @ [mk (sd_user d) (sd_user c) amount])"
  using assms by (subst settleLoop.simps) (simp add: Let_def)

lemma settleLoop_Nil [simp]: "settleLoop mk [] cs out = Some out" "settleLoop mk ds [] out = Some out"
  by (simp_all add: settleLoop.simps)

text \<open>The loop of the code returns, and is the one in cents.\<close>

lemma settleLoop_cents:
  assumes "small_sides ds" "small_sides cs"
  shows "settleLoop mk (map sideCash ds) (map sideCash cs) out =
    Some (out @ map (\<lambda>(u, v, a). mk u v (cash a)) (settleCents ds cs))"
  using assms
proof (induction ds cs arbitrary: out rule: settleCents.induct)
  case (1 u d ds v c cs)
  have b: "1 < d" "1 < c" "d \<le> 2 ^ 44" "c \<le> 2 ^ 44" "small_sides ds" "small_sides cs" using 1(2,3) by simp_all
  define a where "a = min d c"
  define x where "x = d - a"
  define y where "y = c - a"
  let ?ds = "if x \<le> 1 then ds else (u, x) # ds" and ?cs = "if y \<le> 1 then cs else (v, y) # cs"
  have a: "1 < a" "a \<le> 2 ^ 44" and xy: "0 \<le> x" "x \<le> 2 ^ 44" "0 \<le> y" "y \<le> 2 ^ 44"
    using b by (simp_all add: a_def x_def y_def)
  have big: "\<bar>n\<bar> \<le> max_cents" if "0 \<le> n" "n \<le> 2 ^ 44" for n :: int using that by simp
  have "min (cash d) (cash c) = cash a"
    using cash_le_iff [OF big big, of d c] b by (cases "d \<le> c") (simp_all add: min_def a_def)
  then have mn: "cash a = round2 (min (sd_amount (sideCash (u, d))) (sd_amount (sideCash (v, c))))"
    using cash_cents(2) [OF big, of a] a by (simp add: side_sel)
  have sub: "cash x = round2 (fsub (sd_amount (sideCash (u, d))) (cash a))"
      "cash y = round2 (fsub (sd_amount (sideCash (v, c))) (cash a))"
    using b a round2_diff [of d a] round2_diff [of c a] by (simp_all add: side_sel x_def y_def)
  have tol: "settlementTolerance < cash a" "cash x \<le> settlementTolerance \<longleftrightarrow> x \<le> 1"
    "cash y \<le> settlementTolerance \<longleftrightarrow> y \<le> 1"
    using cash_less_iff [OF big big, of 1 a] cash_le_iff [OF big big, of x 1] cash_le_iff [OF big big, of y 1] a xy
    unfolding settlementTolerance_cash by simp_all
  have "settleLoop mk (map sideCash ((u, d) # ds)) (map sideCash ((v, c) # cs)) out =
      settleLoop mk (map sideCash ?ds) (map sideCash ?cs) (out @ [mk u v (cash a)])"
    unfolding list.map settleLoop_step [OF mn tol(1) sub] tol(2,3) side_sel
    by (cases "x \<le> 1"; cases "y \<le> 1") (simp_all only: if_True if_False list.map simp_thms)
  also have "\<dots> = Some ((out @ [mk u v (cash a)]) @ map (\<lambda>(u, v, a). mk u v (cash a)) (settleCents ?ds ?cs))"
    by (rule "1.IH" [OF a_def, folded x_def y_def]) (use b xy in auto)
  finally show ?case using a by (simp only: settleCents.simps(1) Let_def a_def [symmetric] x_def [symmetric] y_def [symmetric])
    simp
qed simp_all

end
