(* ===== verification/ExpenseTable.thy ===== *)
theory ExpenseTable
  imports Settlements JobTable
begin

text \<open>
  The tables of expenses, their participants and settlements, with the statements of
  \<open>infrastructure/repository/postgres/expense.go\<close>. A \<open>NUMERIC(12,2)\<close> column holds whole cents:
  an amount is stored as \<open>math.Round(amount * 100)\<close> and read back as the nearest \<open>float64\<close>
  (\<open>dto/trip.go\<close>); percentages go the same way. A transaction that fails leaves the tables as they
  were. Dates are compared as days, free-form metadata is left out.
\<close>

datatype settlement_status = SettlementPending | SettlementPaid | SettlementCancelled
datatype settlement_source = SourceCalculated | SourceManual

record trip_settlement =
  st_id :: uuid
  st_trip :: uuid
  st_from :: uuid
  st_to :: uuid
  st_amount :: rat
  st_currency :: string
  st_status :: settlement_status
  st_source :: settlement_source
  st_hash :: "string option"
  st_paid_at :: "time option"
  st_paid_by :: "uuid option"
  st_cancelled_at :: "time option"
  st_cancelled_by :: "uuid option"
  st_notes :: "string option"
  st_created_at :: time
  st_updated_at :: time

record expense_db =
  xb_trips :: trip_db
  xb_travelers :: "(uuid \<times> traveler) list"
  xb_expenses :: "trip_expense list"
  xb_participants :: "expense_participant list"
  xb_settlements :: "trip_settlement list"

section \<open>Numeric columns\<close>

definition toPgNumeric :: "rat \<Rightarrow> int" where
  "toPgNumeric f = go_int (go_round (fmul f 100))"

definition fromPgNumeric :: "int \<Rightarrow> rat" where
  "fromPgNumeric c = fl (of_int c / 100)"

text \<open>A write to a column with \<open>digits\<close> digits, two of them behind the point, and its reading back.\<close>

definition numeric_fits :: "nat \<Rightarrow> rat \<Rightarrow> bool" where
  "numeric_fits digits f \<longleftrightarrow> \<bar>toPgNumeric f\<bar> < 10 ^ digits"

definition stored_numeric :: "rat \<Rightarrow> rat" where
  "stored_numeric f = fromPgNumeric (toPgNumeric f)"

lemma stored_numeric_cash: "stored_numeric f = cash (toPgNumeric f)"
  by (simp add: stored_numeric_def fromPgNumeric_def cash_def fdiv_def)

lemma toPgNumeric_moneyCents: "toPgNumeric f = moneyCents f"
  by (simp add: toPgNumeric_def moneyCents_def)

section \<open>Expenses\<close>

definition expense_params_ok :: "trip_expense \<Rightarrow> bool" where
  "expense_params_ok e \<longleftrightarrow>
     opt_all int32_range (ex_day e) \<and> opt_all int32_range (ex_item e) \<and>
     storable (ex_title e) \<and> opt_all storable (ex_description e) \<and> opt_all storable (ex_item_id e) \<and>
     opt_all storable (ex_leg e) \<and> opt_all storable (ex_notes e) \<and>
     numeric_fits 12 (ex_amount e) \<and> 0 \<le> toPgNumeric (ex_amount e)"

definition stored_expense :: "trip_expense \<Rightarrow> trip_expense" where
  "stored_expense e = e\<lparr>ex_amount := stored_numeric (ex_amount e)\<rparr>"

definition createTripExpense :: "time \<Rightarrow> trip_expense \<Rightarrow> expense_db \<Rightarrow> app_error + (trip_expense \<times> expense_db)" where
  "createTripExpense now expense db =
    (let e = (stored_expense expense)\<lparr>ex_created_at := now, ex_updated_at := now, ex_deleted_at := None,
           ex_deleted_by := None\<rparr>
     in if select_row (\<lambda>r. ex_id r = ex_id e) (xb_expenses db) \<noteq> None \<or> \<not> expense_params_ok expense
        then Inl (DatabaseErr ''scan trip expense'')
        else Inr (e, db\<lparr>xb_expenses := xb_expenses db @ [e]\<rparr>))"

definition createTripExpenseParticipant ::
  "expense_participant \<Rightarrow> expense_db \<Rightarrow> app_error + (expense_participant \<times> expense_db)" where
  "createTripExpenseParticipant participant db =
    (let p = participant\<lparr>pt_amount := map_option stored_numeric (pt_amount participant),
           pt_percentage := map_option stored_numeric (pt_percentage participant)\<rparr>
     in if select_row (\<lambda>r. pt_id r = pt_id p \<or> pt_expense r = pt_expense p \<and> pt_user r = pt_user p)
            (xb_participants db) \<noteq> None \<or>
          \<not> opt_all (\<lambda>a. numeric_fits 12 a \<and> 0 \<le> toPgNumeric a) (pt_amount participant) \<or>
          \<not> opt_all (\<lambda>a. numeric_fits 5 a \<and> 0 \<le> toPgNumeric a) (pt_percentage participant)
        then Inl (DatabaseErr ''scan trip expense participant'')
        else Inr (p, db\<lparr>xb_participants := xb_participants db @ [p]\<rparr>))"

fun createParticipants ::
  "uuid \<Rightarrow> uuid \<Rightarrow> expense_participant list \<Rightarrow> expense_db \<Rightarrow>
   app_error + (expense_participant list \<times> expense_db)" where
  "createParticipants eid tid [] db = Inr ([], db)"
| "createParticipants eid tid (p # ps) db =
    rbind (createTripExpenseParticipant (p\<lparr>pt_expense := eid, pt_trip := tid\<rparr>) db) (\<lambda>(q, db1).
    rbind (createParticipants eid tid ps db1) (\<lambda>(qs, db2). Inr (q # qs, db2)))"

definition CreateTripExpenseWithParticipants ::
  "time \<Rightarrow> trip_expense \<Rightarrow> expense_participant list \<Rightarrow> expense_db \<Rightarrow>
   app_error + ((trip_expense \<times> expense_participant list) \<times> expense_db)" where
  "CreateTripExpenseWithParticipants now expense participants db =
    rbind (createTripExpense now expense db) (\<lambda>(e, db1).
    rbind (createParticipants (ex_id e) (ex_trip e) participants db1) (\<lambda>(ps, db2). Inr ((e, ps), db2)))"

definition updateTripExpense :: "time \<Rightarrow> trip_expense \<Rightarrow> expense_db \<Rightarrow> app_error + (trip_expense \<times> expense_db)" where
  "updateTripExpense now expense db =
    (if \<not> expense_params_ok expense then Inl (DatabaseErr ''scan trip expense'')
     else (let s = stored_expense expense
           in case update_returning
               (\<lambda>r. ex_trip r = ex_trip expense \<and> ex_id r = ex_id expense \<and> ex_status r = ExpenseActive)
               (\<lambda>r. r\<lparr>ex_title := ex_title s, ex_description := ex_description s, ex_amount := ex_amount s,
                  ex_currency := ex_currency s, ex_category := ex_category s, ex_date := ex_date s,
                  ex_payer := ex_payer s, ex_split := ex_split s, ex_day := ex_day s, ex_item := ex_item s,
                  ex_item_id := ex_item_id s, ex_leg := ex_leg s, ex_accommodation := ex_accommodation s,
                  ex_notes := ex_notes s, ex_updated_by := ex_updated_by s, ex_updated_at := now\<rparr>)
               (xb_expenses db) of
                None \<Rightarrow> Inl ErrNotFound
              | Some (e, rows) \<Rightarrow> Inr (e, db\<lparr>xb_expenses := rows\<rparr>)))"

definition listTripExpenseParticipantsByExpense :: "uuid \<Rightarrow> uuid \<Rightarrow> expense_db \<Rightarrow> expense_participant list" where
  "listTripExpenseParticipantsByExpense tid eid db =
    sort_key pt_user (filter (\<lambda>p. pt_trip p = tid \<and> pt_expense p = eid) (xb_participants db))"

definition UpdateTripExpenseWithParticipants ::
  "time \<Rightarrow> trip_expense \<Rightarrow> expense_participant list \<Rightarrow> bool \<Rightarrow> expense_db \<Rightarrow>
   app_error + ((trip_expense \<times> expense_participant list) \<times> expense_db)" where
  "UpdateTripExpenseWithParticipants now expense participants replace db =
    rbind (updateTripExpense now expense db) (\<lambda>(e, db1).
    if replace then
      rbind (createParticipants (ex_id e) (ex_trip e) participants
        (db1\<lparr>xb_participants := filter (\<lambda>p. \<not> (pt_expense p = ex_id expense \<and> pt_trip p = ex_trip expense))
          (xb_participants db1)\<rparr>)) (\<lambda>(ps, db2). Inr ((e, ps), db2))
    else Inr ((e, listTripExpenseParticipantsByExpense (ex_trip expense) (ex_id expense) db1), db1))"

definition GetTripExpenseByID :: "uuid \<Rightarrow> uuid \<Rightarrow> expense_db \<Rightarrow> app_error + trip_expense" where
  "GetTripExpenseByID tid eid db =
    (case select_row (\<lambda>e. ex_trip e = tid \<and> ex_id e = eid) (xb_expenses db) of
       None \<Rightarrow> Inl ErrNotFound | Some e \<Rightarrow> Inr e)"

definition SoftDeleteTripExpense ::
  "time \<Rightarrow> uuid \<Rightarrow> uuid \<Rightarrow> uuid \<Rightarrow> expense_db \<Rightarrow> app_error + (trip_expense \<times> expense_db)" where
  "SoftDeleteTripExpense now tid eid actor db =
    (case update_returning (\<lambda>r. ex_trip r = tid \<and> ex_id r = eid \<and> ex_status r \<noteq> ExpenseDeleted)
       (\<lambda>r. r\<lparr>ex_status := ExpenseDeleted, ex_deleted_at := Some now, ex_deleted_by := Some actor,
          ex_updated_by := Some actor, ex_updated_at := now\<rparr>) (xb_expenses db) of
       None \<Rightarrow> Inl ErrNotFound
     | Some (e, rows) \<Rightarrow> Inr (e, db\<lparr>xb_expenses := rows\<rparr>))"

text \<open>The filters of the list endpoint; no filter and no limit for the sums.\<close>

record expense_filters =
  xf_category :: "expense_category option"
  xf_payer :: "uuid option"
  xf_from :: "time option"
  xf_to :: "time option"
  xf_linked :: bool
  xf_limit :: int
  xf_offset :: int

definition no_filters :: expense_filters where
  "no_filters = \<lparr>xf_category = None, xf_payer = None, xf_from = None, xf_to = None, xf_linked = False,
     xf_limit = 0, xf_offset = 0\<rparr>"

definition ListTripExpensesByTrip :: "uuid \<Rightarrow> expense_filters \<Rightarrow> expense_db \<Rightarrow> trip_expense list" where
  "ListTripExpensesByTrip tid f db =
    (let rows = filter (\<lambda>e. ex_trip e = tid \<and> ex_status e = ExpenseActive \<and>
            opt_all (\<lambda>c. ex_category e = c) (xf_category f) \<and> opt_all (\<lambda>u. ex_payer e = u) (xf_payer f) \<and>
            opt_all (\<lambda>d. d \<le> ex_date e) (xf_from f) \<and> opt_all (\<lambda>d. ex_date e \<le> d) (xf_to f) \<and>
            (xf_linked f \<longrightarrow> ex_day e \<noteq> None \<or> ex_leg e \<noteq> None \<or> ex_accommodation e)) (xb_expenses db);
         ordered = rev (sort_key ex_date (sort_key ex_created_at (sort_key ex_id rows)));
         shifted = (if xf_offset f > 0 then drop (nat (xf_offset f)) ordered else ordered)
     in if xf_limit f > 0 then take (nat (xf_limit f)) shifted else shifted)"

definition ListExpenseParticipantsByTrip :: "uuid \<Rightarrow> expense_db \<Rightarrow> expense_participant list" where
  "ListExpenseParticipantsByTrip tid db =
    sort_key pt_user (filter (\<lambda>p. pt_trip p = tid \<and>
      (\<exists>e \<in> set (xb_expenses db). ex_id e = pt_expense p \<and> ex_status e = ExpenseActive)) (xb_participants db))"

definition ListActiveTripTravelersByTrip :: "uuid \<Rightarrow> expense_db \<Rightarrow> traveler list" where
  "ListActiveTripTravelersByTrip tid db = map snd (filter (\<lambda>(t, v). t = tid) (xb_travelers db))"

section \<open>Settlements\<close>

definition CreateTripSettlement :: "time \<Rightarrow> trip_settlement \<Rightarrow> expense_db \<Rightarrow> app_error + (trip_settlement \<times> expense_db)" where
  "CreateTripSettlement now settlement db =
    (let s = settlement\<lparr>st_amount := stored_numeric (st_amount settlement), st_cancelled_at := None,
           st_cancelled_by := None, st_created_at := now, st_updated_at := now\<rparr>
     in if select_row (\<lambda>r. st_id r = st_id s) (xb_settlements db) \<noteq> None \<or>
          \<not> numeric_fits 12 (st_amount settlement) \<or> toPgNumeric (st_amount settlement) \<le> 0 \<or>
          st_from s = st_to s \<or> \<not> opt_all storable (st_notes s)
        then Inl (DatabaseErr ''scan trip settlement'')
        else Inr (s, db\<lparr>xb_settlements := xb_settlements db @ [s]\<rparr>))"

definition GetTripSettlementByID :: "uuid \<Rightarrow> uuid \<Rightarrow> expense_db \<Rightarrow> app_error + trip_settlement" where
  "GetTripSettlementByID tid sid db =
    (case select_row (\<lambda>s. st_trip s = tid \<and> st_id s = sid) (xb_settlements db) of
       None \<Rightarrow> Inl ErrNotFound | Some s \<Rightarrow> Inr s)"

definition ListTripSettlementsByTrip :: "uuid \<Rightarrow> expense_db \<Rightarrow> trip_settlement list" where
  "ListTripSettlementsByTrip tid db =
    rev (sort_key st_created_at (sort_key st_id (filter (\<lambda>s. st_trip s = tid) (xb_settlements db))))"

definition MarkTripSettlementPaidRow ::
  "time \<Rightarrow> uuid \<Rightarrow> uuid \<Rightarrow> uuid \<Rightarrow> string option \<Rightarrow> expense_db \<Rightarrow> app_error + (trip_settlement \<times> expense_db)" where
  "MarkTripSettlementPaidRow now tid sid actor notes db =
    (if \<not> opt_all storable notes then Inl (DatabaseErr ''scan trip settlement'')
     else (case update_returning (\<lambda>s. st_trip s = tid \<and> st_id s = sid \<and> st_status s \<noteq> SettlementCancelled)
       (\<lambda>s. s\<lparr>st_status := SettlementPaid, st_paid_at := Some now, st_paid_by := Some actor, st_notes := notes,
          st_updated_at := now\<rparr>) (xb_settlements db) of
       None \<Rightarrow> Inl ErrNotFound
     | Some (s, rows) \<Rightarrow> Inr (s, db\<lparr>xb_settlements := rows\<rparr>)))"

definition CancelTripSettlementRow ::
  "time \<Rightarrow> uuid \<Rightarrow> uuid \<Rightarrow> uuid \<Rightarrow> expense_db \<Rightarrow> app_error + (trip_settlement \<times> expense_db)" where
  "CancelTripSettlementRow now tid sid actor db =
    (case update_returning (\<lambda>s. st_trip s = tid \<and> st_id s = sid \<and> st_status s \<noteq> SettlementCancelled)
       (\<lambda>s. s\<lparr>st_status := SettlementCancelled, st_cancelled_at := Some now, st_cancelled_by := Some actor,
          st_updated_at := now\<rparr>) (xb_settlements db) of
       None \<Rightarrow> Inl ErrNotFound
     | Some (s, rows) \<Rightarrow> Inr (s, db\<lparr>xb_settlements := rows\<rparr>))"

end
