(* ===== verification/ExpenseInputs.thy ===== *)
theory ExpenseInputs
  imports ExpenseTable Access
begin

text \<open>
  The inputs of the expense endpoints and how they become rows: the normalization and validation
  in \<open>application/service/expense.go\<close>, up to \<open>prepareExpenseForCreate\<close> and
  \<open>prepareExpenseForUpdate\<close>.
\<close>

definition maxExpenseTitleLength :: nat where "maxExpenseTitleLength = 120"
definition maxExpenseTextLength :: nat where "maxExpenseTextLength = 1000"

definition trimOptionalText :: "string option \<Rightarrow> string option" where
  "trimOptionalText v =
    (case v of None \<Rightarrow> None | Some s \<Rightarrow> (if trim_space s = [] then None else Some (trim_space s)))"

definition validCurrencyCode :: "string \<Rightarrow> bool" where
  "validCurrencyCode c \<longleftrightarrow> length c = 3 \<and> list_all (in_bytes 0x41 0x5A) c"

definition normalizeMoney :: "rat \<Rightarrow> string \<Rightarrow> app_error + (rat \<times> string)" where
  "normalizeMoney amount currency =
    (if amount \<le> 0 then Inl (InvalidInput ''amount must be greater than 0'')
     else (let c = to_upper (trim_space currency)
           in if \<not> validCurrencyCode c then Inl (InvalidInput ''currency must be a 3-letter code'')
              else Inr (round2 amount, c)))"

definition expenseCategories :: "(string \<times> expense_category) list" where
  "expenseCategories =
    [(''transport'', CatTransport), (''accommodation'', CatAccommodation), (''food'', CatFood),
     (''tickets'', CatTickets), (''activities'', CatActivities), (''shopping'', CatShopping),
     (''fuel'', CatFuel), (''parking'', CatParking), (''tolls'', CatTolls), (''camping'', CatCamping),
     (''groceries'', CatGroceries), (''health_safety'', CatHealthSafety), (''other'', CatOther)]"

definition normalizeExpenseCategory :: "string \<Rightarrow> app_error + expense_category" where
  "normalizeExpenseCategory raw =
    (case map_of expenseCategories (to_lower (trim_space raw)) of
       None \<Rightarrow> Inl (InvalidInput ''category is invalid'') | Some c \<Rightarrow> Inr c)"

definition expenseSplits :: "(string \<times> expense_split) list" where
  "expenseSplits =
    [(''equal'', SplitEqual), (''selected_equal'', SplitSelectedEqual),
     (''custom_amounts'', SplitCustomAmounts), (''custom_percentages'', SplitCustomPercentages),
     (''payer_only'', SplitPayerOnly)]"

definition normalizeExpenseSplitType :: "string \<Rightarrow> app_error + expense_split" where
  "normalizeExpenseSplitType raw =
    (let s = to_lower (trim_space raw)
     in if s = [] then Inr SplitSelectedEqual
        else (case map_of expenseSplits s of
            None \<Rightarrow> Inl (InvalidInput ''splitType is invalid'') | Some t \<Rightarrow> Inr t))"

definition validateExpenseBasics :: "string \<Rightarrow> string option \<Rightarrow> string option \<Rightarrow> app_error + unit" where
  "validateExpenseBasics title description notes =
    (let runes = rune_count (trim_space title)
     in if runes < 2 \<or> runes > maxExpenseTitleLength then
          Inl (InvalidInput ''title must be between 2 and 120 characters'')
        else if \<not> opt_all (\<lambda>s. rune_count s \<le> maxExpenseTextLength) description then
          Inl (InvalidInput ''description must be at most 1000 characters'')
        else if \<not> opt_all (\<lambda>s. rune_count s \<le> maxExpenseTextLength) notes then
          Inl (InvalidInput ''notes must be at most 1000 characters'')
        else Inr ())"

text \<open>The parts of a trip an expense can be linked to, and its budget currency.\<close>

record trip_details =
  td_legs :: "string list option"
  td_accommodation :: bool
  td_budget_currency :: string

definition validateExpenseLinks :: "trip \<Rightarrow> trip_details \<Rightarrow> trip_expense \<Rightarrow> app_error + unit" where
  "validateExpenseLinks t details e =
    rbind (if ex_day e = None \<and> ex_item e = None \<and> ex_item_id e = None then Inr ()
      else (case ex_day e of
          None \<Rightarrow> Inl (InvalidInput ''linkedItinerary requires dayNumber and itemIndex'')
        | Some d \<Rightarrow> (case ex_item e of
            None \<Rightarrow> Inl (InvalidInput ''linkedItinerary requires dayNumber and itemIndex'')
          | Some i \<Rightarrow>
             (if \<exists>(day, items) \<in> set (case day_counts t of None \<Rightarrow> [] | Some days \<Rightarrow> days).
                  day = d \<and> 0 \<le> i \<and> i < int items
              then Inr () else Inl (InvalidInput ''linked itinerary item does not exist''))))) (\<lambda>_.
    rbind (case ex_leg e of
        None \<Rightarrow> Inr ()
      | Some l \<Rightarrow> (case td_legs details of
          None \<Rightarrow> Inl (InvalidInput ''linked route leg does not exist'')
        | Some legs \<Rightarrow> guard_err (l \<in> set legs) (InvalidInput ''linked route leg does not exist''))) (\<lambda>_.
    guard_err (\<not> (ex_accommodation e \<and> \<not> td_accommodation details))
      (InvalidInput ''linkedAccommodation requires an accommodation'')))"

section \<open>Creating\<close>

record create_expense_input =
  ci_title :: string
  ci_description :: "string option"
  ci_amount :: rat
  ci_currency :: string
  ci_category :: string
  ci_date :: time
  ci_payer :: uuid
  ci_split :: string
  ci_participants :: "uuid list"
  ci_shares :: "custom_amount list"
  ci_percentages :: "custom_percentage list"
  ci_link :: "(int \<times> int \<times> string option) option"
  ci_leg :: "string option"
  ci_accommodation :: bool
  ci_notes :: "string option"

definition normalizeExpenseInput ::
  "uuid \<Rightarrow> uuid \<Rightarrow> uuid \<Rightarrow> create_expense_input \<Rightarrow> app_error + trip_expense" where
  "normalizeExpenseInput newid tid actor inp =
    rbind (normalizeMoney (ci_amount inp) (ci_currency inp)) (\<lambda>(amount, currency).
    rbind (normalizeExpenseCategory (ci_category inp)) (\<lambda>category.
    rbind (normalizeExpenseSplitType (ci_split inp)) (\<lambda>split.
    let e = \<lparr>ex_id = newid, ex_trip = tid, ex_title = trim_space (ci_title inp),
          ex_description = trimOptionalText (ci_description inp), ex_amount = amount, ex_currency = currency,
          ex_category = category, ex_date = ci_date inp, ex_payer = ci_payer inp, ex_split = split,
          ex_day = map_option fst (ci_link inp), ex_item = map_option (\<lambda>l. fst (snd l)) (ci_link inp),
          ex_item_id = (case ci_link inp of None \<Rightarrow> None | Some (_, _, i) \<Rightarrow> trimOptionalText i),
          ex_leg = trimOptionalText (ci_leg inp), ex_accommodation = ci_accommodation inp,
          ex_notes = trimOptionalText (ci_notes inp), ex_status = ExpenseActive, ex_created_by = actor,
          ex_updated_by = Some actor, ex_deleted_by = None, ex_deleted_at = None, ex_created_at = 0,
          ex_updated_at = 0\<rparr>
    in rbind (validateExpenseBasics (ex_title e) (ex_description e) (ex_notes e)) (\<lambda>_.
       if ex_date e = 0 then Inl (InvalidInput ''expenseDate is required'') else Inr e))))"

definition prepareExpenseForCreate ::
  "uuid \<Rightarrow> (nat \<Rightarrow> uuid) \<Rightarrow> trip \<Rightarrow> trip_details \<Rightarrow> expense_users \<Rightarrow> traveler list \<Rightarrow> uuid \<Rightarrow> trip_access \<Rightarrow>
   create_expense_input \<Rightarrow> app_error + (trip_expense \<times> expense_participant list)" where
  "prepareExpenseForCreate newid fresh t details users travelers actor access inp =
    (if \<not> CanEdit access \<and> ci_payer inp \<noteq> actor then Inl ErrForbidden
     else rbind (normalizeExpenseInput newid (tr_id t) actor inp) (\<lambda>e.
       if ex_payer e \<notin> fst ` set users then Inl (InvalidInput ''paidByUserId must have trip access'')
       else rbind (validateExpenseLinks t details e) (\<lambda>_.
         rbind (calculateExpenseParticipants fresh e (ci_participants inp) (ci_shares inp) (ci_percentages inp)
           users travelers) (\<lambda>ps. Inr (e, ps)))))"

section \<open>Updating\<close>

record update_expense_input =
  ui_title :: "string option"
  ui_description :: "string option"
  ui_clear_description :: bool
  ui_amount :: "(rat \<times> string) option"
  ui_category :: "string option"
  ui_date :: "time option"
  ui_payer :: "uuid option"
  ui_split :: "string option"
  ui_participants :: "uuid list"
  ui_participants_set :: bool
  ui_shares :: "custom_amount list"
  ui_shares_set :: bool
  ui_percentages :: "custom_percentage list"
  ui_percentages_set :: bool
  ui_link :: "(int \<times> int \<times> string option) option"
  ui_link_set :: bool
  ui_leg :: "string option"
  ui_leg_set :: bool
  ui_accommodation :: "bool option"
  ui_notes :: "string option"
  ui_clear_notes :: bool

text \<open>What an update leaves out stays: \<open>keep\<close> the old value unless a new one is given.\<close>

definition given :: "'a option \<Rightarrow> 'a \<Rightarrow> 'a" where
  "given v old = (case v of None \<Rightarrow> old | Some x \<Rightarrow> x)"

definition updatedText :: "bool \<Rightarrow> string option \<Rightarrow> string option \<Rightarrow> string option" where
  "updatedText clear v old =
    (if clear then None else case v of None \<Rightarrow> old | Some _ \<Rightarrow> trimOptionalText v)"

definition replacesParticipants :: "update_expense_input \<Rightarrow> bool" where
  "replacesParticipants inp \<longleftrightarrow>
     ui_amount inp \<noteq> None \<or> ui_payer inp \<noteq> None \<or> ui_split inp \<noteq> None \<or> ui_participants_set inp \<or>
     ui_shares_set inp \<or> ui_percentages_set inp"

definition updatedExpense ::
  "trip_expense \<Rightarrow> update_expense_input \<Rightarrow> rat \<Rightarrow> string \<Rightarrow> expense_category \<Rightarrow> uuid \<Rightarrow> expense_split \<Rightarrow> trip_expense" where
  "updatedExpense existing inp amount currency category payer split =
    existing\<lparr>
      ex_title := (case ui_title inp of None \<Rightarrow> ex_title existing | Some s \<Rightarrow> trim_space s),
      ex_description := updatedText (ui_clear_description inp) (ui_description inp) (ex_description existing),
      ex_amount := amount, ex_currency := currency, ex_category := category,
      ex_date := given (ui_date inp) (ex_date existing), ex_payer := payer, ex_split := split,
      ex_day := (if ui_link_set inp then map_option fst (ui_link inp) else ex_day existing),
      ex_item := (if ui_link_set inp then map_option (\<lambda>l. fst (snd l)) (ui_link inp) else ex_item existing),
      ex_item_id := (if ui_link_set inp
        then (case ui_link inp of None \<Rightarrow> None | Some (_, _, i) \<Rightarrow> trimOptionalText i) else ex_item_id existing),
      ex_leg := (if ui_leg_set inp then trimOptionalText (ui_leg inp) else ex_leg existing),
      ex_accommodation := given (ui_accommodation inp) (ex_accommodation existing),
      ex_notes := updatedText (ui_clear_notes inp) (ui_notes inp) (ex_notes existing)\<rparr>"

definition prepareExpenseForUpdate ::
  "(nat \<Rightarrow> uuid) \<Rightarrow> trip \<Rightarrow> trip_details \<Rightarrow> expense_users \<Rightarrow> traveler list \<Rightarrow> uuid \<Rightarrow> trip_access \<Rightarrow>
   trip_expense \<Rightarrow> update_expense_input \<Rightarrow> app_error + (trip_expense \<times> expense_participant list \<times> bool)" where
  "prepareExpenseForUpdate fresh t details users travelers actor access existing inp =
    rbind (case ui_amount inp of
        None \<Rightarrow> Inr (ex_amount existing, ex_currency existing)
      | Some (a, c) \<Rightarrow> normalizeMoney a c) (\<lambda>(amount, currency).
    rbind (case ui_category inp of
        None \<Rightarrow> Inr (ex_category existing) | Some c \<Rightarrow> normalizeExpenseCategory c) (\<lambda>category.
    let payer = given (ui_payer inp) (ex_payer existing) in
    if \<not> CanEdit access \<and> payer \<noteq> actor then Inl ErrForbidden
    else if payer \<notin> fst ` set users then Inl (InvalidInput ''paidByUserId must have trip access'')
    else rbind (case ui_split inp of
        None \<Rightarrow> Inr (ex_split existing) | Some s \<Rightarrow> normalizeExpenseSplitType s) (\<lambda>split.
    let e = updatedExpense existing inp amount currency category payer split
    in rbind (validateExpenseBasics (ex_title e) (ex_description e) (ex_notes e)) (\<lambda>_.
       rbind (validateExpenseLinks t details e) (\<lambda>_.
       rbind (if replacesParticipants inp
         then calculateExpenseParticipants fresh e (ui_participants inp) (ui_shares inp) (ui_percentages inp)
           users travelers
         else Inr []) (\<lambda>ps.
       Inr (e\<lparr>ex_updated_by := Some actor\<rparr>, ps, replacesParticipants inp)))))))"

end
