(* ===== verification/Expenses.thy ===== *)
theory Expenses
  imports ExpenseInputs Collaboration "HOL-Library.Multiset"
begin

text \<open>
  The expense and settlement endpoints of \<open>application/service/expense.go\<close>. Parameters of the
  environment: the members of a workspace, the details of a trip, the conversion service, and the
  digest (SHA-256 of the sorted texts of its parts). Display names are the ones the code keeps with
  the users; receipts, metadata and the response DTOs are left out. A handler reads one state of
  the tables.
\<close>

datatype hash_part =
    HashCurrency string
  | HashExpense uuid uuid rat string time
  | HashParticipant uuid uuid rat
  | HashSettlement uuid uuid uuid rat string

record expense_env =
  xe_svc :: svc_env
  xe_members :: "uuid \<Rightarrow> app_error + (uuid \<times> bool) list"
  xe_details :: "uuid \<Rightarrow> trip_details"
  xe_convert :: "(rat \<Rightarrow> string \<Rightarrow> string \<Rightarrow> rat option) option"
  xe_fail_open :: bool
  xe_digest :: "hash_part multiset \<Rightarrow> string"

record expense_call =
  xc_user :: "auth_user option"
  xc_now :: time
  xc_id :: uuid
  xc_fresh :: "nat \<Rightarrow> uuid"

section \<open>Users\<close>

definition hex_digit :: "nat \<Rightarrow> char" where
  "hex_digit n = (if n < 10 then char_of (48 + n) else char_of (87 + n))"

definition shortUserName :: "uuid \<Rightarrow> string" where
  "shortUserName u = ''User '' @ map (\<lambda>k. hex_digit (unat u div 16 ^ k mod 16)) (rev [24..<32])"

definition addExpenseUser :: "uuid \<Rightarrow> string \<Rightarrow> expense_users \<Rightarrow> expense_users" where
  "addExpenseUser u name users =
    (if u = 0 then users
     else (case map_of users u of
         None \<Rightarrow> put u (if trim_space name = [] then shortUserName u else name) users
       | Some old \<Rightarrow>
          (if old \<noteq> [] \<and> \<not> prefix ''User '' old then users
           else put u (if trim_space name = [] then shortUserName u else name) users)))"

definition expenseUsers ::
  "expense_env \<Rightarrow> trip \<Rightarrow> auth_user \<Rightarrow> expense_db \<Rightarrow> app_error + (expense_users \<times> traveler list)" where
  "expenseUsers env t actor db =
    (let u0 = (case tr_user t of None \<Rightarrow> [] | Some ow \<Rightarrow> [(ow, ''Trip owner'')]);
         accepted = filter (\<lambda>c. co_status c = CAccepted) (ListTripCollaborators (xb_trips db) (tr_id t));
         u1 = fold (\<lambda>c. addExpenseUser (co_user c) (shortUserName (co_user c))) accepted u0;
         travelers = ListActiveTripTravelersByTrip (tr_id t) db;
         u2 = fold (\<lambda>v users. case tv_user v of None \<Rightarrow> users | Some u \<Rightarrow> addExpenseUser u (tv_name v) users)
            travelers u1
     in rbind (case tr_workspace t of
          None \<Rightarrow> Inr u2
        | Some w \<Rightarrow>
           (if env_workspaces_enabled (xe_svc env) \<and> env_workspace_provider (xe_svc env) \<noteq> None then
              rbind (xe_members env w) (\<lambda>members.
              Inr (fold (\<lambda>(u, active). if active then addExpenseUser u (shortUserName u) else (\<lambda>us. us)) members u2))
            else Inr u2)) (\<lambda>u3.
        Inr (if au_id actor \<noteq> 0
             then addExpenseUser (au_id actor)
               (if trim_space (au_email actor) = [] then shortUserName (au_id actor) else trim_space (au_email actor)) u3
             else u3, travelers)))"

section \<open>Financials\<close>

datatype conversion = Converted rat | NotConverted string

definition convertCostSplitAmount :: "expense_env \<Rightarrow> rat \<Rightarrow> string \<Rightarrow> string \<Rightarrow> app_error + conversion" where
  "convertCostSplitAmount env amount from to =
    (let f = to_upper (trim_space from); t = to_upper (trim_space to)
     in if f = [] \<or> f = t then Inr (Converted amount)
        else (case xe_convert env of
            None \<Rightarrow> Inr (NotConverted ''conversion_disabled'')
          | Some convert \<Rightarrow> (case convert amount f t of
              Some a \<Rightarrow> Inr (Converted a)
            | None \<Rightarrow>
               (if xe_fail_open env then Inr (NotConverted ''conversion_unavailable'')
                else Inl (UpstreamErr ''budget conversion failed'')))))"

definition resolveExpenseSummaryCurrency :: "string \<Rightarrow> string \<Rightarrow> app_error + string" where
  "resolveExpenseSummaryCurrency raw budget_currency =
    (let c0 = to_upper (trim_space raw);
         c1 = (if c0 = [] then to_upper (trim_space budget_currency) else c0);
         c2 = (if c1 = [] then ''EUR'' else c1)
     in if \<not> validCurrencyCode c2 then Inl (InvalidInput ''currency must be a 3-letter code'') else Inr c2)"

datatype conversion_warning =
    WarnExpense rat string string
  | WarnShare string string
  | WarnSettlement string string

record fin_sums =
  fs_original :: "(string \<times> rat) list"
  fs_total :: rat
  fs_by_category :: "(expense_category \<times> rat) list"
  fs_by_payer :: "(uuid \<times> rat) list"
  fs_paid :: "(uuid \<times> rat) list"
  fs_share :: "(uuid \<times> rat) list"
  fs_before :: "(uuid \<times> rat) list"
  fs_users :: expense_users
  fs_warnings :: "conversion_warning list"

definition add_to :: "'k \<Rightarrow> rat \<Rightarrow> ('k \<times> rat) list \<Rightarrow> ('k \<times> rat) list" where
  "add_to k a m = put k (fadd (entry m k) a) m"

definition known_user :: "uuid \<Rightarrow> fin_sums \<Rightarrow> fin_sums" where
  "known_user u s = s\<lparr>fs_users := addExpenseUser u (shortUserName u) (fs_users s)\<rparr>"

fun sumExpenses :: "expense_env \<Rightarrow> string \<Rightarrow> trip_expense list \<Rightarrow> fin_sums \<Rightarrow> app_error + fin_sums" where
  "sumExpenses env currency [] s = Inr s"
| "sumExpenses env currency (e # es) s =
    rbind (convertCostSplitAmount env (ex_amount e) (ex_currency e) currency) (\<lambda>conv.
      let s1 = s\<lparr>fs_original := add_to (ex_currency e) (ex_amount e) (fs_original s)\<rparr>
      in case conv of
           NotConverted reason \<Rightarrow>
             sumExpenses env currency es
               (s1\<lparr>fs_warnings := fs_warnings s1 @ [WarnExpense (ex_amount e) (ex_currency e) reason]\<rparr>)
         | Converted raw \<Rightarrow>
             (let a = round2 raw
              in sumExpenses env currency es
                (known_user (ex_payer e)
                  (s1\<lparr>fs_total := fadd (fs_total s1) a,
                      fs_by_category := add_to (ex_category e) a (fs_by_category s1),
                      fs_by_payer := add_to (ex_payer e) a (fs_by_payer s1),
                      fs_paid := add_to (ex_payer e) a (fs_paid s1)\<rparr>))))"

text \<open>\<open>currency_of\<close> gives the currency of each listed expense, by its id.\<close>

fun sumShares ::
  "expense_env \<Rightarrow> string \<Rightarrow> (uuid \<Rightarrow> string option) \<Rightarrow> expense_participant list \<Rightarrow> fin_sums \<Rightarrow>
   app_error + fin_sums" where
  "sumShares env currency currency_of [] s = Inr s"
| "sumShares env currency currency_of (p # ps) s =
    (case currency_of (pt_expense p) of
       None \<Rightarrow> sumShares env currency currency_of ps s
     | Some ec \<Rightarrow> (case pt_amount p of
         None \<Rightarrow> sumShares env currency currency_of ps s
       | Some share \<Rightarrow>
          (let pc = trim_space (case pt_currency p of None \<Rightarrow> [] | Some c \<Rightarrow> c);
               sc = (if pc \<noteq> [] then to_upper pc else ec)
           in rbind (convertCostSplitAmount env share sc currency) (\<lambda>conv.
             case conv of
               NotConverted reason \<Rightarrow>
                 sumShares env currency currency_of ps (s\<lparr>fs_warnings := fs_warnings s @ [WarnShare sc reason]\<rparr>)
             | Converted a \<Rightarrow>
                 sumShares env currency currency_of ps
                   (known_user (pt_user p) (s\<lparr>fs_share := add_to (pt_user p) (round2 a) (fs_share s)\<rparr>))))))"

fun sumSettlements ::
  "expense_env \<Rightarrow> string \<Rightarrow> trip_settlement list \<Rightarrow> fin_sums \<Rightarrow> app_error + fin_sums" where
  "sumSettlements env currency [] s = Inr s"
| "sumSettlements env currency (t # ts) s =
    (if st_status t \<noteq> SettlementPaid then sumSettlements env currency ts s
     else rbind (convertCostSplitAmount env (st_amount t) (st_currency t) currency) (\<lambda>conv.
       case conv of
         NotConverted reason \<Rightarrow>
           sumSettlements env currency ts (s\<lparr>fs_warnings := fs_warnings s @ [WarnSettlement (st_currency t) reason]\<rparr>)
       | Converted a \<Rightarrow>
           (let b1 = add_to (st_from t) (round2 a) (fs_before s);
                b2 = put (st_to t) (fsub (entry b1 (st_to t)) (round2 a)) b1
            in sumSettlements env currency ts (known_user (st_to t) (known_user (st_from t) (s\<lparr>fs_before := b2\<rparr>))))))"

definition netBefore :: "fin_sums \<Rightarrow> fin_sums" where
  "netBefore s = s\<lparr>fs_before :=
     map (\<lambda>(u, _). (u, round2 (fsub (entry (fs_paid s) u) (entry (fs_share s) u)))) (fs_users s)\<rparr>"

definition balanceOf :: "fin_sums \<Rightarrow> uuid \<Rightarrow> expense_balance" where
  "balanceOf s u =
    (let raw = round2 (fsub (entry (fs_paid s) u) (entry (fs_share s) u));
         outstanding = round2 (entry (fs_before s) u)
     in \<lparr>eb_user = u, eb_paid = round2 (entry (fs_paid s) u), eb_share = round2 (entry (fs_share s) u),
         eb_net = round2 raw, eb_settled = round2 (round2 (fsub outstanding raw)),
         eb_outstanding = round2 outstanding,
         eb_status = (if outstanding > settlementTolerance then GetsBack
            else if outstanding < - settlementTolerance then Owes else Settled)\<rparr>)"

definition calculationHash ::
  "expense_env \<Rightarrow> trip_expense list \<Rightarrow> expense_participant list \<Rightarrow> trip_settlement list \<Rightarrow> string \<Rightarrow> string" where
  "calculationHash env expenses participants settlements currency =
    xe_digest env
      (mset ([HashCurrency currency] @
         map (\<lambda>e. HashExpense (ex_id e) (ex_payer e) (ex_amount e) (ex_currency e) (ex_updated_at e)) expenses @
         map (\<lambda>p. HashParticipant (pt_expense p) (pt_user p)
           (case pt_amount p of None \<Rightarrow> 0 | Some a \<Rightarrow> a)) participants @
         map (\<lambda>s. HashSettlement (st_id s) (st_from s) (st_to s) (st_amount s) (st_currency s))
           (filter (\<lambda>s. st_status s = SettlementPaid) settlements)))"

record expense_financials =
  ef_currency :: string
  ef_expenses :: "trip_expense list"
  ef_participants :: "expense_participant list"
  ef_settlements :: "trip_settlement list"
  ef_sums :: fin_sums
  ef_balances :: "expense_balance list"
  ef_total :: rat
  ef_hash :: string

definition expenseFinancials ::
  "expense_env \<Rightarrow> trip \<Rightarrow> auth_user \<Rightarrow> string \<Rightarrow> expense_db \<Rightarrow> app_error + expense_financials" where
  "expenseFinancials env t actor requested db =
    rbind (resolveExpenseSummaryCurrency requested (td_budget_currency (xe_details env (tr_id t)))) (\<lambda>currency.
    rbind (expenseUsers env t actor db) (\<lambda>(users, _).
    let expenses = ListTripExpensesByTrip (tr_id t) no_filters db;
        participants = ListExpenseParticipantsByTrip (tr_id t) db;
        settlements = ListTripSettlementsByTrip (tr_id t) db
    in rbind (sumExpenses env currency expenses
          \<lparr>fs_original = [], fs_total = 0, fs_by_category = [], fs_by_payer = [], fs_paid = [], fs_share = [],
           fs_before = [], fs_users = users, fs_warnings = []\<rparr>) (\<lambda>s1.
       rbind (sumShares env currency (map_of (rev (map (\<lambda>e. (ex_id e, ex_currency e)) expenses))) participants s1) (\<lambda>s2.
       rbind (sumSettlements env currency settlements (netBefore s2)) (\<lambda>s3.
       Inr \<lparr>ef_currency = currency, ef_expenses = expenses, ef_participants = participants,
         ef_settlements = settlements, ef_sums = s3,
         ef_balances = map (balanceOf s3) (sortedUserIDs (fs_users s3)), ef_total = round2 (fs_total s3),
         ef_hash = calculationHash env expenses participants settlements currency\<rparr>)))))"

end
