(* ===== verification/SettlementLaws.thy ===== *)
theory SettlementLaws
  imports Settlements "HOL-Library.Multiset"
begin

text \<open>
  The suggestions settle the balances: debtors pay creditors, nobody more than owed, and what
  stays open is less than a cent per member.
\<close>

section \<open>Transfers\<close>

definition outOf :: "uuid \<Rightarrow> (uuid \<times> uuid \<times> int) list \<Rightarrow> int" where
  "outOf u xs = (\<Sum>(f, t, a) \<leftarrow> xs. if f = u then a else 0)"

definition into :: "uuid \<Rightarrow> (uuid \<times> uuid \<times> int) list \<Rightarrow> int" where
  "into v xs = (\<Sum>(f, t, a) \<leftarrow> xs. if t = v then a else 0)"

lemma transfer_simps [simp]:
  "outOf u [] = 0" "into v [] = 0"
  "outOf u ((f, t, a) # xs) = (if f = u then a else 0) + outOf u xs"
  "into v ((f, t, a) # xs) = (if t = v then a else 0) + into v xs"
  by (simp_all add: outOf_def into_def)

lemma settleCents_users:
  assumes "small_sides ds" "small_sides cs" "(f, t, a) \<in> set (settleCents ds cs)"
  shows "f \<in> fst ` set ds \<and> t \<in> fst ` set cs \<and> 1 < a \<and> a \<le> 2 ^ 44"
  using assms
proof (induction ds cs rule: settleCents.induct)
  case (1 u d ds v c cs)
  let ?a = "min d c"
  let ?ds = "if d - ?a \<le> 1 then ds else (u, d - ?a) # ds" and ?cs = "if c - ?a \<le> 1 then cs else (v, c - ?a) # cs"
  have small: "small_sides ?ds" "small_sides ?cs" using "1.prems"(1,2) by auto
  have "(f, t, a) = (u, v, ?a) \<or> (f, t, a) \<in> set (settleCents ?ds ?cs)"
    using "1.prems" by (simp add: settleCents.simps(1) Let_def)
  then show ?case
  proof
    assume "(f, t, a) = (u, v, ?a)"
    then show ?thesis using "1.prems"(1,2) by (simp add: min_def)
  next
    assume "(f, t, a) \<in> set (settleCents ?ds ?cs)"
    then have "f \<in> fst ` set ?ds \<and> t \<in> fst ` set ?cs \<and> 1 < a \<and> a \<le> 2 ^ 44" using "1.IH" [OF refl small] by simp
    then show ?thesis by (auto split: if_splits)
  qed
qed simp_all

lemma no_transfer:
  "\<forall>(f, t, a) \<in> set xs. f \<noteq> u \<Longrightarrow> outOf u xs = 0"
  "\<forall>(f, t, a) \<in> set xs. t \<noteq> u \<Longrightarrow> into u xs = 0"
  by (induction xs) auto

lemma transfer_nonneg:
  "\<forall>(f, t, a) \<in> set xs. 0 \<le> a \<Longrightarrow> 0 \<le> outOf u xs \<and> 0 \<le> into u xs"
  by (induction xs) auto

text \<open>Nobody pays or gets more than owed; one of the two sides ends within a cent per user.\<close>

definition at_most :: "(uuid \<Rightarrow> int) \<Rightarrow> cent_side list \<Rightarrow> bool" where
  "at_most g ps \<longleftrightarrow> (\<forall>(u, d) \<in> set ps. g u \<le> d)"

definition cleared :: "(uuid \<Rightarrow> int) \<Rightarrow> cent_side list \<Rightarrow> bool" where
  "cleared g ps \<longleftrightarrow> (\<forall>(u, d) \<in> set ps. d - 1 \<le> g u)"

lemma at_most_simps [simp]:
  "at_most g []" "cleared g []"
  "at_most g ((u, d) # ps) \<longleftrightarrow> g u \<le> d \<and> at_most g ps"
  "cleared g ((u, d) # ps) \<longleftrightarrow> d - 1 \<le> g u \<and> cleared g ps"
  by (auto simp: at_most_def cleared_def)

lemma at_most_cong:
  "\<forall>u \<in> fst ` set ps. g u = h u \<Longrightarrow> at_most g ps = at_most h ps"
  "\<forall>u \<in> fst ` set ps. g u = h u \<Longrightarrow> cleared g ps = cleared h ps"
  by (induction ps) auto

definition settles_sides :: "cent_side list \<Rightarrow> cent_side list \<Rightarrow> (uuid \<times> uuid \<times> int) list \<Rightarrow> bool" where
  "settles_sides ds cs xs \<longleftrightarrow>
     at_most (\<lambda>u. outOf u xs) ds \<and> at_most (\<lambda>v. into v xs) cs \<and>
     (cleared (\<lambda>u. outOf u xs) ds \<or> cleared (\<lambda>v. into v xs) cs) \<and>
     (ds \<noteq> [] \<and> cs \<noteq> [] \<longrightarrow> length xs < length ds + length cs)"

text \<open>The first debtor pays the first creditor \<open>a\<close>, all that one of them has.\<close>

lemma settles_sides_step:
  assumes "settles_sides ds' cs' xs" "u \<notin> fst ` set ds" "v \<notin> fst ` set cs"
    "\<And>f t b. (f, t, b) \<in> set xs \<Longrightarrow> f \<in> fst ` set ds' \<and> t \<in> fst ` set cs'"
    "ds' = (if d - a \<le> 1 then ds else (u, d - a) # ds)" "cs' = (if c - a \<le> 1 then cs else (v, c - a) # cs)"
    "a \<le> d" "a \<le> c" "a = d \<or> a = c"
  shows "settles_sides ((u, d) # ds) ((v, c) # cs) ((u, v, a) # xs)"
proof -
  have o: "outOf u xs = 0" if "d - a \<le> 1" using that assms(2,4,5) by (intro no_transfer(1)) auto
  have i: "into v xs = 0" if "c - a \<le> 1" using that assms(3,4,6) by (intro no_transfer(2)) auto
  have ow: "at_most (\<lambda>w. outOf w ((u, v, a) # xs)) ds = at_most (\<lambda>w. outOf w xs) ds"
    "cleared (\<lambda>w. outOf w ((u, v, a) # xs)) ds = cleared (\<lambda>w. outOf w xs) ds"
    using assms(2) by (intro at_most_cong; auto)+
  have iw: "at_most (\<lambda>w. into w ((u, v, a) # xs)) cs = at_most (\<lambda>w. into w xs) cs"
    "cleared (\<lambda>w. into w ((u, v, a) # xs)) cs = cleared (\<lambda>w. into w xs) cs"
    using assms(3) by (intro at_most_cong; auto)+
  have out: "outOf u xs \<le> d - a" "at_most (\<lambda>w. outOf w xs) ds"
    using assms(1,5,7) o by (auto simp: settles_sides_def split: if_splits)
  have inn: "into v xs \<le> c - a" "at_most (\<lambda>w. into w xs) cs"
    using assms(1,6,8) i by (auto simp: settles_sides_def split: if_splits)
  have cl: "cleared (\<lambda>w. outOf w xs) ds \<and> d - a - 1 \<le> outOf u xs \<or>
      cleared (\<lambda>w. into w xs) cs \<and> c - a - 1 \<le> into v xs"
    using assms(1,5,6) o i by (auto simp: settles_sides_def split: if_splits)
  have "length xs < length ds + length cs + 1"
    using assms(1,4,5,6,9) by (cases xs) (fastforce simp: settles_sides_def split: if_splits)+
  then show ?thesis using ow iw out inn cl unfolding settles_sides_def by auto
qed

lemma settleCents_settles:
  assumes "small_sides ds" "small_sides cs" "distinct (map fst ds)" "distinct (map fst cs)"
  shows "settles_sides ds cs (settleCents ds cs)"
  using assms
proof (induction ds cs rule: settleCents.induct)
  case (1 u d ds v c cs)
  let ?a = "min d c"
  let ?ds = "if d - ?a \<le> 1 then ds else (u, d - ?a) # ds" and ?cs = "if c - ?a \<le> 1 then cs else (v, c - ?a) # cs"
  have small: "small_sides ?ds" "small_sides ?cs" using "1.prems"(1,2) by auto
  have dist: "distinct (map fst ?ds)" "distinct (map fst ?cs)" using "1.prems"(3,4) by auto
  have "settleCents ((u, d) # ds) ((v, c) # cs) = (u, v, ?a) # settleCents ?ds ?cs"
    using "1.prems"(1,2) by (simp add: settleCents.simps(1) Let_def)
  moreover have "settles_sides ((u, d) # ds) ((v, c) # cs) ((u, v, ?a) # settleCents ?ds ?cs)"
    by (rule settles_sides_step [OF "1.IH" [OF refl small dist] _ _ _ refl refl])
      (use "1.prems"(3,4) settleCents_users [OF small] in auto)
  ultimately show ?case by simp
qed (force simp: settles_sides_def at_most_def outOf_def into_def small_sides_def)+

section \<open>Balances\<close>

text \<open>The suggested transfers in cents, and the balance of a user once they are all made.\<close>

definition transfers_of :: "settlement_suggestion list \<Rightarrow> (uuid \<times> uuid \<times> int) list" where
  "transfers_of sgs = map (\<lambda>s. (sg_from s, sg_to s, moneyCents (sg_amount s))) sgs"

definition settled_balance :: "(uuid \<Rightarrow> int) \<Rightarrow> settlement_suggestion list \<Rightarrow> uuid \<Rightarrow> int" where
  "settled_balance net sgs u = net u + outOf u (transfers_of sgs) - into u (transfers_of sgs)"

definition debts :: "(uuid \<Rightarrow> int) \<Rightarrow> uuid list \<Rightarrow> cent_side list" where
  "debts net us = map (\<lambda>u. (u, - net u)) (filter (\<lambda>u. net u < - 1) us)"

definition credits :: "(uuid \<Rightarrow> int) \<Rightarrow> uuid list \<Rightarrow> cent_side list" where
  "credits net us = map (\<lambda>u. (u, net u)) (filter (\<lambda>u. 1 < net u) us)"

definition nets_ok :: "(uuid \<Rightarrow> int) \<Rightarrow> expense_balance list \<Rightarrow> bool" where
  "nets_ok net bs \<longleftrightarrow> distinct (map eb_user bs) \<and>
     (\<forall>b \<in> set bs. eb_outstanding b = cash (net (eb_user b)) \<and> \<bar>net (eb_user b)\<bar> \<le> 2 ^ 44)"

lemma settlementSides_cents:
  "nets_ok net bs \<Longrightarrow> settlementSides bs =
     (map sideCash (debts net (map eb_user bs)), map sideCash (credits net (map eb_user bs)))"
proof (induction bs)
  case Nil
  show ?case by (simp add: settlementSides_def debts_def credits_def)
next
  case (Cons b bs)
  let ?n = "net (eb_user b)"
  have IH: "settlementSides bs = (map sideCash (debts net (map eb_user bs)), map sideCash (credits net (map eb_user bs)))"
    by (rule Cons.IH) (use Cons.prems in \<open>simp add: nets_ok_def\<close>)
  have b: "eb_outstanding b = cash ?n" "\<bar>?n\<bar> \<le> 2 ^ 44" using Cons.prems by (simp_all add: nets_ok_def)
  have big: "\<bar>?n\<bar> \<le> max_cents" "\<bar>- 1\<bar> \<le> max_cents" "\<bar>1\<bar> \<le> max_cents" using b(2) by simp_all
  have tol: "cash ?n < - settlementTolerance \<longleftrightarrow> ?n < - 1" "settlementTolerance < cash ?n \<longleftrightarrow> 1 < ?n"
    using cash_less_iff [OF big(1,2)] cash_less_iff [OF big(3,1)]
    by (simp_all add: settlementTolerance_cash cash_minus)
  have "round2 (- cash ?n) = cash (- ?n)" "round2 (cash ?n) = cash ?n" using big(1) by simp_all
  then show ?case using IH tol unfolding settlementSides_def
    by (simp add: b(1) debts_def credits_def sideCash_def)
qed

text \<open>Sorting only reorders the sides.\<close>

lemma sortSides_cents:
  assumes "small_sides ps"
  shows "\<exists>ps'. sortSides (map sideCash ps) = map sideCash ps' \<and> mset ps' = mset ps"
proof -
  define g where "g = (\<lambda>s :: settlement_side. (sd_user s, moneyCents (sd_amount s)))"
  have inv: "g (sideCash p) = p" if "p \<in> set ps" for p
    using that assms by (cases p) (auto simp: g_def sideCash_def small_sides_def)
  let ?s = "sortSides (map sideCash ps)"
  have m: "mset ?s = mset (map sideCash ps)" by (simp add: sortSides_def)
  have "sideCash (g s) = s" if "s \<in> set ?s" for s
    using that mset_eq_setD [OF m] inv by auto
  then have "map sideCash (map g ?s) = ?s" by (simp add: map_idI)
  moreover have "mset (map g ?s) = mset ps"
  proof -
    have "mset (map g ?s) = mset (map g (map sideCash ps))" using m by (metis mset_map)
    also have "map g (map sideCash ps) = ps" using inv by (simp add: map_idI)
    finally show ?thesis .
  qed
  ultimately show ?thesis by metis
qed

lemma small_debts: "nets_ok net bs \<Longrightarrow> small_sides (debts net (map eb_user bs)) \<and> small_sides (credits net (map eb_user bs))"
  by (auto simp: nets_ok_def small_sides_def debts_def credits_def)

lemma distinct_debts: "distinct us \<Longrightarrow> distinct (map fst (debts net us)) \<and> distinct (map fst (credits net us))"
  by (simp add: debts_def credits_def comp_def)

lemma small_sides_mset:
  assumes "mset ps' = mset ps"
  shows "small_sides ps' = small_sides ps" "distinct (map fst ps') = distinct (map fst ps)" "length ps' = length ps"
  using mset_eq_setD [OF assms] mset_eq_imp_distinct_iff [of "map fst ps'" "map fst ps"] mset_eq_length [OF assms] assms
  by (auto simp: small_sides_def)

text \<open>The suggestions are a run of the loop in cents on the debts and credits, in some order.\<close>

lemma suggestions_cents:
  assumes "nets_ok net bs"
  obtains sgs ds cs where "settlementSuggestions tid currency bs hash = Some sgs"
    "transfers_of sgs = settleCents ds cs" "mset ds = mset (debts net (map eb_user bs))"
    "mset cs = mset (credits net (map eb_user bs))"
    "\<forall>s \<in> set sgs. sg_amount s = cash (moneyCents (sg_amount s))"
proof -
  obtain ds cs where ds: "sortSides (map sideCash (debts net (map eb_user bs))) = map sideCash ds" "mset ds = mset (debts net (map eb_user bs))"
    and cs: "sortSides (map sideCash (credits net (map eb_user bs))) = map sideCash cs" "mset cs = mset (credits net (map eb_user bs))"
    using sortSides_cents small_debts [OF assms] by metis
  have small: "small_sides ds" "small_sides cs" using small_debts [OF assms] small_sides_mset(1) [OF ds(2)] small_sides_mset(1) [OF cs(2)] by simp_all
  have amounts: "1 < a \<and> a \<le> 2 ^ 44" if "(f, t, a) \<in> set (settleCents ds cs)" for f t a
    using settleCents_users [OF small that] by simp
  let ?mk = "\<lambda>from to amount. \<lparr>sg_id = calculatedSettlementID tid from to amount currency hash, sg_from = from,
    sg_to = to, sg_amount = round2 amount, sg_currency = currency, sg_hash = hash\<rparr>"
  let ?sgs = "map (\<lambda>(u, v, a). ?mk u v (cash a)) (settleCents ds cs)"
  have cents: "round2 (cash a) = cash a" "moneyCents (cash a) = a" if "(f, t, a) \<in> set (settleCents ds cs)" for f t a
    using amounts [OF that] by simp_all
  have "settlementSuggestions tid currency bs hash = Some ?sgs"
    using settleLoop_cents [OF small, of ?mk "[]"] by (simp add: settlementSuggestions_def settlementSides_cents [OF assms] ds(1) cs(1))
  moreover have "transfers_of ?sgs = settleCents ds cs"
    unfolding transfers_of_def map_map by (rule map_idI) (auto simp: cents)
  moreover have "\<forall>s \<in> set ?sgs. sg_amount s = cash (moneyCents (sg_amount s))" by (auto simp: cents)
  ultimately show thesis using ds(2) cs(2) that by blast
qed

lemma length_two_filters: "(\<And>x. \<not> (P x \<and> Q x)) \<Longrightarrow> length (filter P xs) + length (filter Q xs) \<le> length xs"
  by (induction xs) auto

lemma sum_transfers:
  assumes "finite A"
  shows "\<forall>(f, t, a) \<in> set xs. f \<in> A \<Longrightarrow> (\<Sum>u \<in> A. outOf u xs) = (\<Sum>(f, t, a) \<leftarrow> xs. a)"
    and "\<forall>(f, t, a) \<in> set xs. t \<in> A \<Longrightarrow> (\<Sum>u \<in> A. into u xs) = (\<Sum>(f, t, a) \<leftarrow> xs. a)"
  by (induction xs) (auto simp: assms sum.distrib)

lemma small_balanced:
  fixes r :: "'a \<Rightarrow> int"
  assumes "finite A" "sum r A = 0" "\<forall>u \<in> A. - 1 \<le> r u" "u \<in> A"
  shows "\<bar>r u\<bar> < int (card A)"
proof -
  have "sum (\<lambda>_. - 1) (A - {u}) \<le> sum r (A - {u})" using assms(3) by (intro sum_mono) simp
  then have "- int (card (A - {u})) \<le> sum r (A - {u})" by simp
  moreover have "sum r A = r u + sum r (A - {u})" using assms(1,4) by (rule sum.remove)
  moreover have c: "int (card (A - {u})) = int (card A) - 1"
    using assms(1,4) by (simp add: card_Diff_singleton) (metis One_nat_def card_gt_0_iff empty_iff of_nat_diff of_nat_1 Suc_leI)
  ultimately have "r u \<le> int (card A) - 1" using assms(2) by simp
  moreover have "r u \<noteq> - 1" if "card A = 1"
    using that assms(2,4) by (auto simp: card_1_singleton_iff)
  moreover have "1 \<le> card A" using assms(1,4) by (metis One_nat_def Suc_leI card_gt_0_iff empty_iff)
  ultimately show ?thesis using assms(3,4) by (smt (verit) of_nat_1 of_nat_le_iff of_nat_eq_1_iff)
qed

text \<open>Where a user stands after the transfers of a run of the loop.\<close>

lemma settled_bounds:
  assumes "nets_ok net bs" "mset ds = mset (debts net (map eb_user bs))" "mset cs = mset (credits net (map eb_user bs))"
    and "u \<in> eb_user ` set bs"
  defines "xs \<equiv> settleCents ds cs"
  shows "net u \<le> 0 \<Longrightarrow> into u xs = 0 \<and> 0 \<le> outOf u xs \<and> net u + outOf u xs \<le> 0"
    and "0 \<le> net u \<Longrightarrow> outOf u xs = 0 \<and> 0 \<le> into u xs \<and> 0 \<le> net u - into u xs"
    and "cleared (\<lambda>u. outOf u xs) ds \<Longrightarrow> - 1 \<le> net u + outOf u xs - into u xs"
    and "cleared (\<lambda>u. into u xs) cs \<Longrightarrow> net u + outOf u xs - into u xs \<le> 1"
proof -
  have small: "small_sides ds" "small_sides cs"
    using small_debts [OF assms(1)] small_sides_mset(1) [OF assms(2)] small_sides_mset(1) [OF assms(3)] by simp_all
  have dist: "distinct (map fst ds)" "distinct (map fst cs)"
    using distinct_debts [of "map eb_user bs"] assms(1) small_sides_mset(2) [OF assms(2)] small_sides_mset(2) [OF assms(3)]
    by (simp_all add: nets_ok_def)
  have mem: "(v, d) \<in> set ds \<longleftrightarrow> v \<in> eb_user ` set bs \<and> net v < - 1 \<and> d = - net v"
    "(v, d) \<in> set cs \<longleftrightarrow> v \<in> eb_user ` set bs \<and> 1 < net v \<and> d = net v" for v d
    using mset_eq_setD [OF assms(2)] mset_eq_setD [OF assms(3)] by (auto simp: debts_def credits_def)
  have sides: "settles_sides ds cs xs" unfolding xs_def by (rule settleCents_settles [OF small dist])
  have from_to: "(v, c, a) \<in> set xs \<Longrightarrow> net v < - 1 \<and> 1 < net c \<and> 1 < a" for v c a
    using settleCents_users [OF small, of v c a] mem unfolding xs_def by force
  have nonneg: "0 \<le> outOf u xs" "0 \<le> into u xs"
    using transfer_nonneg [of xs u] from_to by fastforce+
  have out0: "outOf u xs = 0" if "- 1 \<le> net u" using that from_to by (intro no_transfer(1)) fastforce
  have in0: "into u xs = 0" if "net u \<le> 1" using that from_to by (intro no_transfer(2)) fastforce
  have out: "outOf u xs \<le> - net u" if "net u < - 1"
    using sides mem(1) [of u "- net u"] that assms(4) unfolding settles_sides_def at_most_def by blast
  have inn: "into u xs \<le> net u" if "1 < net u"
    using sides mem(2) [of u "net u"] that assms(4) unfolding settles_sides_def at_most_def by blast
  show neg: "into u xs = 0 \<and> 0 \<le> outOf u xs \<and> net u + outOf u xs \<le> 0" if "net u \<le> 0"
    using that nonneg in0 out out0 by (cases "net u < - 1") auto
  show pos: "outOf u xs = 0 \<and> 0 \<le> into u xs \<and> 0 \<le> net u - into u xs" if "0 \<le> net u"
    using that nonneg out0 inn in0 by (cases "1 < net u") auto
  show "- 1 \<le> net u + outOf u xs - into u xs" if c: "cleared (\<lambda>u. outOf u xs) ds"
  proof (cases "net u < - 1")
    case True
    then have "- net u - 1 \<le> outOf u xs" using c mem(1) [of u "- net u"] assms(4) unfolding cleared_def by blast
    then show ?thesis using neg True by simp
  qed (use neg pos in \<open>cases "net u \<le> 0"; simp\<close>)
  show "net u + outOf u xs - into u xs \<le> 1" if c: "cleared (\<lambda>u. into u xs) cs"
  proof (cases "1 < net u")
    case True
    then have "net u - 1 \<le> into u xs" using c mem(2) [of u "net u"] assms(4) unfolding cleared_def by blast
    then show ?thesis using pos True by simp
  qed (use neg pos in \<open>cases "net u \<le> 0"; simp\<close>)
qed

text \<open>
  The settlement suggestions settle balances: for any balances that sum to zero the computation
  returns, every suggestion moves at least two cents from a user who owes to one who gets back,
  there are fewer of them than members, and once all are paid nobody has paid or got more than the
  balance called for and every balance is less than one cent per member away from zero.
\<close>

lemma suggestions_settle_balances:
  assumes "nets_ok net bs" "bs \<noteq> []" "(\<Sum>b \<leftarrow> bs. net (eb_user b)) = 0"
  shows "\<exists>sgs. settlementSuggestions tid currency bs hash = Some sgs \<and> length sgs < length bs \<and>
    (\<forall>s \<in> set sgs. net (sg_from s) < - 1 \<and> 1 < net (sg_to s) \<and> 1 < moneyCents (sg_amount s) \<and>
       sg_amount s = cash (moneyCents (sg_amount s))) \<and>
    (\<forall>b \<in> set bs. let n = net (eb_user b); r = settled_balance net sgs (eb_user b)
       in (n \<le> 0 \<longrightarrow> n \<le> r \<and> r \<le> 0) \<and> (0 \<le> n \<longrightarrow> 0 \<le> r \<and> r \<le> n) \<and> \<bar>r\<bar> < int (length bs))"
proof -
  obtain sgs ds cs where sgs: "settlementSuggestions tid currency bs hash = Some sgs"
    and xs: "transfers_of sgs = settleCents ds cs"
    and ds: "mset ds = mset (debts net (map eb_user bs))" and cs: "mset cs = mset (credits net (map eb_user bs))"
    and am: "\<forall>s \<in> set sgs. sg_amount s = cash (moneyCents (sg_amount s))"
    using suggestions_cents [OF assms(1)] by blast
  let ?xs = "transfers_of sgs" and ?U = "eb_user ` set bs"
  let ?r = "\<lambda>u. settled_balance net sgs u"
  have small: "small_sides ds" "small_sides cs"
    using small_debts [OF assms(1)] small_sides_mset(1) [OF ds] small_sides_mset(1) [OF cs] by simp_all
  have dist: "distinct (map eb_user bs)" using assms(1) by (simp add: nets_ok_def)
  have dist2: "distinct (map fst ds)" "distinct (map fst cs)"
    using distinct_debts [OF dist] small_sides_mset(2) [OF ds] small_sides_mset(2) [OF cs] by simp_all
  have from_to: "(f, t, a) \<in> set ?xs \<Longrightarrow> f \<in> ?U \<and> t \<in> ?U \<and> net f < - 1 \<and> 1 < net t \<and> 1 < a" for f t a
    using settleCents_users [OF small, of f t a] mset_eq_setD [OF ds] mset_eq_setD [OF cs] unfolding xs
    by (auto simp: debts_def credits_def)
  have sides: "settles_sides ds cs ?xs" unfolding xs by (rule settleCents_settles [OF small dist2])
  note bounds = settled_bounds [OF assms(1) ds cs, folded xs]
  have card: "card ?U = length bs" using distinct_card [OF dist] by simp
  have "sum net ?U = 0" using assms(3) sum_list_distinct_conv_sum_set [OF dist, of net] by (simp add: comp_def)
  moreover have "(\<Sum>u \<in> ?U. outOf u ?xs) = (\<Sum>u \<in> ?U. into u ?xs)"
    using sum_transfers [of ?U ?xs] from_to by fastforce
  ultimately have zero: "sum ?r ?U = 0" by (simp add: settled_balance_def sum.distrib sum_subtractf)
  have near: "\<bar>?r u\<bar> < int (length bs)" if u: "u \<in> ?U" for u
  proof (cases "cleared (\<lambda>u. outOf u ?xs) ds")
    case True
    then have "\<forall>v \<in> ?U. - 1 \<le> ?r v" using bounds(3) by (simp add: settled_balance_def)
    then show ?thesis using small_balanced [of ?U ?r u] zero u card by simp
  next
    case False
    then have "cleared (\<lambda>u. into u ?xs) cs" using sides by (simp add: settles_sides_def)
    then have "\<forall>v \<in> ?U. - 1 \<le> - ?r v" using bounds(4) by (fastforce simp: settled_balance_def)
    then show ?thesis using small_balanced [of ?U "\<lambda>v. - ?r v" u] zero u card by (simp add: sum_negf)
  qed
  have "length ?xs < length bs"
  proof (cases "ds \<noteq> [] \<and> cs \<noteq> []")
    case True
    have "length ds + length cs = length (filter (\<lambda>u. net u < - 1) (map eb_user bs)) + length (filter (\<lambda>u. 1 < net u) (map eb_user bs))"
      using small_sides_mset(3) [OF ds] small_sides_mset(3) [OF cs] by (simp add: debts_def credits_def)
    also have "\<dots> \<le> length (map eb_user bs)" by (rule length_two_filters) auto
    finally show ?thesis using sides True by (simp add: settles_sides_def)
  next
    case False
    then have "?xs = []" unfolding xs using settleCents_none by auto
    then show ?thesis using assms(2) by simp
  qed
  then have "length sgs < length bs" by (simp add: transfers_of_def)
  moreover have "net (sg_from s) < - 1 \<and> 1 < net (sg_to s) \<and> 1 < moneyCents (sg_amount s)" if "s \<in> set sgs" for s
    using from_to [of "sg_from s" "sg_to s" "moneyCents (sg_amount s)"] that by (auto simp: transfers_of_def)
  moreover have "(net u \<le> 0 \<longrightarrow> net u \<le> ?r u \<and> ?r u \<le> 0) \<and> (0 \<le> net u \<longrightarrow> 0 \<le> ?r u \<and> ?r u \<le> net u)" if "u \<in> ?U" for u
    using bounds(1,2) [OF that] by (auto simp: settled_balance_def)
  ultimately show ?thesis using sgs am near by (intro exI [of _ sgs]) (simp add: Let_def)
qed

end
