(* ===== verification/CentSums.thy ===== *)
theory CentSums
  imports Expenses SettlementLaws
begin

text \<open>
  The sums of \<open>expenseFinancials\<close> are exact: a \<open>float64\<close> to which amounts of whole cents are
  added one after the other stays within a small error of the sum in cents, and the rounding at
  the end finds the cents. The bounds: \<open>2 ^ 14\<close> rows of each kind, \<open>2 ^ 35\<close> cents.
\<close>

definition step_err :: rat where "step_err = (2 ^ 35 + 1) / 2 ^ 52"

lemma step_err_nonneg [simp]: "0 \<le> step_err"
  by (simp add: step_err_def)

definition tracks :: "nat \<Rightarrow> ('k \<Rightarrow> int) \<Rightarrow> ('k \<times> rat) list \<Rightarrow> bool" where
  "tracks n f m \<longleftrightarrow> (\<forall>u. near (of_nat n * step_err) (f u) (entry m u))"

lemma near_add:
  assumes "near (of_nat n * step_err) c v" "\<bar>c + d\<bar> \<le> 2 ^ 35" "\<bar>d\<bar> \<le> 2 ^ 35" "n \<le> 2 ^ 15"
  shows "near (of_nat (Suc n) * step_err) (c + d) (fadd v (cash d))"
proof -
  let ?e = "(of_int (2 ^ 35) + 1) / 2 ^ 53 :: rat"
  have d: "near ?e d (cash d)" using assms(3) by (rule near_cash)
  have n: "(of_nat n :: rat) \<le> 2 ^ 15" using assms(4) by (metis of_nat_le_iff of_nat_numeral of_nat_power)
  then have n0: "of_nat n * step_err \<le> 2 ^ 15 * step_err" "0 \<le> of_nat n * step_err"
    by (simp_all add: step_err_def)
  have "near (of_nat n * step_err + ?e + (of_int (2 ^ 35) + 1) / 2 ^ 53) (c + d) (fl (v + cash d))"
  proof (rule near_fl)
    show "of_int (c + d) - (of_nat n * step_err + ?e) \<le> (v + cash d) * 100"
      "(v + cash d) * 100 \<le> of_int (c + d) + (of_nat n * step_err + ?e)"
      using assms(1) d unfolding near_iff by (simp_all add: distrib_right)
    show "\<bar>c + d\<bar> \<le> 2 ^ 35" by (rule assms(2))
    show "0 \<le> of_nat n * step_err + ?e" using n0(2) by simp
    have "2 ^ 15 * step_err + ?e \<le> 1" by (simp add: step_err_def)
    then show "of_nat n * step_err + ?e \<le> 1" using n0(1) by linarith
  qed
  then show ?thesis unfolding fadd_def
    by (rule near_mono) (simp add: step_err_def distrib_right add_divide_distrib)
qed

lemma near_sub:
  assumes "near (of_nat n * step_err) c v" "\<bar>c - d\<bar> \<le> 2 ^ 35" "\<bar>d\<bar> \<le> 2 ^ 35" "n \<le> 2 ^ 15"
  shows "near (of_nat (Suc n) * step_err) (c - d) (fsub v (cash d))"
  using near_add [OF assms(1), of "- d"] assms(2-4) by (simp add: fadd_def fsub_def cash_minus)

lemma tracks_Nil: "tracks 0 (\<lambda>_. 0) []"
  by (simp add: tracks_def near_def)

lemma tracks_grow: "tracks n f m \<Longrightarrow> n \<le> n' \<Longrightarrow> tracks n' f m"
  unfolding tracks_def by (meson mult_right_mono near_mono of_nat_le_iff step_err_nonneg)

lemma tracks_add:
  assumes "tracks n f m" "\<bar>f k + d\<bar> \<le> 2 ^ 35" "\<bar>d\<bar> \<le> 2 ^ 35" "n \<le> 2 ^ 15"
  shows "tracks (Suc n) (f(k := f k + d)) (add_to k (cash d) m)"
proof -
  have "near (of_nat (Suc n) * step_err) (f k + d) (fadd (entry m k) (cash d))"
    using assms near_add [of n "f k" "entry m k" d] by (simp add: tracks_def)
  moreover have "tracks (Suc n) f m" using assms(1) by (rule tracks_grow) simp
  ultimately show ?thesis by (simp add: tracks_def add_to_def)
qed

lemma tracks_sub:
  assumes "tracks n f m" "\<bar>f k - d\<bar> \<le> 2 ^ 35" "\<bar>d\<bar> \<le> 2 ^ 35" "n \<le> 2 ^ 15"
  shows "tracks (Suc n) (f(k := f k - d)) (put k (fsub (entry m k) (cash d)) m)"
proof -
  have "near (of_nat (Suc n) * step_err) (f k - d) (fsub (entry m k) (cash d))"
    using assms near_sub [of n "f k" "entry m k" d] by (simp add: tracks_def)
  moreover have "tracks (Suc n) f m" using assms(1) by (rule tracks_grow) simp
  ultimately show ?thesis by (simp add: tracks_def)
qed

text \<open>The difference of two sums, rounded.\<close>

lemma tracks_diff:
  assumes "tracks n f m" "tracks n g m'" "n \<le> 2 ^ 14" "\<bar>f u\<bar> \<le> 2 ^ 35" "\<bar>g u\<bar> \<le> 2 ^ 35"
  shows "round2 (fsub (entry m u) (entry m' u)) = cash (f u - g u)"
proof -
  have "(of_nat n :: rat) \<le> 2 ^ 14" using assms(3) by (metis of_nat_le_iff of_nat_numeral of_nat_power)
  then have n: "of_nat n * step_err \<le> 2 ^ 14 * step_err" "0 \<le> of_nat n * step_err" by (simp_all add: mult_right_mono)
  define e where "e = of_nat n * step_err"
  have e: "0 \<le> e" "e \<le> 1 / 8 + 1 / 2 ^ 38" using n by (simp_all add: e_def step_err_def)
  have t: "near e (f u) (entry m u)" "near e (g u) (entry m' u)" using assms(1,2) by (simp_all add: tracks_def e_def)
  have "near (2 * e + (of_int (2 ^ 36) + 1) / 2 ^ 53) (f u - g u) (fl (entry m u - entry m' u))"
  proof (rule near_fl)
    show "of_int (f u - g u) - 2 * e \<le> (entry m u - entry m' u) * 100"
      "(entry m u - entry m' u) * 100 \<le> of_int (f u - g u) + 2 * e"
      using t unfolding near_iff by (simp_all add: left_diff_distrib)
    show "\<bar>f u - g u\<bar> \<le> 2 ^ 36" using assms(4,5) by simp
    show "0 \<le> 2 * e" "2 * e \<le> 1" using e by simp_all
  qed
  then have "near (2 / 5) (f u - g u) (fsub (entry m u) (entry m' u))"
    unfolding fsub_def by (rule near_mono) (use e in simp)
  then show ?thesis by (rule near_cents(2)) (use assms(4,5) in simp)
qed

lemma tracks_round:
  assumes "tracks n f m" "n \<le> 2 ^ 15" "\<bar>f u\<bar> \<le> 2 ^ 35"
  shows "round2 (entry m u) = cash (f u)"
proof -
  have "(of_nat n :: rat) \<le> 2 ^ 15" using assms(2) by (metis of_nat_le_iff of_nat_numeral of_nat_power)
  then have "of_nat n * step_err \<le> 2 ^ 15 * step_err" by (simp add: mult_right_mono)
  also have "\<dots> \<le> 2 / 5" by (simp add: step_err_def)
  finally have "near (2 / 5) (f u) (entry m u)" using assms(1) near_mono by (fastforce simp: tracks_def)
  then show ?thesis by (rule near_cents(2)) (use assms(3) in simp)
qed

section \<open>Users\<close>

lemma keys_addExpenseUser:
  "fst ` set (addExpenseUser u nm us) = (if u = 0 then fst ` set us else insert u (fst ` set us))"
  by (auto simp: addExpenseUser_def split: option.split dest: map_of_SomeD intro: rev_image_eqI)

lemma distinct_addExpenseUser [simp]:
  "distinct (map fst us) \<Longrightarrow> distinct (map fst (addExpenseUser u nm us))"
  by (auto simp: addExpenseUser_def split: option.split)

lemma known_user_simps [simp]:
  "fs_paid (known_user u s) = fs_paid s" "fs_share (known_user u s) = fs_share s"
  "fs_before (known_user u s) = fs_before s"
  "fst ` set (fs_users (known_user u s)) = (if u = 0 then fst ` set (fs_users s) else insert u (fst ` set (fs_users s)))"
  "distinct (map fst (fs_users s)) \<Longrightarrow> distinct (map fst (fs_users (known_user u s)))"
  by (simp_all add: known_user_def keys_addExpenseUser)

section \<open>Expenses, shares, settlements\<close>

text \<open>What the amounts are in cents, by user.\<close>

definition expense_cents :: "trip_expense \<Rightarrow> int" where "expense_cents e = moneyCents (ex_amount e)"

definition share_cents :: "expense_participant \<Rightarrow> int" where
  "share_cents p = (case pt_amount p of None \<Rightarrow> 0 | Some a \<Rightarrow> moneyCents a)"

definition settlement_cents :: "trip_settlement \<Rightarrow> int" where
  "settlement_cents s = (if st_status s = SettlementPaid then moneyCents (st_amount s) else 0)"

definition paidBy :: "trip_expense list \<Rightarrow> uuid \<Rightarrow> int" where
  "paidBy es u = (\<Sum>e \<leftarrow> es. if ex_payer e = u then expense_cents e else 0)"

definition owedBy :: "expense_participant list \<Rightarrow> uuid \<Rightarrow> int" where
  "owedBy ps u = (\<Sum>p \<leftarrow> ps. if pt_user p = u then share_cents p else 0)"

definition settledBy :: "trip_settlement list \<Rightarrow> uuid \<Rightarrow> int" where
  "settledBy ss u = (\<Sum>s \<leftarrow> ss. (if st_from s = u then settlement_cents s else 0) - (if st_to s = u then settlement_cents s else 0))"

text \<open>Amounts of whole cents in the currency of the summary need no conversion.\<close>

definition expense_row_ok :: "string \<Rightarrow> trip_expense \<Rightarrow> bool" where
  "expense_row_ok cur e \<longleftrightarrow> ex_currency e = cur \<and> ex_amount e = cash (expense_cents e) \<and> 0 \<le> expense_cents e"

definition share_row_ok :: "string \<Rightarrow> expense_participant \<Rightarrow> bool" where
  "share_row_ok cur p \<longleftrightarrow> pt_currency p = Some cur \<and> pt_amount p = Some (cash (share_cents p)) \<and> 0 \<le> share_cents p"

definition settlement_row_ok :: "string \<Rightarrow> trip_settlement \<Rightarrow> bool" where
  "settlement_row_ok cur s \<longleftrightarrow> st_currency s = cur \<and> st_amount s = cash (moneyCents (st_amount s)) \<and> 0 \<le> settlement_cents s"

lemma convert_same: "convertCostSplitAmount env a cur cur = Inr (Converted a)"
  by (simp add: convertCostSplitAmount_def Let_def)

lemma sumExpenses_exact:
  assumes "\<forall>e \<in> set es. expense_row_ok cur e" "tracks n f (fs_paid s)" "\<forall>u. 0 \<le> f u"
    "\<forall>u. f u + (\<Sum>e \<leftarrow> es. expense_cents e) \<le> 2 ^ 35" "n + length es \<le> 2 ^ 15" "distinct (map fst (fs_users s))"
  shows "\<exists>s'. sumExpenses env cur es s = Inr s' \<and> tracks (n + length es) (\<lambda>u. f u + paidBy es u) (fs_paid s') \<and>
    fs_share s' = fs_share s \<and> fs_before s' = fs_before s \<and> distinct (map fst (fs_users s')) \<and>
    fst ` set (fs_users s') = fst ` set (fs_users s) \<union> (ex_payer ` set es - {0})"
  using assms
proof (induction es arbitrary: n f s)
  case Nil
  then show ?case by (simp add: paidBy_def)
next
  case (Cons e es)
  let ?d = "expense_cents e" and ?p = "ex_payer e"
  have e: "ex_currency e = cur" "ex_amount e = cash ?d" "0 \<le> ?d" using Cons.prems(1) by (simp_all add: expense_row_ok_def)
  have rest: "0 \<le> (\<Sum>e \<leftarrow> es. expense_cents e)" using Cons.prems(1) by (intro sum_list_nonneg) (auto simp: expense_row_ok_def)
  have f: "0 \<le> f u" "f u + ?d + (\<Sum>e \<leftarrow> es. expense_cents e) \<le> 2 ^ 35" for u
    using Cons.prems(3,4) by (simp_all add: add.assoc)
  have d: "\<bar>?d\<bar> \<le> 2 ^ 35" "\<bar>f ?p + ?d\<bar> \<le> 2 ^ 35" using f [of ?p] e(3) rest by simp_all
  have r: "round2 (ex_amount e) = cash ?d" using d(1) by (simp add: e(2))
  let ?s = "known_user ?p (s\<lparr>fs_original := add_to (ex_currency e) (ex_amount e) (fs_original s),
    fs_total := fadd (fs_total s) (cash ?d), fs_by_category := add_to (ex_category e) (cash ?d) (fs_by_category s),
    fs_by_payer := add_to ?p (cash ?d) (fs_by_payer s), fs_paid := add_to ?p (cash ?d) (fs_paid s)\<rparr>)"
  have step: "sumExpenses env cur (e # es) s = sumExpenses env cur es ?s"
    using convert_same [of env "ex_amount e" cur] by (simp add: e(1) r Let_def)
  have t: "tracks (Suc n) (f(?p := f ?p + ?d)) (fs_paid ?s)"
    using tracks_add [OF Cons.prems(2) d(2,1)] Cons.prems(5) by simp
  have "\<exists>s'. sumExpenses env cur es ?s = Inr s' \<and>
      tracks (Suc n + length es) (\<lambda>u. (f(?p := f ?p + ?d)) u + paidBy es u) (fs_paid s') \<and>
      fs_share s' = fs_share ?s \<and> fs_before s' = fs_before ?s \<and> distinct (map fst (fs_users s')) \<and>
      fst ` set (fs_users s') = fst ` set (fs_users ?s) \<union> (ex_payer ` set es - {0})"
  proof (rule Cons.IH [OF _ t])
    show "\<forall>u. (f(?p := f ?p + ?d)) u + (\<Sum>e \<leftarrow> es. expense_cents e) \<le> 2 ^ 35" using f(2) e(3) by (smt (verit) fun_upd_apply)
    show "distinct (map fst (fs_users ?s))" using Cons.prems(6) by simp
  qed (use Cons.prems f e(3) in simp_all)
  moreover have "(\<lambda>u. (f(?p := f ?p + ?d)) u + paidBy es u) = (\<lambda>u. f u + paidBy (e # es) u)"
    by (rule ext) (simp add: paidBy_def)
  ultimately show ?case unfolding step by auto
qed

lemma valid_currency:
  assumes "validCurrencyCode c"
  shows "trim_space c = c" "to_upper c = c" "c \<noteq> []"
proof -
  have upper: "65 \<le> (of_char x :: nat) \<and> (of_char x :: nat) \<le> 90" if "x \<in> set c" for x
    using assms that by (auto simp: validCurrencyCode_def list_all_iff in_bytes_def Let_def)
  show c: "c \<noteq> []" using assms by (auto simp: validCurrencyCode_def)
  then show "trim_space c = c" using upper [of "hd c"] upper [of "last c"]
    by (intro trim_space_plain) (simp_all add: plain_byte_def)
  show "to_upper c = c" unfolding to_upper_def using upper by (intro map_idI) (fastforce simp: upper_char_def Let_def)
qed

lemma sumShares_exact:
  assumes "validCurrencyCode cur" "\<forall>p \<in> set ps. share_row_ok cur p \<and> currency_of (pt_expense p) = Some cur"
    "tracks n f (fs_share s)" "\<forall>u. 0 \<le> f u" "\<forall>u. f u + (\<Sum>p \<leftarrow> ps. share_cents p) \<le> 2 ^ 35"
    "n + length ps \<le> 2 ^ 15" "distinct (map fst (fs_users s))"
  shows "\<exists>s'. sumShares env cur currency_of ps s = Inr s' \<and> tracks (n + length ps) (\<lambda>u. f u + owedBy ps u) (fs_share s') \<and>
    fs_paid s' = fs_paid s \<and> fs_before s' = fs_before s \<and> distinct (map fst (fs_users s')) \<and>
    fst ` set (fs_users s') = fst ` set (fs_users s) \<union> (pt_user ` set ps - {0})"
  using assms(2-)
proof (induction ps arbitrary: n f s)
  case Nil
  then show ?case by (simp add: owedBy_def)
next
  case (Cons p ps)
  let ?d = "share_cents p" and ?p = "pt_user p"
  note cur = valid_currency [OF assms(1)]
  have e: "pt_currency p = Some cur" "pt_amount p = Some (cash ?d)" "0 \<le> ?d" "currency_of (pt_expense p) = Some cur"
    using Cons.prems(1) by (simp_all add: share_row_ok_def)
  have rest: "0 \<le> (\<Sum>p \<leftarrow> ps. share_cents p)" using Cons.prems(1) by (intro sum_list_nonneg) (auto simp: share_row_ok_def)
  have f: "0 \<le> f u" "f u + ?d + (\<Sum>p \<leftarrow> ps. share_cents p) \<le> 2 ^ 35" for u
    using Cons.prems(3,4) by (simp_all add: add.assoc)
  have d: "\<bar>?d\<bar> \<le> 2 ^ 35" "\<bar>f ?p + ?d\<bar> \<le> 2 ^ 35" using f [of ?p] e(3) rest by simp_all
  have r: "round2 (cash ?d) = cash ?d" using d(1) by simp
  let ?s = "known_user ?p (s\<lparr>fs_share := add_to ?p (cash ?d) (fs_share s)\<rparr>)"
  have step: "sumShares env cur currency_of (p # ps) s = sumShares env cur currency_of ps ?s"
    using convert_same [of env "cash ?d" cur] by (simp add: e cur r Let_def)
  have t: "tracks (Suc n) (f(?p := f ?p + ?d)) (fs_share ?s)"
    using tracks_add [OF Cons.prems(2) d(2,1)] Cons.prems(5) by simp
  have "\<exists>s'. sumShares env cur currency_of ps ?s = Inr s' \<and>
      tracks (Suc n + length ps) (\<lambda>u. (f(?p := f ?p + ?d)) u + owedBy ps u) (fs_share s') \<and>
      fs_paid s' = fs_paid ?s \<and> fs_before s' = fs_before ?s \<and> distinct (map fst (fs_users s')) \<and>
      fst ` set (fs_users s') = fst ` set (fs_users ?s) \<union> (pt_user ` set ps - {0})"
  proof (rule Cons.IH [OF _ t])
    show "\<forall>u. (f(?p := f ?p + ?d)) u + (\<Sum>p \<leftarrow> ps. share_cents p) \<le> 2 ^ 35" using f(2) e(3) by (smt (verit) fun_upd_apply)
    show "distinct (map fst (fs_users ?s))" using Cons.prems(6) by simp
  qed (use Cons.prems f e(3) in simp_all)
  moreover have "(\<lambda>u. (f(?p := f ?p + ?d)) u + owedBy ps u) = (\<lambda>u. f u + owedBy (p # ps) u)"
    by (rule ext) (simp add: owedBy_def)
  ultimately show ?case unfolding step by auto
qed

lemma sumSettlements_exact:
  assumes "\<forall>t \<in> set ts. st_status t = SettlementPaid \<longrightarrow> settlement_row_ok cur t"
    "tracks n f (fs_before s)" "\<forall>u. \<bar>f u\<bar> + (\<Sum>t \<leftarrow> ts. settlement_cents t) \<le> 2 ^ 35"
    "n + 2 * length ts \<le> 2 ^ 15" "distinct (map fst (fs_users s))"
  shows "\<exists>s'. sumSettlements env cur ts s = Inr s' \<and>
    tracks (n + 2 * length ts) (\<lambda>u. f u + settledBy ts u) (fs_before s') \<and>
    fs_paid s' = fs_paid s \<and> fs_share s' = fs_share s \<and> distinct (map fst (fs_users s')) \<and>
    fst ` set (fs_users s') = fst ` set (fs_users s) \<union>
      (\<Union>t \<in> {t \<in> set ts. st_status t = SettlementPaid}. {st_from t, st_to t} - {0})"
  using assms
proof (induction ts arbitrary: n f s)
  case Nil
  then show ?case by (simp add: settledBy_def)
next
  case (Cons t ts)
  let ?d = "settlement_cents t" and ?a = "st_from t" and ?b = "st_to t"
  have rest: "0 \<le> (\<Sum>t \<leftarrow> ts. settlement_cents t)"
    using Cons.prems(1) by (intro sum_list_nonneg) (auto simp: settlement_row_ok_def settlement_cents_def)
  show ?case
  proof (cases "st_status t = SettlementPaid")
    case False
    then have "?d = 0" by (simp add: settlement_cents_def)
    then have "\<exists>s'. sumSettlements env cur ts s = Inr s' \<and>
      tracks (n + 2 * length ts) (\<lambda>u. f u + settledBy ts u) (fs_before s') \<and>
      fs_paid s' = fs_paid s \<and> fs_share s' = fs_share s \<and> distinct (map fst (fs_users s')) \<and>
      fst ` set (fs_users s') = fst ` set (fs_users s) \<union>
        (\<Union>t \<in> {t \<in> set ts. st_status t = SettlementPaid}. {st_from t, st_to t} - {0})"
      using Cons.prems by (intro Cons.IH) simp_all
    moreover have "settledBy (t # ts) u = settledBy ts u" for u using \<open>?d = 0\<close> by (simp add: settledBy_def)
    ultimately show ?thesis using False tracks_grow by fastforce
  next
    case True
    have e: "st_currency t = cur" "st_amount t = cash ?d" "0 \<le> ?d"
      using Cons.prems(1) True by (simp_all add: settlement_row_ok_def settlement_cents_def)
    have f: "\<bar>f u\<bar> + ?d + (\<Sum>t \<leftarrow> ts. settlement_cents t) \<le> 2 ^ 35" for u
      using Cons.prems(3) by (simp add: add.assoc)
    have d: "\<bar>?d\<bar> \<le> 2 ^ 35" "\<bar>f ?a + ?d\<bar> \<le> 2 ^ 35" using f [of ?a] e(3) rest by simp_all
    have r: "round2 (cash ?d) = cash ?d" using d(1) by simp
    let ?g = "f(?a := f ?a + ?d)"
    have t1: "tracks (Suc n) ?g (add_to ?a (cash ?d) (fs_before s))"
      using tracks_add [OF Cons.prems(2) d(2,1)] Cons.prems(4) by simp
    have b: "\<bar>?g ?b - ?d\<bar> \<le> 2 ^ 35" using f [of ?a] f [of ?b] e(3) rest by (cases "?b = ?a") auto
    define h where "h = ?g(?b := ?g ?b - ?d)"
    define m where "m = put ?b (fsub (entry (add_to ?a (cash ?d) (fs_before s)) ?b) (cash ?d)) (add_to ?a (cash ?d) (fs_before s))"
    have n: "Suc n \<le> 2 ^ 15" using Cons.prems(4) by simp
    have t2: "tracks (Suc (Suc n)) h m" unfolding h_def m_def by (rule tracks_sub [OF t1 b d(1) n])
    let ?s = "known_user ?b (known_user ?a (s\<lparr>fs_before := m\<rparr>))"
    have step: "sumSettlements env cur (t # ts) s = sumSettlements env cur ts ?s"
      using convert_same [of env "cash ?d" cur] by (simp add: True e r Let_def m_def)
    have t3: "tracks (Suc (Suc n)) h (fs_before ?s)" using t2 by simp
    have "\<exists>s'. sumSettlements env cur ts ?s = Inr s' \<and>
      tracks (Suc (Suc n) + 2 * length ts) (\<lambda>u. h u + settledBy ts u) (fs_before s') \<and>
      fs_paid s' = fs_paid ?s \<and> fs_share s' = fs_share ?s \<and> distinct (map fst (fs_users s')) \<and>
      fst ` set (fs_users s') = fst ` set (fs_users ?s) \<union>
        (\<Union>t \<in> {t \<in> set ts. st_status t = SettlementPaid}. {st_from t, st_to t} - {0})"
    proof (rule Cons.IH [OF _ t3])
      have "\<bar>h u\<bar> \<le> \<bar>f u\<bar> + ?d" for u using e(3) by (auto simp: h_def)
      then show "\<forall>u. \<bar>h u\<bar> + (\<Sum>t \<leftarrow> ts. settlement_cents t) \<le> 2 ^ 35"
        using f by (meson add_right_mono order_trans)
    qed (use Cons.prems in simp_all)
    moreover have "h u + settledBy ts u = f u + settledBy (t # ts) u" for u
      by (simp add: settledBy_def h_def)
    ultimately show ?thesis unfolding step using True by auto
  qed
qed

end
