(* ===== verification/ExpenseService.thy ===== *)
theory ExpenseService
  imports Expenses
begin

text \<open>
  The handlers of expenses and settlements (\<open>application/service/expense.go\<close>), each with its
  guards, its statements, the activity event it records and the notifications it sends.
\<close>

type_synonym 'a expense_handler = "(expense_db, app_error, 'a) op"

definition xread :: "(trip_db \<Rightarrow> app_error + 'a) \<Rightarrow> 'a expense_handler" where
  "xread f = sread (\<lambda>db. f (xb_trips db))"

definition xlog :: "(trip_db \<Rightarrow> trip_db) \<Rightarrow> unit expense_handler" where
  "xlog f = sdo (\<lambda>db. db\<lparr>xb_trips := f (xb_trips db)\<rparr>)"

definition notifyExpenseParticipants ::
  "svc_env \<Rightarrow> uuid \<Rightarrow> uuid \<Rightarrow> expense_participant list \<Rightarrow> trip_db \<Rightarrow> trip_db" where
  "notifyExpenseParticipants env tid actor ps =
    fold (\<lambda>p. notifyDirect env (pt_user p) tid actor ''expense_added'') ps"

definition notifySettlementPaid :: "svc_env \<Rightarrow> uuid \<Rightarrow> uuid \<Rightarrow> trip_settlement \<Rightarrow> trip_db \<Rightarrow> trip_db" where
  "notifySettlementPaid env tid actor s =
    fold (\<lambda>u. notifyDirect env u tid actor ''settlement_paid'') [st_from s, st_to s]"

text \<open>The caller and the trip, which every handler starts with.\<close>

definition expenseCaller ::
  "expense_env \<Rightarrow> expense_call \<Rightarrow> uuid \<Rightarrow> (auth_user \<times> trip \<times> trip_access) expense_handler" where
  "expenseCaller env cx tid =
    sbind (spure (MustUserFromContext (xc_user cx))) (\<lambda>user.
    sbind (xread (\<lambda>db. requireViewerEditorOrOwner (xe_svc env) db tid (au_id user))) (\<lambda>(t, access).
    sret (user, t, access)))"

section \<open>Expenses\<close>

definition CreateTripExpense ::
  "expense_env \<Rightarrow> expense_call \<Rightarrow> uuid \<Rightarrow> create_expense_input \<Rightarrow>
   (trip_expense \<times> expense_participant list) expense_handler" where
  "CreateTripExpense env cx tid inp =
    sbind (expenseCaller env cx tid) (\<lambda>(user, t, access).
    sbind (sread (expenseUsers env t user)) (\<lambda>(users, travelers).
    sbind (spure (prepareExpenseForCreate (xc_id cx) (xc_fresh cx) t (xe_details env (tr_id t)) users travelers
      (au_id user) access inp)) (\<lambda>(e, ps).
    sbind (sstmt (CreateTripExpenseWithParticipants (xc_now cx) e ps)) (\<lambda>(created, createdPs).
    sbind (xlog (recordActivity (xe_svc env) ''expense_created'' tid (au_id user) (ex_id created))) (\<lambda>_.
    sbind (xlog (notifyExpenseParticipants (xe_svc env) (tr_id t) (au_id user) createdPs)) (\<lambda>_.
    sret (created, createdPs)))))))"

definition normalizeListLimit :: "int \<Rightarrow> int \<Rightarrow> int \<Rightarrow> int" where
  "normalizeListLimit value dflt maximum =
    (if value \<le> 0 then dflt else if value > maximum then maximum else value)"

text \<open>A page of expenses with their participants, and where the next one starts.\<close>

definition ListTripExpenses ::
  "expense_env \<Rightarrow> expense_call \<Rightarrow> uuid \<Rightarrow> expense_filters \<Rightarrow>
   ((trip_expense \<times> expense_participant list) list \<times> int option) expense_handler" where
  "ListTripExpenses env cx tid f =
    sbind (expenseCaller env cx tid) (\<lambda>(user, t, access).
    sbind (sread (expenseUsers env t user)) (\<lambda>_.
    sread (\<lambda>db.
      let limit = normalizeListLimit (xf_limit f) 50 100;
          offset = (if xf_offset f < 0 then 0 else xf_offset f);
          rows = ListTripExpensesByTrip tid (f\<lparr>xf_limit := limit + 1, xf_offset := offset\<rparr>) db;
          more = (int (length rows) > limit);
          page = (if more then take (nat limit) rows else rows);
          participants = ListExpenseParticipantsByTrip tid db
      in Inr (map (\<lambda>e. (e, filter (\<lambda>p. pt_expense p = ex_id e) participants)) page,
              if more then Some (offset + limit) else None))))"

definition GetTripExpense ::
  "expense_env \<Rightarrow> expense_call \<Rightarrow> uuid \<Rightarrow> uuid \<Rightarrow> (trip_expense \<times> expense_participant list) expense_handler" where
  "GetTripExpense env cx tid eid =
    sbind (expenseCaller env cx tid) (\<lambda>(user, t, access).
    sbind (sread (expenseUsers env t user)) (\<lambda>_.
    sbind (sread (GetTripExpenseByID tid eid)) (\<lambda>e.
    sbind (scheck (ex_status e = ExpenseActive) ErrNotFound) (\<lambda>_.
    sread (\<lambda>db. Inr (e, listTripExpenseParticipantsByExpense tid eid db))))))"

definition UpdateTripExpense ::
  "expense_env \<Rightarrow> expense_call \<Rightarrow> uuid \<Rightarrow> uuid \<Rightarrow> update_expense_input \<Rightarrow>
   (trip_expense \<times> expense_participant list) expense_handler" where
  "UpdateTripExpense env cx tid eid inp =
    sbind (expenseCaller env cx tid) (\<lambda>(user, t, access).
    sbind (sread (GetTripExpenseByID tid eid)) (\<lambda>existing.
    sbind (scheck (ex_status existing = ExpenseActive) ErrNotFound) (\<lambda>_.
    sbind (scheck (CanEdit access \<or> ex_created_by existing = au_id user) ErrForbidden) (\<lambda>_.
    sbind (sread (expenseUsers env t user)) (\<lambda>(users, travelers).
    sbind (spure (prepareExpenseForUpdate (xc_fresh cx) t (xe_details env (tr_id t)) users travelers (au_id user)
      access existing inp)) (\<lambda>(e, ps, replace).
    sbind (sstmt (UpdateTripExpenseWithParticipants (xc_now cx) e ps replace)) (\<lambda>(updated, updatedPs).
    sbind (xlog (recordActivity (xe_svc env) ''expense_updated'' tid (au_id user) (ex_id updated))) (\<lambda>_.
    sret (updated, updatedPs)))))))))"

definition DeleteTripExpense :: "expense_env \<Rightarrow> expense_call \<Rightarrow> uuid \<Rightarrow> uuid \<Rightarrow> unit expense_handler" where
  "DeleteTripExpense env cx tid eid =
    sbind (expenseCaller env cx tid) (\<lambda>(user, t, access).
    sbind (sread (GetTripExpenseByID tid eid)) (\<lambda>existing.
    sbind (scheck (ex_status existing = ExpenseActive) ErrNotFound) (\<lambda>_.
    sbind (scheck (CanEdit access \<or> ex_created_by existing = au_id user) ErrForbidden) (\<lambda>_.
    sbind (sstmt (SoftDeleteTripExpense (xc_now cx) tid eid (au_id user))) (\<lambda>deleted.
    xlog (recordActivity (xe_svc env) ''expense_deleted'' tid (au_id user) (ex_id deleted)))))))"

section \<open>Settlements\<close>

record settlements_response =
  sr_currency :: string
  sr_suggestions :: "settlement_suggestion list"
  sr_paid :: "trip_settlement list"
  sr_warnings :: "conversion_warning list"

text \<open>\<open>None\<close>, a loop that does not end, would be a request without an answer.\<close>

definition suggestionsOf :: "uuid \<Rightarrow> expense_financials \<Rightarrow> app_error + settlement_suggestion list" where
  "suggestionsOf tid fin =
    (case settlementSuggestions tid (ef_currency fin) (ef_balances fin) (ef_hash fin) of
       None \<Rightarrow> Inl (UpstreamErr ''no answer'') | Some sgs \<Rightarrow> Inr sgs)"

definition settlementsResponse ::
  "expense_env \<Rightarrow> trip \<Rightarrow> auth_user \<Rightarrow> string \<Rightarrow> expense_db \<Rightarrow> app_error + settlements_response" where
  "settlementsResponse env t user currency db =
    rbind (expenseFinancials env t user currency db) (\<lambda>fin.
    rbind (suggestionsOf (tr_id t) fin) (\<lambda>sgs.
    Inr \<lparr>sr_currency = ef_currency fin, sr_suggestions = sgs,
      sr_paid = filter (\<lambda>s. st_status s = SettlementPaid) (ef_settlements fin),
      sr_warnings = fs_warnings (ef_sums fin)\<rparr>))"

definition GetTripSettlements ::
  "expense_env \<Rightarrow> expense_call \<Rightarrow> uuid \<Rightarrow> string \<Rightarrow> settlements_response expense_handler" where
  "GetTripSettlements env cx tid currency =
    sbind (expenseCaller env cx tid) (\<lambda>(user, t, access).
    sread (settlementsResponse env t user currency))"

definition canMarkSettlementPaid :: "trip_access \<Rightarrow> uuid \<Rightarrow> uuid \<Rightarrow> uuid \<Rightarrow> bool" where
  "canMarkSettlementPaid access actor from to \<longleftrightarrow> CanEdit access \<or> actor = from \<or> actor = to"

definition suggestionRow :: "expense_call \<Rightarrow> uuid \<Rightarrow> uuid \<Rightarrow> string option \<Rightarrow> settlement_suggestion \<Rightarrow> trip_settlement" where
  "suggestionRow cx tid actor notes s =
    \<lparr>st_id = xc_id cx, st_trip = tid, st_from = sg_from s, st_to = sg_to s, st_amount = sg_amount s,
     st_currency = sg_currency s, st_status = SettlementPaid, st_source = SourceCalculated,
     st_hash = Some (sg_hash s), st_paid_at = Some (xc_now cx), st_paid_by = Some actor, st_cancelled_at = None,
     st_cancelled_by = None, st_notes = trimOptionalText notes, st_created_at = 0, st_updated_at = 0\<rparr>"

definition MarkTripSettlementPaid ::
  "expense_env \<Rightarrow> expense_call \<Rightarrow> uuid \<Rightarrow> settlement_id \<Rightarrow> string option \<Rightarrow> settlements_response expense_handler" where
  "MarkTripSettlementPaid env cx tid sid notes =
    sbind (expenseCaller env cx tid) (\<lambda>(user, t, access).
    sbind (sread (expenseFinancials env t user [])) (\<lambda>fin.
    sbind (case sid of
        Calculated _ _ _ _ _ _ \<Rightarrow>
          sbind (spure (suggestionsOf tid fin)) (\<lambda>sgs.
          case find (\<lambda>s. sg_id s = sid) sgs of
            None \<Rightarrow> sfail (ConflictErr ''settlement suggestion is no longer current'')
          | Some s \<Rightarrow>
              sbind (scheck (canMarkSettlementPaid access (au_id user) (sg_from s) (sg_to s)) ErrForbidden) (\<lambda>_.
              sstmt (CreateTripSettlement (xc_now cx) (suggestionRow cx tid (au_id user) notes s))))
      | Malformed \<Rightarrow> sfail (InvalidInput ''invalid settlement id'')
      | Stored i \<Rightarrow>
          sbind (sread (GetTripSettlementByID tid i)) (\<lambda>existing.
          sbind (scheck (canMarkSettlementPaid access (au_id user) (st_from existing) (st_to existing)) ErrForbidden)
            (\<lambda>_.
          sstmt (MarkTripSettlementPaidRow (xc_now cx) tid i (au_id user) (trimOptionalText notes))))) (\<lambda>row.
    sbind (xlog (recordActivity (xe_svc env) ''settlement_marked_paid'' tid (au_id user) (st_id row))) (\<lambda>_.
    sbind (xlog (notifySettlementPaid (xe_svc env) (tr_id t) (au_id user) row)) (\<lambda>_.
    sread (settlementsResponse env t user (ef_currency fin)))))))"

definition CancelTripSettlement ::
  "expense_env \<Rightarrow> expense_call \<Rightarrow> uuid \<Rightarrow> uuid \<Rightarrow> settlements_response expense_handler" where
  "CancelTripSettlement env cx tid sid =
    sbind (expenseCaller env cx tid) (\<lambda>(user, t, access).
    sbind (sread (GetTripSettlementByID tid sid)) (\<lambda>existing.
    sbind (scheck (CanEdit access \<or> st_paid_by existing = Some (au_id user)) ErrForbidden) (\<lambda>_.
    sbind (sstmt (CancelTripSettlementRow (xc_now cx) tid sid (au_id user))) (\<lambda>cancelled.
    sbind (xlog (recordActivity (xe_svc env) ''settlement_cancelled'' tid (au_id user) (st_id cancelled))) (\<lambda>_.
    sread (settlementsResponse env t user []))))))"

end
