(* ===== verification/ShareLaws.thy ===== *)
theory ShareLaws
  imports ExpenseShares
begin

text \<open>
  Sharing an expense neither loses nor invents a cent, as long as the sums of custom amounts fit
  64 bits, except for percentages: there the rounding is given back by users who take turns in
  order of their ids, and one who has nothing left swallows it.
\<close>

section \<open>Equal shares\<close>

lemma set_dedupe: "set (dedupeUUIDs ids) = set ids - {0}" "distinct (dedupeUUIDs ids)"
proof -
  let ?f = "\<lambda>i out. if i = 0 \<or> i \<in> set out then out else out @ [i]"
  have *: "set (fold ?f ids out) = set out \<union> (set ids - {0}) \<and> (distinct out \<longrightarrow> distinct (fold ?f ids out))" for out
    by (induction ids arbitrary: out) auto
  show "set (dedupeUUIDs ids) = set ids - {0}" "distinct (dedupeUUIDs ids)"
    using * [of "[]"] by (simp_all add: dedupeUUIDs_def)
qed

lemma entry_fold_put:
  "distinct xs \<Longrightarrow> entry (fold (\<lambda>(index, i) out. put i (f index) out) (enumerate n xs) out) u =
     (if u \<in> set xs then f (n + (LEAST k. k < length xs \<and> xs ! k = u)) else entry out u)"
proof (induction xs arbitrary: n out)
  case (Cons x xs)
  show ?case
  proof (cases "u = x")
    case True
    have "(LEAST k. k < length (x # xs) \<and> (x # xs) ! k = u) = 0" using True by (intro Least_equality) auto
    then show ?thesis using Cons True by simp
  next
    case False
    have "(LEAST k. k < length (x # xs) \<and> (x # xs) ! k = u) = Suc (LEAST k. k < length xs \<and> xs ! k = u)"
      if u: "u \<in> set xs"
    proof -
      obtain m where m: "m < length xs" "xs ! m = u" using u by (meson in_set_conv_nth)
      show ?thesis using Least_Suc [of "\<lambda>k. k < length (x # xs) \<and> (x # xs) ! k = u" "Suc m"] m False by simp
    qed
    then show ?thesis using Cons False by simp
  qed
qed simp

lemma sum_fold_put:
  "distinct xs \<Longrightarrow> sum (entry (fold (\<lambda>(index, i) out. put i (f index) out) (enumerate n xs) out)) (set xs) =
     (\<Sum>k = n..<n + length xs. f k)"
proof (induction xs arbitrary: n out)
  case (Cons x xs)
  let ?r = "fold (\<lambda>(index, i) out. put i (f index) out) (enumerate (Suc n) xs) (put x (f n) out)"
  have "entry ?r x = f n" using Cons.prems by (simp add: entry_fold_put)
  then have "sum (entry ?r) (set (x # xs)) = f n + sum (entry ?r) (set xs)" using Cons.prems by simp
  also have "\<dots> = f n + (\<Sum>k = Suc n..<Suc n + length xs. f k)" using Cons by simp
  also have "\<dots> = (\<Sum>k = n..<n + length (x # xs). f k)" by (simp add: sum.atLeast_Suc_lessThan add.assoc)
  finally show ?case by simp
qed simp

lemma sum_base_extra:
  "extra \<le> n \<Longrightarrow> (\<Sum>k = 0..<n. if k < extra then base + 1 else base) = int n * base + int extra"
proof (induction n)
  case (Suc n)
  show ?case
  proof (cases "extra = Suc n")
    case True
    then have "(\<Sum>k = 0..<Suc n. if k < extra then base + 1 else base) = (\<Sum>k = 0..<Suc n. base + 1)"
      by (intro sum.cong) simp_all
    then show ?thesis using True by (simp add: algebra_simps)
  next
    case False
    then show ?thesis using Suc by (simp add: algebra_simps)
  qed
qed simp

lemma equal_shares:
  assumes "distinct ids" "ids \<noteq> []" "0 \<le> cents"
  shows "sum (entry (assignEqualShares cents ids [])) (set ids) = cents"
    and "u \<in> set ids \<Longrightarrow> entry (assignEqualShares cents ids []) u \<in>
      {cents div int (length ids), cents div int (length ids) + 1}"
proof -
  let ?n = "int (length ids)"
  define base where "base = cents div ?n"
  define extra where "extra = nat (cents mod ?n)"
  have pos: "0 < ?n" using assms(2) by simp
  have e: "int extra = cents mod ?n" "extra \<le> length ids"
    using pos pos_mod_bound [OF pos, of cents] by (simp_all add: extra_def nat_le_iff less_imp_le)
  have eq: "assignEqualShares cents ids [] =
      fold (\<lambda>(index, i) out. put i (if index < extra then base + 1 else base) out) (enumerate 0 (sort ids)) []"
    using assms(2,3) pos e(1) by (simp add: assignEqualShares_def Let_def go_div_nonneg go_mod_nonneg flip: e(1) base_def)
  have d: "distinct (sort ids)" using assms(1) by simp
  show "sum (entry (assignEqualShares cents ids [])) (set ids) = cents"
    using sum_fold_put [OF d, of "\<lambda>index. if index < extra then base + 1 else base" 0 "[]"] sum_base_extra [OF e(2), of base] e(1)
    by (simp add: eq base_def)
  show "entry (assignEqualShares cents ids []) u \<in> {cents div ?n, cents div ?n + 1}" if "u \<in> set ids"
    unfolding eq using that by (simp add: entry_fold_put [OF d] base_def)
qed

section \<open>Custom amounts\<close>

lemma sum_put:
  "sum (entry (put k v t)) (insert k (fst ` set t)) = sum (entry t) (fst ` set t) - entry t k + v"
  for v :: int
proof -
  let ?K = "fst ` set t"
  have "entry t k = 0" if "k \<notin> ?K"
    using that by (simp add: entry_def map_of_eq_None_iff [symmetric])
  then have "sum (entry t) (insert k ?K) = sum (entry t) ?K" by (cases "k \<in> ?K") (simp_all add: insert_absorb)
  then show ?thesis
    using sum.cong [of "?K - {k}" _ "entry (put k v t)" "entry t"]
    by (simp add: sum.remove [of "insert k ?K" k])
qed

lemma custom_step:
  assumes "addCustomAmounts e users (a # as) (shares, added) = Inr r"
  shows "ca_user a \<in> fst ` set users" "0 \<le> moneyCents (ca_amount a)"
    "addCustomAmounts e users as
      (put (ca_user a) (wrap64 (entry shares (ca_user a) + moneyCents (ca_amount a))) shares,
       wrap64 (added + moneyCents (ca_amount a))) = Inr r"
  using assms by (auto split: if_splits)

lemma custom_nonneg:
  "addCustomAmounts e users as (shares, added) = Inr r \<Longrightarrow> 0 \<le> (\<Sum>a \<leftarrow> as. moneyCents (ca_amount a))"
proof (induction as arbitrary: shares added)
  case (Cons a as)
  from custom_step(2) [OF Cons.prems] Cons.IH [OF custom_step(3) [OF Cons.prems]] show ?case by simp
qed simp

text \<open>Amounts whose sum is a 64-bit number are added up exactly.\<close>

lemma custom_amounts:
  assumes "addCustomAmounts e users as (shares, added) = Inr (shares', added')"
    "distinct (map fst shares)" "fst ` set shares \<subseteq> fst ` set users" "\<And>u. 0 \<le> entry shares u"
    "sum (entry shares) (fst ` set shares) = added"
    "added + (\<Sum>a \<leftarrow> as. moneyCents (ca_amount a)) < 2 ^ 63"
  shows "distinct (map fst shares') \<and> fst ` set shares' \<subseteq> fst ` set users \<and> (\<forall>u. 0 \<le> entry shares' u) \<and>
    sum (entry shares') (fst ` set shares') = added'"
  using assms
proof (induction as arbitrary: shares added)
  case (Cons a as)
  let ?c = "moneyCents (ca_amount a)"
  note a = custom_step [OF Cons.prems(1)]
  have rest: "added + ?c < 2 ^ 63" using Cons.prems(6) custom_nonneg [OF a(3)] by simp
  have entry_le: "entry shares (ca_user a) \<le> added"
  proof (cases "ca_user a \<in> fst ` set shares")
    case True
    then show ?thesis unfolding Cons.prems(5) [symmetric] using Cons.prems(4) by (intro member_le_sum) simp_all
  next
    case False
    then have "entry shares (ca_user a) = 0" by (simp add: entry_def map_of_eq_None_iff [symmetric])
    then show ?thesis unfolding Cons.prems(5) [symmetric] using Cons.prems(4) by (simp add: sum_nonneg)
  qed
  have w: "wrap64 (added + ?c) = added + ?c"
    "wrap64 (entry shares (ca_user a) + ?c) = entry shares (ca_user a) + ?c"
    using Cons.prems(4) [of "ca_user a"] entry_le a(2) rest by (intro wrap64_id; simp)+
  let ?s = "put (ca_user a) (entry shares (ca_user a) + ?c) shares"
  have s: "sum (entry ?s) (fst ` set ?s) = added + ?c"
    using sum_put [of "ca_user a" "entry shares (ca_user a) + ?c" shares] Cons.prems(5) by simp
  show ?case
    by (rule Cons.IH [OF a(3) [unfolded w] _ _ _ s]) (use Cons.prems a in auto)
qed simp

text \<open>Whatever the amounts, they are added up modulo \<open>2 ^ 64\<close>.\<close>

lemma custom_wrapped:
  assumes "addCustomAmounts e users as (shares, added) = Inr (shares', added')"
    "distinct (map fst shares)" "fst ` set shares \<subseteq> fst ` set users"
    "2 ^ 64 dvd sum (entry shares) (fst ` set shares) - added"
  shows "distinct (map fst shares') \<and> fst ` set shares' \<subseteq> fst ` set users \<and>
    card (fst ` set shares') \<le> card (fst ` set shares) + length as \<and>
    2 ^ 64 dvd sum (entry shares') (fst ` set shares') - added'"
  using assms
proof (induction as arbitrary: shares added)
  case (Cons a as)
  let ?c = "moneyCents (ca_amount a)" and ?u = "ca_user a"
  note a = custom_step [OF Cons.prems(1)]
  let ?s = "put ?u (wrap64 (entry shares ?u + ?c)) shares"
  have "sum (entry ?s) (fst ` set ?s) - wrap64 (added + ?c) =
      (sum (entry shares) (fst ` set shares) - added) + (wrap64 (entry shares ?u + ?c) - (entry shares ?u + ?c)) -
      (wrap64 (added + ?c) - (added + ?c))"
    using sum_put [of ?u "wrap64 (entry shares ?u + ?c)" shares] by simp
  then have s: "2 ^ 64 dvd sum (entry ?s) (fst ` set ?s) - wrap64 (added + ?c)"
    using Cons.prems(4) wrap64_dvd by (simp only: dvd_add dvd_diff)
  have card: "card (fst ` set ?s) \<le> Suc (card (fst ` set shares))" by (simp add: card_insert_if)
  have "distinct (map fst shares') \<and> fst ` set shares' \<subseteq> fst ` set users \<and>
      card (fst ` set shares') \<le> card (fst ` set ?s) + length as \<and>
      2 ^ 64 dvd sum (entry shares') (fst ` set shares') - added'"
    by (rule Cons.IH [OF a(3) _ _ s]) (use Cons.prems a in auto)
  then show ?case using card by auto
qed simp

section \<open>Percentages\<close>

text \<open>
  The cents that are missing are handed out, and those too much are taken back, one at each turn,
  the users taking turns in order of their ids: how often it is the turn of \<open>u\<close> in \<open>m\<close> turns.
\<close>

definition turns :: "uuid list \<Rightarrow> nat \<Rightarrow> uuid \<Rightarrow> int" where
  "turns ids m u = int (length (filter (\<lambda>k. ids ! (k mod length ids) = u) [0..<m]))"

definition turns_from :: "uuid list \<Rightarrow> nat \<Rightarrow> nat \<Rightarrow> uuid \<Rightarrow> int" where
  "turns_from ids i m u = int (length (filter (\<lambda>k. ids ! (k mod length ids) = u) [i..<i + m]))"

lemma turns_from_Suc:
  "turns_from ids i (Suc m) u = (if ids ! (i mod length ids) = u then 1 else 0) + turns_from ids (i + 1) m u"
proof -
  have "[i..<i + Suc m] = i # [i + 1..<i + 1 + m]" by (simp add: upt_rec)
  then show ?thesis by (simp add: turns_from_def del: upt_Suc)
qed

lemma turns_from_0 [simp]: "turns_from ids i 0 u = 0" "turns_from ids 0 m u = turns ids m u"
  by (simp_all add: turns_from_def turns_def)

lemma turns_nonneg: "0 \<le> turns_from ids i m u" "0 \<le> turns ids m u"
  by (simp_all add: turns_from_def turns_def)

lemma sum_turns:
  assumes "ids \<noteq> []"
  shows "sum (turns ids m) (set ids) = int m"
proof -
  have "sum (turns_from ids i m) (set ids) = int m" for i
  proof (induction m arbitrary: i)
    case (Suc m)
    have "ids ! (i mod length ids) \<in> set ids" using assms by simp
    then show ?case using Suc by (simp add: turns_from_Suc sum.distrib)
  qed simp
  from this [of 0] show ?thesis by simp
qed

lemma spread_up:
  assumes "ids \<noteq> []" "\<And>u. u \<in> set ids \<Longrightarrow> 0 \<le> entry out u \<and> entry out u + int m < 2 ^ 63"
  shows "entry (spreadRemainder ids i (int m) out) u = entry out u + turns_from ids i m u"
  using assms(2)
proof (induction m arbitrary: i out)
  case (Suc m)
  let ?k = "ids ! (i mod length ids)"
  let ?out = "put ?k (entry out ?k + 1) out"
  have k: "?k \<in> set ids" using assms(1) by simp
  have "wrap64 (entry out ?k + 1) = entry out ?k + 1" using Suc.prems [OF k] by (intro wrap64_id) simp_all
  then have "spreadRemainder ids i (int (Suc m)) out = spreadRemainder ids (i + 1) (int m) ?out"
    using assms(1) by (subst spreadRemainder.simps) (simp add: Let_def)
  moreover have "entry (spreadRemainder ids (i + 1) (int m) ?out) u = entry ?out u + turns_from ids (i + 1) m u"
    by (rule Suc.IH) (use Suc.prems in force)
  ultimately show ?case by (simp add: turns_from_Suc)
qed (simp add: spreadRemainder.simps)

text \<open>A turn to give back a cent is lost on a user who has none.\<close>

lemma spread_down:
  assumes "ids \<noteq> []" "0 \<le> entry out u"
  shows "entry (spreadRemainder ids i (- int m) out) u = max 0 (entry out u - turns_from ids i m u)"
  using assms(2)
proof (induction m arbitrary: i out)
  case (Suc m)
  let ?k = "ids ! (i mod length ids)"
  let ?out = "if entry out ?k > 0 then put ?k (entry out ?k - 1) out else out"
  have "spreadRemainder ids i (- int (Suc m)) out = spreadRemainder ids (i + 1) (- int m) ?out"
    using assms(1) by (subst spreadRemainder.simps) (auto simp: Let_def)
  moreover have "entry (spreadRemainder ids (i + 1) (- int m) ?out) u = max 0 (entry ?out u - turns_from ids (i + 1) m u)"
    by (rule Suc.IH) (use Suc.prems in auto)
  ultimately show ?case using Suc.prems turns_nonneg(1) [of ids "Suc i" m u] by (auto simp: turns_from_Suc max_def)
qed (simp add: spreadRemainder.simps)

lemma percentage_start:
  fixes f :: "uuid \<Rightarrow> int"
  assumes "distinct xs" "\<And>u. u \<in> set xs \<Longrightarrow> 0 \<le> f u" "0 \<le> n" "n + sum f (set xs) < 2 ^ 63"
    "fold (\<lambda>i (out, added). (put i (f i) out, wrap64 (added + f i))) xs (out, n) = (out', n')"
  shows "n' = n + sum f (set xs) \<and> (\<forall>u. entry out' u = (if u \<in> set xs then f u else entry out u))"
  using assms
proof (induction xs arbitrary: out n)
  case (Cons x xs)
  have "0 \<le> sum f (set xs)" using Cons.prems(2) by (intro sum_nonneg) simp
  moreover have x: "0 \<le> f x" "n + f x + sum f (set xs) < 2 ^ 63" using Cons.prems(1,2,4) by simp_all
  ultimately have w: "wrap64 (n + f x) = n + f x" using Cons.prems(3) by (intro wrap64_id) linarith+
  have "n' = n + f x + sum f (set xs) \<and> (\<forall>u. entry out' u = (if u \<in> set xs then f u else entry (put x (f x) out) u))"
    by (rule Cons.IH) (use Cons.prems w x in simp_all)
  then show ?case using Cons.prems(1) by auto
qed simp

text \<open>
  C33. Shares by percentages sum to the amount only up to the rounding. When the rounded shares fall
  short of it, the cents that are left are handed out in turns and nothing is lost; when they
  exceed it, the users give back a cent at each of their turns until the excess is counted down,
  and every turn that comes to a user who has nothing left makes the shares sum to a cent too
  much. This holds for percentages that are not negative and an amount and rounded shares whose
  sums are 64-bit numbers of cents.
\<close>

theorem percentage_shares_sum:
  assumes rounded: "rounded = (\<lambda>u. percentageCents cents (entry percentages u))"
    and shares: "shares = assignPercentageShares cents ids percentages []"
    and excess: "excess = sum rounded (set ids) - cents"
    and "distinct ids" "ids \<noteq> []" "\<And>u. u \<in> set ids \<Longrightarrow> 0 \<le> rounded u"
    and "0 \<le> cents" "cents < 2 ^ 63" "sum rounded (set ids) < 2 ^ 63"
  shows "(\<forall>u \<in> set ids. entry shares u =
      (if excess \<le> 0 then rounded u + turns (sort ids) (nat (- excess)) u
       else max 0 (rounded u - turns (sort ids) (nat excess) u))) \<and>
    sum (entry shares) (set ids) =
      cents + (\<Sum>u \<in> set ids. max 0 (turns (sort ids) (nat excess) u - rounded u))"
proof -
  obtain out added where o: "fold (\<lambda>i (out, added). (put i (rounded i) out, wrap64 (added + rounded i))) (sort ids) ([], 0) = (out, added)"
    by fastforce
  have start: "added = sum rounded (set ids)" "\<And>u. u \<in> set ids \<Longrightarrow> entry out u = rounded u"
    using percentage_start [OF _ _ _ _ o] assms(4,6,9) by simp_all
  have nonneg: "0 \<le> sum rounded (set ids)" using assms(6) by (intro sum_nonneg) simp
  have "wrap64 (cents - added) = - excess" using assms(7-9) nonneg start(1) excess by (subst wrap64_id) simp_all
  then have eq: "shares = spreadRemainder (sort ids) 0 (- excess) out"
    using o by (simp add: shares assignPercentageShares_def Let_def rounded)
  have ne: "sort ids \<noteq> []" using assms(5) by (simp flip: set_empty)
  have turns: "sum (turns (sort ids) m) (set ids) = int m" for m using sum_turns [OF ne, of m] by simp
  have le: "rounded u \<le> sum rounded (set ids)" if "u \<in> set ids" for u
    using that assms(6) by (intro member_le_sum) simp_all
  have entries: "entry shares u = (if excess \<le> 0 then rounded u + turns (sort ids) (nat (- excess)) u
       else max 0 (rounded u - turns (sort ids) (nat excess) u))" if u: "u \<in> set ids" for u
  proof (cases "excess \<le> 0")
    case True
    have "0 \<le> entry out v \<and> entry out v + int (nat (- excess)) < 2 ^ 63" if "v \<in> set (sort ids)" for v
      using that True le [of v] assms(6) [of v] start(2) [of v] assms(8) excess by simp
    from spread_up [OF ne this, of 0 u] show ?thesis using True start(2) [OF u] by (simp add: eq)
  next
    case False
    then show ?thesis using spread_down [OF ne, of out u 0 "nat excess"] start(2) [OF u] assms(6) [OF u] by (simp add: eq)
  qed
  have "sum (entry shares) (set ids) = cents + (\<Sum>u \<in> set ids. max 0 (turns (sort ids) (nat excess) u - rounded u))"
  proof (cases "excess \<le> 0")
    case True
    then have "sum (entry shares) (set ids) = sum rounded (set ids) + sum (turns (sort ids) (nat (- excess))) (set ids)"
      using entries by (simp add: sum.distrib)
    moreover have "(\<Sum>u \<in> set ids. max 0 (turns (sort ids) (nat excess) u - rounded u)) = 0"
      using True assms(6) by (intro sum.neutral) (simp add: turns_def)
    ultimately show ?thesis using True excess by (simp add: turns)
  next
    case False
    have "sum (entry shares) (set ids) =
        (\<Sum>u \<in> set ids. rounded u - turns (sort ids) (nat excess) u + max 0 (turns (sort ids) (nat excess) u - rounded u))"
      using False entries by (intro sum.cong) auto
    also have "\<dots> = sum rounded (set ids) - sum (turns (sort ids) (nat excess)) (set ids) +
        (\<Sum>u \<in> set ids. max 0 (turns (sort ids) (nat excess) u - rounded u))"
      by (simp add: sum.distrib sum_subtractf)
    finally show ?thesis using False excess by (simp add: turns)
  qed
  then show ?thesis using entries by blast
qed

section \<open>All splits\<close>

text \<open>What a split that is accepted gives, percentages apart.\<close>

definition fair_split :: "trip_expense \<Rightarrow> uuid list \<Rightarrow> (uuid \<times> int) list \<Rightarrow> bool" where
  "fair_split e ids shares \<longleftrightarrow>
     distinct ids \<and> sum (entry shares) (set ids) = moneyCents (ex_amount e) \<and>
     (\<forall>u \<in> set ids. 0 \<le> entry shares u) \<and>
     (ex_split e \<in> {SplitEqual, SplitSelectedEqual} \<longrightarrow>
        (\<forall>u \<in> set ids. \<forall>v \<in> set ids. entry shares u \<le> entry shares v + 1))"

lemma fair_equal:
  assumes "distinct ids" "ids \<noteq> []" "0 \<le> moneyCents (ex_amount e)"
  shows "fair_split e (sort ids) (assignEqualShares (moneyCents (ex_amount e)) ids [])"
proof -
  have b: "0 \<le> moneyCents (ex_amount e) div int (length ids)"
    using assms(3) by (simp add: pos_imp_zdiv_nonneg_iff assms(2))
  let ?s = "entry (assignEqualShares (moneyCents (ex_amount e)) ids [])" and ?b = "moneyCents (ex_amount e) div int (length ids)"
  have near: "?b \<le> ?s u \<and> ?s u \<le> ?b + 1" if "u \<in> set ids" for u
    using equal_shares(2) [OF assms that] by auto
  have "0 \<le> ?s u" if "u \<in> set ids" for u using near [OF that] b by linarith
  moreover have "?s u \<le> ?s v + 1" if "u \<in> set ids" "v \<in> set ids" for u v
    using near [OF that(1)] near [OF that(2)] by linarith
  ultimately show ?thesis using equal_shares(1) [OF assms] assms(1) by (simp add: fair_split_def)
qed

lemma split_fair:
  assumes "splitExpense e selected amounts percentages users travelers = Inr (ids, shares, pcts)"
    "ex_split e \<noteq> SplitCustomPercentages" "0 \<le> moneyCents (ex_amount e)" "ids \<noteq> []" "distinct (map fst users)"
    "ex_split e = SplitCustomAmounts \<Longrightarrow> (\<Sum>a \<leftarrow> amounts. moneyCents (ca_amount a)) < 2 ^ 63"
  shows "fair_split e ids shares"
proof (cases "ex_split e")
  case SplitEqual
  let ?ids = "if linkedTravelerUserIDs travelers = [] then sortedUserIDs users else linkedTravelerUserIDs travelers"
  have "distinct ?ids" using assms(5) set_dedupe(2) by (simp add: linkedTravelerUserIDs_def sortedUserIDs_def)
  moreover have "?ids \<noteq> []" using assms(1,4) SplitEqual by (auto simp: splitExpense_def Let_def)
  ultimately show ?thesis using fair_equal [of ?ids e] assms(1,3) SplitEqual
    by (auto simp: splitExpense_def Let_def)
next
  case SplitSelectedEqual
  then show ?thesis using fair_equal [of "dedupeUUIDs selected" e] assms(1,3) set_dedupe(2)
    by (auto simp: splitExpense_def Let_def split: if_splits)
next
  case SplitCustomAmounts
  then obtain added where "addCustomAmounts e users amounts ([], 0) = Inr (shares, added)"
    and "added = moneyCents (ex_amount e)" and ids: "ids = sortedShareKeys shares"
    using assms(1) by (auto simp: splitExpense_def Let_def rbind_Inr_iff split: if_splits)
  then show ?thesis using custom_amounts [of e users amounts "[]" 0 shares added] assms(6) SplitCustomAmounts
    by (simp add: fair_split_def sortedShareKeys_def)
next
  case SplitPayerOnly
  then show ?thesis using assms(1,3) by (auto simp: splitExpense_def Let_def fair_split_def entry_def)
qed (use assms in \<open>simp_all add: splitExpense_def Let_def\<close>)

lemma rows_users: "map pt_user (map (\<lambda>(n, uid). participantRow e shares pcts (fresh n) uid) (enumerate 0 ids)) = ids"
proof -
  have "pt_user \<circ> (\<lambda>(n, uid). participantRow e shares pcts (fresh n) uid) = snd"
    by (rule ext) (simp add: participantRow_def Let_def split: prod.splits)
  then show ?thesis by (simp only: map_map map_snd_enumerate)
qed

lemma accepted_shares:
  assumes "calculateExpenseParticipants fresh e selected amounts percentages users travelers = Inr ps"
    and "ex_amount e = cash c" "0 \<le> c" "c \<le> 2 ^ 44"
    and "ex_split e \<noteq> SplitCustomPercentages" "distinct (map fst users)"
    and "ex_split e = SplitCustomAmounts \<Longrightarrow> (\<Sum>a \<leftarrow> amounts. moneyCents (ca_amount a)) < 2 ^ 63"
  shows "distinct (map pt_user ps) \<and> pt_user ` set ps \<subseteq> fst ` set users \<and> ps \<noteq> [] \<and>
    (\<exists>share. sum share (pt_user ` set ps) = c \<and>
       (\<forall>p \<in> set ps. pt_amount p = Some (cash (share (pt_user p))) \<and> 0 \<le> share (pt_user p) \<and>
          pt_currency p = Some (ex_currency e)) \<and>
       (ex_split e \<in> {SplitEqual, SplitSelectedEqual} \<longrightarrow>
          (\<forall>p \<in> set ps. \<forall>q \<in> set ps. share (pt_user p) \<le> share (pt_user q) + 1)))"
proof -
  obtain ids shares pcts where s: "splitExpense e selected amounts percentages users travelers = Inr (ids, shares, pcts)"
    and ids: "ids \<noteq> []" "set ids \<subseteq> fst ` set users"
    and ps: "ps = map (\<lambda>(n, uid). participantRow e shares pcts (fresh n) uid) (enumerate 0 (sort ids))"
    using assms(1) by (auto simp: calculateExpenseParticipants_def rbind_Inr_iff split: if_splits)
  have cents: "moneyCents (ex_amount e) = c" using assms(2-4) by simp
  have fair: "fair_split e ids shares" using split_fair [OF s assms(5) _ ids(1) assms(6,7)] cents assms(3) by simp
  have users: "map pt_user ps = sort ids" unfolding ps by (rule rows_users)
  have set_users: "pt_user ` set ps = set ids" using arg_cong [OF users, of set] by simp
  have amount: "pt_amount p = Some (cash (entry shares (pt_user p))) \<and> 0 \<le> entry shares (pt_user p) \<and>
      pt_currency p = Some (ex_currency e)" if p: "p \<in> set ps" for p
  proof -
    have u: "pt_user p \<in> set ids" using p set_users by blast
    have le: "entry shares (pt_user p) \<le> c" "0 \<le> entry shares (pt_user p)"
      using member_le_sum [OF u, of "entry shares"] fair u cents by (auto simp: fair_split_def)
    then have "centsMoney (entry shares (pt_user p)) = cash (entry shares (pt_user p))" using assms(4) by simp
    moreover have "pt_amount p = Some (centsMoney (entry shares (pt_user p)))" "pt_currency p = Some (ex_currency e)"
      using p unfolding ps by (auto simp: participantRow_def Let_def)
    ultimately show ?thesis using le by simp
  qed
  have "distinct (map pt_user ps)" using users fair by (simp add: fair_split_def)
  moreover have "ps \<noteq> []" using set_users ids(1) by auto
  moreover have "pt_user p \<in> set ids" if "p \<in> set ps" for p using that set_users by blast
  ultimately show ?thesis using fair amount set_users ids(2) cents
    by (intro conjI exI [of _ "entry shares"]) (auto simp: fair_split_def)
qed

text \<open>
  C32. An expense that is accepted, split in any way but by percentages, is owed in full: its
  participants are different users with access to the trip, every share is a whole number of
  cents in the currency of the expense, none is negative, together they are the amount, and equal
  shares differ by at most a cent. The \<open>float64\<close> arithmetic is exact for amounts up to
  \<open>2 ^ 44\<close> cents.
\<close>

theorem shares_sum_to_amount:
  assumes "calculateExpenseParticipants fresh e selected amounts percentages users travelers = Inr ps"
    and "ex_amount e = cash c" "0 \<le> c" "c \<le> 2 ^ 44"
    and "ex_split e \<noteq> SplitCustomPercentages" "distinct (map fst users)"
    and "ex_split e = SplitCustomAmounts \<Longrightarrow> (\<Sum>a \<leftarrow> amounts. moneyCents (ca_amount a)) < 2 ^ 63"
  shows "distinct (map pt_user ps) \<and> pt_user ` set ps \<subseteq> fst ` set users \<and> ps \<noteq> [] \<and>
    (\<exists>share. sum share (pt_user ` set ps) = c \<and>
       (\<forall>p \<in> set ps. pt_amount p = Some (cash (share (pt_user p))) \<and> 0 \<le> share (pt_user p) \<and>
          pt_currency p = Some (ex_currency e)) \<and>
       (ex_split e \<in> {SplitEqual, SplitSelectedEqual} \<longrightarrow>
          (\<forall>p \<in> set ps. \<forall>q \<in> set ps. share (pt_user p) \<le> share (pt_user q) + 1)))"
  using assms by (rule accepted_shares)

end
