(* ===== verification/Ledger.thy ===== *)
theory Ledger
  imports CentSums ExpenseService ShareLaws Access
begin

text \<open>
  The ledger of a trip: the invariant of the expense tables that every endpoint keeps. Amounts are
  whole cents, participants belong to an expense of their trip, and the shares of an expense that
  is not split by percentages add up to its amount.
\<close>

definition cents_range :: "int \<Rightarrow> bool" where
  "cents_range c \<longleftrightarrow> 0 \<le> c \<and> c < 10 ^ 12"

definition sharesOf :: "uuid \<Rightarrow> expense_participant list \<Rightarrow> int" where
  "sharesOf eid ps = (\<Sum>p \<leftarrow> filter (\<lambda>p. pt_expense p = eid) ps. share_cents p)"

definition expense_row_fine :: "expense_participant list \<Rightarrow> trip_expense \<Rightarrow> bool" where
  "expense_row_fine ps e \<longleftrightarrow>
     ex_amount e = cash (expense_cents e) \<and> cents_range (expense_cents e) \<and> validCurrencyCode (ex_currency e) \<and>
     (ex_split e \<noteq> SplitCustomPercentages \<longrightarrow> sharesOf (ex_id e) ps = expense_cents e)"

definition participant_row_fine :: "trip_expense list \<Rightarrow> expense_participant \<Rightarrow> bool" where
  "participant_row_fine es p \<longleftrightarrow>
     pt_amount p = Some (cash (share_cents p)) \<and> cents_range (share_cents p) \<and>
     (\<exists>e \<in> set es. ex_id e = pt_expense p \<and> ex_trip e = pt_trip p \<and> pt_currency p = Some (ex_currency e))"

definition settlement_row_fine :: "trip_settlement \<Rightarrow> bool" where
  "settlement_row_fine s \<longleftrightarrow>
     st_amount s = cash (moneyCents (st_amount s)) \<and> cents_range (moneyCents (st_amount s)) \<and>
     0 < moneyCents (st_amount s) \<and> st_from s \<noteq> st_to s"

definition ledger_ok :: "expense_db \<Rightarrow> bool" where
  "ledger_ok db \<longleftrightarrow>
     distinct (map ex_id (xb_expenses db)) \<and>
     (\<forall>e \<in> set (xb_expenses db). expense_row_fine (xb_participants db) e) \<and>
     (\<forall>p \<in> set (xb_participants db). participant_row_fine (xb_expenses db) p) \<and>
     distinct (map st_id (xb_settlements db)) \<and> (\<forall>s \<in> set (xb_settlements db). settlement_row_fine s)"

section \<open>Stored amounts\<close>

text \<open>What fits the column is read back as the cents that were written.\<close>

lemma stored_cents:
  assumes "numeric_fits 12 a"
  shows "stored_numeric a = cash (moneyCents a)" "moneyCents (stored_numeric a) = moneyCents a"
  using assms by (simp_all add: stored_numeric_cash numeric_fits_def toPgNumeric_moneyCents)

lemma cash_fits: "numeric_fits 12 (cash c) \<Longrightarrow> 0 \<le> c \<Longrightarrow> c < 10 ^ 12"
proof (rule ccontr)
  assume fits: "numeric_fits 12 (cash c)" and c: "0 \<le> c" "\<not> c < 10 ^ 12"
  define r where "r = (of_int c :: rat)"
  have "10 ^ 12 \<le> c" using c(2) by simp
  then have "of_int (10 ^ 12) \<le> r" unfolding r_def by (simp only: of_int_le_iff)
  then have r: "10 ^ 12 \<le> r" by simp
  define v where "v = cash c"
  have "\<bar>v - r / 100\<bar> \<le> \<bar>r / 100\<bar> / 2 ^ 53" using fl_error [of "r / 100"] by (simp add: v_def cash_def fdiv_def r_def)
  moreover have ra: "\<bar>r / 100\<bar> = r / 100" using r by simp
  ultimately have v: "r / 100 - r / 100 / 2 ^ 53 \<le> v" using r by (simp only: abs_le_iff ra) linarith
  have v0: "0 \<le> v" using v r by simp
  have "\<bar>fl (v * 100) - v * 100\<bar> \<le> \<bar>v * 100\<bar> / 2 ^ 53" by (rule fl_error)
  moreover have va: "\<bar>v * 100\<bar> = v * 100" using v0 by simp
  ultimately have f: "v * 100 - v * 100 / 2 ^ 53 \<le> fmul v 100" by (simp only: abs_le_iff va fmul_def) linarith
  have small: "\<bar>moneyCents v\<bar> < 10 ^ 12" using fits by (simp add: numeric_fits_def toPgNumeric_moneyCents v_def)
  then have "moneyCents v = go_round (fmul v 100)" unfolding moneyCents_def by (rule go_int_small)
  then have "fmul v 100 - 1 / 2 \<le> of_int (moneyCents v)" using go_round_error [of "fmul v 100"]
    unfolding abs_le_iff by linarith
  moreover have "moneyCents v \<le> 10 ^ 12 - 1" using small by linarith
  then have "of_int (moneyCents v) \<le> (of_int (10 ^ 12 - 1) :: rat)" by (simp only: of_int_le_iff)
  then have "(of_int (moneyCents v) :: rat) \<le> 10 ^ 12 - 1" by simp
  ultimately have "v * 100 - v * 100 / 2 ^ 53 \<le> 10 ^ 12 - 1 / 2" using f by linarith
  then show False using v r by simp
qed

section \<open>Statements\<close>

definition stored_participant :: "uuid \<Rightarrow> uuid \<Rightarrow> expense_participant \<Rightarrow> expense_participant" where
  "stored_participant eid tid p =
    p\<lparr>pt_expense := eid, pt_trip := tid, pt_amount := map_option stored_numeric (pt_amount p),
      pt_percentage := map_option stored_numeric (pt_percentage p)\<rparr>"

definition amount_fits :: "expense_participant \<Rightarrow> bool" where
  "amount_fits p \<longleftrightarrow> opt_all (\<lambda>a. numeric_fits 12 a \<and> 0 \<le> toPgNumeric a) (pt_amount p)"

lemma createTripExpenseParticipant_Inr:
  assumes "createTripExpenseParticipant (p\<lparr>pt_expense := eid, pt_trip := tid\<rparr>) db = Inr (q, db')"
  shows "q = stored_participant eid tid p" "amount_fits p" "db' = db\<lparr>xb_participants := xb_participants db @ [q]\<rparr>"
  using assms by (auto simp: createTripExpenseParticipant_def stored_participant_def amount_fits_def Let_def split: if_splits)

lemma createParticipants_Inr:
  assumes "createParticipants eid tid ps db = Inr (qs, db')"
  shows "qs = map (stored_participant eid tid) ps \<and> (\<forall>p \<in> set ps. amount_fits p) \<and>
    db' = db\<lparr>xb_participants := xb_participants db @ qs\<rparr>"
  using assms
proof (induction ps arbitrary: db qs)
  case (Cons p ps)
  then obtain q db1 qs1 where q: "createTripExpenseParticipant (p\<lparr>pt_expense := eid, pt_trip := tid\<rparr>) db = Inr (q, db1)"
    and rest: "createParticipants eid tid ps db1 = Inr (qs1, db')" "qs = q # qs1"
    by (auto simp: rbind_Inr_iff)
  from createTripExpenseParticipant_Inr [OF q] Cons.IH [OF rest(1)] rest(2) show ?case by simp
qed simp

lemma stored_participant_row:
  assumes "amount_fits p" "pt_amount p \<noteq> None"
  shows "pt_amount (stored_participant eid tid p) = Some (cash (share_cents (stored_participant eid tid p)))"
    "cents_range (share_cents (stored_participant eid tid p))" "share_cents (stored_participant eid tid p) = share_cents p"
    "pt_expense (stored_participant eid tid p) = eid" "pt_trip (stored_participant eid tid p) = tid"
    "pt_currency (stored_participant eid tid p) = pt_currency p" "pt_user (stored_participant eid tid p) = pt_user p"
proof -
  obtain a where a: "pt_amount p = Some a" using assms(2) by auto
  have fits: "numeric_fits 12 a" "0 \<le> toPgNumeric a" using assms(1) a by (simp_all add: amount_fits_def opt_all_def)
  note st = stored_cents [OF fits(1)]
  have s: "share_cents (stored_participant eid tid p) = moneyCents a" using st by (simp add: share_cents_def stored_participant_def a)
  show "share_cents (stored_participant eid tid p) = share_cents p" using s by (simp add: share_cents_def a)
  show "pt_amount (stored_participant eid tid p) = Some (cash (share_cents (stored_participant eid tid p)))"
    unfolding s using st by (simp add: stored_participant_def a)
  show "cents_range (share_cents (stored_participant eid tid p))"
    unfolding s using fits by (simp add: cents_range_def numeric_fits_def toPgNumeric_moneyCents)
qed (simp_all add: stored_participant_def)

text \<open>The rows an accepted input gives to an expense.\<close>

lemma calculated_rows:
  assumes "calculateExpenseParticipants fresh e selected amounts percentages users travelers = Inr ps" "p \<in> set ps"
  shows "pt_currency p = Some (ex_currency e)" "pt_amount p \<noteq> None"
  using assms by (auto simp: calculateExpenseParticipants_def rbind_Inr_iff participantRow_def Let_def split: if_splits)

lemma share_sum_users:
  "distinct (map pt_user ps) \<Longrightarrow> \<forall>p \<in> set ps. share_cents p = share (pt_user p) \<Longrightarrow>
     (\<Sum>p \<leftarrow> ps. share_cents p) = sum share (pt_user ` set ps)"
  by (induction ps) auto

text \<open>
  The rows of an accepted split sum to the amount. Custom amounts may wrap around, but not
  unnoticed: a row whose share wrapped does not fit the column, and fewer than \<open>2 ^ 24\<close> shares that
  fit cannot sum to \<open>2 ^ 64\<close> cents more than the amount.
\<close>

lemma custom_row_cents:
  assumes "amount_fits p" "pt_amount p = Some (centsMoney c)"
  shows "share_cents p = c" "0 \<le> c" "c < 10 ^ 12"
proof -
  have fits: "0 \<le> moneyCents (centsMoney c)" "moneyCents (centsMoney c) < 10 ^ 12"
    using assms by (simp_all add: amount_fits_def opt_all_def numeric_fits_def toPgNumeric_moneyCents abs_less_iff)
  note c = centsMoney_fits [OF fits]
  show "share_cents p = c" using assms(2) c by (simp add: share_cents_def)
  show "0 \<le> c" "c < 10 ^ 12" using fits unfolding c by simp_all
qed

lemma custom_sum:
  assumes "calculateExpenseParticipants fresh e selected amounts percentages users travelers = Inr ps"
    "ex_amount e = cash c" "0 \<le> c" "c \<le> 2 ^ 44" "ex_split e = SplitCustomAmounts"
    "\<forall>p \<in> set ps. amount_fits p" "length amounts < 2 ^ 24"
  shows "(\<Sum>p \<leftarrow> ps. share_cents p) = c"
proof -
  obtain ids shares pcts where s: "splitExpense e selected amounts percentages users travelers = Inr (ids, shares, pcts)"
    and ps: "ps = map (\<lambda>(n, uid). participantRow e shares pcts (fresh n) uid) (enumerate 0 (sort ids))"
    using assms(1) by (auto simp: calculateExpenseParticipants_def rbind_Inr_iff split: if_splits)
  have "moneyCents (ex_amount e) = c" using assms(2-4) by simp
  then have add: "addCustomAmounts e users amounts ([], 0) = Inr (shares, c)" and ids: "ids = sortedShareKeys shares"
    using s assms(5) by (auto simp: splitExpense_def Let_def rbind_Inr_iff split: if_splits)
  let ?K = "fst ` set shares"
  have w: "distinct (map fst shares)" "card ?K \<le> length amounts" "2 ^ 64 dvd sum (entry shares) ?K - c"
    using custom_wrapped [OF add] by simp_all
  have users: "map pt_user ps = sort ids" unfolding ps by (rule rows_users)
  have keys: "pt_user ` set ps = ?K" using arg_cong [OF users, of set] by (simp add: ids sortedShareKeys_def)
  have rows: "share_cents p = entry shares (pt_user p) \<and> 0 \<le> share_cents p \<and> share_cents p < 10 ^ 12"
    if p: "p \<in> set ps" for p
  proof -
    have "pt_amount p = Some (centsMoney (entry shares (pt_user p)))"
      using p unfolding ps by (auto simp: participantRow_def Let_def)
    from custom_row_cents [OF _ this] p assms(6) show ?thesis by simp
  qed
  have bounds: "0 \<le> entry shares u \<and> entry shares u \<le> 10 ^ 12" if u: "u \<in> ?K" for u
  proof -
    obtain p where "p \<in> set ps" "u = pt_user p" using u keys by blast
    then show ?thesis using rows [of p] by simp
  qed
  have "sum (entry shares) ?K \<le> of_nat (card ?K) * 10 ^ 12" using bounds by (intro sum_bounded_above) blast
  also have "\<dots> \<le> 2 ^ 24 * 10 ^ 12" using w(2) assms(7) by (intro mult_right_mono) simp_all
  finally have le: "sum (entry shares) ?K \<le> 2 ^ 24 * 10 ^ 12" .
  have "0 \<le> sum (entry shares) ?K" using bounds by (intro sum_nonneg) blast
  then have "\<bar>sum (entry shares) ?K - c\<bar> < 2 ^ 64" using le assms(3,4) by simp
  then have "sum (entry shares) ?K = c" using w(3) dvd_imp_le_int [of "sum (entry shares) ?K - c" "2 ^ 64"] by force
  moreover have "distinct (map pt_user ps)" using users w(1) by (simp add: ids sortedShareKeys_def)
  ultimately show ?thesis using share_sum_users [of ps "entry shares"] rows keys by simp
qed

lemma calculated_sum:
  assumes "calculateExpenseParticipants fresh e selected amounts percentages users travelers = Inr ps"
    "ex_amount e = cash c" "0 \<le> c" "c \<le> 2 ^ 44" "ex_split e \<noteq> SplitCustomPercentages" "distinct (map fst users)"
    "\<forall>p \<in> set ps. amount_fits p" "length amounts < 2 ^ 24"
  shows "(\<Sum>p \<leftarrow> ps. share_cents p) = c"
proof (cases "ex_split e = SplitCustomAmounts")
  case True
  then show ?thesis by (rule custom_sum [OF assms(1-4) _ assms(7,8)])
next
  case False
  then obtain share where d: "distinct (map pt_user ps)" and total: "sum share (pt_user ` set ps) = c"
    and rows: "\<forall>p \<in> set ps. pt_amount p = Some (cash (share (pt_user p))) \<and> 0 \<le> share (pt_user p)"
    using accepted_shares [OF assms(1-6)] by blast
  have "share_cents p = share (pt_user p)" if p: "p \<in> set ps" for p
  proof -
    have "share (pt_user p) \<le> c" unfolding total [symmetric] using rows p by (intro member_le_sum) auto
    then show ?thesis using rows p assms(4) by (simp add: share_cents_def)
  qed
  then show ?thesis using share_sum_users [OF d, of share] total by simp
qed

lemma sharesOf_append: "sharesOf eid (ps @ qs) = sharesOf eid ps + sharesOf eid qs"
  by (simp add: sharesOf_def)

lemma sharesOf_none: "\<forall>p \<in> set ps. pt_expense p \<noteq> eid \<Longrightarrow> sharesOf eid ps = 0"
  by (simp add: sharesOf_def)

lemma sharesOf_stored:
  assumes "\<forall>p \<in> set ps. amount_fits p \<and> pt_amount p \<noteq> None"
  shows "sharesOf eid (map (stored_participant eid tid) ps) = (\<Sum>p \<leftarrow> ps. share_cents p)"
    "i \<noteq> eid \<Longrightarrow> sharesOf i (map (stored_participant eid tid) ps) = 0"
  using assms by (induction ps) (auto simp: sharesOf_def stored_participant_row(3,4))

definition rows_for :: "trip_expense \<Rightarrow> expense_participant list \<Rightarrow> bool" where
  "rows_for e ps \<longleftrightarrow>
     validCurrencyCode (ex_currency e) \<and> (\<exists>c. ex_amount e = cash c \<and> 0 \<le> c) \<and>
     (\<forall>p \<in> set ps. pt_currency p = Some (ex_currency e) \<and> pt_amount p \<noteq> None) \<and>
     (\<forall>c. ex_split e \<noteq> SplitCustomPercentages \<longrightarrow> ex_amount e = cash c \<longrightarrow> 0 \<le> c \<longrightarrow> c \<le> 2 ^ 44 \<longrightarrow>
        (\<forall>p \<in> set ps. amount_fits p) \<longrightarrow> (\<Sum>p \<leftarrow> ps. share_cents p) = c)"

lemma rows_for_amount:
  assumes "rows_for e ps" "numeric_fits 12 (ex_amount e)" "\<forall>p \<in> set ps. amount_fits p"
  shows "cents_range (expense_cents e)" "stored_numeric (ex_amount e) = cash (expense_cents e)"
    "ex_split e \<noteq> SplitCustomPercentages \<Longrightarrow> (\<Sum>p \<leftarrow> ps. share_cents p) = expense_cents e"
proof -
  obtain c where c: "ex_amount e = cash c" "0 \<le> c" using assms(1) by (auto simp: rows_for_def)
  have lt: "c < 10 ^ 12" using assms(2) c by (intro cash_fits) simp_all
  then have e: "expense_cents e = c" using c by (simp add: expense_cents_def)
  show "cents_range (expense_cents e)" using e c(2) lt by (simp add: cents_range_def)
  show "stored_numeric (ex_amount e) = cash (expense_cents e)" using stored_cents(1) [OF assms(2)] by (simp add: expense_cents_def)
  show "(\<Sum>p \<leftarrow> ps. share_cents p) = expense_cents e" if "ex_split e \<noteq> SplitCustomPercentages"
    using assms(1,3) c that lt e unfolding rows_for_def by simp
qed

text \<open>Rows of an expense that take the place of the ones it had, if any.\<close>

lemma ledger_replace:
  assumes "ledger_ok db" "rows_for e ps" "numeric_fits 12 (ex_amount e)" "\<forall>p \<in> set ps. amount_fits p"
    and e': "ex_id e' = ex_id e" "ex_trip e' = ex_trip e" "ex_currency e' = ex_currency e" "ex_split e' = ex_split e"
      "ex_amount e' = stored_numeric (ex_amount e)"
    and es: "e' \<in> set es" "distinct (map ex_id es)" "\<forall>r \<in> set es. r = e' \<or> ex_id r \<noteq> ex_id e \<and> r \<in> set (xb_expenses db)"
      "\<forall>r \<in> set (xb_expenses db). ex_id r \<noteq> ex_id e \<longrightarrow> r \<in> set es"
  shows "ledger_ok (db\<lparr>xb_expenses := es, xb_participants :=
    filter (\<lambda>p. pt_expense p \<noteq> ex_id e) (xb_participants db) @ map (stored_participant (ex_id e) (ex_trip e)) ps\<rparr>)"
proof -
  let ?old = "filter (\<lambda>p. pt_expense p \<noteq> ex_id e) (xb_participants db)"
  let ?new = "map (stored_participant (ex_id e) (ex_trip e)) ps"
  have fits: "\<forall>p \<in> set ps. amount_fits p \<and> pt_amount p \<noteq> None" using assms(2,4) by (simp add: rows_for_def)
  note amount = rows_for_amount [OF assms(2,3,4)]
  have cents: "expense_cents e' = expense_cents e"
    using stored_cents(2) [OF assms(3)] by (simp add: expense_cents_def e'(5))
  have "expense_row_fine (?old @ ?new) r" if r: "r \<in> set es" for r
  proof (cases "r = e'")
    case True
    have "sharesOf (ex_id e) ?old = 0" by (rule sharesOf_none) simp
    then show ?thesis using assms(2) amount sharesOf_stored(1) [OF fits]
      by (simp add: True expense_row_fine_def cents e' sharesOf_append rows_for_def)
  next
    case False
    then have r': "ex_id r \<noteq> ex_id e" "r \<in> set (xb_expenses db)" using es(3) r by auto
    have "sharesOf (ex_id r) ?old = sharesOf (ex_id r) (xb_participants db)"
      using r'(1) unfolding sharesOf_def filter_filter by (metis (mono_tags, lifting))
    then show ?thesis using assms(1) r' sharesOf_stored(2) [OF fits r'(1)]
      by (simp add: expense_row_fine_def ledger_ok_def sharesOf_append)
  qed
  moreover have "participant_row_fine es p" if "p \<in> set ?old" for p
  proof -
    have p: "p \<in> set (xb_participants db)" "pt_expense p \<noteq> ex_id e" using that by simp_all
    then have "participant_row_fine (xb_expenses db) p" using assms(1) by (simp add: ledger_ok_def)
    then show ?thesis using p(2) es(4) unfolding participant_row_fine_def by metis
  qed
  moreover have "participant_row_fine es q" if q: "q \<in> set ?new" for q
  proof -
    obtain p where p: "p \<in> set ps" "q = stored_participant (ex_id e) (ex_trip e) p" using q by auto
    note row = stored_participant_row [of p "ex_id e" "ex_trip e"]
    have "ex_id e' = pt_expense q" "ex_trip e' = pt_trip q" "pt_currency q = Some (ex_currency e')"
      using row fits p assms(2) e' by (simp_all add: rows_for_def)
    then show ?thesis using row fits p es(1) unfolding participant_row_fine_def by metis
  qed
  ultimately show ?thesis using assms(1) es(2) by (auto simp: ledger_ok_def)
qed

definition same_ledger_row :: "trip_expense \<Rightarrow> trip_expense \<Rightarrow> bool" where
  "same_ledger_row r r' \<longleftrightarrow> ex_id r' = ex_id r \<and> ex_trip r' = ex_trip r \<and> ex_amount r' = ex_amount r \<and>
     ex_currency r' = ex_currency r \<and> ex_split r' = ex_split r"

lemma ledger_touch:
  assumes "ledger_ok db" "\<forall>r \<in> set (xb_expenses db). P r \<longrightarrow> same_ledger_row r (f r)"
  shows "ledger_ok (db\<lparr>xb_expenses := update_where P f (xb_expenses db)\<rparr>)"
proof -
  define g where "g = (\<lambda>r. if P r then f r else r)"
  have es: "update_where P f (xb_expenses db) = map g (xb_expenses db)" by (simp add: update_where_def g_def)
  have g: "same_ledger_row r (g r)" if "r \<in> set (xb_expenses db)" for r
    using assms(2) that by (simp add: same_ledger_row_def g_def)
  have "map ex_id (map g (xb_expenses db)) = map ex_id (xb_expenses db)"
    unfolding map_map by (rule map_cong [OF refl]) (use g in \<open>simp add: same_ledger_row_def\<close>)
  moreover have "expense_row_fine ps (g r) \<longleftrightarrow> expense_row_fine ps r" if "r \<in> set (xb_expenses db)" for ps r
    using g [OF that] by (simp add: same_ledger_row_def expense_row_fine_def expense_cents_def)
  moreover have "participant_row_fine (map g (xb_expenses db)) p" if p: "participant_row_fine (xb_expenses db) p" for p
  proof -
    obtain r where r: "r \<in> set (xb_expenses db)" "ex_id r = pt_expense p" "ex_trip r = pt_trip p" "pt_currency p = Some (ex_currency r)"
      using p by (auto simp: participant_row_fine_def)
    have "ex_id (g r) = pt_expense p \<and> ex_trip (g r) = pt_trip p \<and> pt_currency p = Some (ex_currency (g r))"
      using g [OF r(1)] r by (simp add: same_ledger_row_def)
    then show ?thesis using p r(1) by (auto simp: participant_row_fine_def)
  qed
  ultimately show ?thesis using assms(1) unfolding ledger_ok_def es by (simp del: map_map)
qed

lemma ledger_row_unique:
  "ledger_ok db \<Longrightarrow> r \<in> set (xb_expenses db) \<Longrightarrow> r' \<in> set (xb_expenses db) \<Longrightarrow> ex_id r = ex_id r' \<Longrightarrow> r = r'"
  by (auto simp: ledger_ok_def distinct_map dest: inj_onD)

lemma ledger_participant_trip:
  assumes "ledger_ok db" "p \<in> set (xb_participants db)" "r \<in> set (xb_expenses db)" "pt_expense p = ex_id r"
  shows "pt_trip p = ex_trip r"
proof -
  obtain r' where "r' \<in> set (xb_expenses db)" "ex_id r' = pt_expense p" "ex_trip r' = pt_trip p"
    using assms(1,2) by (auto simp: ledger_ok_def participant_row_fine_def)
  then show ?thesis using ledger_row_unique [OF assms(1)] assms(3,4) by metis
qed

lemma ledger_create:
  assumes "ledger_ok db" "CreateTripExpenseWithParticipants now e ps db = Inr (x, db')" "rows_for e ps"
  shows "ledger_ok db'"
proof -
  obtain e' db1 qs db2 where c: "createTripExpense now e db = Inr (e', db1)"
    and q: "createParticipants (ex_id e') (ex_trip e') ps db1 = Inr (qs, db2)" "db' = db2"
    using assms(2) by (auto simp: CreateTripExpenseWithParticipants_def rbind_Inr_iff)
  have new: "\<forall>r \<in> set (xb_expenses db). ex_id r \<noteq> ex_id e" and fits: "numeric_fits 12 (ex_amount e)"
    and e': "ex_id e' = ex_id e" "ex_trip e' = ex_trip e" "ex_currency e' = ex_currency e" "ex_split e' = ex_split e"
      "ex_amount e' = stored_numeric (ex_amount e)"
    and db1: "db1 = db\<lparr>xb_expenses := xb_expenses db @ [e']\<rparr>"
    using c by (auto simp: createTripExpense_def Let_def stored_expense_def select_row_None_iff expense_params_ok_def split: if_splits)
  have none: "filter (\<lambda>p. pt_expense p \<noteq> ex_id e) (xb_participants db) = xb_participants db"
    using assms(1) new by (fastforce simp: ledger_ok_def participant_row_fine_def intro: filter_True)
  from createParticipants_Inr [OF q(1)]
  have ps: "\<forall>p \<in> set ps. amount_fits p"
    and db2: "db2 = db1\<lparr>xb_participants := xb_participants db @ map (stored_participant (ex_id e) (ex_trip e)) ps\<rparr>"
    by (simp_all add: e' db1)
  have "distinct (map ex_id (xb_expenses db @ [e']))" using assms(1) new e'(1) by (auto simp: ledger_ok_def)
  then have "ledger_ok (db\<lparr>xb_expenses := xb_expenses db @ [e'], xb_participants :=
    filter (\<lambda>p. pt_expense p \<noteq> ex_id e) (xb_participants db) @ map (stored_participant (ex_id e) (ex_trip e)) ps\<rparr>)"
    using new by (intro ledger_replace [OF assms(1,3) fits ps e']) auto
  then show ?thesis by (simp add: q(2) db2 db1 none)
qed

lemma ledger_row:
  "ledger_ok db \<Longrightarrow> r \<in> set (xb_expenses db) \<Longrightarrow>
     stored_numeric (ex_amount r) = ex_amount r \<and> ex_amount r = cash (expense_cents r) \<and> cents_range (expense_cents r) \<and>
     validCurrencyCode (ex_currency r)"
  by (force simp: ledger_ok_def expense_row_fine_def stored_numeric_cash toPgNumeric_moneyCents expense_cents_def
    cents_range_def dest: bspec)

lemma ledger_update:
  assumes "ledger_ok db" "r \<in> set (xb_expenses db)" "ex_id e = ex_id r" "ex_trip e = ex_trip r"
    "UpdateTripExpenseWithParticipants now e ps replace db = Inr (x, db')"
    "replace \<Longrightarrow> rows_for e ps"
    "\<not> replace \<Longrightarrow> ex_amount e = ex_amount r \<and> ex_currency e = ex_currency r" "ex_split e = ex_split r \<or> replace"
  shows "ledger_ok db'"
proof -
  define P where "P = (\<lambda>q :: trip_expense. ex_trip q = ex_trip e \<and> ex_id q = ex_id e \<and> ex_status q = ExpenseActive)"
  define s where "s = stored_expense e"
  define f where "f = (\<lambda>q :: trip_expense. q\<lparr>ex_title := ex_title s, ex_description := ex_description s, ex_amount := ex_amount s,
                  ex_currency := ex_currency s, ex_category := ex_category s, ex_date := ex_date s,
                  ex_payer := ex_payer s, ex_split := ex_split s, ex_day := ex_day s, ex_item := ex_item s,
                  ex_item_id := ex_item_id s, ex_leg := ex_leg s, ex_accommodation := ex_accommodation s,
                  ex_notes := ex_notes s, ex_updated_by := ex_updated_by s, ex_updated_at := now\<rparr>)"
  obtain e' db1 where u: "updateTripExpense now e db = Inr (e', db1)"
    and rest: "(if replace then rbind (createParticipants (ex_id e') (ex_trip e') ps
        (db1\<lparr>xb_participants := filter (\<lambda>p. \<not> (pt_expense p = ex_id e \<and> pt_trip p = ex_trip e)) (xb_participants db1)\<rparr>))
        (\<lambda>(ps, db2). Inr ((e', ps), db2))
      else Inr ((e', listTripExpenseParticipantsByExpense (ex_trip e) (ex_id e) db1), db1)) = Inr (x, db')"
    using assms(5) by (auto simp: UpdateTripExpenseWithParticipants_def rbind_Inr_iff)
  have fits: "numeric_fits 12 (ex_amount e)"
    using u by (auto simp: updateTripExpense_def expense_params_ok_def split: if_splits)
  obtain r' where r': "select_row P (xb_expenses db) = Some r'" "e' = f r'"
    and db1: "db1 = db\<lparr>xb_expenses := update_where P f (xb_expenses db)\<rparr>"
    using u unfolding updateTripExpense_def Let_def s_def [symmetric] f_def [symmetric] P_def [symmetric]
    by (auto simp: update_returning_Some split: if_splits option.splits)
  have r: "r' = r" "P r"
    using select_row_Some [OF r'(1)] ledger_row_unique [OF assms(1) _ assms(2)] assms(3) by (auto simp: P_def)
  have only: "P q \<longleftrightarrow> q = r" if "q \<in> set (xb_expenses db)" for q
    using ledger_row_unique [OF assms(1) that assms(2)] assms(3) r(2) by (auto simp: P_def)
  show ?thesis
  proof (cases replace)
    case False
    then have "ex_amount e = ex_amount r" "ex_currency e = ex_currency r" "ex_split e = ex_split r" using assms(7,8) by blast+
    moreover have "stored_numeric (ex_amount r) = ex_amount r" using ledger_row [OF assms(1,2)] by blast
    ultimately have "same_ledger_row r (f r)" by (simp add: same_ledger_row_def f_def s_def stored_expense_def)
    then have "ledger_ok db1" unfolding db1 using only by (intro ledger_touch [OF assms(1)]) auto
    then show ?thesis using rest False by simp
  next
    case True
    have e': "ex_id e' = ex_id e" "ex_trip e' = ex_trip e" "ex_currency e' = ex_currency e" "ex_split e' = ex_split e"
      "ex_amount e' = stored_numeric (ex_amount e)"
      using assms(3,4) by (simp_all add: r' r f_def s_def stored_expense_def)
    have old: "filter (\<lambda>p. pt_expense p = ex_id e \<longrightarrow> pt_trip p \<noteq> ex_trip e) (xb_participants db) =
        filter (\<lambda>p. pt_expense p \<noteq> ex_id e) (xb_participants db)"
      using ledger_participant_trip [OF assms(1) _ assms(2)] assms(3,4) by (intro filter_cong) auto
    obtain qs db2 where q: "createParticipants (ex_id e') (ex_trip e') ps
        (db1\<lparr>xb_participants := filter (\<lambda>p. pt_expense p \<noteq> ex_id e) (xb_participants db)\<rparr>) = Inr (qs, db2)" "db' = db2"
      using rest True by (auto simp: rbind_Inr_iff db1 old)
    from createParticipants_Inr [OF q(1)]
    have ps: "\<forall>p \<in> set ps. amount_fits p" and db2: "db2 = db\<lparr>xb_expenses := update_where P f (xb_expenses db), xb_participants :=
      filter (\<lambda>p. pt_expense p \<noteq> ex_id e) (xb_participants db) @ map (stored_participant (ex_id e) (ex_trip e)) ps\<rparr>"
      by (simp_all add: e' db1)
    have "ledger_ok (db\<lparr>xb_expenses := update_where P f (xb_expenses db), xb_participants :=
      filter (\<lambda>p. pt_expense p \<noteq> ex_id e) (xb_participants db) @ map (stored_participant (ex_id e) (ex_trip e)) ps\<rparr>)"
    proof (rule ledger_replace [OF assms(1) assms(6) [OF True] fits ps e'])
      show "e' \<in> set (update_where P f (xb_expenses db))" using assms(2) r by (auto simp: set_update_where r'(2))
      show "distinct (map ex_id (update_where P f (xb_expenses db)))"
        using assms(1) by (subst map_key_update_where) (auto simp: f_def ledger_ok_def)
      show "\<forall>q \<in> set (update_where P f (xb_expenses db)). q = e' \<or> ex_id q \<noteq> ex_id e \<and> q \<in> set (xb_expenses db)"
      proof
        fix q assume "q \<in> set (update_where P f (xb_expenses db))"
        then consider "q \<in> set (xb_expenses db)" "\<not> P q" | "q = f r" using only by (auto simp: set_update_where)
        then show "q = e' \<or> ex_id q \<noteq> ex_id e \<and> q \<in> set (xb_expenses db)"
        proof cases
          case 1
          then show ?thesis using only ledger_row_unique [OF assms(1) _ assms(2)] assms(3) by metis
        qed (simp add: r' r)
      qed
      show "\<forall>q \<in> set (xb_expenses db). ex_id q \<noteq> ex_id e \<longrightarrow> q \<in> set (update_where P f (xb_expenses db))"
        by (simp add: set_update_where P_def)
    qed
    then show ?thesis by (simp add: q(2) db2)
  qed
qed

section \<open>Inputs\<close>

lemma normalizeMoney_rows:
  assumes "normalizeMoney a c = Inr (amount, cur)"
  shows "validCurrencyCode cur" "\<exists>c. amount = cash c \<and> 0 \<le> c"
proof -
  have a: "0 < a" "amount = round2 a" "validCurrencyCode cur" using assms by (auto simp: normalizeMoney_def Let_def split: if_splits)
  show "validCurrencyCode cur" by (rule a(3))
  have "0 \<le> go_round (fmul a 100)" unfolding fmul_def using a(1) by (intro go_round_nonneg fl_nonneg) simp
  then show "\<exists>c. amount = cash c \<and> 0 \<le> c" using a(2) by (auto simp: round2_def cash_def)
qed

lemma rows_forI:
  assumes "calculateExpenseParticipants fresh e selected amounts percentages users travelers = Inr ps"
    "distinct (map fst users)" "validCurrencyCode (ex_currency e)" "\<exists>c. ex_amount e = cash c \<and> 0 \<le> c"
    "length amounts < 2 ^ 24"
  shows "rows_for e ps"
  using assms calculated_rows [OF assms(1)] calculated_sum [OF assms(1) _ _ _ _ assms(2) _ assms(5)] by (auto simp: rows_for_def)

lemma rows_for_cong:
  "ex_currency e = ex_currency e' \<Longrightarrow> ex_amount e = ex_amount e' \<Longrightarrow> ex_split e = ex_split e' \<Longrightarrow> rows_for e ps = rows_for e' ps"
  by (simp add: rows_for_def)

lemma prepareExpenseForCreate_rows:
  assumes "prepareExpenseForCreate newid fresh t details users travelers actor access inp = Inr (e, ps)" "distinct (map fst users)"
    "length (ci_shares inp) < 2 ^ 24"
  shows "rows_for e ps"
proof -
  have c: "calculateExpenseParticipants fresh e (ci_participants inp) (ci_shares inp) (ci_percentages inp) users travelers = Inr ps"
    and n: "normalizeExpenseInput newid (tr_id t) actor inp = Inr e"
    using assms(1) by (auto simp: prepareExpenseForCreate_def rbind_Inr_iff split: if_splits)
  obtain amount cur where m: "normalizeMoney (ci_amount inp) (ci_currency inp) = Inr (amount, cur)"
    and e: "ex_amount e = amount" "ex_currency e = cur"
    using n by (auto simp: normalizeExpenseInput_def rbind_Inr_iff Let_def split: if_splits)
  show ?thesis using normalizeMoney_rows [OF m] e assms(3) by (intro rows_forI [OF c assms(2)]) simp_all
qed

lemma prepareExpenseForUpdate_rows:
  assumes "prepareExpenseForUpdate fresh t details users travelers actor access existing inp = Inr (e, ps, replace)"
    "distinct (map fst users)" "validCurrencyCode (ex_currency existing)" "\<exists>c. ex_amount existing = cash c \<and> 0 \<le> c"
    "length (ui_shares inp) < 2 ^ 24"
  shows "ex_id e = ex_id existing" "ex_trip e = ex_trip existing" "replace \<Longrightarrow> rows_for e ps"
    "\<not> replace \<Longrightarrow> ex_amount e = ex_amount existing \<and> ex_currency e = ex_currency existing"
    "ex_split e = ex_split existing \<or> replace"
proof -
  obtain amount cur category payer split e0 where
    m: "(case ui_amount inp of None \<Rightarrow> Inr (ex_amount existing, ex_currency existing) | Some (a, c) \<Rightarrow> normalizeMoney a c) = Inr (amount, cur)"
    and sp: "(case ui_split inp of None \<Rightarrow> Inr (ex_split existing) | Some s \<Rightarrow> normalizeExpenseSplitType s) = Inr split"
    and eq: "e0 = updatedExpense existing inp amount cur category payer split"
    and c: "(if replacesParticipants inp then calculateExpenseParticipants fresh e0 (ui_participants inp) (ui_shares inp)
      (ui_percentages inp) users travelers else Inr []) = Inr ps"
    and e: "e = e0\<lparr>ex_updated_by := Some actor\<rparr>" "replace = replacesParticipants inp"
    using assms(1) by (auto simp: prepareExpenseForUpdate_def rbind_Inr_iff Let_def split: if_splits)
  have e0: "ex_id e0 = ex_id existing" "ex_trip e0 = ex_trip existing" "ex_amount e0 = amount" "ex_currency e0 = cur" "ex_split e0 = split"
    by (simp_all add: eq updatedExpense_def)
  show "ex_id e = ex_id existing" "ex_trip e = ex_trip existing" by (simp_all add: e e0)
  have money: "validCurrencyCode cur" "\<exists>c. amount = cash c \<and> 0 \<le> c"
    using m normalizeMoney_rows assms(3,4) by (cases "ui_amount inp"; auto simp del: cash_eq_iff; metis)+
  show "rows_for e ps" if replace
  proof -
    have "rows_for e0 ps" using c that e(2) money e0 assms(5) by (intro rows_forI [OF _ assms(2)]) simp_all
    then show ?thesis by (simp add: e rows_for_def)
  qed
  show "ex_amount e = ex_amount existing \<and> ex_currency e = ex_currency existing" if "\<not> replace"
    using that m by (cases "ui_amount inp") (simp_all add: e e0 replacesParticipants_def)
  show "ex_split e = ex_split existing \<or> replace"
    using sp by (auto simp: e e0 replacesParticipants_def)
qed

text \<open>The users of a trip are different ones.\<close>

lemma distinct_fold_users:
  "(\<And>x us. distinct (map fst us) \<Longrightarrow> distinct (map fst (g x us))) \<Longrightarrow> distinct (map fst us) \<Longrightarrow>
     distinct (map fst (fold g xs us))"
  by (induction xs arbitrary: us) simp_all

lemma expenseUsers_distinct:
  assumes "expenseUsers env t actor db = Inr (users, travelers)"
  shows "distinct (map fst users)"
proof -
  define u2 where "u2 = fold (\<lambda>v users. case tv_user v of None \<Rightarrow> users | Some u \<Rightarrow> addExpenseUser u (tv_name v) users)
      (ListActiveTripTravelersByTrip (tr_id t) db)
      (fold (\<lambda>c. addExpenseUser (co_user c) (shortUserName (co_user c)))
        (filter (\<lambda>c. co_status c = CAccepted) (ListTripCollaborators (xb_trips db) (tr_id t)))
        (case tr_user t of None \<Rightarrow> [] | Some ow \<Rightarrow> [(ow, ''Trip owner'')]))"
  have u2: "distinct (map fst u2)"
    unfolding u2_def by (intro distinct_fold_users) (auto split: option.split)
  have m: "distinct (map fst (fold (\<lambda>(u, active). if active then addExpenseUser u (shortUserName u) else (\<lambda>us. us)) ms u2))" for ms
    using u2 by (intro distinct_fold_users) (auto split: if_splits)
  obtain u3 where u3: "(case tr_workspace t of
          None \<Rightarrow> Inr u2
        | Some w \<Rightarrow>
           (if env_workspaces_enabled (xe_svc env) \<and> env_workspace_provider (xe_svc env) \<noteq> None then
              rbind (xe_members env w) (\<lambda>members.
              Inr (fold (\<lambda>(u, active). if active then addExpenseUser u (shortUserName u) else (\<lambda>us. us)) members u2))
            else Inr u2)) = Inr u3"
    and users: "users = u3 \<or> (\<exists>nm. users = addExpenseUser (au_id actor) nm u3)"
    using assms unfolding expenseUsers_def Let_def u2_def [symmetric] by (auto simp: rbind_Inr_iff split: if_splits)
  have "distinct (map fst u3)" using u3 u2 m by (auto simp: rbind_Inr_iff split: option.splits if_splits)
  then show ?thesis using users by auto
qed

end
