(* ===== verification/LedgerLaws.thy ===== *)
theory LedgerLaws
  imports Ledger
begin

text \<open>
  The endpoints of \<open>application/service/expense.go\<close> as one system of requests, which keeps the
  ledger, and who may do what in it.
\<close>

section \<open>Requests\<close>

text \<open>The log of a request leaves the tables of the ledger alone.\<close>

lemma ledger_trips [simp]: "ledger_ok (db\<lparr>xb_trips := x\<rparr>) = ledger_ok db"
  by (simp add: ledger_ok_def)

lemma ledger_xlog: "xlog f db = (r, db') \<Longrightarrow> ledger_ok db' = ledger_ok db"
  by (auto simp: xlog_def sdo_def)

lemmas request_run = op_run xread_def xlog_def expenseCaller_def

lemma pure_op_sbind [simp]: "pure_op m \<Longrightarrow> (\<And>x. pure_op (f x)) \<Longrightarrow> pure_op (sbind m f)"
  unfolding pure_op_def sbind_def by (auto split: prod.splits sum.splits) (metis snd_conv)+

lemma atomic_caller [atomic_intros]:
  "(\<And>x. atomic (f x)) \<Longrightarrow> atomic (sbind (expenseCaller env cx tid) f)"
  by (rule atomic_sbind_pure) (auto simp: expenseCaller_def xread_def split: prod.splits)

lemma atomic_CreateTripExpense: "atomic (CreateTripExpense env cx tid inp)"
  unfolding CreateTripExpense_def xlog_def by (intro atomic_intros total_intros)

lemma atomic_UpdateTripExpense: "atomic (UpdateTripExpense env cx tid eid inp)"
  unfolding UpdateTripExpense_def xlog_def by (intro atomic_intros total_intros)

lemma ledger_CreateTripExpense:
  assumes "ledger_ok db" "CreateTripExpense env cx tid inp db = (r, db')" "length (ci_shares inp) < 2 ^ 24"
  shows "ledger_ok db'"
proof (cases r)
  case (Inl err)
  then show ?thesis using assms by (auto dest: atomicD [OF atomic_CreateTripExpense])
next
  case (Inr x)
  then obtain t user access users travelers e ps y db1
    where u: "expenseUsers env t user db = Inr (users, travelers)"
      and p: "prepareExpenseForCreate (xc_id cx) (xc_fresh cx) t (xe_details env (tr_id t)) users travelers
        (au_id user) access inp = Inr (e, ps)"
      and c: "CreateTripExpenseWithParticipants (xc_now cx) e ps db = Inr (y, db1)"
      and db': "\<exists>f. db' = db1\<lparr>xb_trips := f\<rparr>"
    using assms(2) by (fastforce simp: CreateTripExpense_def request_run)
  have "ledger_ok db1"
    using prepareExpenseForCreate_rows [OF p expenseUsers_distinct [OF u] assms(3)] by (rule ledger_create [OF assms(1) c])
  then show ?thesis using db' by auto
qed

lemma GetTripExpenseByID_Inr:
  "GetTripExpenseByID tid eid db = Inr e \<Longrightarrow> e \<in> set (xb_expenses db) \<and> ex_trip e = tid \<and> ex_id e = eid"
  by (auto simp: GetTripExpenseByID_def dest: select_row_Some split: option.splits)

lemma ledger_UpdateTripExpense:
  assumes "ledger_ok db" "UpdateTripExpense env cx tid eid inp db = (r, db')" "length (ui_shares inp) < 2 ^ 24"
  shows "ledger_ok db'"
proof (cases r)
  case (Inl err)
  then show ?thesis using assms by (auto dest: atomicD [OF atomic_UpdateTripExpense])
next
  case (Inr x)
  then obtain t user access existing users travelers e ps replace y db1
    where ex: "GetTripExpenseByID tid eid db = Inr existing"
      and u: "expenseUsers env t user db = Inr (users, travelers)"
      and p: "prepareExpenseForUpdate (xc_fresh cx) t (xe_details env (tr_id t)) users travelers (au_id user)
        access existing inp = Inr (e, ps, replace)"
      and c: "UpdateTripExpenseWithParticipants (xc_now cx) e ps replace db = Inr (y, db1)"
      and db': "\<exists>f. db' = db1\<lparr>xb_trips := f\<rparr>"
    using assms(2) by (fastforce simp: UpdateTripExpense_def request_run)
  have row: "existing \<in> set (xb_expenses db)" using GetTripExpenseByID_Inr [OF ex] by simp
  have fine: "validCurrencyCode (ex_currency existing)" "\<exists>c. ex_amount existing = cash c \<and> 0 \<le> c"
    using ledger_row [OF assms(1) row] unfolding cents_range_def by blast+
  note rows = prepareExpenseForUpdate_rows [OF p expenseUsers_distinct [OF u] fine assms(3)]
  have "ledger_ok db1" by (rule ledger_update [OF assms(1) row rows(1,2) c rows(3,4,5)])
  then show ?thesis using db' by auto
qed

lemma ledger_SoftDelete:
  assumes "ledger_ok db" "SoftDeleteTripExpense now tid eid actor db = Inr (e, db')"
  shows "ledger_ok db'"
  using assms by (auto simp: SoftDeleteTripExpense_def update_returning_Some same_ledger_row_def split: option.splits
    intro!: ledger_touch)

lemma ledger_settlements:
  "ledger_ok db \<Longrightarrow> distinct (map st_id ss) \<Longrightarrow> \<forall>s \<in> set ss. settlement_row_fine s \<Longrightarrow> ledger_ok (db\<lparr>xb_settlements := ss\<rparr>)"
  by (simp add: ledger_ok_def)

lemma ledger_CreateTripSettlement:
  assumes "ledger_ok db" "CreateTripSettlement now s db = Inr (x, db')"
  shows "ledger_ok db'"
proof -
  have fits: "numeric_fits 12 (st_amount s)" "0 < toPgNumeric (st_amount s)" and x: "st_from x \<noteq> st_to x"
    "st_id x \<notin> st_id ` set (xb_settlements db)"
    "st_amount x = stored_numeric (st_amount s)" "db' = db\<lparr>xb_settlements := xb_settlements db @ [x]\<rparr>"
    using assms(2) by (auto simp: CreateTripSettlement_def Let_def select_row_None_iff split: if_splits)
  have "settlement_row_fine x" using fits x(1) stored_cents [OF fits(1)]
    by (simp add: settlement_row_fine_def x(3) cents_range_def numeric_fits_def toPgNumeric_moneyCents)
  then show ?thesis using assms(1) x(2) unfolding x(4) by (intro ledger_settlements) (auto simp: ledger_ok_def)
qed

lemma ledger_touch_settlements:
  assumes "ledger_ok db" "\<And>s. st_amount (f s) = st_amount s \<and> st_from (f s) = st_from s \<and> st_to (f s) = st_to s \<and> st_id (f s) = st_id s"
  shows "ledger_ok (db\<lparr>xb_settlements := update_where P f (xb_settlements db)\<rparr>)"
proof (rule ledger_settlements [OF assms(1)])
  show "distinct (map st_id (update_where P f (xb_settlements db)))"
    using assms by (subst map_key_update_where) (simp_all add: ledger_ok_def)
  have "settlement_row_fine (f s) = settlement_row_fine s" for s using assms(2) by (simp add: settlement_row_fine_def)
  then show "\<forall>s \<in> set (update_where P f (xb_settlements db)). settlement_row_fine s"
    using assms(1) by (auto simp: set_update_where ledger_ok_def)
qed

lemma ledger_returning:
  assumes "(case update_returning P f (xb_settlements db) of None \<Rightarrow> Inl e
      | Some (s, rows) \<Rightarrow> Inr (s, db\<lparr>xb_settlements := rows\<rparr>)) = Inr (x, db')"
    and "\<And>s. st_amount (f s) = st_amount s \<and> st_from (f s) = st_from s \<and> st_to (f s) = st_to s \<and> st_id (f s) = st_id s" "ledger_ok db"
  shows "ledger_ok db'"
proof -
  have "db' = db\<lparr>xb_settlements := update_where P f (xb_settlements db)\<rparr>"
    using assms(1) by (cases "find P (xb_settlements db)") (simp_all add: update_returning_def)
  then show ?thesis using ledger_touch_settlements [OF assms(3,2)] by simp
qed

lemma ledger_MarkPaid:
  assumes "MarkTripSettlementPaidRow now tid sid actor notes db = Inr (x, db')" "ledger_ok db"
  shows "ledger_ok db'"
proof -
  have "opt_all storable notes" using assms(1) unfolding MarkTripSettlementPaidRow_def by (rule contrapos_pp) simp
  then show ?thesis using assms(1) unfolding MarkTripSettlementPaidRow_def
    by (simp only: not_True_eq_False if_False) (erule ledger_returning, simp, rule assms(2))
qed

lemma ledger_Cancel:
  assumes "CancelTripSettlementRow now tid sid actor db = Inr (x, db')" "ledger_ok db"
  shows "ledger_ok db'"
  using assms(1) unfolding CancelTripSettlementRow_def by (rule ledger_returning) (simp_all add: assms(2))

lemmas ledger_settlement_rows = ledger_MarkPaid ledger_Cancel

lemma step_rel_settlement_id [step_intros]:
  "(\<And>a b c d e f. step_rel R (g a b c d e f)) \<Longrightarrow> (\<And>i. step_rel R (h i)) \<Longrightarrow> step_rel R m \<Longrightarrow>
     step_rel R (case sid of Calculated a b c d e f \<Rightarrow> g a b c d e f | Stored i \<Rightarrow> h i | Malformed \<Rightarrow> m)"
  by (cases sid) simp_all

lemma keep_sstmt: "(\<And>s x t. f s = Inr (x, t) \<Longrightarrow> I s \<Longrightarrow> I t) \<Longrightarrow> step_rel (keep I) (sstmt f)"
  by (intro step_rel_sstmt) (simp_all add: keep_def)

lemma keep_statements [step_intros]:
  "step_rel (keep ledger_ok) (sstmt (SoftDeleteTripExpense now tid eid actor))"
  "step_rel (keep ledger_ok) (sstmt (CreateTripSettlement now s))"
  "step_rel (keep ledger_ok) (sstmt (MarkTripSettlementPaidRow now tid sid actor notes))"
  "step_rel (keep ledger_ok) (sstmt (CancelTripSettlementRow now tid sid actor))"
  by (rule keep_sstmt, blast intro: ledger_SoftDelete ledger_CreateTripSettlement ledger_settlement_rows)+

lemma keep_log [step_intros]:
  "step_rel (keep ledger_ok) (xlog f)" "step_rel (keep ledger_ok) (xread g)"
  unfolding xlog_def xread_def by (intro step_rel_sdo step_intros; simp add: keep_def)+

lemma keep_others:
  "step_rel (keep ledger_ok) (DeleteTripExpense env cx tid eid)"
  "step_rel (keep ledger_ok) (MarkTripSettlementPaid env cx tid sid notes)"
  "step_rel (keep ledger_ok) (CancelTripSettlement env cx tid i)"
  unfolding DeleteTripExpense_def MarkTripSettlementPaid_def CancelTripSettlement_def expenseCaller_def
  by (intro step_intros rel_ok_keep)+

section \<open>The system\<close>

datatype expense_request =
    CreateExpense expense_call uuid create_expense_input
  | UpdateExpense expense_call uuid uuid update_expense_input
  | DeleteExpense expense_call uuid uuid
  | MarkSettlementPaid expense_call uuid settlement_id "string option"
  | CancelSettlement expense_call uuid uuid

fun handleExpense :: "expense_env \<Rightarrow> expense_request \<Rightarrow> expense_db \<Rightarrow> expense_db" where
  "handleExpense env (CreateExpense cx tid inp) db = snd (CreateTripExpense env cx tid inp db)"
| "handleExpense env (UpdateExpense cx tid eid inp) db = snd (UpdateTripExpense env cx tid eid inp db)"
| "handleExpense env (DeleteExpense cx tid eid) db = snd (DeleteTripExpense env cx tid eid db)"
| "handleExpense env (MarkSettlementPaid cx tid sid notes) db = snd (MarkTripSettlementPaid env cx tid sid notes db)"
| "handleExpense env (CancelSettlement cx tid i) db = snd (CancelTripSettlement env cx tid i db)"

text \<open>The custom shares a request holds.\<close>

fun requestShares :: "expense_request \<Rightarrow> custom_amount list" where
  "requestShares (CreateExpense cx tid inp) = ci_shares inp"
| "requestShares (UpdateExpense cx tid eid inp) = ui_shares inp"
| "requestShares (DeleteExpense cx tid eid) = []"
| "requestShares (MarkSettlementPaid cx tid sid notes) = []"
| "requestShares (CancelSettlement cx tid i) = []"

lemma ledger_step:
  assumes "ledger_ok db" "length (requestShares q) < 2 ^ 24"
  shows "ledger_ok (handleExpense env q db)"
proof (cases q)
  case (CreateExpense cx tid inp)
  show ?thesis unfolding CreateExpense handleExpense.simps
    by (rule ledger_CreateTripExpense [OF assms(1) prod.collapse [symmetric]]) (use assms(2) CreateExpense in simp)
next
  case (UpdateExpense cx tid eid inp)
  show ?thesis unfolding UpdateExpense handleExpense.simps
    by (rule ledger_UpdateTripExpense [OF assms(1) prod.collapse [symmetric]]) (use assms(2) UpdateExpense in simp)
qed (use keep_others assms(1) in \<open>simp_all add: step_rel_def keep_def\<close>)

interpretation ledger: request_system
  "\<lambda>q db. if length (requestShares q) < 2 ^ 24 then handleExpense env q db else db" ledger_ok for env
  by unfold_locales (simp add: ledger_step)

text \<open>
  C27. The ledger stays in order: whatever sequence of expense and settlement requests is
  served, valid or not, expenses and settlements have unique ids, every amount is a whole number
  of cents within the column, every participant row belongs to an expense of its trip and is in
  its currency, the shares of every expense that is not split by percentages add up to its amount
  exactly, and no settlement is between a user and themselves. Custom amounts are added up in
  64-bit numbers; a request of fewer than \<open>2 ^ 24\<close> of them cannot make the sum wrap around
  without a share that the column rejects.
\<close>

theorem ledger_stays_in_order:
  assumes "ledger_ok db" "\<forall>q \<in> set qs. length (requestShares q) < 2 ^ 24"
  shows "ledger_ok (fold (handleExpense env) qs db)"
proof -
  have "fold (handleExpense env) qs db =
      fold (\<lambda>q db. if length (requestShares q) < 2 ^ 24 then handleExpense env q db else db) qs db"
    using assms(2) by (intro fold_cong) auto
  then show ?thesis using ledger.inv_run [OF assms(1)] by simp
qed

end
