(* ===== verification/Balances.thy ===== *)
theory Balances
  imports LedgerLaws
begin

text \<open>
  What the balances of a trip mean: in a trip with one currency every number
  \<open>expenseFinancials\<close> gives is the exact one, and the suggestions settle the trip.
\<close>

section \<open>The rows of a trip\<close>

definition tripExpenses :: "uuid \<Rightarrow> expense_db \<Rightarrow> trip_expense list" where
  "tripExpenses tid db = filter (\<lambda>e. ex_trip e = tid \<and> ex_status e = ExpenseActive) (xb_expenses db)"

definition tripShares :: "uuid \<Rightarrow> expense_db \<Rightarrow> expense_participant list" where
  "tripShares tid db = filter (\<lambda>p. pt_trip p = tid \<and>
      (\<exists>e \<in> set (xb_expenses db). ex_id e = pt_expense p \<and> ex_status e = ExpenseActive)) (xb_participants db)"

definition tripSettlements :: "uuid \<Rightarrow> expense_db \<Rightarrow> trip_settlement list" where
  "tripSettlements tid db = filter (\<lambda>s. st_trip s = tid) (xb_settlements db)"

lemma listed_mset:
  "mset (ListTripExpensesByTrip tid no_filters db) = mset (tripExpenses tid db)"
  "mset (ListExpenseParticipantsByTrip tid db) = mset (tripShares tid db)"
  "mset (ListTripSettlementsByTrip tid db) = mset (tripSettlements tid db)"
  by (simp_all add: ListTripExpensesByTrip_def no_filters_def tripExpenses_def opt_all_def Let_def
      ListExpenseParticipantsByTrip_def tripShares_def ListTripSettlementsByTrip_def tripSettlements_def)

lemma sum_list_mset: "mset xs = mset ys \<Longrightarrow> (\<Sum>x \<leftarrow> xs. f x) = (\<Sum>x \<leftarrow> ys. f x :: int)"
  by (metis mset_map sum_mset_sum_list)

lemma by_user_mset:
  "mset xs = mset ys \<Longrightarrow> paidBy xs = paidBy ys" "mset ps = mset qs \<Longrightarrow> owedBy ps = owedBy qs"
  "mset ss = mset ts \<Longrightarrow> settledBy ss = settledBy ts"
  unfolding fun_eq_iff paidBy_def owedBy_def settledBy_def by (blast intro: sum_list_mset)+

text \<open>What a member gets back, in cents, a debt being negative.\<close>

definition netCents :: "uuid \<Rightarrow> expense_db \<Rightarrow> uuid \<Rightarrow> int" where
  "netCents tid db u = paidBy (tripExpenses tid db) u - owedBy (tripShares tid db) u + settledBy (tripSettlements tid db) u"

definition involved :: "uuid \<Rightarrow> expense_db \<Rightarrow> uuid set" where
  "involved tid db = ex_payer ` set (tripExpenses tid db) \<union> pt_user ` set (tripShares tid db) \<union>
     (\<Union>s \<in> {s \<in> set (tripSettlements tid db). st_status s = SettlementPaid}. {st_from s, st_to s})"

text \<open>One currency, real users, and sizes for which the arithmetic is exact.\<close>

definition plain_trip :: "string \<Rightarrow> uuid \<Rightarrow> expense_db \<Rightarrow> bool" where
  "plain_trip cur tid db \<longleftrightarrow>
     (\<forall>e \<in> set (tripExpenses tid db). ex_currency e = cur) \<and>
     (\<forall>s \<in> set (tripSettlements tid db). st_status s = SettlementPaid \<longrightarrow> st_currency s = cur) \<and>
     0 \<notin> involved tid db \<and>
     length (tripExpenses tid db) \<le> 2 ^ 13 \<and> length (tripShares tid db) \<le> 2 ^ 13 \<and> length (tripSettlements tid db) \<le> 2 ^ 13 \<and>
     (\<Sum>e \<leftarrow> tripExpenses tid db. expense_cents e) \<le> 2 ^ 34 \<and> (\<Sum>p \<leftarrow> tripShares tid db. share_cents p) \<le> 2 ^ 34 \<and>
     (\<Sum>s \<leftarrow> tripSettlements tid db. settlement_cents s) \<le> 2 ^ 34"

lemma by_user_bounds:
  "\<forall>e \<in> set es. 0 \<le> expense_cents e \<Longrightarrow> 0 \<le> paidBy es u \<and> paidBy es u \<le> (\<Sum>e \<leftarrow> es. expense_cents e)"
  "\<forall>p \<in> set ps. 0 \<le> share_cents p \<Longrightarrow> 0 \<le> owedBy ps u \<and> owedBy ps u \<le> (\<Sum>p \<leftarrow> ps. share_cents p)"
  "\<forall>s \<in> set ss. 0 \<le> settlement_cents s \<Longrightarrow> \<bar>settledBy ss u\<bar> \<le> (\<Sum>s \<leftarrow> ss. settlement_cents s)"
proof -
  show "0 \<le> paidBy es u \<and> paidBy es u \<le> (\<Sum>e \<leftarrow> es. expense_cents e)" if "\<forall>e \<in> set es. 0 \<le> expense_cents e"
    using that by (induction es) (auto simp: paidBy_def)
  show "0 \<le> owedBy ps u \<and> owedBy ps u \<le> (\<Sum>p \<leftarrow> ps. share_cents p)" if "\<forall>p \<in> set ps. 0 \<le> share_cents p"
    using that by (induction ps) (auto simp: owedBy_def)
  show "\<bar>settledBy ss u\<bar> \<le> (\<Sum>s \<leftarrow> ss. settlement_cents s)" if "\<forall>s \<in> set ss. 0 \<le> settlement_cents s"
    using that by (induction ss) (auto simp: settledBy_def)
qed

lemma by_user_none:
  "u \<notin> ex_payer ` set es \<Longrightarrow> paidBy es u = 0" "u \<notin> pt_user ` set ps \<Longrightarrow> owedBy ps u = 0"
proof -
  show "paidBy es u = 0" if "u \<notin> ex_payer ` set es" using that by (induction es) (auto simp: paidBy_def)
  show "owedBy ps u = 0" if "u \<notin> pt_user ` set ps" using that by (induction ps) (auto simp: owedBy_def)
qed

section \<open>Exact balances\<close>

definition exactBalance :: "uuid \<Rightarrow> int \<Rightarrow> int \<Rightarrow> int \<Rightarrow> expense_balance" where
  "exactBalance u paid owed settled =
    (let net = paid - owed + settled
     in \<lparr>eb_user = u, eb_paid = cash paid, eb_share = cash owed, eb_net = cash (paid - owed),
         eb_settled = cash settled, eb_outstanding = cash net,
         eb_status = (if net > 1 then GetsBack else if net < - 1 then Owes else Settled)\<rparr>)"

lemma balance_sel:
  "eb_user (exactBalance u p q b) = u" "eb_outstanding (exactBalance u p q b) = cash (p - q + b)"
  by (simp_all add: exactBalance_def Let_def)

lemma balanceOf_exact:
  assumes "tracks n p (fs_paid s)" "tracks n q (fs_share s)" "tracks m b (fs_before s)" "n \<le> 2 ^ 14" "m \<le> 2 ^ 15"
    "0 \<le> p u" "p u \<le> 2 ^ 34" "0 \<le> q u" "q u \<le> 2 ^ 34" "b u = p u - q u + t" "\<bar>t\<bar> \<le> 2 ^ 34"
  shows "balanceOf s u = exactBalance u (p u) (q u) t"
proof -
  have paid: "round2 (entry (fs_paid s) u) = cash (p u)" by (rule tracks_round [OF assms(1)]) (use assms in simp_all)
  have share: "round2 (entry (fs_share s) u) = cash (q u)" by (rule tracks_round [OF assms(2)]) (use assms in simp_all)
  have raw: "round2 (fsub (entry (fs_paid s) u) (entry (fs_share s) u)) = cash (p u - q u)"
    by (rule tracks_diff [OF assms(1,2)]) (use assms in simp_all)
  have out: "round2 (entry (fs_before s) u) = cash (p u - q u + t)"
    using tracks_round [OF assms(3), of u] assms by simp
  have b: "\<bar>p u - q u\<bar> \<le> 2 ^ 44" "\<bar>p u - q u + t\<bar> \<le> 2 ^ 44" "\<bar>t\<bar> \<le> 2 ^ 44"
    "\<bar>p u - q u + t\<bar> \<le> max_cents" "\<bar>- 1 :: int\<bar> \<le> max_cents" "\<bar>1 :: int\<bar> \<le> max_cents" "\<bar>t\<bar> \<le> max_cents" "\<bar>p u - q u\<bar> \<le> max_cents"
    using assms by simp_all
  have diff: "round2 (fsub (cash (p u - q u + t)) (cash (p u - q u))) = cash t"
    using round2_diff [OF b(2,1)] by simp
  have tol: "- cash 1 = cash (- 1)" by (rule cash_minus [symmetric])
  show ?thesis
    unfolding balanceOf_def Let_def paid share raw out diff tol settlementTolerance_cash cash_cents(2) [OF b(7)]
      cash_cents(2) [OF b(8)] cash_cents(2) [OF b(4)] cash_less_iff [OF b(6) b(4)] cash_less_iff [OF b(4) b(5)]
    by (simp add: exactBalance_def Let_def)
qed

lemma entry_users: "distinct (map fst us) \<Longrightarrow> entry (map (\<lambda>(u, _). (u, g u)) us) u = (if u \<in> fst ` set us then g u else 0)"
proof -
  have "map_of (map (\<lambda>(u, _). (u, g u)) us) u = (if u \<in> fst ` set us then Some (g u) else None)" by (induction us) auto
  then show ?thesis by (simp add: entry_def)
qed

lemma netBefore_exact:
  assumes "tracks n p (fs_paid s)" "tracks n q (fs_share s)" "n \<le> 2 ^ 14" "distinct (map fst (fs_users s))"
    "\<And>u. 0 \<le> p u \<and> p u \<le> 2 ^ 34" "\<And>u. 0 \<le> q u \<and> q u \<le> 2 ^ 34" "\<And>u. u \<notin> fst ` set (fs_users s) \<Longrightarrow> p u = q u"
  shows "tracks 1 (\<lambda>u. p u - q u) (fs_before (netBefore s))"
  unfolding tracks_def
proof
  fix u
  have pq: "0 \<le> p u" "p u \<le> 2 ^ 34" "0 \<le> q u" "q u \<le> 2 ^ 34" using assms(5,6) by simp_all
  have "round2 (fsub (entry (fs_paid s) u) (entry (fs_share s) u)) = cash (p u - q u)"
    by (rule tracks_diff [OF assms(1-3)]) (use pq in simp_all)
  then have e: "entry (fs_before (netBefore s)) u = cash (p u - q u)"
    using assms(7) entry_users [OF assms(4), of "\<lambda>u. round2 (fsub (entry (fs_paid s) u) (entry (fs_share s) u))" u]
    by (simp add: netBefore_def)
  have "near ((of_int (2 ^ 35) + 1) / 2 ^ 53) (p u - q u) (cash (p u - q u))" using pq by (intro near_cash) simp
  then show "near (of_nat 1 * step_err) (p u - q u) (entry (fs_before (netBefore s)) u)"
    unfolding e by (rule near_mono) (simp add: step_err_def)
qed

section \<open>The financials of a trip\<close>

lemma trip_rows:
  assumes "ledger_ok db" "plain_trip cur tid db"
  shows "e \<in> set (tripExpenses tid db) \<Longrightarrow> expense_row_ok cur e"
    "p \<in> set (tripShares tid db) \<Longrightarrow> share_row_ok cur p \<and> (\<exists>e \<in> set (tripExpenses tid db). ex_id e = pt_expense p)"
    "s \<in> set (tripSettlements tid db) \<Longrightarrow> st_status s = SettlementPaid \<Longrightarrow> settlement_row_ok cur s"
    "s \<in> set (tripSettlements tid db) \<Longrightarrow> 0 \<le> settlement_cents s"
proof -
  note trip = tripExpenses_def tripShares_def tripSettlements_def
  show e: "expense_row_ok cur e" if "e \<in> set (tripExpenses tid db)" for e
    using that assms by (auto simp: ledger_ok_def expense_row_fine_def expense_row_ok_def cents_range_def plain_trip_def trip)
  show "settlement_row_ok cur s" if "s \<in> set (tripSettlements tid db)" "st_status s = SettlementPaid"
    using that assms unfolding settlement_row_ok_def settlement_cents_def
    by (auto simp: ledger_ok_def settlement_row_fine_def plain_trip_def trip)
  show "0 \<le> settlement_cents s" if "s \<in> set (tripSettlements tid db)"
    using that assms unfolding settlement_cents_def by (auto simp: ledger_ok_def settlement_row_fine_def trip)
  show "share_row_ok cur p \<and> (\<exists>e \<in> set (tripExpenses tid db). ex_id e = pt_expense p)" if p: "p \<in> set (tripShares tid db)"
  proof -
    obtain e where e: "e \<in> set (xb_expenses db)" "ex_id e = pt_expense p" "ex_status e = ExpenseActive"
      and p': "p \<in> set (xb_participants db)" "pt_trip p = tid"
      using p by (auto simp: trip)
    have "participant_row_fine (xb_expenses db) p" using assms(1) p'(1) by (simp add: ledger_ok_def)
    then obtain e' where e': "e' \<in> set (xb_expenses db)" "ex_id e' = pt_expense p" "ex_trip e' = tid" "pt_currency p = Some (ex_currency e')"
      and row: "pt_amount p = Some (cash (share_cents p))" "0 \<le> share_cents p"
      using p'(2) by (auto simp: participant_row_fine_def cents_range_def)
    have "e' = e" using ledger_row_unique [OF assms(1) e'(1) e(1)] e' e by simp
    then have m: "e \<in> set (tripExpenses tid db)" using e e' by (simp add: trip)
    then show ?thesis using assms(2) e' \<open>e' = e\<close> e row by (auto simp: share_row_ok_def plain_trip_def)
  qed
qed

lemma currency_of_listed:
  assumes "ledger_ok db" "plain_trip cur tid db" "p \<in> set (tripShares tid db)"
  shows "map_of (rev (map (\<lambda>e. (ex_id e, ex_currency e)) (ListTripExpensesByTrip tid no_filters db))) (pt_expense p) = Some cur"
proof -
  let ?es = "ListTripExpensesByTrip tid no_filters db"
  have es: "set ?es = set (tripExpenses tid db)" using listed_mset(1) by (rule mset_eq_setD)
  obtain e where e: "e \<in> set (tripExpenses tid db)" "ex_id e = pt_expense p" using trip_rows(2) [OF assms] by blast
  have "distinct (map ex_id (tripExpenses tid db))" using assms(1) by (simp add: tripExpenses_def ledger_ok_def distinct_map_filter)
  moreover have "mset (map ex_id ?es) = mset (map ex_id (tripExpenses tid db))" by (simp add: listed_mset(1))
  ultimately have "distinct (map ex_id ?es)" using mset_eq_imp_distinct_iff by blast
  then have "distinct (map fst (rev (map (\<lambda>e. (ex_id e, ex_currency e)) ?es)))" by (simp add: rev_map [symmetric] comp_def)
  moreover have "(pt_expense p, cur) \<in> set (rev (map (\<lambda>e. (ex_id e, ex_currency e)) ?es))"
    using e trip_rows(1) [OF assms(1,2) e(1)] es by (force simp: expense_row_ok_def)
  ultimately show ?thesis by (rule map_of_is_SomeI)
qed

text \<open>The sums of a trip are small enough, and the same for the listed rows.\<close>

lemma trip_bounds:
  assumes "ledger_ok db" "plain_trip cur tid db"
  shows "0 \<le> paidBy (tripExpenses tid db) u \<and> paidBy (tripExpenses tid db) u \<le> 2 ^ 34"
    "0 \<le> owedBy (tripShares tid db) u \<and> owedBy (tripShares tid db) u \<le> 2 ^ 34"
    "\<bar>settledBy (tripSettlements tid db) u\<bar> \<le> 2 ^ 34"
  using by_user_bounds(1) [of "tripExpenses tid db" u] by_user_bounds(2) [of "tripShares tid db" u]
    by_user_bounds(3) [of "tripSettlements tid db" u] trip_rows [OF assms] assms(2)
  by (fastforce simp: expense_row_ok_def share_row_ok_def plain_trip_def)+

lemma listed_bounds:
  assumes "plain_trip cur tid db"
  shows "length (ListTripExpensesByTrip tid no_filters db) \<le> 2 ^ 13" "length (ListExpenseParticipantsByTrip tid db) \<le> 2 ^ 13"
    "length (ListTripSettlementsByTrip tid db) \<le> 2 ^ 13"
    "(\<Sum>e \<leftarrow> ListTripExpensesByTrip tid no_filters db. expense_cents e) \<le> 2 ^ 34"
    "(\<Sum>p \<leftarrow> ListExpenseParticipantsByTrip tid db. share_cents p) \<le> 2 ^ 34"
    "(\<Sum>s \<leftarrow> ListTripSettlementsByTrip tid db. settlement_cents s) \<le> 2 ^ 34"
  using assms listed_mset [of tid db, THEN mset_eq_length]
    listed_mset(1) [THEN sum_list_mset] listed_mset(2) [THEN sum_list_mset] listed_mset(3) [THEN sum_list_mset]
  by (simp_all add: plain_trip_def)

lemma listed_by_user:
  "paidBy (ListTripExpensesByTrip tid no_filters db) = paidBy (tripExpenses tid db)"
  "owedBy (ListExpenseParticipantsByTrip tid db) = owedBy (tripShares tid db)"
  "settledBy (ListTripSettlementsByTrip tid db) = settledBy (tripSettlements tid db)"
  by (rule by_user_mset listed_mset)+

lemmas listed_sets = listed_mset [THEN mset_eq_setD]

lemma financial_sums:
  assumes "ledger_ok db" "plain_trip cur tid db" "validCurrencyCode cur" "distinct (map fst users)"
  obtains s1 s2 where
    "sumExpenses env cur (ListTripExpensesByTrip tid no_filters db)
      \<lparr>fs_original = [], fs_total = 0, fs_by_category = [], fs_by_payer = [], fs_paid = [], fs_share = [],
       fs_before = [], fs_users = users, fs_warnings = []\<rparr> = Inr s1"
    "sumShares env cur (map_of (rev (map (\<lambda>e. (ex_id e, ex_currency e)) (ListTripExpensesByTrip tid no_filters db))))
      (ListExpenseParticipantsByTrip tid db) s1 = Inr s2"
    "tracks (2 ^ 13) (paidBy (tripExpenses tid db)) (fs_paid s2)"
    "tracks (2 ^ 13) (owedBy (tripShares tid db)) (fs_share s2)" "distinct (map fst (fs_users s2))"
    "fst ` set (fs_users s2) = fst ` set users \<union> ex_payer ` set (tripExpenses tid db) \<union> pt_user ` set (tripShares tid db)"
proof -
  let ?les = "ListTripExpensesByTrip tid no_filters db" and ?lps = "ListExpenseParticipantsByTrip tid db"
  note rows = trip_rows [OF assms(1,2)] and bounds = listed_bounds [OF assms(2)]
  obtain s1 where s1: "sumExpenses env cur ?les
      \<lparr>fs_original = [], fs_total = 0, fs_by_category = [], fs_by_payer = [], fs_paid = [], fs_share = [],
       fs_before = [], fs_users = users, fs_warnings = []\<rparr> = Inr s1"
    and t1: "tracks (length ?les) (paidBy (tripExpenses tid db)) (fs_paid s1)" and f1: "fs_share s1 = []" "distinct (map fst (fs_users s1))"
    "fst ` set (fs_users s1) = fst ` set users \<union> (ex_payer ` set ?les - {0})"
    using sumExpenses_exact [of ?les cur 0 "\<lambda>_. 0" "\<lparr>fs_original = [], fs_total = 0, fs_by_category = [], fs_by_payer = [],
       fs_paid = [], fs_share = [], fs_before = [], fs_users = users, fs_warnings = []\<rparr>" env]
      rows(1) bounds assms(4) by (auto simp: listed_sets listed_by_user tracks_Nil)
  obtain s2 where s2: "sumShares env cur (map_of (rev (map (\<lambda>e. (ex_id e, ex_currency e)) ?les))) ?lps s1 = Inr s2"
    and t2: "tracks (length ?lps) (owedBy (tripShares tid db)) (fs_share s2)" and f2: "fs_paid s2 = fs_paid s1" "distinct (map fst (fs_users s2))"
    "fst ` set (fs_users s2) = fst ` set (fs_users s1) \<union> (pt_user ` set ?lps - {0})"
    using sumShares_exact [of cur ?lps "map_of (rev (map (\<lambda>e. (ex_id e, ex_currency e)) ?les))" 0 "\<lambda>_. 0" s1 env]
      rows(2) currency_of_listed [OF assms(1,2)] bounds f1 assms(3) by (auto simp: listed_sets listed_by_user tracks_Nil)
  show ?thesis
  proof (rule that [OF s1 s2 _ _ f2(2)])
    show "tracks (2 ^ 13) (paidBy (tripExpenses tid db)) (fs_paid s2)" "tracks (2 ^ 13) (owedBy (tripShares tid db)) (fs_share s2)"
      using t1 t2 bounds f2(1) by (auto intro: tracks_grow)
    show "fst ` set (fs_users s2) = fst ` set users \<union> ex_payer ` set (tripExpenses tid db) \<union> pt_user ` set (tripShares tid db)"
      using f2(3) f1(3) assms(2) by (auto simp: listed_sets plain_trip_def involved_def)
  qed
qed

lemma financials_exact:
  assumes "ledger_ok db" "plain_trip cur (tr_id t) db" "expenseUsers env t actor db = Inr (users, travelers)"
    "resolveExpenseSummaryCurrency requested (td_budget_currency (xe_details env (tr_id t))) = Inr cur"
  obtains fin us where "expenseFinancials env t actor requested db = Inr fin" "ef_currency fin = cur"
    "distinct us" "set us = fst ` set users \<union> involved (tr_id t) db"
    "ef_balances fin = map (\<lambda>u. exactBalance u (paidBy (tripExpenses (tr_id t) db) u) (owedBy (tripShares (tr_id t) db) u)
       (settledBy (tripSettlements (tr_id t) db) u)) us"
proof -
  let ?tid = "tr_id t"
  let ?lss = "ListTripSettlementsByTrip ?tid db"
  define p where "p = paidBy (tripExpenses ?tid db)"
  define q where "q = owedBy (tripShares ?tid db)"
  define b where "b = settledBy (tripSettlements ?tid db)"
  have cur: "validCurrencyCode cur" using assms(4) by (auto simp: resolveExpenseSummaryCurrency_def Let_def split: if_splits)
  from financial_sums [OF assms(1,2) cur expenseUsers_distinct [OF assms(3)], of env, folded p_def q_def] obtain s1 s2 where
    s1: "sumExpenses env cur (ListTripExpensesByTrip ?tid no_filters db)
      \<lparr>fs_original = [], fs_total = 0, fs_by_category = [], fs_by_payer = [], fs_paid = [], fs_share = [],
       fs_before = [], fs_users = users, fs_warnings = []\<rparr> = Inr s1"
    and s2: "sumShares env cur (map_of (rev (map (\<lambda>e. (ex_id e, ex_currency e)) (ListTripExpensesByTrip ?tid no_filters db))))
      (ListExpenseParticipantsByTrip ?tid db) s1 = Inr s2"
    and t: "tracks (2 ^ 13) p (fs_paid s2)" "tracks (2 ^ 13) q (fs_share s2)" and d: "distinct (map fst (fs_users s2))"
    and keys: "fst ` set (fs_users s2) = fst ` set users \<union> ex_payer ` set (tripExpenses ?tid db) \<union> pt_user ` set (tripShares ?tid db)" .
  note small = trip_bounds [OF assms(1,2), folded p_def q_def b_def] and bounds = listed_bounds [OF assms(2)]
  have "tracks 1 (\<lambda>x. p x - q x) (fs_before (netBefore s2))"
  proof (rule netBefore_exact [OF t _ d small(1,2)])
    show "p x = q x" if "x \<notin> fst ` set (fs_users s2)" for x
    proof -
      have "x \<notin> ex_payer ` set (tripExpenses ?tid db)" "x \<notin> pt_user ` set (tripShares ?tid db)" using that keys by blast+
      then show ?thesis using by_user_none by (simp add: p_def q_def)
    qed
  qed simp
  moreover have same: "fs_users (netBefore s2) = fs_users s2" "fs_paid (netBefore s2) = fs_paid s2" "fs_share (netBefore s2) = fs_share s2"
    by (simp_all add: netBefore_def)
  moreover have "\<bar>p x - q x\<bar> + (\<Sum>s \<leftarrow> ?lss. settlement_cents s) \<le> 2 ^ 35" for x
  proof -
    have "\<bar>p x - q x\<bar> \<le> 2 ^ 34" using small(1,2) [of x] unfolding abs_le_iff by linarith
    then show ?thesis using bounds(6) by simp
  qed
  ultimately obtain s3 where s3: "sumSettlements env cur ?lss (netBefore s2) = Inr s3"
    and t4: "tracks (1 + 2 * length ?lss) (\<lambda>x. p x - q x + b x) (fs_before s3)"
    and f3: "fs_paid s3 = fs_paid s2" "fs_share s3 = fs_share s2" "distinct (map fst (fs_users s3))"
    "fst ` set (fs_users s3) = fst ` set (fs_users s2) \<union>
        (\<Union>s \<in> {s \<in> set ?lss. st_status s = SettlementPaid}. {st_from s, st_to s} - {0})"
    using sumSettlements_exact [of ?lss cur 1 "\<lambda>x. p x - q x" "netBefore s2" env] trip_rows(3) [OF assms(1,2)] bounds(3) d
    by (auto simp: listed_sets listed_by_user b_def)
  have eq: "balanceOf s3 x = exactBalance x (p x) (q x) (b x)" for x
    by (rule balanceOf_exact [OF t [folded f3(1,2)] t4]) (use bounds(3) small [of x] in simp_all)
  obtain fin where fin: "expenseFinancials env t actor requested db = Inr fin" "ef_currency fin = cur"
    "ef_balances fin = map (balanceOf s3) (sortedUserIDs (fs_users s3))"
    unfolding expenseFinancials_def Let_def using assms(3,4) s1 s2 s3 by simp
  have "ef_balances fin = map (\<lambda>x. exactBalance x (p x) (q x) (b x)) (sortedUserIDs (fs_users s3))" by (simp add: fin eq)
  moreover have "set (sortedUserIDs (fs_users s3)) = fst ` set users \<union> involved ?tid db"
    using f3(4) keys assms(2) by (auto simp: involved_def sortedUserIDs_def plain_trip_def listed_sets)
  moreover have "distinct (sortedUserIDs (fs_users s3))" using f3(3) by (simp add: sortedUserIDs_def)
  ultimately show ?thesis using that fin unfolding p_def q_def b_def by blast
qed





text \<open>The balances of such a trip can always be settled by suggestions.\<close>

lemma nets_ok_exact:
  assumes "ledger_ok db" "plain_trip cur tid db" "distinct us"
    "ef_balances fin = map (\<lambda>u. exactBalance u (paidBy (tripExpenses tid db) u) (owedBy (tripShares tid db) u)
       (settledBy (tripSettlements tid db) u)) us"
  shows "nets_ok (netCents tid db) (ef_balances fin)"
proof -
  have "\<bar>netCents tid db u\<bar> \<le> 2 ^ 44" for u using trip_bounds [OF assms(1,2), of u] unfolding netCents_def abs_le_iff by simp
  then show ?thesis using assms(3) by (simp add: nets_ok_def assms(4) comp_def balance_sel netCents_def)
qed

lemma settlementsResponse_total:
  assumes "ledger_ok db" "plain_trip cur (tr_id t) db" "expenseUsers env t actor db = Inr (users, travelers)"
    "resolveExpenseSummaryCurrency requested (td_budget_currency (xe_details env (tr_id t))) = Inr cur"
  shows "\<exists>resp. settlementsResponse env t actor requested db = Inr resp"
proof -
  obtain fin us where fin: "expenseFinancials env t actor requested db = Inr fin" and us: "distinct us"
    "ef_balances fin = map (\<lambda>u. exactBalance u (paidBy (tripExpenses (tr_id t) db) u) (owedBy (tripShares (tr_id t) db) u)
       (settledBy (tripSettlements (tr_id t) db) u)) us" using financials_exact [OF assms] by blast
  obtain sgs where "settlementSuggestions (tr_id t) (ef_currency fin) (ef_balances fin) (ef_hash fin) = Some sgs"
    using suggestions_cents [OF nets_ok_exact [OF assms(1,2) us]] by blast
  then show ?thesis by (simp add: settlementsResponse_def fin suggestionsOf_def)
qed

section \<open>Paying a suggestion\<close>

lemma settleLoop_rows:
  "settleLoop mk ds cs out = Some sgs \<Longrightarrow> \<forall>s \<in> set sgs. s \<in> set out \<or> (\<exists>f t a. s = mk f t a)"
proof (induction mk ds cs out sgs rule: settleLoop.raw_induct [rotated, consumes 1, case_names step])
  case (step loop mk ds cs out sgs)
  show ?case
  proof (cases "ds = [] \<or> cs = []")
    case False
    let ?a = "round2 (min (sd_amount (hd ds)) (sd_amount (hd cs)))"
    let ?out = "if ?a > settlementTolerance then out @ [mk (sd_user (hd ds)) (sd_user (hd cs)) ?a] else out"
    have "\<exists>ds' cs'. loop mk ds' cs' ?out = Some sgs"
      using step(2) unfolding Let_def if_not_P [OF False] by blast
    then obtain ds' cs' where "loop mk ds' cs' ?out = Some sgs" by blast
    from step(1) [OF this] show ?thesis by (auto split: if_splits)
  qed (use step in auto)
qed

lemma suggestion_found:
  assumes "suggestionsOf tid fin = Inr sgs" "find (\<lambda>s. sg_id s = Calculated tid' from to a cur h) sgs = Some s"
  shows "sg_from s = from" "sg_to s = to" "sg_amount s = round2 a" "sg_currency s = ef_currency fin"
proof -
  have s: "s \<in> set sgs" "sg_id s = Calculated tid' from to a cur h" using assms(2) by (auto simp: find_Some_iff)
  obtain ds cs where "settleLoop (\<lambda>from to amount. \<lparr>sg_id = calculatedSettlementID tid from to amount (ef_currency fin) (ef_hash fin),
      sg_from = from, sg_to = to, sg_amount = round2 amount, sg_currency = ef_currency fin, sg_hash = ef_hash fin\<rparr>) ds cs [] = Some sgs"
    using assms(1) by (auto simp: suggestionsOf_def settlementSuggestions_def split: option.splits prod.splits)
  from settleLoop_rows [OF this] s show "sg_from s = from" "sg_to s = to" "sg_amount s = round2 a" "sg_currency s = ef_currency fin"
    by (auto simp: calculatedSettlementID_def)
qed

lemma MarkTripSettlementPaid_row:
  assumes "MarkTripSettlementPaid env cx tid (Calculated tid' from to a cur h) notes db = (Inr resp, db')"
  obtains row x where "db' = db\<lparr>xb_settlements := xb_settlements db @ [row], xb_trips := x\<rparr>"
    "st_from row = from" "st_to row = to" "st_trip row = tid" "st_status row = SettlementPaid" "from \<noteq> to"
    "moneyCents (st_amount row) = moneyCents (round2 a)" "0 < moneyCents (round2 a)"
proof -
  obtain user :: auth_user and fin sgs s row db1 where
    sgs: "suggestionsOf tid fin = Inr sgs" "find (\<lambda>s. sg_id s = Calculated tid' from to a cur h) sgs = Some s"
    and c: "CreateTripSettlement (xc_now cx) (suggestionRow cx tid (au_id user) notes s) db = Inr (row, db1)"
    and db': "\<exists>x. db' = db1\<lparr>xb_trips := x\<rparr>"
    using assms by (fastforce simp: MarkTripSettlementPaid_def request_run split: option.splits)
  note s = suggestion_found [OF sgs]
  have fits: "numeric_fits 12 (round2 a)" "0 < toPgNumeric (round2 a)"
    and row: "db1 = db\<lparr>xb_settlements := xb_settlements db @ [row]\<rparr>" "st_amount row = stored_numeric (round2 a)"
      "st_from row = from" "st_to row = to" "st_trip row = tid" "st_status row = SettlementPaid" "from \<noteq> to"
    using c s by (auto simp: CreateTripSettlement_def Let_def suggestionRow_def split: if_splits)
  from db' obtain x where x: "db' = db1\<lparr>xb_trips := x\<rparr>" ..
  show ?thesis
    by (rule that [of x row]) (use row x fits stored_cents(2) [OF fits(1)] in \<open>simp_all add: toPgNumeric_moneyCents\<close>)
qed

section \<open>Properties\<close>



text \<open>
  C30. Marking a suggestion as paid moves what it says: the request adds one paid settlement of
  the suggested amount, so that the payer's net grows by exactly its cents and the receiver's
  shrinks by them, nobody else's net in this or another trip changes, and the expenses and shares
  stay as they were.
\<close>

theorem payment_moves_balances:
  assumes "MarkTripSettlementPaid env cx tid (Calculated tid' from to a cur h) notes db = (Inr resp, db')"
  shows "from \<noteq> to \<and> 0 < moneyCents (round2 a) \<and> xb_expenses db' = xb_expenses db \<and> xb_participants db' = xb_participants db \<and>
    netCents tr db' u = netCents tr db u +
      (if tr = tid then (if u = from then moneyCents (round2 a) else 0) - (if u = to then moneyCents (round2 a) else 0) else 0)"
proof -
  obtain row x where db': "db' = db\<lparr>xb_settlements := xb_settlements db @ [row], xb_trips := x\<rparr>"
    and row: "st_from row = from" "st_to row = to" "st_trip row = tid" "st_status row = SettlementPaid" "from \<noteq> to"
      "moneyCents (st_amount row) = moneyCents (round2 a)" "0 < moneyCents (round2 a)"
    using MarkTripSettlementPaid_row [OF assms] by blast
  have "tripExpenses tr db' = tripExpenses tr db" "tripShares tr db' = tripShares tr db"
    by (simp_all add: db' tripExpenses_def tripShares_def)
  moreover have "settledBy (tripSettlements tr db') u = settledBy (tripSettlements tr db) u +
      (if tr = tid then (if u = from then moneyCents (round2 a) else 0) - (if u = to then moneyCents (round2 a) else 0) else 0)"
    using row by (auto simp: db' tripSettlements_def settledBy_def settlement_cents_def)
  ultimately show ?thesis using row by (simp add: netCents_def db')
qed

end
