(* ===== verification/ExpenseRights.thy ===== *)
theory ExpenseRights
  imports LedgerLaws
begin

text \<open>
  Who may change what in the ledger: a caller without the right to edit the trip touches only
  expenses of their own and settlements they are a party of.
\<close>

text \<open>The state a request ends in, after its checks and its one statement.\<close>

definition ends :: "('s \<Rightarrow> bool) \<Rightarrow> ('s, 'e, 'a) op \<Rightarrow> 's \<Rightarrow> bool" where
  "ends Q m s \<longleftrightarrow> Q (snd (m s))"

named_theorems ends_intros

lemma ends_pure [ends_intros]:
  "Q s \<Longrightarrow> (\<And>x. r = Inr x \<Longrightarrow> ends Q (f x) s) \<Longrightarrow> ends Q (sbind (spure r) f) s"
  "Q s \<Longrightarrow> (\<And>x. g s = Inr x \<Longrightarrow> ends Q (f x) s) \<Longrightarrow> ends Q (sbind (sread g) f) s"
  "Q s \<Longrightarrow> (\<And>x. b \<Longrightarrow> ends Q (f' x) s) \<Longrightarrow> ends Q (sbind (scheck b e) f') s"
  "Q s \<Longrightarrow> (\<And>x t. h s = Inr (x, t) \<Longrightarrow> ends Q (f x) t) \<Longrightarrow> ends Q (sbind (sstmt h) f) s"
  "Q s \<Longrightarrow> ends Q (sfail e) s" "Q s \<Longrightarrow> ends Q (sret x) s" "Q s \<Longrightarrow> ends Q (sread g) s"
  by (auto simp: ends_def sbind_def spure_def sread_def scheck_def sstmt_def sfail_def sret_def split: sum.splits prod.splits)

lemma ends_case [ends_intros]:
  "(\<And>x y. p = (x, y) \<Longrightarrow> ends Q (f x y) s) \<Longrightarrow> ends Q (case p of (x, y) \<Rightarrow> f x y) s"
  "(v = None \<Longrightarrow> ends Q m s) \<Longrightarrow> (\<And>x. v = Some x \<Longrightarrow> ends Q (g x) s) \<Longrightarrow> ends Q (case v of None \<Rightarrow> m | Some x \<Rightarrow> g x) s"
  by (cases p; simp) (cases v; simp)




section \<open>What the statements change\<close>











section \<open>Requests\<close>



lemma ends_settlement_id [ends_intros]:
  "(\<And>a b c d e f. sid = Calculated a b c d e f \<Longrightarrow> ends Q (sbind (g a b c d e f) k) s) \<Longrightarrow>
   (\<And>i. sid = Stored i \<Longrightarrow> ends Q (sbind (h i) k) s) \<Longrightarrow> (sid = Malformed \<Longrightarrow> ends Q (sbind m k) s) \<Longrightarrow>
     ends Q (sbind (case sid of Calculated a b c d e f \<Rightarrow> g a b c d e f | Stored i \<Rightarrow> h i | Malformed \<Rightarrow> m) k) s"
  by (cases sid) simp_all






lemma ends_bind [ends_intros]:
  "ends Q (sbind m (\<lambda>x. sbind (f x) k)) s \<Longrightarrow> ends Q (sbind (sbind m f) k) s"
  "Q s \<Longrightarrow> ends Q (sbind (sfail e) k') s"
  "(v = None \<Longrightarrow> ends Q (sbind m'' k'') s) \<Longrightarrow> (\<And>x. v = Some x \<Longrightarrow> ends Q (sbind (g x) k'') s) \<Longrightarrow>
     ends Q (sbind (case v of None \<Rightarrow> m'' | Some x \<Rightarrow> g x) k'') s"
  by (auto simp: ends_def sbind_def sfail_def split: prod.splits sum.splits option.splits)




end
