(* ===== verification/ExpenseWitnesses.thy ===== *)
theory ExpenseWitnesses
  imports Balances ExpenseRights Demo
begin

text \<open>The theorems about expenses applied on a small ledger: user 1 paid a dinner for two.\<close>

definition demo_xenv :: expense_env where
  "demo_xenv = \<lparr>xe_svc = demo_env, xe_members = (\<lambda>_. Inr []),
     xe_details = (\<lambda>_. \<lparr>td_legs = None, td_accommodation = False, td_budget_currency = ''EUR''\<rparr>),
     xe_convert = None, xe_fail_open = True, xe_digest = (\<lambda>_. ''h'')\<rparr>"

definition demo_call :: "uuid \<Rightarrow> expense_call" where
  "demo_call u = \<lparr>xc_user = Some (demo_user u), xc_now = 50, xc_id = 900, xc_fresh = (\<lambda>n. 901 + of_nat n)\<rparr>"

definition dinner :: trip_expense where
  "dinner = \<lparr>ex_id = 500, ex_trip = 10, ex_title = ''Dinner'', ex_description = None, ex_amount = cash 101, ex_currency = ''EUR'',
     ex_category = CatFood, ex_date = 7, ex_payer = 1, ex_split = SplitSelectedEqual, ex_day = None, ex_item = None, ex_item_id = None,
     ex_leg = None, ex_accommodation = False, ex_notes = None, ex_status = ExpenseActive, ex_created_by = 1, ex_updated_by = Some 1,
     ex_deleted_by = None, ex_deleted_at = None, ex_created_at = 8, ex_updated_at = 8\<rparr>"

definition dinner_share :: "uuid \<Rightarrow> uuid \<Rightarrow> int \<Rightarrow> expense_participant" where
  "dinner_share i u c = \<lparr>pt_id = i, pt_expense = 500, pt_trip = 10, pt_user = u, pt_amount = Some (cash c),
     pt_currency = Some ''EUR'', pt_percentage = None\<rparr>"

definition dinner_db :: expense_db where
  "dinner_db = \<lparr>xb_trips = demo_db, xb_travelers = [], xb_expenses = [dinner],
     xb_participants = [dinner_share 501 1 51, dinner_share 502 2 50], xb_settlements = []\<rparr>"

definition demo_trip :: trip where
  "demo_trip = hd (db_trips demo_db)"

lemma dinner_valid: "validCurrencyCode ''EUR''"
  by code_simp

lemma dinner_cents [simp]: "expense_cents dinner = 101" "share_cents (dinner_share i u 51) = 51" "share_cents (dinner_share i u 50) = 50"
  by (simp_all add: expense_cents_def dinner_def share_cents_def dinner_share_def)

lemma dinner_ledger: "ledger_ok dinner_db"
  by (auto simp: ledger_ok_def dinner_db_def expense_row_fine_def participant_row_fine_def cents_range_def sharesOf_def dinner_valid)
    (simp_all add: dinner_def dinner_share_def dinner_valid)

lemma dinner_trip: "tripExpenses 10 dinner_db = [dinner]" "tripShares 10 dinner_db = [dinner_share 501 1 51, dinner_share 502 2 50]"
  "tripSettlements 10 dinner_db = []" "involved 10 dinner_db = {1, 2}"
  by (auto simp: tripExpenses_def tripShares_def tripSettlements_def involved_def dinner_db_def dinner_def dinner_share_def)

lemma dinner_plain: "plain_trip ''EUR'' (tr_id demo_trip) dinner_db"
  by (simp add: demo_trip_def demo_db_def plain_trip_def dinner_trip) (simp add: dinner_def)

lemma demo_users: "\<exists>users travelers. expenseUsers demo_xenv demo_trip (demo_user 1) dinner_db = Inr (users, travelers)"
  by (simp add: expenseUsers_def Let_def demo_trip_def demo_db_def)

lemma demo_currency:
  "resolveExpenseSummaryCurrency [] (td_budget_currency (xe_details demo_xenv (tr_id demo_trip))) = Inr ''EUR''"
  by code_simp



lemma ledger_stays_in_order_witness:
  "ledger_ok (fold (handleExpense demo_xenv) [DeleteExpense (demo_call 2) 10 500, DeleteExpense (demo_call 1) 10 500] dinner_db)"
  by (rule ledger_stays_in_order [OF dinner_ledger]) simp



section \<open>A payment\<close>

lemma demo_trip_sel: "tr_id demo_trip = 10" "tr_user demo_trip = Some 1" "tr_workspace demo_trip = None"
  by (simp_all add: demo_trip_def demo_db_def)

lemma demo_users_keys:
  assumes "expenseUsers demo_xenv demo_trip (demo_user 1) dinner_db = Inr (users, travelers)"
  shows "fst ` set users = {1, 2}"
proof -
  have c: "map co_user (filter (\<lambda>c. co_status c = CAccepted) (ListTripCollaborators demo_db 10)) = [2]" by code_simp
  then obtain x where x: "filter (\<lambda>c. co_status c = CAccepted) (ListTripCollaborators demo_db 10) = [x]" "co_user x = 2" by auto
  obtain n1 n2 where "users = addExpenseUser 1 n1 (addExpenseUser 2 n2 [(1, ''Trip owner'')])"
    using assms x by (auto simp: expenseUsers_def Let_def dinner_db_def ListActiveTripTravelersByTrip_def demo_user_def demo_trip_sel)
  then show ?thesis by (simp add: keys_addExpenseUser insert_commute)
qed

lemma dinner_nets: "netCents 10 dinner_db 1 = 50" "netCents 10 dinner_db 2 = - 50"
  by (simp_all add: netCents_def dinner_trip paidBy_def owedBy_def settledBy_def) (simp_all add: dinner_def dinner_share_def)

text \<open>The one suggestion: user 2 pays 50 cents to user 1.\<close>

lemma dinner_suggestion:
  obtains fin s where "expenseFinancials demo_xenv demo_trip (demo_user 1) [] dinner_db = Inr fin" "ef_currency fin = ''EUR''"
    "suggestionsOf 10 fin = Inr [s]" "sg_from s = 2" "sg_to s = 1" "sg_amount s = cash 50" "\<exists>a h. sg_id s = Calculated 10 2 1 a ''EUR'' h"
proof -
  obtain users travelers where u: "expenseUsers demo_xenv demo_trip (demo_user 1) dinner_db = Inr (users, travelers)"
    using demo_users by blast
  obtain fin us where fin: "expenseFinancials demo_xenv demo_trip (demo_user 1) [] dinner_db = Inr fin" "ef_currency fin = ''EUR''"
    and us: "distinct us" "set us = fst ` set users \<union> involved (tr_id demo_trip) dinner_db"
    and bal: "ef_balances fin = map (\<lambda>u. exactBalance u (paidBy (tripExpenses (tr_id demo_trip) dinner_db) u)
      (owedBy (tripShares (tr_id demo_trip) dinner_db) u) (settledBy (tripSettlements (tr_id demo_trip) dinner_db) u)) us"
    using financials_exact [OF dinner_ledger dinner_plain u demo_currency] by blast
  have set: "set us = {1, 2}" using us(2) demo_users_keys [OF u] dinner_trip(4) by (simp add: demo_trip_sel)
  have "length us = 2" using distinct_card [OF us(1)] set by simp
  then obtain a b where ab: "us = [a, b]" by (auto simp: numeral_2_eq_2 length_Suc_conv)
  then have "a = 1 \<and> b = 2 \<or> a = 2 \<and> b = 1" using set us(1) by (simp add: doubleton_eq_iff)
  then consider "us = [1, 2]" | "us = [2, 1]" using ab by blast
  then have sides: "debts (netCents 10 dinner_db) us = [(2, 50)]" "credits (netCents 10 dinner_db) us = [(1, 50)]"
    by (cases; simp add: debts_def credits_def dinner_nets)+
  have "nets_ok (netCents 10 dinner_db) (ef_balances fin)"
    using nets_ok_exact [OF dinner_ledger dinner_plain us(1) bal] by (simp add: demo_trip_sel)
  from suggestions_cents [OF this, of 10 "ef_currency fin" "ef_hash fin"] obtain sgs ds cs where
    sgs: "settlementSuggestions 10 (ef_currency fin) (ef_balances fin) (ef_hash fin) = Some sgs"
    and tr: "transfers_of sgs = settleCents ds cs" and ds: "mset ds = mset (debts (netCents 10 dinner_db) (map eb_user (ef_balances fin)))"
    and cs: "mset cs = mset (credits (netCents 10 dinner_db) (map eb_user (ef_balances fin)))"
    and am: "\<forall>s \<in> set sgs. sg_amount s = cash (moneyCents (sg_amount s))" by blast
  have "map eb_user (ef_balances fin) = us" by (simp add: bal comp_def balance_sel)
  then have "transfers_of sgs = [(2, 1, 50)]" using tr ds cs sides by (simp add: settleCents.simps(1))
  then obtain s where s: "sgs = [s]" "sg_from s = 2" "sg_to s = 1" "moneyCents (sg_amount s) = 50"
    by (auto simp: transfers_of_def)
  have "\<exists>a h. sg_id s = Calculated 10 2 1 a ''EUR'' h"
  proof -
    obtain ds cs where "settleLoop (\<lambda>from to amount. \<lparr>sg_id = calculatedSettlementID 10 from to amount (ef_currency fin) (ef_hash fin),
      sg_from = from, sg_to = to, sg_amount = round2 amount, sg_currency = ef_currency fin, sg_hash = ef_hash fin\<rparr>) ds cs [] = Some sgs"
      using sgs by (auto simp: settlementSuggestions_def split: prod.splits)
    from settleLoop_rows [OF this] s fin(2) show ?thesis by (auto simp: calculatedSettlementID_def)
  qed
  then show ?thesis using that [OF fin, of s] sgs s am by (simp add: suggestionsOf_def)
qed

lemma payment_moves_balances_witness:
  "\<exists>sid db'. netCents 10 db' 1 = 0 \<and> netCents 10 db' 2 = 0 \<and>
     (\<exists>resp. MarkTripSettlementPaid demo_xenv (demo_call 1) 10 sid None dinner_db = (Inr resp, db'))"
proof -
  obtain fin s where fin: "expenseFinancials demo_xenv demo_trip (demo_user 1) [] dinner_db = Inr fin" "ef_currency fin = ''EUR''"
    and s: "suggestionsOf 10 fin = Inr [s]" "sg_from s = 2" "sg_to s = 1" "sg_amount s = cash 50"
    and "\<exists>a h. sg_id s = Calculated 10 2 1 a ''EUR'' h" using dinner_suggestion by blast
  then obtain a h where i: "sg_id s = Calculated 10 2 1 a ''EUR'' h" by blast
  have a: "round2 a = cash 50" using suggestion_found(3) [OF s(1), of 10 2 1 a "''EUR''" h s] s i by simp
  have cur: "sg_currency s = ''EUR''" using suggestion_found(4) [OF s(1), of 10 2 1 a "''EUR''" h s] s i fin by simp
  have "case requireViewerEditorOrOwner demo_env demo_db 10 1 of Inr (t, access) \<Rightarrow> t = demo_trip \<and> CanEdit access | Inl _ \<Rightarrow> False"
    by code_simp
  then obtain access where acc: "requireViewerEditorOrOwner demo_env demo_db 10 1 = Inr (demo_trip, access)" "CanEdit access"
    by (auto split: sum.splits)
  define row where "row = (suggestionRow (demo_call 1) 10 1 None s)\<lparr>st_created_at := 50, st_updated_at := 50\<rparr>"
  have row: "CreateTripSettlement 50 (suggestionRow (demo_call 1) 10 1 None s) dinner_db = Inr (row, dinner_db\<lparr>xb_settlements := [row]\<rparr>)"
    using s stored_cents(1) [of "cash 50"]
    by (simp add: CreateTripSettlement_def Let_def row_def suggestionRow_def dinner_db_def select_row_def numeric_fits_def
        toPgNumeric_moneyCents trimOptionalText_def opt_all_def)
  let ?log = "\<lambda>db. notifySettlementPaid demo_env 10 1 row (recordActivity demo_env ''settlement_marked_paid'' 10 1 (st_id row) db)"
  let ?db = "dinner_db\<lparr>xb_settlements := [row], xb_trips := ?log demo_db\<rparr>"
  have "ledger_ok (dinner_db\<lparr>xb_settlements := [row]\<rparr>)" by (rule ledger_CreateTripSettlement [OF dinner_ledger row])
  then have l: "ledger_ok ?db" by (simp add: ledger_ok_def)
  have p: "plain_trip ''EUR'' (tr_id demo_trip) ?db"
    using dinner_plain s cur unfolding plain_trip_def involved_def tripExpenses_def tripShares_def tripSettlements_def
    by (simp add: demo_trip_sel dinner_db_def row_def suggestionRow_def settlement_cents_def)
  obtain users travelers where u: "expenseUsers demo_xenv demo_trip (demo_user 1) ?db = Inr (users, travelers)"
    by (simp add: expenseUsers_def Let_def demo_trip_sel)
  have c: "resolveExpenseSummaryCurrency ''EUR'' (td_budget_currency (xe_details demo_xenv (tr_id demo_trip))) = Inr ''EUR''"
    by code_simp
  obtain resp where resp: "settlementsResponse demo_xenv demo_trip (demo_user 1) ''EUR'' ?db = Inr resp"
    using settlementsResponse_total [OF l p u c] by blast
  have m: "MarkTripSettlementPaid demo_xenv (demo_call 1) 10 (Calculated 10 2 1 a ''EUR'' h) None dinner_db = (Inr resp, ?db)"
    using acc fin s i row resp
    by (simp add: MarkTripSettlementPaid_def expenseCaller_def sbind_def spure_def sread_def scheck_def sstmt_def sret_def xread_def xlog_def
        sdo_def MustUserFromContext_def demo_call_def demo_user_def demo_xenv_def canMarkSettlementPaid_def dinner_db_def demo_trip_sel)
  show ?thesis
    using payment_moves_balances [OF m, of 10 1] payment_moves_balances [OF m, of 10 2] m dinner_nets a
    by (intro exI [of _ "Calculated 10 2 1 a ''EUR'' h"] exI [of _ ?db]) simp
qed

section \<open>Splits\<close>

lemma shares_sum_to_amount_witness:
  "\<exists>ps. calculateExpenseParticipants (\<lambda>n. 901 + of_nat n) dinner [1, 2] [] [] [(1, ''a''), (2, ''b'')] [] = Inr ps \<and>
     (\<exists>share. sum share (pt_user ` set ps) = 101 \<and> (\<forall>p \<in> set ps. pt_amount p = Some (cash (share (pt_user p)))))"
proof -
  have "\<exists>ps. calculateExpenseParticipants (\<lambda>n. 901 + of_nat n) dinner [1, 2] [] [] [(1, ''a''), (2, ''b'')] [] = Inr ps"
    by (simp add: calculateExpenseParticipants_def splitExpense_def Let_def dinner_def dedupeUUIDs_def)
  then obtain ps where ps: "calculateExpenseParticipants (\<lambda>n. 901 + of_nat n) dinner [1, 2] [] [] [(1, ''a''), (2, ''b'')] [] = Inr ps" ..
  show ?thesis using shares_sum_to_amount [OF ps, of 101] ps by (auto simp: dinner_def)
qed

text \<open>Ten cents, divided by 0, 36, 36 and 28 percent: the shares are 0, 4, 4 and 3 cents.\<close>

lemma percentageCents_near:
  assumes "\<bar>c * p\<bar> < 2 ^ 40" "\<bar>c\<bar> < 2 ^ 40" "\<bar>n\<bar> < 2 ^ 40" "\<bar>of_int (c * p) / 100 - of_int n\<bar> \<le> (2 / 5 :: rat)"
  shows "percentageCents c (of_int p) = n"
proof -
  have f: "fl (of_int c) = (of_int c :: rat)" "fl (of_int c * of_int p) = (of_int (c * p) :: rat)"
    using fl_of_int [of c] fl_of_int [of "c * p"] assms by simp_all
  define x where "x = (of_int (c * p) / 100 :: rat)"
  have "of_int \<bar>c * p\<bar> \<le> (of_int (2 ^ 40) :: rat)" using assms(1) by (simp only: of_int_le_iff)
  then have "\<bar>x\<bar> \<le> 2 ^ 40 / 100" by (simp add: x_def abs_mult)
  then have "\<bar>x\<bar> / 2 ^ 53 \<le> 1 / 100" by simp
  then have "\<bar>fl x - of_int n\<bar> < 1 / 2" using fl_error [of x] assms(4) unfolding x_def [symmetric] abs_le_iff abs_less_iff by linarith
  then show ?thesis using f assms(3) by (simp add: percentageCents_def fmul_def fdiv_def x_def go_round_near)
qed

definition demo_percentages :: "(uuid \<times> rat) list" where
  "demo_percentages = [(1, 0), (2, 36), (3, 36), (4, 28)]"

lemma demo_rounded:
  "percentageCents 10 0 = 0" "percentageCents 10 36 = 4" "percentageCents 10 28 = 3"
  using percentageCents_near [of 10 0 0] percentageCents_near [of 10 36 4] percentageCents_near [of 10 28 3] by simp_all

lemma percentage_shares_sum_witness:
  "map (entry (assignPercentageShares 10 [1, 2, 3, 4] demo_percentages [])) [1, 2, 3, 4] = [0, 4, 4, 3] \<and>
   sum (entry (assignPercentageShares 10 [1, 2, 3, 4] demo_percentages [])) {1, 2, 3, 4} = 11"
proof -
  define r where "r = (\<lambda>u. percentageCents 10 (entry demo_percentages u))"
  have r: "r 1 = 0" "r 2 = 4" "r 3 = 4" "r 4 = 3" by (simp_all add: r_def demo_percentages_def entry_def demo_rounded)
  have s: "sort [1, 2, 3, 4] = [1, 2, 3, 4 :: uuid]" by simp
  have t: "map (turns [1, 2, 3, 4] 1) [1, 2, 3, 4] = [1, 0, 0, 0]" by (simp add: turns_def)
  have n: "0 \<le> r u" if "u \<in> set [1, 2, 3, 4]" for u using that r by auto
  have x: "1 = sum r (set [1, 2, 3, 4]) - 10" using r by simp
  show ?thesis
    using percentage_shares_sum [OF r_def refl x _ _ n] r t by (simp add: s)
qed

text \<open>
  Four custom shares of \<open>2 ^ 62\<close> cents add up to nothing: they are accepted beside the real share of
  an expense of 101 cents.
\<close>

lemma float_big: "fl 4611686018427388000 = 2 ^ 62"
proof -
  have "floorlog 2 (nat 4611686018427388000) = 63" "floorlog 2 (nat 1) = 1"
    by (simp_all add: compute_floorlog)
  then have "float_exp 4611686018427388000 = 62"
    using quotient_of_int [of 4611686018427388000] by (simp add: float_exp_def)
  moreover have "\<lfloor>144115188075855875 / 32 :: rat\<rfloor> = 4503599627370496" by (rule floor_unique) simp_all
  ultimately show ?thesis by (simp add: fl_def round_half_even_def Let_def)
qed

lemma custom_shares_wrap:
  "addCustomAmounts dinner [(1, ''a''), (2, ''b'')]
     (replicate 4 \<lparr>ca_user = 1, ca_amount = 46116860184273880, ca_currency = ''EUR''\<rparr> @
      [\<lparr>ca_user = 2, ca_amount = cash 101, ca_currency = ''EUR''\<rparr>]) ([], 0) = Inr ([(1, 0), (2, 101)], 101)"
proof -
  have "fmul 46116860184273880 100 = of_int (2 ^ 62)" using float_big by (simp add: fmul_def)
  then have big: "moneyCents 46116860184273880 = 2 ^ 62"
    using go_round_near [of "of_int (2 ^ 62)" "2 ^ 62"] by (simp add: moneyCents_def)
  have cur: "to_upper (trim_space ''EUR'') = ''EUR''" by code_simp
  show ?thesis using big cur by (simp add: numeral_eq_Suc dinner_def put_def entry_def wrap64_def)
qed

end
