(* ===== verification/AuthTable.thy ===== *)
theory AuthTable
  imports Tables GoText Utf8 StateErr
begin

text \<open>
  The tables \<open>users\<close> and \<open>refresh_tokens\<close> of auth-service with the constraints of
  \<open>000001_create_auth_tables.up.sql\<close>, and the statements of \<open>repository/postgres/auth.go\<close>.
  A statement is one step on the database; \<open>now\<close> is the server's \<open>NOW()\<close>. \<open>AuthFailure\<close>
  stands for every error the service does not tell apart: it is answered with status 500.
\<close>

section \<open>Rows and errors\<close>

datatype auth_error =
    AuthNotFound | AuthAlreadyExists
  | ErrEmailAlreadyExists | ErrInvalidCredentials | ErrInvalidRefreshToken | ErrInvalidAccessToken
  | InvalidInputError string
  | AuthFailure string

record user_row =
  ur_id :: uuid
  ur_email :: string
  ur_password_hash :: string
  ur_created_at :: time
  ur_updated_at :: time

record refresh_token =
  rt_id :: uuid
  rt_user :: uuid
  rt_hash :: string
  rt_expires_at :: time
  rt_revoked_at :: "time option"
  rt_created_at :: time

record auth_db =
  ab_users :: "user_row list"
  ab_tokens :: "refresh_token list"

section \<open>Users\<close>

text \<open>The values of an \<open>INSERT\<close> are those of the id, email and hash; the times have defaults.\<close>

definition CreateUser ::
  "time \<Rightarrow> user_row \<Rightarrow> auth_db \<Rightarrow> auth_error + (user_row \<times> auth_db)" where
  "CreateUser now user db =
    (if ur_id user \<in> ur_id ` set (ab_users db) \<or> ur_email user \<in> ur_email ` set (ab_users db)
     then Inl AuthAlreadyExists
     else
      (let row = user\<lparr>ur_created_at := now, ur_updated_at := now\<rparr>
       in Inr (row, db\<lparr>ab_users := ab_users db @ [row]\<rparr>)))"

definition scan_row :: "'r option \<Rightarrow> auth_error + 'r" where
  "scan_row r = (case r of None \<Rightarrow> Inl AuthNotFound | Some x \<Rightarrow> Inr x)"

definition GetUserByEmail :: "string \<Rightarrow> auth_db \<Rightarrow> auth_error + user_row" where
  "GetUserByEmail email db = scan_row (select_row (\<lambda>u. ur_email u = email) (ab_users db))"

definition GetUserByID :: "uuid \<Rightarrow> auth_db \<Rightarrow> auth_error + user_row" where
  "GetUserByID uid db = scan_row (select_row (\<lambda>u. ur_id u = uid) (ab_users db))"

definition GetUsersByIDs :: "uuid list \<Rightarrow> auth_db \<Rightarrow> auth_error + user_row list" where
  "GetUsersByIDs uids db =
    Inr (if uids = [] then [] else filter (\<lambda>u. ur_id u \<in> set uids) (ab_users db))"

section \<open>Refresh tokens\<close>

definition CreateRefreshToken ::
  "time \<Rightarrow> refresh_token \<Rightarrow> auth_db \<Rightarrow> auth_error + (refresh_token \<times> auth_db)" where
  "CreateRefreshToken now token db =
    (if rt_id token \<in> rt_id ` set (ab_tokens db) \<or> rt_hash token \<in> rt_hash ` set (ab_tokens db)
     then Inl (AuthFailure ''unique_violation'')
     else if rt_user token \<notin> ur_id ` set (ab_users db)
     then Inl (AuthFailure ''foreign_key_violation'')
     else
      (let row = token\<lparr>rt_revoked_at := None, rt_created_at := now\<rparr>
       in Inr (row, db\<lparr>ab_tokens := ab_tokens db @ [row]\<rparr>)))"

definition GetRefreshTokenByHash :: "string \<Rightarrow> auth_db \<Rightarrow> auth_error + refresh_token" where
  "GetRefreshTokenByHash h db = scan_row (select_row (\<lambda>t. rt_hash t = h) (ab_tokens db))"

text \<open>
  The rotation is one transaction: the \<open>UPDATE\<close> must hit exactly one live row, then the
  successor is inserted; an error of either rolls both back.
\<close>

definition RotateRefreshToken ::
  "time \<Rightarrow> uuid \<Rightarrow> time \<Rightarrow> refresh_token \<Rightarrow> auth_db \<Rightarrow> auth_error + (refresh_token \<times> auth_db)" where
  "RotateRefreshToken now old revoked_at token db =
    (let live = (\<lambda>t. rt_id t = old \<and> rt_revoked_at t = None);
         affected = length (filter live (ab_tokens db));
         db1 = db\<lparr>ab_tokens := update_where live (rt_revoked_at_update (\<lambda>_. Some revoked_at)) (ab_tokens db)\<rparr>
     in if affected \<noteq> 1 then Inl AuthNotFound else CreateRefreshToken now token db1)"

definition RevokeRefreshTokenByHash :: "string \<Rightarrow> time \<Rightarrow> auth_db \<Rightarrow> auth_db" where
  "RevokeRefreshTokenByHash h revoked_at db =
    db\<lparr>ab_tokens := update_where (\<lambda>t. rt_hash t = h) (rt_revoked_at_update (\<lambda>_. Some revoked_at))
         (ab_tokens db)\<rparr>"

section \<open>The constraints\<close>

text \<open>
  Primary keys, unique email and token hash, and the foreign key of a token. \<open>canonical_email\<close>
  is what the service adds: only normalized, non-empty addresses are stored.
\<close>

definition NormalizeEmail :: "string \<Rightarrow> string" where
  "NormalizeEmail email = to_lower (trim_space email)"

definition canonical_email :: "string \<Rightarrow> bool" where
  "canonical_email e \<longleftrightarrow> e \<noteq> [] \<and> to_lower e = e"

definition auth_ok :: "auth_db \<Rightarrow> bool" where
  "auth_ok db \<longleftrightarrow>
     key_unique ur_id (ab_users db) \<and> key_unique ur_email (ab_users db) \<and>
     key_unique rt_id (ab_tokens db) \<and> key_unique rt_hash (ab_tokens db) \<and>
     (\<forall>t \<in> set (ab_tokens db). rt_user t \<in> ur_id ` set (ab_users db)) \<and>
     (\<forall>u \<in> set (ab_users db). canonical_email (ur_email u))"

lemma auth_okD:
  assumes "auth_ok db"
  shows "key_unique ur_id (ab_users db)" "key_unique ur_email (ab_users db)"
    "key_unique rt_id (ab_tokens db)" "key_unique rt_hash (ab_tokens db)"
    "t \<in> set (ab_tokens db) \<Longrightarrow> rt_user t \<in> ur_id ` set (ab_users db)"
    "u \<in> set (ab_users db) \<Longrightarrow> canonical_email (ur_email u)"
  using assms unfolding auth_ok_def by blast+

named_theorems auth_tables

lemmas auth_statement_defs = CreateUser_def CreateRefreshToken_def Let_def

lemma scan_row_Inr [auth_tables]: "scan_row r = Inr x \<longleftrightarrow> r = Some x"
  by (simp add: scan_row_def split: option.split)

lemma CreateUser_Inr [auth_tables]:
  "CreateUser now user db = Inr (row, db') \<longleftrightarrow>
     ur_id user \<notin> ur_id ` set (ab_users db) \<and> ur_email user \<notin> ur_email ` set (ab_users db) \<and>
     row = user\<lparr>ur_created_at := now, ur_updated_at := now\<rparr> \<and>
     db' = db\<lparr>ab_users := ab_users db @ [row]\<rparr>"
  by (auto simp: auth_statement_defs)

lemma CreateRefreshToken_Inr [auth_tables]:
  "CreateRefreshToken now token db = Inr (row, db') \<longleftrightarrow>
     rt_id token \<notin> rt_id ` set (ab_tokens db) \<and> rt_hash token \<notin> rt_hash ` set (ab_tokens db) \<and>
     rt_user token \<in> ur_id ` set (ab_users db) \<and>
     row = token\<lparr>rt_revoked_at := None, rt_created_at := now\<rparr> \<and>
     db' = db\<lparr>ab_tokens := ab_tokens db @ [row]\<rparr>"
  by (auto simp: auth_statement_defs)

text \<open>The update of revocation times, as a map over the rows: keys and users stay.\<close>

definition revoke_where :: "(refresh_token \<Rightarrow> bool) \<Rightarrow> time \<Rightarrow> auth_db \<Rightarrow> auth_db" where
  "revoke_where P at db =
    db\<lparr>ab_tokens := update_where P (rt_revoked_at_update (\<lambda>_. Some at)) (ab_tokens db)\<rparr>"

lemma revoke_keys [simp]:
  "map rt_id (ab_tokens (revoke_where P at db)) = map rt_id (ab_tokens db)"
  "map rt_hash (ab_tokens (revoke_where P at db)) = map rt_hash (ab_tokens db)"
  "map rt_user (ab_tokens (revoke_where P at db)) = map rt_user (ab_tokens db)"
  "ab_users (revoke_where P at db) = ab_users db"
  by (simp_all add: revoke_where_def map_key_update_where)

lemma revoke_key_sets [simp]:
  "rt_id ` set (ab_tokens (revoke_where P at db)) = rt_id ` set (ab_tokens db)"
  "rt_hash ` set (ab_tokens (revoke_where P at db)) = rt_hash ` set (ab_tokens db)"
  "rt_user ` set (ab_tokens (revoke_where P at db)) = rt_user ` set (ab_tokens db)"
  by (simp_all only: set_map [symmetric] revoke_keys)

lemma auth_ok_revoke:
  assumes ok: "auth_ok db"
  shows "auth_ok (revoke_where P at db)"
proof -
  have "rt_user t \<in> ur_id ` set (ab_users db)" if "t \<in> set (ab_tokens (revoke_where P at db))" for t
  proof -
    have "rt_user t \<in> rt_user ` set (ab_tokens db)" using that revoke_key_sets(3) by blast
    then show ?thesis using auth_okD(5) [OF ok] by auto
  qed
  then show ?thesis using auth_okD [OF ok] unfolding auth_ok_def key_unique_def by simp
qed

lemma auth_ok_create_token:
  "auth_ok db \<Longrightarrow> CreateRefreshToken now token db = Inr (row, db') \<Longrightarrow> auth_ok db'"
  unfolding auth_tables auth_ok_def by auto

lemma auth_ok_create_user:
  "auth_ok db \<Longrightarrow> canonical_email (ur_email user) \<Longrightarrow> CreateUser now user db = Inr (row, db') \<Longrightarrow> auth_ok db'"
  unfolding auth_tables auth_ok_def by auto

lemma live_row_unique:
  assumes "key_unique rt_id rows"
  shows "length (filter (\<lambda>t. rt_id t = old \<and> rt_revoked_at t = None) rows) = 1 \<longleftrightarrow>
    (\<exists>t \<in> set rows. rt_id t = old \<and> rt_revoked_at t = None)"
  using assms
proof (induction rows)
  case (Cons a rows)
  have "\<forall>t \<in> set rows. rt_id t \<noteq> old" if "rt_id a = old"
    using that Cons.prems by (auto simp: key_unique_def dest: sym intro: rev_image_eqI)
  moreover have "key_unique rt_id rows" using Cons.prems by (simp add: key_unique_def)
  ultimately show ?case using Cons.IH by (cases "rt_id a = old") (simp_all add: filter_empty_conv)
qed simp

text \<open>A rotation hits the one live row with the id, or finds none.\<close>

lemma RotateRefreshToken_Inr:
  assumes "auth_ok db"
  shows "RotateRefreshToken now old at token db = Inr (row, db') \<longleftrightarrow>
    (\<exists>t \<in> set (ab_tokens db). rt_id t = old \<and> rt_revoked_at t = None) \<and>
    CreateRefreshToken now token (revoke_where (\<lambda>t. rt_id t = old \<and> rt_revoked_at t = None) at db)
      = Inr (row, db')"
  unfolding RotateRefreshToken_def Let_def revoke_where_def
  using live_row_unique [OF auth_okD(3) [OF assms]] by auto

lemma RotateRefreshToken_dead:
  assumes "auth_ok db" "\<forall>t \<in> set (ab_tokens db). rt_id t = old \<longrightarrow> rt_revoked_at t \<noteq> None"
  shows "RotateRefreshToken now old at token db = Inl AuthNotFound"
  unfolding RotateRefreshToken_def Let_def
  using live_row_unique [OF auth_okD(3) [OF assms(1)], of old] assms(2) by auto

lemma auth_ok_rotate:
  assumes "auth_ok db" "RotateRefreshToken now old at token db = Inr (row, db')"
  shows "auth_ok db'"
proof -
  have "CreateRefreshToken now token
      (revoke_where (\<lambda>t. rt_id t = old \<and> rt_revoked_at t = None) at db) = Inr (row, db')"
    using assms by (simp add: RotateRefreshToken_Inr)
  then show ?thesis using assms(1) by (blast intro: auth_ok_create_token auth_ok_revoke)
qed

lemma RevokeRefreshTokenByHash_revoke:
  "RevokeRefreshTokenByHash h at db = revoke_where (\<lambda>t. rt_hash t = h) at db"
  by (simp add: RevokeRefreshTokenByHash_def revoke_where_def)

end
