(* ===== verification/AuthService.thy ===== *)
theory AuthService
  imports AuthTable
begin

text \<open>
  The use cases of auth-service (\<open>application/service\<close>): registration, login, the rotation of
  refresh tokens, logout, and the lookups. The libraries are fields of \<open>auth_env\<close>: bcrypt, the
  JWT package, the uuid package, SHA-256, the address parser of \<open>net/mail\<close> and the Unicode tables
  for characters beyond ASCII. An \<open>auth_call\<close> holds what a call draws from outside: the readings
  of the clocks, new identifiers, the salt and the random bytes. \<open>Refresh\<close> is the composition of
  its reads (\<open>RefreshRead\<close>) and its transaction (\<open>RefreshRotate\<close>), between which other requests
  may run.
\<close>

section \<open>Libraries and calls\<close>

record access_claims =
  cl_email :: string
  cl_subject :: string
  cl_issued_at :: "time option"
  cl_expires_at :: "time option"

record auth_env =
  ae_parse_address :: "string \<Rightarrow> string option"
  ae_upper :: "string \<Rightarrow> bool"
  ae_lower :: "string \<Rightarrow> bool"
  ae_digit :: "string \<Rightarrow> bool"
  ae_bcrypt :: "string \<Rightarrow> string \<Rightarrow> string option"
  ae_bcrypt_compare :: "string \<Rightarrow> string \<Rightarrow> bool"
  ae_sha256_hex :: "string \<Rightarrow> string"
  ae_numeric_date :: "time \<Rightarrow> time"
  ae_signed_string :: "string \<Rightarrow> string \<Rightarrow> access_claims \<Rightarrow> string option"
  ae_parse_claims :: "(string \<Rightarrow> string option) \<Rightarrow> time \<Rightarrow> string \<Rightarrow> access_claims option"
  ae_uuid_string :: "uuid \<Rightarrow> string"
  ae_uuid_parse :: "string \<Rightarrow> uuid option"
  ae_access_secret :: string
  ae_access_ttl :: duration
  ae_refresh_ttl :: duration

record auth_call =
  ac_now :: time
  ac_issue_now :: time
  ac_token_now :: time
  ac_db_now :: time
  ac_user_id :: uuid
  ac_token_id :: uuid
  ac_salt :: string
  ac_random :: "string option"

section \<open>Passwords\<close>

text \<open>A single byte beyond ASCII is an invalid character, of no class.\<close>

definition is_upper_rune :: "auth_env \<Rightarrow> string \<Rightarrow> bool" where
  "is_upper_rune env r = (if length r = 1 then list_all (in_bytes 0x41 0x5A) r else ae_upper env r)"

definition is_lower_rune :: "auth_env \<Rightarrow> string \<Rightarrow> bool" where
  "is_lower_rune env r = (if length r = 1 then list_all (in_bytes 0x61 0x7A) r else ae_lower env r)"

definition is_digit_rune :: "auth_env \<Rightarrow> string \<Rightarrow> bool" where
  "is_digit_rune env r = (if length r = 1 then list_all (in_bytes 0x30 0x39) r else ae_digit env r)"

fun passwordClasses ::
  "auth_env \<Rightarrow> string list \<Rightarrow> bool \<times> bool \<times> bool \<Rightarrow> bool \<times> bool \<times> bool" where
  "passwordClasses env [] flags = flags"
| "passwordClasses env (r # rs) (up, low, dig) =
    passwordClasses env rs
      (if is_upper_rune env r then (True, low, dig)
       else if is_lower_rune env r then (up, True, dig)
       else if is_digit_rune env r then (up, low, True)
       else (up, low, dig))"

definition ValidatePasswordStrength :: "auth_env \<Rightarrow> string \<Rightarrow> auth_error + unit" where
  "ValidatePasswordStrength env password =
    (if trim_space password = [] then Inl (InvalidInputError ''password is required'')
     else if length password < 8 then
       Inl (InvalidInputError ''password must be at least 8 characters'')
     else
      (case passwordClasses env (runes password) (False, False, False) of
         (hasUpper, hasLower, hasDigit) \<Rightarrow>
           if \<not> hasUpper \<or> \<not> hasLower \<or> \<not> hasDigit then
             Inl (InvalidInputError ''password must contain at least one uppercase letter, one lowercase letter, and one digit'')
           else Inr ()))"

definition HashPassword :: "auth_env \<Rightarrow> string \<Rightarrow> string \<Rightarrow> auth_error + string" where
  "HashPassword env salt password =
    (case ae_bcrypt env salt password of
       None \<Rightarrow> Inl (AuthFailure ''hash password'')
     | Some h \<Rightarrow> Inr h)"

definition VerifyPassword :: "auth_env \<Rightarrow> string \<Rightarrow> string \<Rightarrow> bool" where
  "VerifyPassword env password password_hash = ae_bcrypt_compare env password_hash password"

definition normalizeAndValidateEmail :: "auth_env \<Rightarrow> string \<Rightarrow> auth_error + string" where
  "normalizeAndValidateEmail env email =
    (let normalized = NormalizeEmail email
     in if normalized = [] then Inl (InvalidInputError ''email is required'')
        else if ae_parse_address env normalized \<noteq> Some normalized then
          Inl (InvalidInputError ''email must be a valid email address'')
        else Inr normalized)"

section \<open>Tokens\<close>

definition HS256 :: string where "HS256 = ''HS256''"

definition GenerateAccessToken :: "auth_env \<Rightarrow> time \<Rightarrow> user_row \<Rightarrow> auth_error + string" where
  "GenerateAccessToken env now user =
    (let claims = \<lparr>cl_email = ur_email user, cl_subject = ae_uuid_string env (ur_id user),
           cl_issued_at = Some (ae_numeric_date env now),
           cl_expires_at = Some (ae_numeric_date env (now + ae_access_ttl env))\<rparr>
     in (case ae_signed_string env HS256 (ae_access_secret env) claims of
           None \<Rightarrow> Inl (AuthFailure ''sign access token'')
         | Some tok \<Rightarrow> Inr tok))"

definition accessKey :: "auth_env \<Rightarrow> string \<Rightarrow> string option" where
  "accessKey env alg = (if alg \<noteq> HS256 then None else Some (ae_access_secret env))"

definition ValidateAccessToken :: "auth_env \<Rightarrow> time \<Rightarrow> string \<Rightarrow> auth_error + access_claims" where
  "ValidateAccessToken env now raw =
    (case ae_parse_claims env (accessKey env) now raw of
       None \<Rightarrow> Inl ErrInvalidAccessToken
     | Some claims \<Rightarrow>
        (if cl_subject claims = [] \<or> cl_email claims = [] then Inl ErrInvalidAccessToken
         else Inr claims))"

text \<open>\<open>base64.RawURLEncoding\<close>: six bits per character, no padding.\<close>

definition url_digit :: "nat \<Rightarrow> char" where
  "url_digit n =
    (if n < 26 then char_of (65 + n) else if n < 52 then char_of (71 + n)
     else if n < 62 then char_of (n - 4) else if n = 62 then CHR ''-'' else CHR ''_'')"

fun url_encode :: "nat list \<Rightarrow> string" where
  "url_encode [] = []"
| "url_encode [a] = [url_digit (a div 4), url_digit (a mod 4 * 16)]"
| "url_encode [a, b] =
    [url_digit (a div 4), url_digit (a mod 4 * 16 + b div 16), url_digit (b mod 16 * 4)]"
| "url_encode (a # b # c # r) =
    url_digit (a div 4) # url_digit (a mod 4 * 16 + b div 16) #
    url_digit (b mod 16 * 4 + c div 64) # url_digit (c mod 64) # url_encode r"

definition refreshTokenBytes :: nat where "refreshTokenBytes = 32"

text \<open>\<open>rand.Read\<close> fills the whole array or fails.\<close>

definition GenerateRefreshToken :: "string option \<Rightarrow> auth_error + string" where
  "GenerateRefreshToken random =
    (case random of
       None \<Rightarrow> Inl (AuthFailure ''generate refresh token'')
     | Some bytes \<Rightarrow> Inr (url_encode (map of_char (take refreshTokenBytes bytes))))"

definition HashRefreshToken :: "auth_env \<Rightarrow> string \<Rightarrow> string" where
  "HashRefreshToken env raw = ae_sha256_hex env raw"

definition newRefreshTokenParams ::
  "auth_env \<Rightarrow> auth_call \<Rightarrow> uuid \<Rightarrow> auth_error + (string \<times> refresh_token)" where
  "newRefreshTokenParams env cx uid =
    rbind (GenerateRefreshToken (ac_random cx)) (\<lambda>raw.
    Inr (raw, \<lparr>rt_id = ac_token_id cx, rt_user = uid, rt_hash = HashRefreshToken env raw,
      rt_expires_at = ac_issue_now cx + ae_refresh_ttl env, rt_revoked_at = None, rt_created_at = 0\<rparr>))"

section \<open>Use cases\<close>

record auth_result =
  rs_user :: user_row
  rs_access :: string
  rs_refresh :: string

definition issueAuthResponse ::
  "auth_env \<Rightarrow> auth_call \<Rightarrow> user_row \<Rightarrow> (auth_db, auth_error, auth_result) op" where
  "issueAuthResponse env cx user =
    sbind (spure (GenerateAccessToken env (ac_token_now cx) user)) (\<lambda>access.
    sbind (spure (newRefreshTokenParams env cx (ur_id user))) (\<lambda>(raw, params).
    sbind (sstmt (CreateRefreshToken (ac_db_now cx) params)) (\<lambda>_.
    sret \<lparr>rs_user = user, rs_access = access, rs_refresh = raw\<rparr>)))"

definition on_error :: "auth_error \<Rightarrow> auth_error \<Rightarrow> auth_error \<Rightarrow> auth_error" where
  "on_error e e' err = (if err = e then e' else err)"

definition Register ::
  "auth_env \<Rightarrow> auth_call \<Rightarrow> string \<Rightarrow> string \<Rightarrow> (auth_db, auth_error, auth_result) op" where
  "Register env cx raw_email password =
    sbind (spure (normalizeAndValidateEmail env raw_email)) (\<lambda>email.
    sbind (spure (ValidatePasswordStrength env password)) (\<lambda>_.
    sbind (spure (HashPassword env (ac_salt cx) password)) (\<lambda>password_hash.
    sbind (serr (on_error AuthAlreadyExists ErrEmailAlreadyExists)
      (sstmt (CreateUser (ac_db_now cx)
        \<lparr>ur_id = ac_user_id cx, ur_email = email, ur_password_hash = password_hash,
         ur_created_at = 0, ur_updated_at = 0\<rparr>))) (\<lambda>user.
    issueAuthResponse env cx user))))"

definition Login ::
  "auth_env \<Rightarrow> auth_call \<Rightarrow> string \<Rightarrow> string \<Rightarrow> (auth_db, auth_error, auth_result) op" where
  "Login env cx raw_email password =
    sbind (spure (normalizeAndValidateEmail env raw_email)) (\<lambda>email.
    sbind (scheck (trim_space password \<noteq> []) (InvalidInputError ''password is required'')) (\<lambda>_.
    sbind (serr (on_error AuthNotFound ErrInvalidCredentials) (sread (GetUserByEmail email))) (\<lambda>user.
    sbind (scheck (VerifyPassword env password (ur_password_hash user)) ErrInvalidCredentials) (\<lambda>_.
    issueAuthResponse env cx user))))"

definition RefreshRead ::
  "auth_env \<Rightarrow> auth_call \<Rightarrow> string \<Rightarrow> (auth_db, auth_error, refresh_token \<times> user_row) op" where
  "RefreshRead env cx refresh =
    (let raw = trim_space refresh in
     sbind (scheck (raw \<noteq> []) (InvalidInputError ''refreshToken is required'')) (\<lambda>_.
     sbind (serr (on_error AuthNotFound ErrInvalidRefreshToken)
       (sread (GetRefreshTokenByHash (HashRefreshToken env raw)))) (\<lambda>stored.
     sbind (scheck (rt_revoked_at stored = None \<and> rt_expires_at stored > ac_now cx)
       ErrInvalidRefreshToken) (\<lambda>_.
     sbind (serr (on_error AuthNotFound ErrInvalidRefreshToken)
       (sread (GetUserByID (rt_user stored)))) (\<lambda>user.
     sret (stored, user))))))"

definition RefreshRotate ::
  "auth_env \<Rightarrow> auth_call \<Rightarrow> refresh_token \<Rightarrow> user_row \<Rightarrow> (auth_db, auth_error, string \<times> string) op" where
  "RefreshRotate env cx stored user =
    sbind (spure (newRefreshTokenParams env cx (ur_id user))) (\<lambda>(raw, params).
    sbind (serr (on_error AuthNotFound ErrInvalidRefreshToken)
      (sstmt (RotateRefreshToken (ac_db_now cx) (rt_id stored) (ac_now cx) params))) (\<lambda>_.
    sbind (spure (GenerateAccessToken env (ac_token_now cx) user)) (\<lambda>access.
    sret (access, raw))))"

definition RefreshTokens ::
  "auth_env \<Rightarrow> auth_call \<Rightarrow> string \<Rightarrow> (auth_db, auth_error, string \<times> string) op" where
  "RefreshTokens env cx refresh =
    sbind (RefreshRead env cx refresh) (\<lambda>(stored, user). RefreshRotate env cx stored user)"

definition Logout :: "auth_env \<Rightarrow> auth_call \<Rightarrow> string \<Rightarrow> (auth_db, auth_error, unit) op" where
  "Logout env cx refresh =
    (let raw = trim_space refresh in
     sbind (scheck (raw \<noteq> []) (InvalidInputError ''refreshToken is required'')) (\<lambda>_.
     sdo (RevokeRefreshTokenByHash (HashRefreshToken env raw) (ac_now cx))))"

definition CurrentUser :: "auth_env \<Rightarrow> time \<Rightarrow> string \<Rightarrow> auth_db \<Rightarrow> auth_error + user_row" where
  "CurrentUser env now access db =
    (let raw = trim_space access
     in if raw = [] then Inl ErrInvalidAccessToken
        else (case ValidateAccessToken env now raw of
            Inl _ \<Rightarrow> Inl ErrInvalidAccessToken
          | Inr claims \<Rightarrow>
             (case ae_uuid_parse env (cl_subject claims) of
                None \<Rightarrow> Inl ErrInvalidAccessToken
              | Some uid \<Rightarrow>
                 map_err (on_error AuthNotFound ErrInvalidAccessToken) (GetUserByID uid db))))"

definition UserByEmail :: "auth_env \<Rightarrow> string \<Rightarrow> auth_db \<Rightarrow> auth_error + user_row" where
  "UserByEmail env email db =
    rbind (normalizeAndValidateEmail env email) (\<lambda>normalized. GetUserByEmail normalized db)"

fun uniqueUserIDs :: "uuid list \<Rightarrow> uuid set \<Rightarrow> uuid list" where
  "uniqueUserIDs [] seen = []"
| "uniqueUserIDs (u # us) seen =
    (if u = 0 then uniqueUserIDs us seen
     else if u \<in> seen then uniqueUserIDs us seen
     else u # uniqueUserIDs us (insert u seen))"

definition UsersByIDs :: "uuid list \<Rightarrow> auth_db \<Rightarrow> auth_error + user_row list" where
  "UsersByIDs uids db =
    (let unique = uniqueUserIDs uids {}
     in if unique = [] then Inr [] else GetUsersByIDs unique db)"

end
