(* ===== verification/AuthHandlers.thy ===== *)
theory AuthHandlers
  imports AuthService
begin

text \<open>
  The HTTP side of auth-service: the per-client rate limiter (\<open>handler/rate_limit.go\<close>), the
  handlers (\<open>handler/auth.go\<close>) with their statuses, and the middleware that guards the internal
  routes (\<open>middleware/internal_token.go\<close>). A body is what \<open>encoding/json\<close> decodes it to,
  \<open>None\<close> when it refuses; metrics and logs are left out. A limiter holds its mutex during
  \<open>allow\<close>, so an execution is a sequence of calls.
\<close>

section \<open>The rate limiter\<close>

record auth_rate_bucket =
  bk_start :: time
  bk_count :: int

record auth_rate_limiter =
  rl_limit :: int
  rl_buckets :: "string \<Rightarrow> auth_rate_bucket option"

definition newAuthRateLimiter :: "int \<Rightarrow> auth_rate_limiter" where
  "newAuthRateLimiter limit =
    \<lparr>rl_limit = (if limit \<le> 0 then 1 else limit), rl_buckets = (\<lambda>_. None)\<rparr>"

text \<open>A missing bucket reads as the zero value.\<close>

definition bucket_of :: "auth_rate_limiter \<Rightarrow> string \<Rightarrow> auth_rate_bucket" where
  "bucket_of l client =
    (case rl_buckets l client of None \<Rightarrow> \<lparr>bk_start = 0, bk_count = 0\<rparr> | Some b \<Rightarrow> b)"

definition allow :: "time \<Rightarrow> string \<Rightarrow> auth_rate_limiter \<Rightarrow> bool \<times> auth_rate_limiter" where
  "allow now client l =
    (let bucket = bucket_of l client
     in if bk_start bucket = 0 \<or> now - bk_start bucket \<ge> minute then
          (True, l\<lparr>rl_buckets := (rl_buckets l)(client \<mapsto> \<lparr>bk_start = now, bk_count = 1\<rparr>)\<rparr>)
        else if bk_count bucket \<ge> rl_limit l then (False, l)
        else
          (True, l\<lparr>rl_buckets := (rl_buckets l)
             (client \<mapsto> bucket\<lparr>bk_count := bk_count bucket + 1\<rparr>)\<rparr>))"

text \<open>\<open>net.SplitHostPort\<close>: the host and port, or an error.\<close>

fun index_byte :: "char \<Rightarrow> string \<Rightarrow> nat option" where
  "index_byte c [] = None"
| "index_byte c (a # s) = (if a = c then Some 0 else map_option Suc (index_byte c s))"

fun last_index_byte :: "char \<Rightarrow> string \<Rightarrow> nat option" where
  "last_index_byte c [] = None"
| "last_index_byte c (a # s) =
    (case last_index_byte c s of Some i \<Rightarrow> Some (Suc i) | None \<Rightarrow> (if a = c then Some 0 else None))"

definition split_host_port :: "string \<Rightarrow> (string \<times> string) option" where
  "split_host_port s =
    (case last_index_byte CHR '':'' s of
       None \<Rightarrow> None
     | Some i \<Rightarrow>
        (if hd s = CHR ''['' then
          (case index_byte CHR '']'' s of
             None \<Rightarrow> None
           | Some close \<Rightarrow>
              (if close + 1 \<noteq> i then None
               else if CHR ''['' \<in> set (drop 1 s) \<or> CHR '']'' \<in> set (drop (close + 1) s) then None
               else Some (take (close - 1) (drop 1 s), drop (i + 1) s)))
         else if CHR '':'' \<in> set (take i s) then None
         else if CHR ''['' \<in> set s \<or> CHR '']'' \<in> set s then None
         else Some (take i s, drop (i + 1) s)))"

text \<open>The peer address the request came with, and the one saved before \<open>RealIP\<close>.\<close>

definition clientRateKey :: "string \<Rightarrow> string option \<Rightarrow> string" where
  "clientRateKey request_addr original =
    (let addr = (case original of Some a \<Rightarrow> if a \<noteq> [] then a else request_addr | None \<Rightarrow> request_addr)
     in case split_host_port (trim_space addr) of
          Some (host, _) \<Rightarrow>
            (if host \<noteq> [] then host
             else if trim_space addr \<noteq> [] then trim_space addr else ''unknown'')
        | None \<Rightarrow> (if trim_space addr \<noteq> [] then trim_space addr else ''unknown''))"

section \<open>Answers\<close>

record user_payload =
  up_id :: string
  up_email :: string
  up_created_at :: time

record user_lookup =
  ul_user_id :: string
  ul_email :: string
  ul_display_name :: string

datatype auth_body =
    AuthBody user_payload string string
  | TokenBody string string
  | LogoutBody bool
  | UserBody user_payload
  | LookupBody user_lookup
  | BatchBody "user_lookup list"
  | ErrorBody string
  | RateLimitedBody string string

type_synonym auth_response = "nat \<times> auth_body"

definition NewUser :: "auth_env \<Rightarrow> user_row \<Rightarrow> user_payload" where
  "NewUser env u = \<lparr>up_id = ae_uuid_string env (ur_id u), up_email = ur_email u, up_created_at = ur_created_at u\<rparr>"

definition NewInternalUserLookup :: "auth_env \<Rightarrow> user_row \<Rightarrow> user_lookup" where
  "NewInternalUserLookup env u =
    \<lparr>ul_user_id = ae_uuid_string env (ur_id u), ul_email = ur_email u, ul_display_name = []\<rparr>"

definition NewAuth :: "auth_env \<Rightarrow> auth_result \<Rightarrow> auth_body" where
  "NewAuth env r = AuthBody (NewUser env (rs_user r)) (rs_access r) (rs_refresh r)"

fun authServiceError :: "auth_error \<Rightarrow> auth_response" where
  "authServiceError (InvalidInputError m) = (400, ErrorBody m)"
| "authServiceError ErrEmailAlreadyExists = (409, ErrorBody ''email already exists'')"
| "authServiceError ErrInvalidCredentials = (401, ErrorBody ''invalid credentials'')"
| "authServiceError ErrInvalidAccessToken = (401, ErrorBody ''invalid token'')"
| "authServiceError ErrInvalidRefreshToken = (401, ErrorBody ''invalid token'')"
| "authServiceError AuthNotFound = (404, ErrorBody ''registered user not found'')"
| "authServiceError _ = (500, ErrorBody ''internal server error'')"

definition respond :: "nat \<Rightarrow> ('a \<Rightarrow> auth_body) \<Rightarrow> auth_error + 'a \<Rightarrow> auth_response" where
  "respond status body r =
    (case r of Inl e \<Rightarrow> authServiceError e | Inr x \<Rightarrow> (status, body x))"

definition tooManyAttempts :: auth_response where
  "tooManyAttempts = (429, RateLimitedBody ''rate_limited'' ''Too many attempts. Please try again later.'')"

definition invalidBody :: auth_response where
  "invalidBody = (400, ErrorBody ''invalid request body'')"

text \<open>
  \<open>bearerToken\<close>: the scheme is compared without case, and the token must not be empty.
\<close>

definition bearerToken :: "string \<Rightarrow> string option" where
  "bearerToken header =
    (let v = trim_space header; n = length ''bearer ''
     in if length v \<le> n \<or> to_lower (take n v) \<noteq> ''bearer '' then None
        else (let tok = trim_space (drop n v) in if tok = [] then None else Some tok))"

section \<open>Handlers\<close>

record auth_http =
  ah_db :: auth_db
  ah_login :: auth_rate_limiter
  ah_register :: auth_rate_limiter
  ah_refresh :: auth_rate_limiter

record auth_request =
  aw_now :: time
  aw_remote :: string
  aw_original :: "string option"

definition NewHandler :: "auth_db \<Rightarrow> auth_http" where
  "NewHandler db = \<lparr>ah_db = db, ah_login = newAuthRateLimiter 10,
     ah_register = newAuthRateLimiter 10, ah_refresh = newAuthRateLimiter 30\<rparr>"

definition EnableRateLimits :: "int \<Rightarrow> int \<Rightarrow> int \<Rightarrow> auth_http \<Rightarrow> auth_http" where
  "EnableRateLimits login register refresh h =
    h\<lparr>ah_login := newAuthRateLimiter login, ah_register := newAuthRateLimiter register,
      ah_refresh := newAuthRateLimiter refresh\<rparr>"

definition allowSensitive :: "auth_request \<Rightarrow> auth_rate_limiter \<Rightarrow> bool \<times> auth_rate_limiter" where
  "allowSensitive rq l = allow (aw_now rq) (clientRateKey (aw_remote rq) (aw_original rq)) l"

text \<open>Running a use case on the database of the handler.\<close>

definition on_db ::
  "nat \<Rightarrow> ('a \<Rightarrow> auth_body) \<Rightarrow> (auth_db, auth_error, 'a) op \<Rightarrow> auth_http \<Rightarrow> auth_response \<times> auth_http" where
  "on_db status body m h =
    (case m (ah_db h) of (r, db) \<Rightarrow> (respond status body r, h\<lparr>ah_db := db\<rparr>))"

definition HandleRegister ::
  "auth_env \<Rightarrow> auth_call \<Rightarrow> auth_request \<Rightarrow> (string \<times> string) option \<Rightarrow> auth_http \<Rightarrow>
   auth_response \<times> auth_http" where
  "HandleRegister env cx rq body h =
    (case allowSensitive rq (ah_register h) of (ok, l) \<Rightarrow>
      (let h' = h\<lparr>ah_register := l\<rparr>
       in if \<not> ok then (tooManyAttempts, h')
          else (case body of
              None \<Rightarrow> (invalidBody, h')
            | Some (email, password) \<Rightarrow> on_db 201 (NewAuth env) (Register env cx email password) h')))"

definition HandleLogin ::
  "auth_env \<Rightarrow> auth_call \<Rightarrow> auth_request \<Rightarrow> (string \<times> string) option \<Rightarrow> auth_http \<Rightarrow>
   auth_response \<times> auth_http" where
  "HandleLogin env cx rq body h =
    (case allowSensitive rq (ah_login h) of (ok, l) \<Rightarrow>
      (let h' = h\<lparr>ah_login := l\<rparr>
       in if \<not> ok then (tooManyAttempts, h')
          else (case body of
              None \<Rightarrow> (invalidBody, h')
            | Some (email, password) \<Rightarrow> on_db 200 (NewAuth env) (Login env cx email password) h')))"

definition HandleRefresh ::
  "auth_env \<Rightarrow> auth_call \<Rightarrow> auth_request \<Rightarrow> string option \<Rightarrow> auth_http \<Rightarrow>
   auth_response \<times> auth_http" where
  "HandleRefresh env cx rq body h =
    (case allowSensitive rq (ah_refresh h) of (ok, l) \<Rightarrow>
      (let h' = h\<lparr>ah_refresh := l\<rparr>
       in if \<not> ok then (tooManyAttempts, h')
          else (case body of
              None \<Rightarrow> (invalidBody, h')
            | Some refresh \<Rightarrow>
               on_db 200 (\<lambda>(access, raw). TokenBody access raw) (RefreshTokens env cx refresh) h')))"

definition HandleLogout ::
  "auth_env \<Rightarrow> auth_call \<Rightarrow> string option \<Rightarrow> auth_http \<Rightarrow> auth_response \<times> auth_http" where
  "HandleLogout env cx body h =
    (case body of
       None \<Rightarrow> (invalidBody, h)
     | Some refresh \<Rightarrow> on_db 200 (\<lambda>_. LogoutBody True) (Logout env cx refresh) h)"

definition HandleMe :: "auth_env \<Rightarrow> time \<Rightarrow> string \<Rightarrow> auth_db \<Rightarrow> auth_response" where
  "HandleMe env now header db =
    (case bearerToken header of
       None \<Rightarrow> (401, ErrorBody ''invalid token'')
     | Some tok \<Rightarrow> respond 200 (\<lambda>u. UserBody (NewUser env u)) (CurrentUser env now tok db))"

definition InternalUserByEmail :: "auth_env \<Rightarrow> string \<Rightarrow> auth_db \<Rightarrow> auth_response" where
  "InternalUserByEmail env email db =
    respond 200 (\<lambda>u. LookupBody (NewInternalUserLookup env u))
      (UserByEmail env (trim_space email) db)"

definition maxInternalUserBatch :: nat where "maxInternalUserBatch = 200"

fun parseUserIDs :: "auth_env \<Rightarrow> string list \<Rightarrow> uuid list option" where
  "parseUserIDs env [] = Some []"
| "parseUserIDs env (raw # rest) =
    (case ae_uuid_parse env (trim_space raw) of
       None \<Rightarrow> None
     | Some u \<Rightarrow> map_option (\<lambda>us. u # us) (parseUserIDs env rest))"

definition InternalUsersBatch :: "auth_env \<Rightarrow> string list option \<Rightarrow> auth_db \<Rightarrow> auth_response" where
  "InternalUsersBatch env body db =
    (case body of
       None \<Rightarrow> invalidBody
     | Some user_ids \<Rightarrow>
        (if user_ids = [] then (400, ErrorBody ''userIds is required'')
         else if length user_ids > maxInternalUserBatch then
           (400, ErrorBody ''userIds exceeds maximum batch size'')
         else (case parseUserIDs env user_ids of
             None \<Rightarrow> (400, ErrorBody ''userIds must be valid uuids'')
           | Some ids \<Rightarrow>
              respond 200 (\<lambda>users. BatchBody (map (NewInternalUserLookup env) users)) (UsersByIDs ids db))))"

section \<open>The internal routes\<close>

fun split_at :: "char \<Rightarrow> string \<Rightarrow> string list" where
  "split_at c [] = [[]]"
| "split_at c (a # s) =
    (if a = c then [] # split_at c s
     else (case split_at c s of [] \<Rightarrow> [[a]] | w # ws \<Rightarrow> (a # w) # ws))"

definition activeTokens :: "string \<Rightarrow> string list" where
  "activeTokens v = filter (\<lambda>t. t \<noteq> []) (map trim_space (split_at CHR '','' v))"

definition ActiveServiceTokens :: "string \<Rightarrow> string \<Rightarrow> string" where
  "ActiveServiceTokens service_token service_tokens =
    (let tokens = trim_space service_tokens in if tokens \<noteq> [] then tokens else service_token)"

definition constant_time_compare :: "string \<Rightarrow> string \<Rightarrow> int" where
  "constant_time_compare a b = (if a = b then 1 else 0)"

definition matchesAnyToken :: "string \<Rightarrow> string list \<Rightarrow> bool" where
  "matchesAnyToken provided expected =
    (if provided = [] \<or> expected = [] then False
     else fold (\<lambda>t matched. or matched (constant_time_compare provided t)) expected 0 = 1)"

text \<open>The answer 401 in front of the guarded handler, or what the handler answers.\<close>

definition InternalServiceToken ::
  "string \<Rightarrow> string \<Rightarrow> ('s \<Rightarrow> 'r \<times> 's) \<Rightarrow> 's \<Rightarrow> ((nat \<times> string) + 'r) \<times> 's" where
  "InternalServiceToken expected_token header next_handler s =
    (if \<not> matchesAnyToken (trim_space header) (activeTokens expected_token)
     then (Inl (401, ''unauthorized''), s)
     else (case next_handler s of (r, s') \<Rightarrow> (Inr r, s')))"

end
