(* ===== verification/AuthLimiter.thy ===== *)
theory AuthLimiter
  imports AuthHandlers
begin

text \<open>
  What the rate limiter of auth-service guarantees over a run of calls: the fixed window of a
  minute lets a client through at most \<open>2 * limit - 1\<close> times in any minute, and refuses it only when
  \<open>limit\<close> of its own calls went through in the last minute.
\<close>

text \<open>The calls that were let through, latest first, and the limiter after a run.\<close>

fun run_limiter ::
  "(time \<times> string) list \<Rightarrow> auth_rate_limiter \<Rightarrow> (time \<times> string) list \<Rightarrow> (time \<times> string) list \<times> auth_rate_limiter" where
  "run_limiter [] l past = (past, l)"
| "run_limiter ((now, client) # calls) l past =
    (case allow now client l of (ok, l') \<Rightarrow> run_limiter calls l' (if ok then (now, client) # past else past))"

definition accepted :: "(time \<times> string) list \<Rightarrow> auth_rate_limiter \<Rightarrow> (time \<times> string) list" where
  "accepted calls l = fst (run_limiter calls l [])"

definition limiter_after :: "(time \<times> string) list \<Rightarrow> auth_rate_limiter \<Rightarrow> auth_rate_limiter" where
  "limiter_after calls l = snd (run_limiter calls l [])"

text \<open>How many times of a list are of a kind.\<close>

definition count_of :: "('a \<Rightarrow> bool) \<Rightarrow> 'a list \<Rightarrow> int" where
  "count_of P xs = int (length (filter P xs))"

lemma count_of_simps [simp]:
  "count_of P [] = 0" "count_of P (x # xs) = (if P x then 1 else 0) + count_of P xs"
  by (simp_all add: count_of_def)

lemma count_of_nonneg [simp]: "0 \<le> count_of P xs"
  by (simp add: count_of_def)

lemma count_of_mono: "(\<And>x. x \<in> set xs \<Longrightarrow> P x \<Longrightarrow> Q x) \<Longrightarrow> count_of P xs \<le> count_of Q xs"
  by (induction xs) auto

lemma count_of_split:
  "(\<And>x. x \<in> set xs \<Longrightarrow> P x \<Longrightarrow> Q x \<or> R x) \<Longrightarrow> count_of P xs \<le> count_of Q xs + count_of R xs"
  by (induction xs) auto

lemma count_of_none: "(\<And>x. x \<in> set xs \<Longrightarrow> \<not> P x) \<Longrightarrow> count_of P xs = 0"
  by (induction xs) auto

section \<open>One client\<close>

text \<open>
  The times \<open>ts\<close> at which a client was let through, and its bucket: the bucket counts the times of
  its window, the window before holds fewer than \<open>limit\<close> times that a minute after them can reach.
\<close>

definition window_ok :: "int \<Rightarrow> time list \<Rightarrow> auth_rate_bucket option \<Rightarrow> bool" where
  "window_ok limit ts b =
    (case b of
       None \<Rightarrow> ts = []
     | Some b \<Rightarrow>
        (let s = bk_start b; c = bk_count b in
         s \<noteq> 0 \<and> 1 \<le> c \<and> c \<le> limit \<and> count_of (\<lambda>u. s \<le> u) ts = c \<and> count_of (\<lambda>u. s < u) ts \<le> c - 1 \<and>
         count_of (\<lambda>u. s - minute < u \<and> u < s) ts \<le> limit - 1 \<and> (\<forall>u \<in> set ts. u < s + minute) \<and>
         (\<forall>a. count_of (\<lambda>u. a \<le> u \<and> u < a + minute) ts \<le> 2 * limit - 1)))"

lemma window_okD:
  assumes "window_ok limit ts (Some b)"
  shows "bk_start b \<noteq> 0" "1 \<le> bk_count b" "bk_count b \<le> limit" "count_of (\<lambda>u. bk_start b \<le> u) ts = bk_count b"
    "count_of (\<lambda>u. bk_start b < u) ts \<le> bk_count b - 1"
    "count_of (\<lambda>u. bk_start b - minute < u \<and> u < bk_start b) ts \<le> limit - 1"
    "u \<in> set ts \<Longrightarrow> u < bk_start b + minute"
    "count_of (\<lambda>u. a \<le> u \<and> u < a + minute) ts \<le> 2 * limit - 1"
  using assms by (simp_all add: window_ok_def Let_def)

lemma window_opens:
  assumes "window_ok limit ts b" "1 \<le> limit" "now \<noteq> 0"
    "\<And>bk. b = Some bk \<Longrightarrow> now - bk_start bk \<ge> minute"
  shows "window_ok limit (now # ts) (Some \<lparr>bk_start = now, bk_count = 1\<rparr>)"
proof (cases b)
  case None
  then have "ts = []" using assms(1) by (simp add: window_ok_def)
  then show ?thesis using assms(2,3) by (auto simp: window_ok_def)
next
  case (Some bk)
  note w = window_okD [OF assms(1) [unfolded Some]]
  have far: "bk_start bk + minute \<le> now" using assms(4) [OF Some] by simp
  have old: "u < now" if "u \<in> set ts" for u using w(7) [OF that] far by simp
  have "count_of (\<lambda>u. now - minute < u \<and> u < now) ts \<le> count_of (\<lambda>u. bk_start bk < u) ts"
    using far by (intro count_of_mono) auto
  then have before: "count_of (\<lambda>u. now - minute < u \<and> u < now) ts \<le> limit - 1" using w(3,5) by linarith
  have none: "count_of (\<lambda>u. now \<le> u) ts = 0" "count_of (\<lambda>u. now < u) ts = 0"
    by (rule count_of_none, force dest: old)+
  have all: "count_of (\<lambda>u. a \<le> u \<and> u < a + minute) (now # ts) \<le> 2 * limit - 1" for a
  proof (cases "a \<le> now \<and> now < a + minute")
    case True
    have "count_of (\<lambda>u. a \<le> u \<and> u < a + minute) ts \<le> count_of (\<lambda>u. now - minute < u \<and> u < now) ts"
      using True old by (intro count_of_mono) auto
    then show ?thesis using True before assms(2) by simp
  next
    case False
    then show ?thesis using w(8) [of a] by auto
  qed
  have "u < now + minute" if "u \<in> set ts" for u using old [OF that] minute_pos by linarith
  then have "\<forall>u \<in> set (now # ts). u < now + minute" by simp
  then show ?thesis using none before all assms(2,3) by (simp add: window_ok_def Let_def)
qed

lemma window_counts:
  assumes "window_ok limit ts (Some bk)" "now - bk_start bk < minute" "bk_start bk \<le> now" "bk_count bk < limit"
  shows "window_ok limit (now # ts) (Some (bk\<lparr>bk_count := bk_count bk + 1\<rparr>))"
proof -
  note w = window_okD [OF assms(1)]
  have all: "count_of (\<lambda>u. a \<le> u \<and> u < a + minute) (now # ts) \<le> 2 * limit - 1" for a
  proof (cases "a \<le> now \<and> now < a + minute")
    case True
    have "count_of (\<lambda>u. a \<le> u \<and> u < a + minute) ts \<le>
        count_of (\<lambda>u. bk_start bk - minute < u \<and> u < bk_start bk) ts + count_of (\<lambda>u. bk_start bk \<le> u) ts"
      using True assms(3) by (intro count_of_split) auto
    then show ?thesis using True w(4,6) assms(4) by simp
  next
    case False
    then show ?thesis using w(8) [of a] by auto
  qed
  have "\<forall>u \<in> set (now # ts). u < bk_start bk + minute" using w(7) assms(2) by auto
  then show ?thesis using w all assms(3,4)
    by (cases "bk_start bk = now") (simp_all add: window_ok_def Let_def)
qed

text \<open>A call of \<open>allow\<close> by the client, in the terms of its bucket.\<close>

lemma allow_other:
  "client \<noteq> client' \<Longrightarrow> rl_buckets (snd (allow now client l)) client' = rl_buckets l client'"
  by (simp add: allow_def Let_def)

lemma allow_limit [simp]: "rl_limit (snd (allow now client l)) = rl_limit l"
  by (simp add: allow_def Let_def)

lemma allow_window:
  assumes "window_ok (rl_limit l) ts (rl_buckets l client)" "1 \<le> rl_limit l" "now \<noteq> 0"
    "\<And>bk. rl_buckets l client = Some bk \<Longrightarrow> bk_start bk \<le> now"
  shows "window_ok (rl_limit l) (if fst (allow now client l) then now # ts else ts)
      (rl_buckets (snd (allow now client l)) client)"
    "rl_buckets (snd (allow now client l)) client = Some bk \<Longrightarrow> bk_start bk \<le> now"
    "\<not> fst (allow now client l) \<Longrightarrow> rl_limit l \<le> count_of (\<lambda>u. now - minute < u) ts"
proof -
  have "window_ok (rl_limit l) (if fst (allow now client l) then now # ts else ts)
      (rl_buckets (snd (allow now client l)) client) \<and>
    (\<forall>bk. rl_buckets (snd (allow now client l)) client = Some bk \<longrightarrow> bk_start bk \<le> now) \<and>
    (\<not> fst (allow now client l) \<longrightarrow> rl_limit l \<le> count_of (\<lambda>u. now - minute < u) ts)"
  proof (cases "rl_buckets l client")
    case None
    then have "allow now client l =
        (True, l\<lparr>rl_buckets := (rl_buckets l)(client \<mapsto> \<lparr>bk_start = now, bk_count = 1\<rparr>)\<rparr>)"
      by (simp add: allow_def bucket_of_def)
    then show ?thesis using window_opens [OF assms(1-3)] None by simp
  next
    case (Some bk)
    note w = window_okD [OF assms(1) [unfolded Some]]
    have le: "bk_start bk \<le> now" using assms(4) [OF Some] .
    consider "now - bk_start bk \<ge> minute" | "now - bk_start bk < minute" "bk_count bk < rl_limit l"
      | "now - bk_start bk < minute" "bk_count bk \<ge> rl_limit l" by linarith
    then show ?thesis
    proof cases
      case 1
      then have "allow now client l =
          (True, l\<lparr>rl_buckets := (rl_buckets l)(client \<mapsto> \<lparr>bk_start = now, bk_count = 1\<rparr>)\<rparr>)"
        by (simp add: allow_def bucket_of_def Some)
      then show ?thesis using window_opens [OF assms(1-3)] Some 1 by simp
    next
      case 2
      then have "allow now client l = (True, l\<lparr>rl_buckets := (rl_buckets l)
          (client \<mapsto> bk\<lparr>bk_count := bk_count bk + 1\<rparr>)\<rparr>)"
        using w(1) by (simp add: allow_def bucket_of_def Some)
      then show ?thesis using window_counts [OF assms(1) [unfolded Some] 2(1) le 2(2)] le by simp
    next
      case 3
      then have "allow now client l = (False, l)"
        using w(1) by (simp add: allow_def bucket_of_def Some)
      moreover have "count_of (\<lambda>u. bk_start bk \<le> u) ts \<le> count_of (\<lambda>u. now - minute < u) ts"
        using 3(1) by (intro count_of_mono) auto
      then have "rl_limit l \<le> count_of (\<lambda>u. now - minute < u) ts" using w(4) 3(2) by linarith
      ultimately show ?thesis using assms(1) Some le by simp
    qed
  qed
  then show "window_ok (rl_limit l) (if fst (allow now client l) then now # ts else ts)
      (rl_buckets (snd (allow now client l)) client)"
    "rl_buckets (snd (allow now client l)) client = Some bk \<Longrightarrow> bk_start bk \<le> now"
    "\<not> fst (allow now client l) \<Longrightarrow> rl_limit l \<le> count_of (\<lambda>u. now - minute < u) ts"
    by blast+
qed

section \<open>Runs\<close>

definition times_of :: "string \<Rightarrow> (time \<times> string) list \<Rightarrow> time list" where
  "times_of client past = map fst (filter (\<lambda>c. snd c = client) past)"

definition limiter_ok :: "string \<Rightarrow> time \<Rightarrow> auth_rate_limiter \<Rightarrow> (time \<times> string) list \<Rightarrow> bool" where
  "limiter_ok client now l past \<longleftrightarrow> 1 \<le> rl_limit l \<and>
     window_ok (rl_limit l) (times_of client past) (rl_buckets l client) \<and>
     (\<forall>bk. rl_buckets l client = Some bk \<longrightarrow> bk_start bk \<le> now)"

lemma run_limiter_append:
  "run_limiter (xs @ ys) l past = (case run_limiter xs l past of (past', l') \<Rightarrow> run_limiter ys l' past')"
  by (induction xs l past rule: run_limiter.induct) (auto split: prod.splits)

lemma limiter_ok_step:
  assumes "limiter_ok client before l past" "before \<le> now" "now \<noteq> 0" "allow now c l = (ok, l')"
  shows "limiter_ok client now l' (if ok then (now, c) # past else past)"
proof (cases "c = client")
  case True
  have "\<And>bk. rl_buckets l client = Some bk \<Longrightarrow> bk_start bk \<le> now"
    using assms(1,2) unfolding limiter_ok_def by fastforce
  moreover have w: "window_ok (rl_limit l) (times_of client past) (rl_buckets l client)" "1 \<le> rl_limit l"
    using assms(1) by (simp_all add: limiter_ok_def)
  moreover have al: "allow now client l = (ok, l')" using assms(4) True by simp
  ultimately show ?thesis
    using allow_window(1,2) [OF w assms(3)] w(2) allow_limit [of now c l] al True
    unfolding limiter_ok_def assms(4) by (cases ok) (simp_all add: times_of_def)
next
  case False
  then show ?thesis
    using assms(1,2) allow_other [OF False, of now l] allow_limit [of now c l]
    unfolding limiter_ok_def assms(4) by (auto simp: times_of_def intro: order_trans)
qed

lemma run_limiter_ok:
  assumes "sorted (map fst calls)" "\<forall>c \<in> set calls. before \<le> fst c \<and> fst c \<noteq> 0" "limiter_ok client before l past"
  shows "limiter_ok client (if calls = [] then before else fst (last calls))
    (snd (run_limiter calls l past)) (fst (run_limiter calls l past))"
  using assms
proof (induction calls l past arbitrary: before rule: run_limiter.induct)
  case (2 now c calls l past)
  obtain ok l' where al: "allow now c l = (ok, l')" by fastforce
  have "limiter_ok client now l' (if ok then (now, c) # past else past)"
    using 2(3) by (intro limiter_ok_step [OF 2(4) _ _ al]) auto
  then have "limiter_ok client (if calls = [] then now else fst (last calls))
      (snd (run_limiter calls l' (if ok then (now, c) # past else past)))
      (fst (run_limiter calls l' (if ok then (now, c) # past else past)))"
    using al 2(2,3) by (intro 2(1)) auto
  then show ?case by (cases ok; cases "calls = []") (simp_all add: al)
qed simp

lemma count_times_of: "count_of P (times_of client past) = count_of (\<lambda>c. snd c = client \<and> P (fst c)) past"
  by (induction past) (simp_all add: times_of_def)

lemma limiter_ok_new: "limiter_ok client before (newAuthRateLimiter limit) []"
  by (simp add: limiter_ok_def newAuthRateLimiter_def window_ok_def times_of_def)

lemma newAuthRateLimiter_limit: "rl_limit (newAuthRateLimiter limit) = max 1 limit"
  by (simp add: newAuthRateLimiter_def max_def)

lemma run_limiter_limit [simp]: "rl_limit (snd (run_limiter calls l past)) = rl_limit l"
proof (induction calls l past rule: run_limiter.induct)
  case (2 now c calls l past)
  then show ?case using allow_limit [of now c l] by (cases "allow now c l") simp
qed simp

lemma accepted_ok:
  assumes "sorted (map fst calls)" "\<forall>c \<in> set calls. fst c \<noteq> 0"
  shows "limiter_ok client (if calls = [] then 0 else fst (last calls))
    (limiter_after calls (newAuthRateLimiter limit)) (accepted calls (newAuthRateLimiter limit))"
proof (cases calls)
  case Nil
  then show ?thesis using limiter_ok_new by (simp add: limiter_after_def accepted_def)
next
  case (Cons c cs)
  then have "\<forall>d \<in> set calls. fst c \<le> fst d \<and> fst d \<noteq> 0" using assms by auto
  from run_limiter_ok [OF assms(1) this limiter_ok_new] show ?thesis
    using Cons by (simp add: limiter_after_def accepted_def)
qed

text \<open>
  C38. In any minute a client gets through at most \<open>2 * limit - 1\<close> times, however calls of other
  clients are mixed in, and a call is refused only if \<open>limit\<close> calls of the same client went through
  in the minute before it.
\<close>

theorem limiter_bounds_every_minute:
  assumes "sorted (map fst calls)" "\<forall>c \<in> set calls. fst c \<noteq> 0"
  shows "count_of (\<lambda>c. snd c = client \<and> a \<le> fst c \<and> fst c < a + minute)
      (accepted calls (newAuthRateLimiter limit)) \<le> 2 * max 1 limit - 1 \<and>
    (now \<noteq> 0 \<and> (\<forall>c \<in> set calls. fst c \<le> now) \<and>
     \<not> fst (allow now client (limiter_after calls (newAuthRateLimiter limit))) \<longrightarrow>
       max 1 limit \<le> count_of (\<lambda>c. snd c = client \<and> now - minute < fst c)
         (accepted calls (newAuthRateLimiter limit)))"
proof -
  let ?l = "limiter_after calls (newAuthRateLimiter limit)" and ?past = "accepted calls (newAuthRateLimiter limit)"
  have ok: "limiter_ok client (if calls = [] then 0 else fst (last calls)) ?l ?past"
    using assms by (rule accepted_ok)
  have lim: "rl_limit ?l = max 1 limit" by (simp add: limiter_after_def newAuthRateLimiter_limit)
  have w: "window_ok (max 1 limit) (times_of client ?past) (rl_buckets ?l client)"
    using ok lim by (simp add: limiter_ok_def)
  have "count_of (\<lambda>u. a \<le> u \<and> u < a + minute) (times_of client ?past) \<le> 2 * max 1 limit - 1"
    using w by (cases "rl_buckets ?l client") (simp_all add: window_ok_def Let_def)
  moreover have "max 1 limit \<le> count_of (\<lambda>u. now - minute < u) (times_of client ?past)"
    if n: "now \<noteq> 0" "\<forall>c \<in> set calls. fst c \<le> now" and refused: "\<not> fst (allow now client ?l)"
  proof -
    have "bk_start bk \<le> now" if "rl_buckets ?l client = Some bk" for bk
    proof -
      have "calls \<noteq> []" using that by (auto simp: limiter_after_def newAuthRateLimiter_def)
      then show ?thesis using ok that n(2) last_in_set [of calls] unfolding limiter_ok_def by fastforce
    qed
    then show ?thesis using allow_window(3) [of ?l _ client now] w n(1) refused unfolding lim by simp
  qed
  ultimately show ?thesis unfolding count_times_of by blast
qed

text \<open>Three calls with limit 2: two go through, the third is refused.\<close>

theorem limiter_bounds_every_minute_witness:
  "count_of (\<lambda>c. snd c = ''1.2.3.4'' \<and> second \<le> fst c \<and> fst c < second + minute)
     (accepted [(second, ''1.2.3.4''), (2 * second, ''1.2.3.4''), (3 * second, ''5.6.7.8'')]
       (newAuthRateLimiter 2)) = 2 \<and>
   \<not> fst (allow (4 * second) ''1.2.3.4''
     (limiter_after [(second, ''1.2.3.4''), (2 * second, ''1.2.3.4''), (3 * second, ''5.6.7.8'')]
       (newAuthRateLimiter 2)))"
proof -
  let ?calls = "[(second, ''1.2.3.4''), (2 * second, ''1.2.3.4''), (3 * second, ''5.6.7.8'')]"
  have refused: "\<not> fst (allow (4 * second) ''1.2.3.4'' (limiter_after ?calls (newAuthRateLimiter 2)))"
    by (simp add: limiter_after_def newAuthRateLimiter_def allow_def bucket_of_def second_def minute_def Let_def)
  have two: "count_of (\<lambda>c. snd c = ''1.2.3.4'' \<and> second \<le> fst c \<and> fst c < second + minute)
      (accepted ?calls (newAuthRateLimiter 2)) = 2"
    by (simp add: accepted_def newAuthRateLimiter_def allow_def bucket_of_def second_def minute_def Let_def)
  have "sorted (map fst ?calls)" "\<forall>c \<in> set ?calls. fst c \<noteq> 0" "4 * second \<noteq> 0" "\<forall>c \<in> set ?calls. fst c \<le> 4 * second"
    by (simp_all add: second_def)
  from limiter_bounds_every_minute [OF this(1,2), of "''1.2.3.4''" second 2 "4 * second"] this(3,4) refused two
  show ?thesis by blast
qed

end
