(* ===== verification/AuthCleanup.thy ===== *)
theory AuthCleanup
  imports AuthTable
begin

text \<open>
  The retention tasks of auth-service (\<open>internal/cleanup/handler.go\<close>): refresh tokens that
  expired or were revoked longer ago than the configured number of days are deleted in batches,
  or counted in a dry run. First the operations, then what a run deletes.
\<close>

definition day :: duration where "day = 86400 * second"

record cleanup_request =
  cq_dry_run :: bool
  cq_batch :: int
  cq_max_batches :: int

record cleanup_result =
  cr_task :: string
  cr_dry_run :: bool
  cr_scanned :: int
  cr_deleted :: int

record cleanup_config =
  cf_expired_days :: int
  cf_revoked_days :: int

type_synonym cleanup_column = "refresh_token \<Rightarrow> time option"

definition eligible_row :: "cleanup_column \<Rightarrow> time \<Rightarrow> refresh_token \<Rightarrow> bool" where
  "eligible_row column cutoff t = (case column t of None \<Rightarrow> False | Some c \<Rightarrow> c < cutoff)"

text \<open>\<open>ORDER BY column, id LIMIT n\<close>.\<close>

definition candidates :: "cleanup_column \<Rightarrow> time \<Rightarrow> int \<Rightarrow> auth_db \<Rightarrow> refresh_token list" where
  "candidates column cutoff limit db =
    take (nat limit)
      (sort_key (\<lambda>t. the (column t)) (sort_key rt_id (filter (eligible_row column cutoff) (ab_tokens db))))"

definition eligible :: "cleanup_column \<Rightarrow> time \<Rightarrow> int \<Rightarrow> auth_db \<Rightarrow> int" where
  "eligible column cutoff limit db = int (length (candidates column cutoff limit db))"

definition deleteBatch :: "cleanup_column \<Rightarrow> time \<Rightarrow> int \<Rightarrow> auth_db \<Rightarrow> int \<times> auth_db" where
  "deleteBatch column cutoff batch db =
    (let ids = rt_id ` set (candidates column cutoff batch db)
     in (int (length (filter (\<lambda>t. rt_id t \<in> ids) (ab_tokens db))),
         db\<lparr>ab_tokens := filter (\<lambda>t. rt_id t \<notin> ids) (ab_tokens db)\<rparr>))"

text \<open>At most \<open>n\<close> batches, until one is not full.\<close>

fun cleanupBatches :: "nat \<Rightarrow> cleanup_column \<Rightarrow> time \<Rightarrow> int \<Rightarrow> auth_db \<Rightarrow> int \<times> auth_db" where
  "cleanupBatches 0 column cutoff batch db = (0, db)"
| "cleanupBatches (Suc n) column cutoff batch db =
    (case deleteBatch column cutoff batch db of
       (deleted, db') \<Rightarrow>
         if deleted < batch then (deleted, db')
         else (case cleanupBatches n column cutoff batch db' of
             (rest, db'') \<Rightarrow> (deleted + rest, db'')))"

definition cleanupTask :: "cleanup_config \<Rightarrow> string \<Rightarrow> (int \<times> cleanup_column) option" where
  "cleanupTask cfg task =
    (if task = ''expired_refresh_tokens'' then Some (cf_expired_days cfg, \<lambda>t. Some (rt_expires_at t))
     else if task = ''revoked_refresh_tokens'' then Some (cf_revoked_days cfg, rt_revoked_at)
     else None)"

text \<open>
  The handler. The state is \<open>None\<close> when no database is configured, the request \<open>None\<close> when its
  body is no JSON object of the right form or longer than 16 KiB.
\<close>

definition runCleanup ::
  "cleanup_config \<Rightarrow> time \<Rightarrow> string \<Rightarrow> cleanup_request option \<Rightarrow> auth_db option \<Rightarrow>
   (nat \<times> (string + cleanup_result)) \<times> auth_db option" where
  "runCleanup cfg now task body state =
    (case state of
       None \<Rightarrow> ((503, Inl ''cleanup_disabled''), state)
     | Some db \<Rightarrow>
        (case body of
           None \<Rightarrow> ((400, Inl ''cleanup_invalid_scope''), state)
         | Some req \<Rightarrow>
            (if cq_batch req < 1 \<or> cq_batch req > 1000 \<or> cq_max_batches req < 1 \<or> cq_max_batches req > 100
             then ((400, Inl ''cleanup_invalid_scope''), state)
             else (case cleanupTask cfg task of
                 None \<Rightarrow> ((404, Inl ''cleanup_task_not_found''), state)
               | Some (days, column) \<Rightarrow>
                  (let cutoff = now - days * day
                   in if cq_dry_run req then
                        ((200, Inr \<lparr>cr_task = task, cr_dry_run = True,
                            cr_scanned = eligible column cutoff (cq_batch req * cq_max_batches req) db,
                            cr_deleted = 0\<rparr>), state)
                      else
                       (case cleanupBatches (nat (cq_max_batches req)) column cutoff (cq_batch req) db of
                          (deleted, db') \<Rightarrow>
                            ((200, Inr \<lparr>cr_task = task, cr_dry_run = False, cr_scanned = deleted,
                                cr_deleted = deleted\<rparr>), Some db')))))))"

section \<open>What is deleted\<close>

lemma set_candidates:
  "t \<in> set (candidates column cutoff limit db) \<Longrightarrow> t \<in> set (ab_tokens db) \<and> eligible_row column cutoff t"
  unfolding candidates_def by (auto dest: in_set_takeD)

lemma length_candidates:
  "length (candidates column cutoff limit db) =
     min (nat limit) (length (filter (eligible_row column cutoff) (ab_tokens db)))"
  by (simp add: candidates_def min.commute)

lemma key_unique_distinct: "key_unique k rows \<Longrightarrow> distinct rows"
  by (simp add: key_unique_def distinct_map)

lemma distinct_candidates: "key_unique rt_id (ab_tokens db) \<Longrightarrow> distinct (candidates column cutoff limit db)"
  unfolding candidates_def by (intro distinct_take) (simp add: key_unique_distinct)

text \<open>In a table with unique ids the batch deletes exactly the candidates.\<close>

lemma filter_by_ids:
  assumes "key_unique rt_id rows" "set cs \<subseteq> set rows"
  shows "filter (\<lambda>t. rt_id t \<in> rt_id ` set cs) rows = filter (\<lambda>t. t \<in> set cs) rows"
proof (rule filter_cong [OF refl])
  fix t assume t: "t \<in> set rows"
  show "rt_id t \<in> rt_id ` set cs \<longleftrightarrow> t \<in> set cs"
  proof
    assume "rt_id t \<in> rt_id ` set cs"
    then obtain c where c: "c \<in> set cs" "rt_id c = rt_id t" by auto
    moreover have "c \<in> set rows" using c(1) assms(2) by blast
    ultimately have "c = t" using key_unique_inj [OF assms(1)] t by blast
    then show "t \<in> set cs" using c by simp
  qed simp
qed

lemma length_filter_members:
  assumes "distinct rows" "distinct cs" "set cs \<subseteq> set rows"
  shows "length (filter (\<lambda>t. t \<in> set cs) rows) = length cs"
proof -
  have "set (filter (\<lambda>t. t \<in> set cs) rows) = set cs" using assms(3) by auto
  then show ?thesis
    using distinct_card [of "filter (\<lambda>t. t \<in> set cs) rows"] distinct_card [OF assms(2)] assms(1) by simp
qed

lemma deleteBatch_count:
  assumes "key_unique rt_id (ab_tokens db)"
  shows "fst (deleteBatch column cutoff batch db) = eligible column cutoff batch db"
proof -
  let ?cs = "candidates column cutoff batch db"
  have sub: "set ?cs \<subseteq> set (ab_tokens db)" using set_candidates by blast
  have "distinct (ab_tokens db)" "distinct ?cs"
    using assms by (simp_all add: key_unique_distinct distinct_candidates)
  then show ?thesis
    using length_filter_members [OF _ _ sub]
    by (simp add: deleteBatch_def eligible_def Let_def filter_by_ids [OF assms sub])
qed

lemma deleteBatch_rows:
  assumes "key_unique rt_id (ab_tokens db)"
  shows "snd (deleteBatch column cutoff batch db) =
    db\<lparr>ab_tokens := filter (\<lambda>t. t \<notin> set (candidates column cutoff batch db)) (ab_tokens db)\<rparr>"
proof -
  let ?cs = "candidates column cutoff batch db"
  have sub: "set ?cs \<subseteq> set (ab_tokens db)" using set_candidates by blast
  have "filter (\<lambda>t. rt_id t \<notin> rt_id ` set ?cs) (ab_tokens db) = filter (\<lambda>t. t \<notin> set ?cs) (ab_tokens db)"
  proof (rule filter_cong [OF refl])
    fix t assume "t \<in> set (ab_tokens db)"
    then show "rt_id t \<notin> rt_id ` set ?cs \<longleftrightarrow> t \<notin> set ?cs"
      using key_unique_inj [OF assms] sub by blast
  qed
  then show ?thesis by (simp add: deleteBatch_def Let_def)
qed

text \<open>After a batch, the candidates are the rest of the sorted list.\<close>

definition sorted_eligible :: "cleanup_column \<Rightarrow> time \<Rightarrow> auth_db \<Rightarrow> refresh_token list" where
  "sorted_eligible column cutoff db =
    sort_key (\<lambda>t. the (column t)) (sort_key rt_id (filter (eligible_row column cutoff) (ab_tokens db)))"

lemma candidates_take: "candidates column cutoff limit db = take (nat limit) (sorted_eligible column cutoff db)"
  by (simp add: candidates_def sorted_eligible_def)

lemma distinct_sorted_eligible:
  "key_unique rt_id (ab_tokens db) \<Longrightarrow> distinct (sorted_eligible column cutoff db)"
  by (simp add: sorted_eligible_def key_unique_distinct)

lemma filter_not_take:
  assumes "distinct xs"
  shows "filter (\<lambda>x. x \<notin> set (take n xs)) xs = drop n xs"
proof -
  have "set (take n xs) \<inter> set (drop n xs) = {}"
    using assms by (rule set_take_disj_set_drop_if_distinct) simp
  then have "filter (\<lambda>x. x \<notin> set (take n xs)) (drop n xs) = drop n xs"
    by (intro filter_True) auto
  moreover have "filter (\<lambda>x. x \<notin> set (take n xs)) (take n xs) = []" by (rule filter_False) simp
  ultimately have "filter (\<lambda>x. x \<notin> set (take n xs)) (take n xs @ drop n xs) = drop n xs"
    unfolding filter_append by simp
  then show ?thesis unfolding append_take_drop_id .
qed

lemma deleteBatch_sorted:
  assumes "key_unique rt_id (ab_tokens db)"
  shows "sorted_eligible column cutoff (snd (deleteBatch column cutoff batch db)) =
    drop (nat batch) (sorted_eligible column cutoff db)"
proof -
  let ?S = "sorted_eligible column cutoff db"
  have "sorted_eligible column cutoff (snd (deleteBatch column cutoff batch db)) =
      filter (\<lambda>t. t \<notin> set (take (nat batch) ?S)) ?S"
    unfolding deleteBatch_rows [OF assms] candidates_take
    by (simp add: sorted_eligible_def filter_sort conj_commute)
  then show ?thesis using filter_not_take [OF distinct_sorted_eligible [OF assms]] by metis
qed

lemma deleteBatch_unique:
  "key_unique rt_id (ab_tokens db) \<Longrightarrow> key_unique rt_id (ab_tokens (snd (deleteBatch column cutoff batch db)))"
  by (simp add: deleteBatch_rows key_unique_filter)

lemma eligible_length: "eligible column cutoff limit db = int (length (take (nat limit) (sorted_eligible column cutoff db)))"
  by (simp add: eligible_def candidates_take)

lemma deleteBatch_all:
  assumes "key_unique rt_id (ab_tokens db)"
  shows "deleteBatch column cutoff limit db =
    (int (length (take (nat limit) (sorted_eligible column cutoff db))),
     db\<lparr>ab_tokens := filter (\<lambda>t. t \<notin> set (take (nat limit) (sorted_eligible column cutoff db))) (ab_tokens db)\<rparr>)"
  using deleteBatch_count [OF assms, of column cutoff limit] deleteBatch_rows [OF assms, of column cutoff limit]
  by (simp add: prod_eq_iff eligible_length candidates_take)

text \<open>A run of batches deletes what one batch of the whole size would.\<close>

lemma cleanupBatches_one_batch:
  assumes "0 < batch" "key_unique rt_id (ab_tokens db)"
  shows "cleanupBatches n column cutoff batch db = deleteBatch column cutoff (int n * batch) db"
  using assms(2)
proof (induction n arbitrary: db)
  case 0
  then show ?case by (simp add: deleteBatch_all)
next
  case (Suc n)
  let ?S = "sorted_eligible column cutoff db" and ?b = "nat batch"
  obtain d db1 where del: "deleteBatch column cutoff batch db = (d, db1)" by fastforce
  have db1: "db1 = snd (deleteBatch column cutoff batch db)" by (simp add: del)
  have d: "d = int (length (take ?b ?S))" using del deleteBatch_all [OF Suc.prems] by simp
  have whole: "nat (int (Suc n) * batch) = ?b + n * ?b"
    using assms(1) by (simp add: nat_mult_distrib nat_add_distrib algebra_simps)
  show ?case
  proof (cases "d < batch")
    case True
    then have "length ?S < ?b" using d by auto
    then have same: "take (nat (int (Suc n) * batch)) ?S = take ?b ?S" unfolding whole by simp
    have "cleanupBatches (Suc n) column cutoff batch db = deleteBatch column cutoff batch db"
      using True by (simp add: del)
    then show ?thesis unfolding deleteBatch_all [OF Suc.prems] same .
  next
    case False
    have uniq: "key_unique rt_id (ab_tokens db1)" unfolding db1 using Suc.prems by (rule deleteBatch_unique)
    have rest: "sorted_eligible column cutoff db1 = drop ?b ?S"
      unfolding db1 using Suc.prems by (rule deleteBatch_sorted)
    have split: "take (nat (int (Suc n) * batch)) ?S = take ?b ?S @ take (n * ?b) (drop ?b ?S)"
      unfolding whole by (rule take_add)
    have "cleanupBatches n column cutoff batch db1 = deleteBatch column cutoff (int n * batch) db1"
      using uniq by (rule Suc.IH)
    moreover have "nat (int n * batch) = n * ?b" by (simp add: nat_mult_distrib)
    ultimately have tail: "cleanupBatches n column cutoff batch db1 =
      (int (length (take (n * ?b) (drop ?b ?S))),
       db1\<lparr>ab_tokens := filter (\<lambda>t. t \<notin> set (take (n * ?b) (drop ?b ?S))) (ab_tokens db1)\<rparr>)"
      by (simp add: deleteBatch_all [OF uniq] rest)
    have db1': "db1 = db\<lparr>ab_tokens := filter (\<lambda>t. t \<notin> set (take ?b ?S)) (ab_tokens db)\<rparr>"
      unfolding db1 by (simp add: deleteBatch_all [OF Suc.prems])
    have rows: "db1\<lparr>ab_tokens := filter (\<lambda>t. t \<notin> set (take (n * ?b) (drop ?b ?S))) (ab_tokens db1)\<rparr> =
      db\<lparr>ab_tokens := filter (\<lambda>t. t \<notin> set (take (nat (int (Suc n) * batch)) ?S)) (ab_tokens db)\<rparr>"
      unfolding split db1' by (simp add: conj_commute)
    have count: "d + int (length (take (n * ?b) (drop ?b ?S))) =
      int (length (take (nat (int (Suc n) * batch)) ?S))"
      unfolding split d by simp
    have "cleanupBatches (Suc n) column cutoff batch db =
      (case cleanupBatches n column cutoff batch db1 of (rest, db'') \<Rightarrow> (d + rest, db''))"
      using False by (simp add: del)
    also have "\<dots> = deleteBatch column cutoff (int (Suc n) * batch) db"
      unfolding tail deleteBatch_all [OF Suc.prems] rows prod.case count ..
    finally show ?thesis .
  qed
qed

lemma cleanup_count:
  assumes "0 < batch" "key_unique rt_id (ab_tokens db)"
  shows "fst (cleanupBatches n column cutoff batch db) = eligible column cutoff (batch * int n) db"
  using assms by (simp add: cleanupBatches_one_batch deleteBatch_count mult.commute)

text \<open>Rows of a retention task are of no use any more: expired or revoked.\<close>

definition usable :: "time \<Rightarrow> refresh_token \<Rightarrow> bool" where
  "usable now t \<longleftrightarrow> rt_revoked_at t = None \<and> rt_expires_at t > now"

lemma cleanupTask_dead:
  assumes "cleanupTask cfg task = Some (days, column)" "0 \<le> days" "usable now t"
  shows "\<not> eligible_row column (now - days * day) t"
proof -
  have "0 \<le> days * day" using assms(2) by (simp add: day_def second_def)
  then show ?thesis using assms(1,3)
    by (auto simp: cleanupTask_def eligible_row_def usable_def split: if_splits)
qed

end
