(* ===== verification/AuthSessions.thy ===== *)
theory AuthSessions
  imports AuthHandlers AuthCleanup
begin

text \<open>
  Sessions of auth-service under concurrency. Between the reads of a refresh and its
  transaction any other request may run, another refresh of the same token included; every other
  use case changes the tokens with one statement, so it is one step. \<open>sy_pending\<close> holds the
  refreshes that have read and not yet rotated; \<open>sy_ids\<close> and \<open>sy_hashes\<close> are the identifiers and
  hashes ever stored, which new ones avoid (\<open>uuid.New\<close> and 32 random bytes do not repeat), and
  \<open>sy_minted\<close> records for every refresh that answered with a successor the ids of the old and of the
  new row.
\<close>

record auth_sys =
  sy_db :: auth_db
  sy_pending :: "(auth_call \<times> refresh_token \<times> user_row) list"
  sy_ids :: "uuid set"
  sy_hashes :: "string set"
  sy_minted :: "(uuid \<times> uuid) list"

definition new_hash :: "auth_env \<Rightarrow> auth_call \<Rightarrow> string" where
  "new_hash env cx =
    (case GenerateRefreshToken (ac_random cx) of Inl _ \<Rightarrow> [] | Inr raw \<Rightarrow> HashRefreshToken env raw)"

definition fresh_call :: "auth_env \<Rightarrow> auth_call \<Rightarrow> auth_sys \<Rightarrow> bool" where
  "fresh_call env cx s \<longleftrightarrow> ac_token_id cx \<notin> sy_ids s \<and> new_hash env cx \<notin> sy_hashes s"

definition drew :: "auth_env \<Rightarrow> auth_call \<Rightarrow> auth_sys \<Rightarrow> auth_sys" where
  "drew env cx s = s\<lparr>sy_ids := insert (ac_token_id cx) (sy_ids s),
     sy_hashes := insert (new_hash env cx) (sy_hashes s)\<rparr>"

inductive auth_step :: "auth_env \<Rightarrow> cleanup_config \<Rightarrow> auth_sys \<Rightarrow> auth_sys \<Rightarrow> bool"
  for env cfg where
  step_register: "fresh_call env cx s \<Longrightarrow> Register env cx email password (sy_db s) = (r, db') \<Longrightarrow>
    auth_step env cfg s (drew env cx s\<lparr>sy_db := db'\<rparr>)"
| step_login: "fresh_call env cx s \<Longrightarrow> Login env cx email password (sy_db s) = (r, db') \<Longrightarrow>
    auth_step env cfg s (drew env cx s\<lparr>sy_db := db'\<rparr>)"
| step_read: "RefreshRead env cx refresh (sy_db s) = (Inr (stored, user), db') \<Longrightarrow>
    auth_step env cfg s (s\<lparr>sy_db := db', sy_pending := (cx, stored, user) # sy_pending s\<rparr>)"
| step_rotate: "(cx, stored, user) \<in> set (sy_pending s) \<Longrightarrow> ac_now cx' = ac_now cx \<Longrightarrow>
    fresh_call env cx' s \<Longrightarrow> RefreshRotate env cx' stored user (sy_db s) = (r, db') \<Longrightarrow>
    auth_step env cfg s (drew env cx' s\<lparr>sy_db := db', sy_pending := remove1 (cx, stored, user) (sy_pending s),
      sy_minted := (if isl r then sy_minted s else (rt_id stored, ac_token_id cx') # sy_minted s)\<rparr>)"
| step_logout: "Logout env cx refresh (sy_db s) = (r, db') \<Longrightarrow> auth_step env cfg s (s\<lparr>sy_db := db'\<rparr>)"
| step_cleanup: "runCleanup cfg now task body (Some (sy_db s)) = (r, Some db') \<Longrightarrow>
    auth_step env cfg s (s\<lparr>sy_db := db'\<rparr>)"

inductive_cases auth_stepE: "auth_step env cfg s t"

text \<open>A server that starts on a database.\<close>

definition fresh_start :: "auth_db \<Rightarrow> auth_sys" where
  "fresh_start db = \<lparr>sy_db = db, sy_pending = [], sy_ids = rt_id ` set (ab_tokens db),
     sy_hashes = rt_hash ` set (ab_tokens db), sy_minted = []\<rparr>"

section \<open>What a request does to the rows\<close>

text \<open>
  \<open>ages new\<close>: every row afterwards is a new row with its id and hash in \<open>new\<close>, or was there before
  with the same id and hash, and a revoked row stays revoked.
\<close>

definition ages :: "(uuid \<times> string) set \<Rightarrow> auth_db \<Rightarrow> auth_db \<Rightarrow> bool" where
  "ages new db db' \<longleftrightarrow>
    (\<forall>t' \<in> set (ab_tokens db'). ((rt_id t', rt_hash t') \<in> new) \<or>
      (\<exists>t \<in> set (ab_tokens db). rt_id t = rt_id t' \<and> rt_hash t = rt_hash t' \<and>
        (rt_revoked_at t \<noteq> None \<longrightarrow> rt_revoked_at t' \<noteq> None)))"

lemma ages_refl [simp]: "ages new db db"
  by (auto simp: ages_def)

lemma rel_ok_ages [simp, intro]: "rel_ok (ages new)"
proof (rule rel_okI)
  fix db db' db'' assume *: "ages new db db'" "ages new db' db''"
  show "ages new db db''"
    unfolding ages_def
  proof
    fix t'' assume "t'' \<in> set (ab_tokens db'')"
    then consider "(rt_id t'', rt_hash t'') \<in> new"
      | t' where "t' \<in> set (ab_tokens db')" "rt_id t' = rt_id t''" "rt_hash t' = rt_hash t''"
          "rt_revoked_at t' \<noteq> None \<longrightarrow> rt_revoked_at t'' \<noteq> None"
      using *(2) unfolding ages_def by blast
    then show "((rt_id t'', rt_hash t'') \<in> new) \<or>
      (\<exists>t \<in> set (ab_tokens db). rt_id t = rt_id t'' \<and> rt_hash t = rt_hash t'' \<and>
        (rt_revoked_at t \<noteq> None \<longrightarrow> rt_revoked_at t'' \<noteq> None))"
      using *(1) unfolding ages_def by cases (blast, metis)
  qed
qed simp

lemma ages_revoke: "ages new db (revoke_where P at db)"
  by (auto simp: ages_def revoke_where_def set_update_where)

lemma ages_create_token:
  "CreateRefreshToken now params db = Inr (row, db') \<Longrightarrow> ages {(rt_id params, rt_hash params)} db db'"
  unfolding auth_tables ages_def by auto

lemma ages_create_user: "CreateUser now user db = Inr (row, db') \<Longrightarrow> ages new db db'"
  unfolding auth_tables ages_def by auto

lemma ages_rotate:
  assumes "auth_ok db" "RotateRefreshToken now old at params db = Inr (row, db')"
  shows "ages {(rt_id params, rt_hash params)} db db'"
proof -
  let ?P = "\<lambda>t. rt_id t = old \<and> rt_revoked_at t = None"
  have "CreateRefreshToken now params (revoke_where ?P at db) = Inr (row, db')"
    using assms by (simp add: RotateRefreshToken_Inr)
  then have "ages {(rt_id params, rt_hash params)} (revoke_where ?P at db) db'"
    by (rule ages_create_token)
  moreover have "ages {(rt_id params, rt_hash params)} db (revoke_where ?P at db)"
    by (rule ages_revoke)
  ultimately show ?thesis using rel_ok_ages by (auto simp: rel_ok_def dest: transpD)
qed

lemma newRefreshTokenParams_Inr:
  "newRefreshTokenParams env cx uid = Inr (raw, params) \<Longrightarrow>
    rt_id params = ac_token_id cx \<and> rt_hash params = new_hash env cx \<and> rt_user params = uid \<and>
    rt_revoked_at params = None \<and> rt_expires_at params = ac_issue_now cx + ae_refresh_ttl env \<and>
    GenerateRefreshToken (ac_random cx) = Inr raw"
  by (auto simp: newRefreshTokenParams_def new_hash_def result_iff)

text \<open>One relation for everything the invariants need of a request.\<close>

definition sound :: "(uuid \<times> string) set \<Rightarrow> auth_db \<Rightarrow> auth_db \<Rightarrow> bool" where
  "sound new db db' \<longleftrightarrow>
    (auth_ok db \<longrightarrow> auth_ok db' \<and> ages new db db')"

lemma rel_ok_sound [simp, intro]: "rel_ok (sound new)"
proof (rule rel_okI)
  fix db db' db'' assume "sound new db db'" "sound new db' db''"
  then show "sound new db db''"
    unfolding sound_def using rel_ok_ages [of new]
    by (auto simp: rel_ok_def dest: transpD)
qed (simp add: sound_def)

definition drawn :: "auth_env \<Rightarrow> auth_call \<Rightarrow> (uuid \<times> string) set" where
  "drawn env cx = {(ac_token_id cx, new_hash env cx)}"

lemma sound_create_token:
  assumes "newRefreshTokenParams env cx uid = Inr (raw, params)"
  shows "step_rel (sound (drawn env cx)) (sstmt (CreateRefreshToken now params))"
  using newRefreshTokenParams_Inr [OF assms] ages_create_token auth_ok_create_token
  by (intro step_rel_sstmt) (auto simp: sound_def drawn_def, metis)

lemma sound_rotate:
  assumes "newRefreshTokenParams env cx uid = Inr (raw, params)"
  shows "step_rel (sound (drawn env cx)) (sstmt (RotateRefreshToken now old at params))"
  using newRefreshTokenParams_Inr [OF assms] ages_rotate auth_ok_rotate
  by (intro step_rel_sstmt) (auto simp: sound_def drawn_def, metis)

lemma normalized_canonical:
  "normalizeAndValidateEmail env raw = Inr email \<Longrightarrow> canonical_email email \<and> email = NormalizeEmail raw"
  by (auto simp: normalizeAndValidateEmail_def Let_def canonical_email_def NormalizeEmail_def split: if_splits)

lemma sound_issue: "step_rel (sound (drawn env cx)) (issueAuthResponse env cx user)"
  unfolding issueAuthResponse_def
  by (intro step_rel_spure_pair step_intros rel_ok_sound sound_create_token)

lemma sound_create_user:
  "canonical_email (ur_email user) \<Longrightarrow> step_rel (sound (drawn env cx)) (sstmt (CreateUser now user))"
  by (intro step_rel_sstmt) (auto simp: sound_def intro: auth_ok_create_user ages_create_user)

lemma sound_register: "step_rel (sound (drawn env cx)) (Register env cx email password)"
  unfolding Register_def
  by (intro step_rel_spure_bind step_intros rel_ok_sound sound_issue sound_create_user)
    (auto dest: normalized_canonical)

lemma sound_login: "step_rel (sound (drawn env cx)) (Login env cx email password)"
  unfolding Login_def by (intro step_intros rel_ok_sound sound_issue)

lemma sound_read: "step_rel (sound new) (RefreshRead env cx refresh)"
  unfolding RefreshRead_def Let_def by (intro step_intros rel_ok_sound)

lemma sound_refresh_rotate: "step_rel (sound (drawn env cx)) (RefreshRotate env cx stored user)"
  unfolding RefreshRotate_def
  by (intro step_rel_spure_pair step_intros rel_ok_sound sound_rotate)

lemma sound_logout: "step_rel (sound new) (Logout env cx refresh)"
  unfolding Logout_def Let_def RevokeRefreshTokenByHash_revoke
  by (intro step_intros rel_ok_sound step_rel_sdo) (simp add: sound_def RevokeRefreshTokenByHash_revoke auth_ok_revoke ages_revoke)

lemma cleanup_shrinks:
  assumes "runCleanup cfg now task body (Some db) = (r, Some db')"
  shows "ab_users db' = ab_users db \<and> (\<exists>Q. ab_tokens db' = filter Q (ab_tokens db))"
proof -
  have del: "ab_users (snd (deleteBatch c cut b d)) = ab_users d \<and>
      (\<exists>Q. ab_tokens (snd (deleteBatch c cut b d)) = filter Q (ab_tokens d))" for c cut b d
    by (auto simp: deleteBatch_def Let_def)
  have "ab_users (snd (cleanupBatches n c cut b d)) = ab_users d \<and>
      (\<exists>Q. ab_tokens (snd (cleanupBatches n c cut b d)) = filter Q (ab_tokens d))" for n c cut b d
  proof (induction n arbitrary: d)
    case 0
    show ?case by (auto intro: exI [of _ "\<lambda>_. True"])
  next
    case (Suc n)
    obtain x d1 where d1: "deleteBatch c cut b d = (x, d1)" by fastforce
    obtain Q where Q: "ab_users d1 = ab_users d" "ab_tokens d1 = filter Q (ab_tokens d)"
      using del [of c cut b d] d1 by auto
    show ?case using Suc.IH [of d1] Q by (auto simp: d1 split: prod.splits)
  qed
  then show ?thesis
    using assms unfolding runCleanup_def
    by (auto simp: Let_def split: option.splits if_splits prod.splits intro: exI [of _ "\<lambda>_. True"]) (metis snd_conv)+
qed

lemma cleanup_sound: "runCleanup cfg now task body (Some db) = (r, Some db') \<Longrightarrow> sound new db db'"
  by (drule cleanup_shrinks) (auto simp: sound_def ages_def auth_ok_def)

section \<open>The invariant of a session\<close>

definition spent :: "uuid \<Rightarrow> auth_db \<Rightarrow> bool" where
  "spent i db \<longleftrightarrow> (\<forall>t \<in> set (ab_tokens db). rt_id t = i \<longrightarrow> rt_revoked_at t \<noteq> None)"

definition sys_ok :: "auth_sys \<Rightarrow> bool" where
  "sys_ok s \<longleftrightarrow> auth_ok (sy_db s) \<and> rt_id ` set (ab_tokens (sy_db s)) \<subseteq> sy_ids s \<and>
     rt_hash ` set (ab_tokens (sy_db s)) \<subseteq> sy_hashes s \<and> distinct (map fst (sy_minted s)) \<and>
     (\<forall>m \<in> set (sy_minted s). fst m \<in> sy_ids s \<and> spent (fst m) (sy_db s))"

lemma sys_ok_start: "auth_ok db \<Longrightarrow> sys_ok (fresh_start db)"
  by (simp add: sys_ok_def fresh_start_def)

lemma sys_okD:
  assumes "sys_ok s"
  shows "auth_ok (sy_db s)" "t \<in> set (ab_tokens (sy_db s)) \<Longrightarrow> rt_id t \<in> sy_ids s"
    "t \<in> set (ab_tokens (sy_db s)) \<Longrightarrow> rt_hash t \<in> sy_hashes s" "distinct (map fst (sy_minted s))"
    "m \<in> set (sy_minted s) \<Longrightarrow> fst m \<in> sy_ids s" "m \<in> set (sy_minted s) \<Longrightarrow> spent (fst m) (sy_db s)"
  using assms unfolding sys_ok_def by blast+

text \<open>
  A row or a hash that is out of use stays so: new rows do not take its id or hash.
\<close>

lemma ages_spent: "ages new db db' \<Longrightarrow> spent i db \<Longrightarrow> i \<notin> fst ` new \<Longrightarrow> spent i db'"
  unfolding ages_def spent_def by (metis fst_conv image_eqI)

lemma ages_keys:
  assumes "ages new db db'"
  shows "rt_id ` set (ab_tokens db') \<subseteq> fst ` new \<union> rt_id ` set (ab_tokens db)"
    "rt_hash ` set (ab_tokens db') \<subseteq> snd ` new \<union> rt_hash ` set (ab_tokens db)"
proof -
  have "rt_id t' \<in> fst ` new \<union> rt_id ` set (ab_tokens db) \<and> rt_hash t' \<in> snd ` new \<union> rt_hash ` set (ab_tokens db)"
    if t': "t' \<in> set (ab_tokens db')" for t'
  proof -
    consider "(rt_id t', rt_hash t') \<in> new"
      | t where "t \<in> set (ab_tokens db)" "rt_id t = rt_id t'" "rt_hash t = rt_hash t'"
      using assms t' unfolding ages_def by blast
    then show ?thesis
    proof cases
      case 1
      then show ?thesis by (auto intro: rev_image_eqI)
    next
      case (2 t)
      then show ?thesis by (metis UnI2 imageI)
    qed
  qed
  then show "rt_id ` set (ab_tokens db') \<subseteq> fst ` new \<union> rt_id ` set (ab_tokens db)"
    "rt_hash ` set (ab_tokens db') \<subseteq> snd ` new \<union> rt_hash ` set (ab_tokens db)" by (simp_all add: image_subset_iff)
qed

definition hash_spent :: "string \<Rightarrow> auth_db \<Rightarrow> bool" where
  "hash_spent g db \<longleftrightarrow> (\<forall>t \<in> set (ab_tokens db). rt_hash t = g \<longrightarrow> rt_revoked_at t \<noteq> None)"

lemma ages_hash_spent: "ages new db db' \<Longrightarrow> hash_spent g db \<Longrightarrow> g \<notin> snd ` new \<Longrightarrow> hash_spent g db'"
  unfolding ages_def hash_spent_def by (metis snd_conv image_eqI)

text \<open>A rotation that answers consumed a live row.\<close>

lemma RefreshRotate_consumes:
  assumes "auth_ok db" "RefreshRotate env cx stored user db = (Inr x, db')"
  shows "\<not> spent (rt_id stored) db" "ac_token_id cx \<noteq> rt_id stored \<Longrightarrow> spent (rt_id stored) db'"
proof -
  let ?P = "\<lambda>t. rt_id t = rt_id stored \<and> rt_revoked_at t = None"
  obtain raw params row where p: "newRefreshTokenParams env cx (ur_id user) = Inr (raw, params)"
    and rot: "RotateRefreshToken (ac_db_now cx) (rt_id stored) (ac_now cx) params db = Inr (row, db')"
    using assms(2) unfolding RefreshRotate_def by (auto simp: op_run)
  have live: "\<exists>t \<in> set (ab_tokens db). ?P t"
    and cr: "CreateRefreshToken (ac_db_now cx) params (revoke_where ?P (ac_now cx) db) = Inr (row, db')"
    using rot unfolding RotateRefreshToken_Inr [OF assms(1)] by blast+
  from live show "\<not> spent (rt_id stored) db" unfolding spent_def by blast
  have "spent (rt_id stored) (revoke_where ?P (ac_now cx) db)"
    by (auto simp: spent_def revoke_where_def set_update_where)
  then show "ac_token_id cx \<noteq> rt_id stored \<Longrightarrow> spent (rt_id stored) db'"
    using ages_spent [OF ages_create_token [OF cr]] newRefreshTokenParams_Inr [OF p] by simp
qed

section \<open>Reachable states\<close>

text \<open>
  \<open>grows\<close> is what every step does to the rows and the values drawn so far: a token or hash that is
  spent stays spent.
\<close>

definition grows :: "auth_sys \<Rightarrow> auth_sys \<Rightarrow> bool" where
  "grows s s' \<longleftrightarrow> auth_ok (sy_db s') \<and> sy_ids s \<subseteq> sy_ids s' \<and> sy_hashes s \<subseteq> sy_hashes s' \<and>
     rt_id ` set (ab_tokens (sy_db s')) \<subseteq> sy_ids s' \<and> rt_hash ` set (ab_tokens (sy_db s')) \<subseteq> sy_hashes s' \<and>
     (\<forall>i \<in> sy_ids s. spent i (sy_db s) \<longrightarrow> spent i (sy_db s')) \<and>
     (\<forall>g \<in> sy_hashes s. hash_spent g (sy_db s) \<longrightarrow> hash_spent g (sy_db s'))"

lemma growsI:
  assumes "sys_ok s" "sound new (sy_db s) (sy_db s')"
    "fst ` new \<inter> sy_ids s = {}" "snd ` new \<inter> sy_hashes s = {}"
    "sy_ids s' = fst ` new \<union> sy_ids s" "sy_hashes s' = snd ` new \<union> sy_hashes s"
  shows "grows s s'"
proof -
  have ok: "auth_ok (sy_db s')" and ag: "ages new (sy_db s) (sy_db s')"
    using assms(2) sys_okD(1) [OF assms(1)] by (auto simp: sound_def)
  have "rt_id ` set (ab_tokens (sy_db s')) \<subseteq> sy_ids s'"
    unfolding assms(5) using assms(1)
    by (intro order_trans [OF ages_keys(1) [OF ag] Un_mono [OF order_refl]]) (simp add: sys_ok_def)
  moreover have "rt_hash ` set (ab_tokens (sy_db s')) \<subseteq> sy_hashes s'"
    unfolding assms(6) using assms(1)
    by (intro order_trans [OF ages_keys(2) [OF ag] Un_mono [OF order_refl]]) (simp add: sys_ok_def)
  moreover have "spent i (sy_db s')" if "i \<in> sy_ids s" "spent i (sy_db s)" for i
    using ages_spent [OF ag that(2)] that(1) assms(3) by blast
  moreover have "hash_spent g (sy_db s')" if "g \<in> sy_hashes s" "hash_spent g (sy_db s)" for g
    using ages_hash_spent [OF ag that(2)] that(1) assms(4) by blast
  ultimately show ?thesis using ok by (simp add: grows_def assms(5,6))
qed

lemma growsD:
  assumes "grows s s'"
  shows "auth_ok (sy_db s')" "i \<in> sy_ids s \<Longrightarrow> i \<in> sy_ids s'" "g \<in> sy_hashes s \<Longrightarrow> g \<in> sy_hashes s'"
    "rt_id ` set (ab_tokens (sy_db s')) \<subseteq> sy_ids s'" "rt_hash ` set (ab_tokens (sy_db s')) \<subseteq> sy_hashes s'"
    "i \<in> sy_ids s \<Longrightarrow> spent i (sy_db s) \<Longrightarrow> spent i (sy_db s')"
    "g \<in> sy_hashes s \<Longrightarrow> hash_spent g (sy_db s) \<Longrightarrow> hash_spent g (sy_db s')"
  using assms by (auto simp: grows_def)

lemma drew_simps [simp]:
  "sy_ids (drew env cx s) = insert (ac_token_id cx) (sy_ids s)"
  "sy_hashes (drew env cx s) = insert (new_hash env cx) (sy_hashes s)"
  "sy_db (drew env cx s) = sy_db s" "sy_pending (drew env cx s) = sy_pending s"
  "sy_minted (drew env cx s) = sy_minted s"
  by (simp_all add: drew_def)

lemma fresh_drawn:
  "fresh_call env cx s \<Longrightarrow> fst ` drawn env cx \<inter> sy_ids s = {} \<and> snd ` drawn env cx \<inter> sy_hashes s = {}"
  by (simp add: fresh_call_def drawn_def)

lemma auth_step_grows:
  assumes "auth_step env cfg s s'" "sys_ok s"
  shows "grows s s'"
  using assms(1)
proof cases
  case (step_register cx email password r db')
  then show ?thesis using assms(2) step_relD [OF sound_register step_register(3)] fresh_drawn [OF step_register(2)]
    by (intro growsI [of s "drawn env cx"]) (simp_all add: drawn_def)
next
  case (step_login cx email password r db')
  then show ?thesis using assms(2) step_relD [OF sound_login step_login(3)] fresh_drawn [OF step_login(2)]
    by (intro growsI [of s "drawn env cx"]) (simp_all add: drawn_def)
next
  case (step_read cx refresh stored user db')
  then show ?thesis using assms(2) step_relD [OF sound_read step_read(2)]
    by (intro growsI [of s "{}"]) simp_all
next
  case (step_rotate cx stored user cx' r db')
  then show ?thesis using assms(2) step_relD [OF sound_refresh_rotate step_rotate(5)] fresh_drawn [OF step_rotate(4)]
    by (intro growsI [of s "drawn env cx'"]) (simp_all add: drawn_def)
next
  case (step_logout cx refresh r db')
  then show ?thesis using assms(2) step_relD [OF sound_logout step_logout(2)]
    by (intro growsI [of s "{}"]) simp_all
next
  case (step_cleanup now task body r db')
  then show ?thesis using assms(2) cleanup_sound [OF step_cleanup(2)]
    by (intro growsI [of s "{}"]) simp_all
qed

text \<open>What a step adds to the minted successors: the old token was live, and is spent now.\<close>

lemma auth_step_minted:
  assumes "auth_step env cfg s s'" "sys_ok s"
  shows "sy_minted s' = sy_minted s \<or>
    (\<exists>i n. sy_minted s' = (i, n) # sy_minted s \<and> i \<in> sy_ids s \<and> \<not> spent i (sy_db s) \<and> spent i (sy_db s'))"
  using assms(1)
proof cases
  case (step_rotate cx stored user cx' r db')
  show ?thesis
  proof (cases r)
    case (Inr x)
    note c = RefreshRotate_consumes [OF sys_okD(1) [OF assms(2)] step_rotate(5) [unfolded Inr]]
    from c(1) have "rt_id stored \<in> sy_ids s" unfolding spent_def by (metis sys_okD(2) [OF assms(2)])
    moreover from this have "ac_token_id cx' \<noteq> rt_id stored" using step_rotate(4) by (auto simp: fresh_call_def)
    ultimately show ?thesis using c Inr step_rotate(1) by simp
  qed (simp add: step_rotate(1))
qed simp_all

lemma sys_ok_step:
  assumes "auth_step env cfg s s'" "sys_ok s"
  shows "sys_ok s'"
proof -
  note g = growsD [OF auth_step_grows [OF assms]]
  have old: "fst m \<in> sy_ids s' \<and> spent (fst m) (sy_db s')" if "m \<in> set (sy_minted s)" for m
    using that by (intro conjI g(2) g(6) sys_okD(5,6) [OF assms(2)])
  from auth_step_minted [OF assms] have "distinct (map fst (sy_minted s')) \<and>
      (\<forall>m \<in> set (sy_minted s'). fst m \<in> sy_ids s' \<and> spent (fst m) (sy_db s'))"
  proof (elim disjE exE conjE)
    assume "sy_minted s' = sy_minted s"
    then show ?thesis using old sys_okD(4) [OF assms(2)] by simp
  next
    fix i n assume m: "sy_minted s' = (i, n) # sy_minted s" and i: "i \<in> sy_ids s" "\<not> spent i (sy_db s)"
      "spent i (sy_db s')"
    have "i \<notin> fst ` set (sy_minted s)" using i(2) sys_okD(6) [OF assms(2)] by blast
    moreover have "i \<in> sy_ids s'" using i(1) by (rule g(2))
    ultimately show ?thesis using old i(3) sys_okD(4) [OF assms(2)] unfolding m by simp
  qed
  then show ?thesis using g(1,4,5) unfolding sys_ok_def by simp
qed

lemma sys_ok_reachable:
  assumes "(auth_step env cfg)\<^sup>*\<^sup>* s s'" "sys_ok s"
  shows "sys_ok s'"
  using assms by (induction rule: rtranclp_induct) (auto intro: sys_ok_step)

text \<open>Over a run: what is spent is never minted from again.\<close>

lemma reachable_spent:
  assumes "(auth_step env cfg)\<^sup>*\<^sup>* s s'" "sys_ok s" "i \<in> sy_ids s" "spent i (sy_db s)"
  shows "i \<in> sy_ids s' \<and> spent i (sy_db s') \<and> (\<forall>n. (i, n) \<in> set (sy_minted s') \<longrightarrow> (i, n) \<in> set (sy_minted s))"
  using assms(1)
proof (induction rule: rtranclp_induct)
  case (step t u)
  have ok: "sys_ok t" using step.hyps(1) assms(2) by (rule sys_ok_reachable)
  have "i \<in> sy_ids u \<and> spent i (sy_db u)"
    using growsD(2,6) [OF auth_step_grows [OF step.hyps(2) ok]] step.IH by simp
  moreover have "(i, n) \<in> set (sy_minted t)" if "(i, n) \<in> set (sy_minted u)" for n
    using auth_step_minted [OF step.hyps(2) ok] that step.IH by auto
  ultimately show ?case using step.IH by blast
qed (simp add: assms)

lemma reachable_hash_spent:
  assumes "(auth_step env cfg)\<^sup>*\<^sup>* s s'" "sys_ok s" "g \<in> sy_hashes s" "hash_spent g (sy_db s)"
  shows "g \<in> sy_hashes s' \<and> hash_spent g (sy_db s')"
  using assms(1)
proof (induction rule: rtranclp_induct)
  case (step t u)
  have ok: "sys_ok t" using step.hyps(1) assms(2) by (rule sys_ok_reachable)
  then show ?case using growsD(3,7) [OF auth_step_grows [OF step.hyps(2) ok]] step.IH by simp
qed (simp add: assms)

lemma spent_hash_refused:
  assumes "hash_spent (HashRefreshToken env (trim_space refresh)) db" "trim_space refresh \<noteq> []"
  shows "RefreshTokens env cx refresh db = (Inl ErrInvalidRefreshToken, db)"
proof -
  let ?h = "HashRefreshToken env (trim_space refresh)"
  have "rt_revoked_at t \<noteq> None" if "GetRefreshTokenByHash ?h db = Inr t" for t
    using that assms(1) select_row_Some unfolding GetRefreshTokenByHash_def scan_row_Inr hash_spent_def by fast
  then have "RefreshRead env cx refresh db = (Inl ErrInvalidRefreshToken, db)"
    using assms(2) unfolding RefreshRead_def Let_def
    by (cases "GetRefreshTokenByHash ?h db")
      (auto simp: sbind_def scheck_def serr_def sread_def on_error_def GetRefreshTokenByHash_def scan_row_def
        split: option.splits)
  then show ?thesis by (simp add: RefreshTokens_def sbind_def)
qed

end
