(* ===== verification/AuthLaws.thy ===== *)
theory AuthLaws
  imports AuthSessions
begin

text \<open>
  The properties of auth-service: the tables of every reachable state obey their constraints, a
  refresh token is spent once and is dead after a logout, a registered user gets back in, a
  retention run deletes what its dry run announced and nothing usable, an over-long password
  fails with status 500, and the internal routes are closed without a token.
\<close>

section \<open>Sessions\<close>

text \<open>
  C37. From a database that obeys its constraints, every state reachable by interleaved requests
  does: ids, emails and token hashes are unique, every refresh token belongs to a stored user, and
  every stored email is in lower case and not empty.
\<close>

theorem auth_rows_stay_typed:
  assumes "auth_ok db" "(auth_step env cfg)\<^sup>*\<^sup>* (fresh_start db) s"
  shows "key_unique ur_id (ab_users (sy_db s)) \<and> key_unique ur_email (ab_users (sy_db s)) \<and>
    key_unique rt_id (ab_tokens (sy_db s)) \<and> key_unique rt_hash (ab_tokens (sy_db s)) \<and>
    (\<forall>t \<in> set (ab_tokens (sy_db s)). \<exists>u \<in> set (ab_users (sy_db s)). ur_id u = rt_user t) \<and>
    (\<forall>u \<in> set (ab_users (sy_db s)). ur_email u \<noteq> [] \<and> to_lower (ur_email u) = ur_email u)"
proof -
  have "sys_ok s" using assms(2) sys_ok_start [OF assms(1)] by (rule sys_ok_reachable)
  then have "auth_ok (sy_db s)" by (rule sys_okD)
  then show ?thesis by (force simp: auth_ok_def canonical_email_def)
qed

text \<open>
  C34. However requests interleave between the reads and the rotation of a refresh, no two
  refreshes mint a successor from the same refresh token, and a token from which one was minted is
  revoked or deleted.
\<close>

theorem refresh_token_is_single_use:
  assumes "auth_ok db" "(auth_step env cfg)\<^sup>*\<^sup>* (fresh_start db) s"
  shows "distinct (map fst (sy_minted s)) \<and>
    (\<forall>m \<in> set (sy_minted s). \<forall>t \<in> set (ab_tokens (sy_db s)). rt_id t = fst m \<longrightarrow> rt_revoked_at t \<noteq> None)"
proof -
  have "sys_ok s" using assms(2) sys_ok_start [OF assms(1)] by (rule sys_ok_reachable)
  then show ?thesis by (simp add: sys_ok_def spent_def)
qed

text \<open>
  C35. After a logout the session is over: whatever runs afterwards, refreshes that had already
  read the token included, the token is refused as invalid without a change of the database, and
  no successor is minted from it.
\<close>

theorem logged_out_session_is_over:
  assumes "auth_ok db" "(auth_step env cfg)\<^sup>*\<^sup>* (fresh_start db) s"
    "t \<in> set (ab_tokens (sy_db s))" "rt_hash t = HashRefreshToken env (trim_space refresh)"
    "Logout env cx refresh (sy_db s) = (Inr (), db1)"
    "(auth_step env cfg)\<^sup>*\<^sup>* (s\<lparr>sy_db := db1\<rparr>) s'"
  shows "RefreshTokens env cx' refresh (sy_db s') = (Inl ErrInvalidRefreshToken, sy_db s') \<and>
    (\<forall>n. (rt_id t, n) \<in> set (sy_minted s') \<longrightarrow> (rt_id t, n) \<in> set (sy_minted s))"
proof -
  let ?h = "HashRefreshToken env (trim_space refresh)" and ?s = "s\<lparr>sy_db := db1\<rparr>"
  have ok: "sys_ok s" using assms(2) sys_ok_start [OF assms(1)] by (rule sys_ok_reachable)
  have step: "auth_step env cfg s ?s" using assms(5) by (rule step_logout)
  have ok1: "sys_ok ?s" using step ok by (rule sys_ok_step)
  have raw: "trim_space refresh \<noteq> []" and db1: "db1 = revoke_where (\<lambda>t. rt_hash t = ?h) (ac_now cx) (sy_db s)"
    using assms(5) by (auto simp: Logout_def Let_def op_run RevokeRefreshTokenByHash_revoke)
  have dead: "hash_spent ?h db1" by (auto simp: hash_spent_def db1 revoke_where_def set_update_where)
  have only: "u = t" if "u \<in> set (ab_tokens (sy_db s))" "rt_id u = rt_id t" for u
    using key_unique_inj [OF auth_okD(3) [OF sys_okD(1) [OF ok]] that(1) assms(3)] that(2) by simp
  have spent_t: "spent (rt_id t) db1"
    using only assms(4) by (auto simp: spent_def db1 revoke_where_def set_update_where)
  have "hash_spent ?h (sy_db s')"
    using reachable_hash_spent [OF assms(6) ok1, of ?h] dead sys_okD(3) [OF ok assms(3)] assms(4) by simp
  then have "RefreshTokens env cx' refresh (sy_db s') = (Inl ErrInvalidRefreshToken, sy_db s')"
    using raw by (rule spent_hash_refused)
  moreover have "\<forall>n. (rt_id t, n) \<in> set (sy_minted s') \<longrightarrow> (rt_id t, n) \<in> set (sy_minted s)"
    using reachable_spent [OF assms(6) ok1, of "rt_id t"] spent_t sys_okD(2) [OF ok assms(3)] by simp
  ultimately show ?thesis by blast
qed

section \<open>Retention\<close>

text \<open>
  C39. A retention run deletes exactly the oldest eligible rows, as many as a dry run on the same
  state announces, which is at most the batch size times the number of batches; the users stay, and
  no refresh token that can still be used is deleted.
\<close>

theorem cleanup_deletes_what_dry_run_counts:
  assumes "auth_ok db" "cleanupTask cfg task = Some (days, column)" "0 \<le> days"
    "1 \<le> batch" "batch \<le> 1000" "1 \<le> batches" "batches \<le> 100"
  shows "\<exists>n db'.
    runCleanup cfg now task (Some \<lparr>cq_dry_run = True, cq_batch = batch, cq_max_batches = batches\<rparr>) (Some db) =
      ((200, Inr \<lparr>cr_task = task, cr_dry_run = True, cr_scanned = n, cr_deleted = 0\<rparr>), Some db) \<and>
    runCleanup cfg now task (Some \<lparr>cq_dry_run = False, cq_batch = batch, cq_max_batches = batches\<rparr>) (Some db) =
      ((200, Inr \<lparr>cr_task = task, cr_dry_run = False, cr_scanned = n, cr_deleted = n\<rparr>), Some db') \<and>
    n = min (batch * batches) (int (length (filter (eligible_row column (now - days * day)) (ab_tokens db)))) \<and>
    ab_users db' = ab_users db \<and>
    ab_tokens db' = filter (\<lambda>t. t \<notin> set (candidates column (now - days * day) (batch * batches) db)) (ab_tokens db) \<and>
    (\<forall>t \<in> set (ab_tokens db). rt_revoked_at t = None \<and> rt_expires_at t > now \<longrightarrow> t \<in> set (ab_tokens db'))"
proof -
  let ?cut = "now - days * day"
  define db' where "db' = snd (deleteBatch column ?cut (batch * batches) db)"
  note uniq = auth_okD(3) [OF assms(1)]
  have run: "cleanupBatches (nat batches) column ?cut batch db = (eligible column ?cut (batch * batches) db, db')"
    using assms(4,6) cleanupBatches_one_batch [of batch db "nat batches" column ?cut] uniq
      deleteBatch_count [OF uniq, of column ?cut "batch * batches"]
    by (simp add: db'_def prod_eq_iff mult.commute)
  have rows: "db' = db\<lparr>ab_tokens := filter (\<lambda>t. t \<notin> set (candidates column ?cut (batch * batches) db)) (ab_tokens db)\<rparr>"
    unfolding db'_def by (rule deleteBatch_rows [OF uniq])
  have keep: "t \<in> set (ab_tokens db')" if "t \<in> set (ab_tokens db)" "rt_revoked_at t = None" "rt_expires_at t > now" for t
    using that cleanupTask_dead [OF assms(2,3), of now t] set_candidates [of t column ?cut]
    by (auto simp: rows usable_def)
  have count: "eligible column ?cut (batch * batches) db =
      min (batch * batches) (int (length (filter (eligible_row column ?cut) (ab_tokens db))))"
  proof -
    have "0 \<le> batch * batches" using assms(4,6) by simp
    then show ?thesis by (simp add: eligible_def length_candidates of_nat_min)
  qed
  show ?thesis
    using assms(2,4-7) run keep
    by (intro exI [of _ "eligible column ?cut (batch * batches) db"] exI [of _ db'])
      (simp add: runCleanup_def Let_def count [symmetric] rows)
qed

section \<open>Getting back in\<close>

text \<open>
  What the code relies on of its libraries: bcrypt verifies what it hashed; the JWT package parses a
  token it signed, with the same key and while it is valid, to its claims, and its compact form has
  printable ASCII characters only; the uuid package parses what it printed; \<open>NewNumericDate\<close> drops a fraction of
  a second.
\<close>

definition bcrypt_ok :: "auth_env \<Rightarrow> bool" where
  "bcrypt_ok env \<longleftrightarrow>
    (\<forall>salt password h. ae_bcrypt env salt password = Some h \<longrightarrow> ae_bcrypt_compare env h password)"

definition jwt_ok :: "auth_env \<Rightarrow> bool" where
  "jwt_ok env \<longleftrightarrow>
    (\<forall>alg k claims raw key_func now i x. ae_signed_string env alg k claims = Some raw \<longrightarrow>
      raw \<noteq> [] \<and> list_all plain_byte raw \<and>
      (key_func alg = Some k \<and> cl_issued_at claims = Some i \<and> i \<le> now \<and> cl_expires_at claims = Some x \<and> now < x \<longrightarrow>
        ae_parse_claims env key_func now raw = Some claims))"

definition uuid_ok :: "auth_env \<Rightarrow> bool" where
  "uuid_ok env \<longleftrightarrow> (\<forall>u. ae_uuid_string env u \<noteq> [] \<and> ae_uuid_parse env (ae_uuid_string env u) = Some u)"

definition date_ok :: "auth_env \<Rightarrow> bool" where
  "date_ok env \<longleftrightarrow> (\<forall>t. ae_numeric_date env t \<le> t \<and> t < ae_numeric_date env t + second)"

lemma trim_space_printable: "list_all plain_byte s \<Longrightarrow> trim_space s = s"
  by (cases "s = []") (auto simp: list_all_iff intro: trim_space_plain)

text \<open>A refresh token is base64: it is its own trimmed form.\<close>

lemma url_digit_plain: "plain_byte (url_digit n)"
  by (auto simp: url_digit_def plain_byte_def of_char_of)

lemma url_encode_plain: "list_all plain_byte (url_encode ns)"
  by (induction ns rule: url_encode.induct) (simp_all add: url_digit_plain)

lemma url_encode_Nil_iff: "url_encode ns = [] \<longleftrightarrow> ns = []"
  by (cases ns rule: url_encode.cases) simp_all

lemma refresh_token_trimmed:
  assumes "GenerateRefreshToken (Some bytes) = Inr raw" "bytes \<noteq> []"
  shows "trim_space raw = raw" "raw \<noteq> []"
proof -
  have raw: "raw = url_encode (map of_char (take refreshTokenBytes bytes))"
    using assms(1) by (simp add: GenerateRefreshToken_def)
  then show "raw \<noteq> []" using assms(2) by (simp add: url_encode_Nil_iff refreshTokenBytes_def)
  then show "trim_space raw = raw"
    using url_encode_plain raw by (simp add: trim_space_printable)
qed

lemma access_token_names_user:
  assumes "jwt_ok env" "uuid_ok env" "date_ok env" "GenerateAccessToken env issued user = Inr access"
    "ur_email user \<noteq> []" "issued \<le> now" "now + second \<le> issued + ae_access_ttl env"
    "GetUserByID (ur_id user) db = Inr user"
  shows "CurrentUser env now access db = Inr user"
proof -
  define claims where "claims = \<lparr>cl_email = ur_email user, cl_subject = ae_uuid_string env (ur_id user),
      cl_issued_at = Some (ae_numeric_date env issued),
      cl_expires_at = Some (ae_numeric_date env (issued + ae_access_ttl env))\<rparr>"
  have signed_tok: "ae_signed_string env HS256 (ae_access_secret env) claims = Some access"
    using assms(4) by (simp add: GenerateAccessToken_def claims_def split: option.splits)
  have dates: "ae_numeric_date env issued \<le> now" "now < ae_numeric_date env (issued + ae_access_ttl env)"
    using assms(3,6,7) unfolding date_ok_def by (smt (verit))+
  have tok: "access \<noteq> []" "trim_space access = access"
    using assms(1) signed_tok unfolding jwt_ok_def by (blast, metis trim_space_printable)
  have "ae_parse_claims env (accessKey env) now access = Some claims"
    using assms(1) signed_tok dates unfolding jwt_ok_def by (simp add: accessKey_def claims_def)
  then have "ValidateAccessToken env now access = Inr claims"
    using assms(2,5) by (simp add: ValidateAccessToken_def claims_def uuid_ok_def)
  then show ?thesis
    using tok assms(2,8) by (simp add: CurrentUser_def claims_def uuid_ok_def Let_def map_err_def)
qed

text \<open>What a successful \<open>issueAuthResponse\<close> and registration leave behind.\<close>

lemma issueAuthResponse_Inr:
  assumes "issueAuthResponse env cx user db = (Inr res, db')"
  shows "rs_user res = user" "GenerateAccessToken env (ac_token_now cx) user = Inr (rs_access res)"
    "\<exists>params row. newRefreshTokenParams env cx (ur_id user) = Inr (rs_refresh res, params) \<and>
      CreateRefreshToken (ac_db_now cx) params db = Inr (row, db')"
  using assms unfolding issueAuthResponse_def by (auto simp: op_run split: prod.splits)

lemma Register_Inr:
  assumes "Register env cx email password db = (Inr res, db')"
  shows "\<exists>user h db1. normalizeAndValidateEmail env email = Inr (NormalizeEmail email) \<and>
    ValidatePasswordStrength env password = Inr () \<and> ae_bcrypt env (ac_salt cx) password = Some h \<and>
    user = \<lparr>ur_id = ac_user_id cx, ur_email = NormalizeEmail email, ur_password_hash = h,
      ur_created_at = ac_db_now cx, ur_updated_at = ac_db_now cx\<rparr> \<and>
    CreateUser (ac_db_now cx) (user\<lparr>ur_created_at := 0, ur_updated_at := 0\<rparr>) db = Inr (user, db1) \<and>
    issueAuthResponse env cx user db1 = (Inr res, db')"
  using assms unfolding Register_def
  by (auto simp: op_run HashPassword_def auth_tables split: option.splits dest: normalized_canonical)

lemma GetUserByID_member:
  "auth_ok db \<Longrightarrow> user \<in> set (ab_users db) \<Longrightarrow> GetUserByID (ur_id user) db = Inr user"
  unfolding GetUserByID_def scan_row_Inr by (rule select_row_key [OF auth_okD(1)]) simp_all

lemma GetUserByEmail_member:
  "auth_ok db \<Longrightarrow> user \<in> set (ab_users db) \<Longrightarrow> GetUserByEmail (ur_email user) db = Inr user"
  unfolding GetUserByEmail_def scan_row_Inr by (rule select_row_key [OF auth_okD(2)]) simp_all

lemma GetRefreshTokenByHash_member:
  "auth_ok db \<Longrightarrow> t \<in> set (ab_tokens db) \<Longrightarrow> GetRefreshTokenByHash (rt_hash t) db = Inr t"
  unfolding GetRefreshTokenByHash_def scan_row_Inr by (rule select_row_key [OF auth_okD(4)]) simp_all

lemma bearerToken_printable:
  assumes "list_all plain_byte tok" "tok \<noteq> []"
  shows "bearerToken (''Bearer '' @ tok) = Some tok"
proof -
  have "trim_space (''Bearer '' @ tok) = ''Bearer '' @ tok"
    using assms by (intro trim_space_plain) (auto simp: plain_byte_def list_all_iff)
  moreover have "to_lower ''Bearer '' = ''bearer ''" by code_simp
  ultimately show ?thesis using assms by (simp add: bearerToken_def trim_space_printable Let_def)
qed

text \<open>A call can issue tokens: fresh values, random bytes, and a key that signs.\<close>

definition issue_ok :: "auth_env \<Rightarrow> auth_call \<Rightarrow> auth_db \<Rightarrow> bool" where
  "issue_ok env cx db \<longleftrightarrow> ac_random cx \<noteq> None \<and> ac_token_id cx \<notin> rt_id ` set (ab_tokens db) \<and>
     new_hash env cx \<notin> rt_hash ` set (ab_tokens db) \<and>
     (\<forall>claims. ae_signed_string env HS256 (ae_access_secret env) claims \<noteq> None)"

lemma issue_params:
  assumes "issue_ok env cx db"
  obtains raw params where "newRefreshTokenParams env cx uid = Inr (raw, params)"
    "rt_id params \<notin> rt_id ` set (ab_tokens db)" "rt_hash params \<notin> rt_hash ` set (ab_tokens db)"
    "rt_user params = uid"
proof -
  obtain raw where "GenerateRefreshToken (ac_random cx) = Inr raw"
    using assms by (auto simp: issue_ok_def GenerateRefreshToken_def)
  then obtain params where p: "newRefreshTokenParams env cx uid = Inr (raw, params)"
    by (simp add: newRefreshTokenParams_def)
  from that [OF p] newRefreshTokenParams_Inr [OF p] assms show thesis by (simp add: issue_ok_def)
qed

lemma issue_signs:
  assumes "issue_ok env cx db"
  obtains access where "GenerateAccessToken env now user = Inr access"
proof -
  have "\<exists>access. GenerateAccessToken env now user = Inr access"
    using assms by (auto simp: issue_ok_def GenerateAccessToken_def Let_def split: option.splits)
  then show thesis using that by blast
qed

lemma issue_succeeds:
  assumes "issue_ok env cx db" "ur_id user \<in> ur_id ` set (ab_users db)"
  shows "\<exists>res db'. issueAuthResponse env cx user db = (Inr res, db') \<and> rs_user res = user"
proof -
  obtain access where a: "GenerateAccessToken env (ac_token_now cx) user = Inr access"
    using issue_signs [OF assms(1)] .
  obtain raw params where p: "newRefreshTokenParams env cx (ur_id user) = Inr (raw, params)"
    "rt_id params \<notin> rt_id ` set (ab_tokens db)" "rt_hash params \<notin> rt_hash ` set (ab_tokens db)"
    "rt_user params = ur_id user" using issue_params [OF assms(1)] .
  show ?thesis
    using p assms(2) by (simp add: issueAuthResponse_def sbind_def spure_def sstmt_def sret_def a CreateRefreshToken_def Let_def)
qed

lemma RefreshRotate_succeeds:
  assumes "auth_ok db" "issue_ok env cx db" "t \<in> set (ab_tokens db)" "user \<in> set (ab_users db)"
    "rt_id stored = rt_id t" "rt_revoked_at t = None"
  shows "\<exists>pair db'. RefreshRotate env cx stored user db = (Inr pair, db')"
proof -
  let ?P = "\<lambda>u. rt_id u = rt_id stored \<and> rt_revoked_at u = None"
  obtain raw params where p: "newRefreshTokenParams env cx (ur_id user) = Inr (raw, params)"
    "rt_id params \<notin> rt_id ` set (ab_tokens db)" "rt_hash params \<notin> rt_hash ` set (ab_tokens db)"
    "rt_user params = ur_id user" using issue_params [OF assms(2)] .
  obtain access where a: "GenerateAccessToken env (ac_token_now cx) user = Inr access"
    using issue_signs [OF assms(2)] .
  have "\<exists>row db'. CreateRefreshToken (ac_db_now cx) params (revoke_where ?P (ac_now cx) db) = Inr (row, db')"
    using p assms(4) by (simp add: CreateRefreshToken_def Let_def)
  moreover have "\<exists>t \<in> set (ab_tokens db). ?P t" using assms(3,5,6) by auto
  ultimately obtain row db' where
    "RotateRefreshToken (ac_db_now cx) (rt_id stored) (ac_now cx) params db = Inr (row, db')"
    using RotateRefreshToken_Inr [OF assms(1)] by blast
  then show ?thesis
    by (simp add: RefreshRotate_def sbind_def spure_def serr_def sstmt_def sret_def p(1) a)
qed

lemma RefreshRead_succeeds:
  assumes "auth_ok db" "t \<in> set (ab_tokens db)" "user \<in> set (ab_users db)"
    "rt_user t = ur_id user" "rt_hash t = HashRefreshToken env (trim_space refresh)" "trim_space refresh \<noteq> []"
    "rt_revoked_at t = None" "ac_now cx < rt_expires_at t"
  shows "RefreshRead env cx refresh db = (Inr (t, user), db)"
  using assms(4-8) GetRefreshTokenByHash_member [OF assms(1,2)] GetUserByID_member [OF assms(1,3)]
  by (simp add: RefreshRead_def Let_def sbind_def scheck_def serr_def sread_def sret_def)

lemma refresh_succeeds:
  assumes "auth_ok db" "issue_ok env cx db" "t \<in> set (ab_tokens db)" "user \<in> set (ab_users db)"
    "rt_user t = ur_id user" "rt_hash t = HashRefreshToken env (trim_space refresh)" "trim_space refresh \<noteq> []"
    "rt_revoked_at t = None" "ac_now cx < rt_expires_at t"
  shows "\<exists>pair db'. RefreshTokens env cx refresh db = (Inr pair, db')"
  using RefreshRead_succeeds [OF assms(1,3-9)] RefreshRotate_succeeds [OF assms(1-4) refl assms(8)]
  by (simp add: RefreshTokens_def sbind_def)

lemma RefreshRotate_refused:
  assumes "auth_ok db" "spent (rt_id stored) db" "ac_random cx \<noteq> None"
  shows "RefreshRotate env cx stored user db = (Inl ErrInvalidRefreshToken, db)"
proof -
  obtain raw params where "newRefreshTokenParams env cx (ur_id user) = Inr (raw, params)"
    using assms(3) by (auto simp: newRefreshTokenParams_def GenerateRefreshToken_def)
  moreover have "RotateRefreshToken now (rt_id stored) at params db = Inl AuthNotFound" for now at params
    using assms(1,2) unfolding spent_def by (rule RotateRefreshToken_dead)
  ultimately show ?thesis
    by (simp add: RefreshRotate_def sbind_def spure_def serr_def sstmt_def on_error_def)
qed

lemma Register_succeeds:
  assumes "normalizeAndValidateEmail env email = Inr e" "ValidatePasswordStrength env password = Inr ()"
    "ae_bcrypt env (ac_salt cx) password = Some h" "ac_user_id cx \<notin> ur_id ` set (ab_users db)"
    "e \<notin> ur_email ` set (ab_users db)" "issue_ok env cx db"
  shows "\<exists>res db'. Register env cx email password db = (Inr res, db')"
proof -
  define user where "user = \<lparr>ur_id = ac_user_id cx, ur_email = e, ur_password_hash = h,
      ur_created_at = ac_db_now cx, ur_updated_at = ac_db_now cx\<rparr>"
  let ?db = "db\<lparr>ab_users := ab_users db @ [user]\<rparr>"
  have "issue_ok env cx ?db" using assms(6) by (simp add: issue_ok_def)
  from issue_succeeds [OF this, of user] obtain res db' where
    "issueAuthResponse env cx user ?db = (Inr res, db')" by auto
  then show ?thesis
    using assms(1-5) by (simp add: Register_def HashPassword_def CreateUser_def sbind_def spure_def serr_def
        sstmt_def Let_def user_def)
qed

text \<open>
  C36. Register and come back: the same email in any case and padding with the same password logs
  in as the same user, the issued access token identifies that user until a second before it
  expires, and the issued refresh token can be refreshed until it expires.
\<close>

theorem registered_user_gets_back_in:
  assumes "auth_ok db" "bcrypt_ok env" "jwt_ok env" "uuid_ok env" "date_ok env"
    "Register env cx email password db = (Inr res, db1)"
    "ac_random cx = Some bytes" "bytes \<noteq> []" "issue_ok env cx' db1"
  shows "ur_email (rs_user res) = NormalizeEmail email \<and>
    (NormalizeEmail email' = NormalizeEmail email \<longrightarrow>
      (\<exists>res' db2. Login env cx' email' password db1 = (Inr res', db2) \<and> rs_user res' = rs_user res)) \<and>
    (ac_token_now cx \<le> now \<and> now + second \<le> ac_token_now cx + ae_access_ttl env \<longrightarrow>
      HandleMe env now (''Bearer '' @ rs_access res) db1 = (200, UserBody (NewUser env (rs_user res)))) \<and>
    (ac_now cx' < ac_issue_now cx + ae_refresh_ttl env \<longrightarrow>
      (\<exists>pair db2. RefreshTokens env cx' (rs_refresh res) db1 = (Inr pair, db2)))"
proof -
  obtain user h db0 where reg: "normalizeAndValidateEmail env email = Inr (NormalizeEmail email)"
    "ValidatePasswordStrength env password = Inr ()" "ae_bcrypt env (ac_salt cx) password = Some h"
    "user = \<lparr>ur_id = ac_user_id cx, ur_email = NormalizeEmail email, ur_password_hash = h,
      ur_created_at = ac_db_now cx, ur_updated_at = ac_db_now cx\<rparr>"
    "CreateUser (ac_db_now cx) (user\<lparr>ur_created_at := 0, ur_updated_at := 0\<rparr>) db = Inr (user, db0)"
    "issueAuthResponse env cx user db0 = (Inr res, db1)"
    using Register_Inr [OF assms(6)] by blast
  note iss = issueAuthResponse_Inr [OF reg(6)]
  obtain params row where p: "newRefreshTokenParams env cx (ur_id user) = Inr (rs_refresh res, params)"
    and cr: "CreateRefreshToken (ac_db_now cx) params db0 = Inr (row, db1)" using iss(3) by blast
  have ok1: "auth_ok db1" using assms(1) step_relD [OF sound_register assms(6)] by (simp add: sound_def)
  have user_in: "user \<in> set (ab_users db1)" using reg(5) cr by (simp add: auth_tables)
  have row_in: "row \<in> set (ab_tokens db1)" "rt_user row = ur_id user" "rt_revoked_at row = None"
    "rt_hash row = HashRefreshToken env (rs_refresh res)" "rt_expires_at row = ac_issue_now cx + ae_refresh_ttl env"
    using cr newRefreshTokenParams_Inr [OF p] by (auto simp: auth_tables new_hash_def split: sum.splits)
  have email: "ur_email user = NormalizeEmail email" by (simp add: reg(4))
  note mem = ok1 user_in
  have login: "\<exists>res' db2. Login env cx' email' password db1 = (Inr res', db2) \<and> rs_user res' = rs_user res"
    if same: "NormalizeEmail email' = NormalizeEmail email"
  proof -
    have "normalizeAndValidateEmail env email' = Inr (ur_email user)"
      using reg(1) same unfolding normalizeAndValidateEmail_def Let_def email by (auto split: if_splits)
    moreover have "trim_space password \<noteq> []" using reg(2) by (auto simp: ValidatePasswordStrength_def)
    moreover have "VerifyPassword env password (ur_password_hash user)"
      using assms(2) reg(3) unfolding bcrypt_ok_def VerifyPassword_def by (simp add: reg(4))
    ultimately have "Login env cx' email' password db1 = issueAuthResponse env cx' user db1"
      using GetUserByEmail_member [OF mem]
      by (simp add: Login_def sbind_def spure_def scheck_def serr_def sread_def)
    then show ?thesis using issue_succeeds [OF assms(9), of user] user_in iss(1) by force
  qed
  have me: "HandleMe env now (''Bearer '' @ rs_access res) db1 = (200, UserBody (NewUser env (rs_user res)))"
    if "ac_token_now cx \<le> now" "now + second \<le> ac_token_now cx + ae_access_ttl env"
  proof -
    have "ur_email user \<noteq> []" using auth_okD(6) [OF mem] by (simp add: canonical_email_def)
    then have cur: "CurrentUser env now (rs_access res) db1 = Inr user"
      by (rule access_token_names_user [OF assms(3-5) iss(2) _ that GetUserByID_member [OF mem]])
    obtain claims where "ae_signed_string env HS256 (ae_access_secret env) claims = Some (rs_access res)"
      using iss(2) by (auto simp: GenerateAccessToken_def Let_def split: option.splits)
    then have "bearerToken (''Bearer '' @ rs_access res) = Some (rs_access res)"
      using assms(3) unfolding jwt_ok_def by (blast intro: bearerToken_printable)
    then show ?thesis by (simp add: HandleMe_def cur respond_def iss(1))
  qed
  have "GenerateRefreshToken (Some bytes) = Inr (rs_refresh res)"
    using newRefreshTokenParams_Inr [OF p] assms(7) by simp
  note raw = refresh_token_trimmed [OF this assms(8)]
  have refresh: "\<exists>pair db2. RefreshTokens env cx' (rs_refresh res) db1 = (Inr pair, db2)"
    if "ac_now cx' < ac_issue_now cx + ae_refresh_ttl env"
    using row_in that raw by (intro refresh_succeeds [OF mem(1) assms(9) row_in(1) mem(2)]) simp_all
  show ?thesis using login me refresh email iss(1) by simp
qed

section \<open>Refusals\<close>

text \<open>
  The limit of \<open>bcrypt.GenerateFromPassword\<close>: it fails for a password of more than 72 bytes
  (\<open>ErrPasswordTooLong\<close>).
\<close>

definition bcrypt_limit :: "auth_env \<Rightarrow> bool" where
  "bcrypt_limit env \<longleftrightarrow> (\<forall>salt password. length password > 72 \<longrightarrow> ae_bcrypt env salt password = None)"

text \<open>
  C40. A registration with a valid email and a strong password of more than 72 bytes is answered
  with status 500, an internal error, and nothing is stored: the length of a password is checked
  below but not above.
\<close>

theorem long_password_is_internal_error:
  assumes "bcrypt_limit env" "normalizeAndValidateEmail env email = Inr e"
    "ValidatePasswordStrength env password = Inr ()" "length password > 72"
    "fst (allowSensitive rq (ah_register h))"
  shows "HandleRegister env cx rq (Some (email, password)) h =
    ((500, ErrorBody ''internal server error''), h\<lparr>ah_register := snd (allowSensitive rq (ah_register h))\<rparr>)"
proof -
  have "HashPassword env (ac_salt cx) password = Inl (AuthFailure ''hash password'')"
    using assms(1,4) by (simp add: bcrypt_limit_def HashPassword_def)
  then have "Register env cx email password db = (Inl (AuthFailure ''hash password''), db)" for db
    using assms(2,3) by (simp add: Register_def sbind_def spure_def)
  then show ?thesis
    using assms(5) by (cases "allowSensitive rq (ah_register h)") (simp add: HandleRegister_def on_db_def respond_def)
qed

text \<open>The loop over the configured tokens finds the presented one.\<close>

lemma fold_compare:
  "m = 0 \<or> m = 1 \<Longrightarrow>
    fold (\<lambda>t matched. or matched (constant_time_compare provided t)) expected m =
      (if m = 1 \<or> provided \<in> set expected then 1 else 0)"
  by (induction expected arbitrary: m) (auto simp: constant_time_compare_def)

lemma matchesAnyToken_iff: "matchesAnyToken provided expected \<longleftrightarrow> provided \<noteq> [] \<and> provided \<in> set expected"
  by (auto simp: matchesAnyToken_def fold_compare)

text \<open>
  A guarded internal route runs its handler exactly when the trimmed header is one of the
  configured tokens, current or rotated; otherwise the answer is 401 and nothing changes. A header
  of spaces never matches, and when no token is configured no request passes.
\<close>

theorem internal_routes_need_a_token:
  "InternalServiceToken (ActiveServiceTokens service_token service_tokens) header next_handler s =
    (if trim_space header \<in> set (activeTokens (ActiveServiceTokens service_token service_tokens))
     then (Inr (fst (next_handler s)), snd (next_handler s)) else (Inl (401, ''unauthorized''), s)) \<and>
   [] \<notin> set (activeTokens (ActiveServiceTokens service_token service_tokens))"
  by (auto simp: InternalServiceToken_def matchesAnyToken_iff activeTokens_def split: prod.splits)

end
