(* ===== verification/AuthWitnesses.thy ===== *)
theory AuthWitnesses
  imports AuthLaws
begin

text \<open>
  The theorems on auth-service applied to a small service: libraries written out as functions that
  obey their contracts, a database with one user and one session, and the run in which two
  refreshes read the same token before either rotates it.
\<close>

section \<open>Libraries\<close>

text \<open>A code for lists of numbers in two letters, with which the demo package signs claims.\<close>

definition enc_nat :: "nat \<Rightarrow> string" where "enc_nat n = replicate n CHR ''a'' @ ''b''"

definition dec_nat :: "string \<Rightarrow> nat \<times> string" where
  "dec_nat s = (length (takeWhile (\<lambda>c. c = CHR ''a'') s), drop 1 (dropWhile (\<lambda>c. c = CHR ''a'') s))"

fun dec_nats :: "nat \<Rightarrow> string \<Rightarrow> nat list \<times> string" where
  "dec_nats 0 s = ([], s)"
| "dec_nats (Suc k) s =
    (case dec_nat s of (n, r) \<Rightarrow> (case dec_nats k r of (ns, r') \<Rightarrow> (n # ns, r')))"

definition enc_list :: "nat list \<Rightarrow> string" where
  "enc_list ns = enc_nat (length ns) @ concat (map enc_nat ns)"

definition dec_list :: "string \<Rightarrow> nat list \<times> string" where
  "dec_list s = (case dec_nat s of (k, r) \<Rightarrow> dec_nats k r)"

lemma dec_enc_nat [simp]: "dec_nat (enc_nat n @ r) = (n, r)"
  by (simp add: dec_nat_def enc_nat_def takeWhile_append dropWhile_append)

lemma dec_enc_nats [simp]: "dec_nats (length ns) (concat (map enc_nat ns) @ r) = (ns, r)"
  by (induction ns) simp_all

lemma dec_enc_list [simp]: "dec_list (enc_list ns @ r) = (ns, r)"
  by (simp add: dec_list_def enc_list_def)

lemma enc_list_plain: "list_all plain_byte (enc_list ns)"
  by (auto simp: enc_list_def enc_nat_def plain_byte_def list_all_iff)

definition time_nats :: "time option \<Rightarrow> nat list" where
  "time_nats t = (case t of None \<Rightarrow> [] | Some i \<Rightarrow> [if i < 0 then 1 else 0, nat \<bar>i\<bar>])"

definition nats_time :: "nat list \<Rightarrow> time option" where
  "nats_time ns = (case ns of [s, n] \<Rightarrow> Some (if s = 1 then - int n else int n) | _ \<Rightarrow> None)"

lemma nats_time_nats [simp]: "nats_time (time_nats t) = t"
  by (cases t) (simp_all add: time_nats_def nats_time_def)

definition demo_sign :: "string \<Rightarrow> string \<Rightarrow> access_claims \<Rightarrow> string option" where
  "demo_sign alg k c = Some (enc_list (map of_char alg) @ enc_list (map of_char k) @
     enc_list (map of_char (cl_email c)) @ enc_list (map of_char (cl_subject c)) @
     enc_list (time_nats (cl_issued_at c)) @ enc_list (time_nats (cl_expires_at c)) @ [])"

definition demo_parse :: "(string \<Rightarrow> string option) \<Rightarrow> time \<Rightarrow> string \<Rightarrow> access_claims option" where
  "demo_parse key_func now raw =
    (case dec_list raw of (alg, r1) \<Rightarrow> case dec_list r1 of (k, r2) \<Rightarrow> case dec_list r2 of (email, r3) \<Rightarrow>
     case dec_list r3 of (sub, r4) \<Rightarrow> case dec_list r4 of (iat, r5) \<Rightarrow> case dec_list r5 of (expi, _) \<Rightarrow>
       (if key_func (map char_of alg) = Some (map char_of k) \<and>
           (case nats_time iat of None \<Rightarrow> True | Some i \<Rightarrow> i \<le> now) \<and>
           (case nats_time expi of None \<Rightarrow> True | Some x \<Rightarrow> now < x)
        then Some \<lparr>cl_email = map char_of email, cl_subject = map char_of sub,
          cl_issued_at = nats_time iat, cl_expires_at = nats_time expi\<rparr>
        else None))"

lemma char_of_chars [simp]: "map char_of (map (of_char :: char \<Rightarrow> nat) s) = s"
  by (simp add: comp_def)

lemma char_of_comp [simp]: "map ((char_of :: nat \<Rightarrow> char) \<circ> of_char) s = s"
  by (simp add: comp_def)

definition demo_uuid_string :: "uuid \<Rightarrow> string" where
  "demo_uuid_string u = map (\<lambda>i. if bit u i then CHR ''1'' else CHR ''0'') [0..<128]"

definition demo_uuid_parse :: "string \<Rightarrow> uuid option" where
  "demo_uuid_parse s =
    (if length s = 128 then Some (horner_sum of_bool 2 (map (\<lambda>c. c = CHR ''1'') s)) else None)"

lemma demo_uuid_round [simp]: "demo_uuid_parse (demo_uuid_string u) = Some u"
proof -
  have "map (\<lambda>c. c = CHR ''1'') (demo_uuid_string u) = map (bit u) [0..<128]"
    by (simp add: demo_uuid_string_def comp_def)
  moreover have "take_bit 128 u = u" using take_bit_length_eq [of u] by simp
  ultimately show ?thesis
    by (simp add: demo_uuid_parse_def horner_sum_bit_eq_take_bit) (simp add: demo_uuid_string_def)
qed

lemma demo_uuid_some: "demo_uuid_string u \<noteq> []"
  by (simp add: demo_uuid_string_def)

definition demo_auth_env :: auth_env where
  "demo_auth_env = \<lparr>ae_parse_address = (\<lambda>s. if CHR ''@'' \<in> set s then Some s else None),
     ae_upper = (\<lambda>_. False), ae_lower = (\<lambda>_. False), ae_digit = (\<lambda>_. False),
     ae_bcrypt = (\<lambda>salt p. if length p > 72 then None else Some (''$2a$'' @ p)),
     ae_bcrypt_compare = (\<lambda>h p. h = ''$2a$'' @ p), ae_sha256_hex = (\<lambda>s. s),
     ae_numeric_date = (\<lambda>t. t div second * second), ae_signed_string = demo_sign,
     ae_parse_claims = demo_parse, ae_uuid_string = demo_uuid_string, ae_uuid_parse = demo_uuid_parse,
     ae_access_secret = ''k'', ae_access_ttl = 900 * second, ae_refresh_ttl = 86400 * second\<rparr>"

lemma demo_sign_plain: "demo_sign alg k c = Some raw \<Longrightarrow> list_all plain_byte raw"
  by (auto simp: demo_sign_def enc_list_plain)

lemma demo_sign_some: "demo_sign alg k c \<noteq> Some []"
  by (simp add: demo_sign_def enc_list_def enc_nat_def)

lemma demo_parse_sign:
  assumes "demo_sign alg k c = Some raw" "key_func alg = Some k" "cl_issued_at c = Some i" "i \<le> now"
    "cl_expires_at c = Some x" "now < x"
  shows "demo_parse key_func now raw = Some c"
proof -
  have raw: "raw = enc_list (map of_char alg) @ enc_list (map of_char k) @ enc_list (map of_char (cl_email c)) @
      enc_list (map of_char (cl_subject c)) @ enc_list (time_nats (cl_issued_at c)) @
      enc_list (time_nats (cl_expires_at c)) @ []"
    using assms(1) by (simp only: demo_sign_def option.inject)
  show ?thesis using assms(2-) unfolding raw demo_parse_def by (simp only: dec_enc_list prod.case) simp
qed

lemma demo_libraries:
  "bcrypt_ok demo_auth_env" "bcrypt_limit demo_auth_env" "jwt_ok demo_auth_env" "uuid_ok demo_auth_env"
  "date_ok demo_auth_env"
proof -
  show "bcrypt_ok demo_auth_env" "bcrypt_limit demo_auth_env"
    by (simp_all add: bcrypt_ok_def bcrypt_limit_def demo_auth_env_def)
  show "uuid_ok demo_auth_env"
    by (simp add: uuid_ok_def demo_auth_env_def demo_uuid_some)
  show "date_ok demo_auth_env"
  proof -
    have "t div second * second \<le> t" "t < t div second * second + second" for t
      using div_mult_mod_eq [of t second] pos_mod_bound [OF second_pos, of t] pos_mod_sign [OF second_pos, of t]
      by linarith+
    then show ?thesis by (simp add: date_ok_def demo_auth_env_def)
  qed
  show "jwt_ok demo_auth_env"
    by (auto simp: jwt_ok_def demo_auth_env_def demo_sign_some intro: demo_sign_plain demo_parse_sign)
qed

section \<open>A user with a session\<close>

definition demo_auth_user :: user_row where
  "demo_auth_user = \<lparr>ur_id = 1, ur_email = ''a@b.c'', ur_password_hash = ''$2a$Secret123'',
     ur_created_at = second, ur_updated_at = second\<rparr>"

definition demo_token :: refresh_token where
  "demo_token = \<lparr>rt_id = 10, rt_user = 1, rt_hash = ''tok'', rt_expires_at = 1000 * second,
     rt_revoked_at = None, rt_created_at = second\<rparr>"

definition demo_auth_db :: auth_db where
  "demo_auth_db = \<lparr>ab_users = [demo_auth_user], ab_tokens = [demo_token]\<rparr>"

definition demo_auth_call :: "uuid \<Rightarrow> char \<Rightarrow> auth_call" where
  "demo_auth_call i c = \<lparr>ac_now = 20 * second, ac_issue_now = 20 * second, ac_token_now = 20 * second,
     ac_db_now = 20 * second, ac_user_id = 2, ac_token_id = i, ac_salt = [],
     ac_random = Some (replicate 31 CHR ''r'' @ [c])\<rparr>"

definition demo_cleanup :: cleanup_config where
  "demo_cleanup = \<lparr>cf_expired_days = 30, cf_revoked_days = 30\<rparr>"

lemma demo_auth_ok: "auth_ok demo_auth_db"
  by (simp add: auth_ok_def demo_auth_db_def demo_auth_user_def demo_token_def key_unique_def
      canonical_email_def to_lower_def lower_char_def)

lemma length_url_encode: "length (url_encode ns) = (4 * length ns + 2) div 3"
  by (induction ns rule: url_encode.induct) simp_all

lemma demo_new_hash:
  "new_hash demo_auth_env (demo_auth_call i c) = url_encode (map of_char (replicate 31 CHR ''r'' @ [c]))"
  by (simp add: new_hash_def demo_auth_call_def GenerateRefreshToken_def HashRefreshToken_def demo_auth_env_def
      refreshTokenBytes_def)

lemma demo_hash_new: "new_hash demo_auth_env (demo_auth_call i c) \<noteq> ''tok''"
proof
  assume "new_hash demo_auth_env (demo_auth_call i c) = ''tok''"
  then have "length (new_hash demo_auth_env (demo_auth_call i c)) = 3" by simp
  then show False by (simp add: demo_new_hash length_url_encode)
qed

lemma demo_hashes_differ: "new_hash demo_auth_env (demo_auth_call i CHR ''x'') \<noteq> new_hash demo_auth_env (demo_auth_call j CHR ''y'')"
proof -
  have "url_encode (map of_char (replicate 31 CHR ''r'' @ ''x'')) \<noteq>
      url_encode (map of_char (replicate 31 CHR ''r'' @ ''y''))" by code_simp
  then show ?thesis unfolding demo_new_hash .
qed

lemma demo_call_simps [simp]:
  "ac_now (demo_auth_call i c) = 20 * second" "ac_token_id (demo_auth_call i c) = i"
  "ac_issue_now (demo_auth_call i c) = 20 * second" "ac_token_now (demo_auth_call i c) = 20 * second"
  "ac_random (demo_auth_call i c) = Some (replicate 31 CHR ''r'' @ [c])" "ac_salt (demo_auth_call i c) = []"
  "ac_user_id (demo_auth_call i c) = 2"
  by (simp_all add: demo_auth_call_def)

lemma demo_signs: "ae_signed_string demo_auth_env alg k claims \<noteq> None"
  by (simp add: demo_auth_env_def demo_sign_def)

lemma demo_raw: "HashRefreshToken demo_auth_env (trim_space ''tok'') = ''tok''" "trim_space ''tok'' = ''tok''"
  by (simp_all add: trim_space_plain plain_byte_def HashRefreshToken_def demo_auth_env_def)

lemma demo_members: "demo_token \<in> set (ab_tokens demo_auth_db)" "demo_auth_user \<in> set (ab_users demo_auth_db)"
  by (simp_all add: demo_auth_db_def)

lemma demo_read:
  "RefreshRead demo_auth_env (demo_auth_call i c) ''tok'' demo_auth_db = (Inr (demo_token, demo_auth_user), demo_auth_db)"
  using demo_raw by (intro RefreshRead_succeeds demo_auth_ok demo_members)
    (simp_all add: demo_token_def demo_auth_user_def second_def)

section \<open>Two refreshes of one token\<close>

definition two_readers :: auth_sys where
  "two_readers = fresh_start demo_auth_db\<lparr>sy_pending :=
     [(demo_auth_call 12 CHR ''y'', demo_token, demo_auth_user), (demo_auth_call 11 CHR ''x'', demo_token, demo_auth_user)]\<rparr>"

lemma two_readers_reachable: "(auth_step demo_auth_env demo_cleanup)\<^sup>*\<^sup>* (fresh_start demo_auth_db) two_readers"
proof -
  let ?s = "fresh_start demo_auth_db\<lparr>sy_pending := [(demo_auth_call 11 CHR ''x'', demo_token, demo_auth_user)]\<rparr>"
  have "auth_step demo_auth_env demo_cleanup (fresh_start demo_auth_db) ?s"
    using step_read [of demo_auth_env "demo_auth_call 11 CHR ''x''" "''tok''" "fresh_start demo_auth_db"] demo_read
    by (simp add: fresh_start_def)
  moreover have "auth_step demo_auth_env demo_cleanup ?s two_readers"
    using step_read [of demo_auth_env "demo_auth_call 12 CHR ''y''" "''tok''" ?s] demo_read
    by (simp add: fresh_start_def two_readers_def)
  ultimately show ?thesis by (meson rtranclp.rtrancl_into_rtrancl rtranclp.rtrancl_refl)
qed

lemma demo_issue: "i \<noteq> 10 \<Longrightarrow> issue_ok demo_auth_env (demo_auth_call i c) demo_auth_db"
  using demo_hash_new demo_signs by (simp add: issue_ok_def demo_auth_db_def demo_token_def)

text \<open>The first of the two rotates; the second, which had read the token before, is refused.\<close>

lemma second_reader_refused:
  "\<exists>s. (auth_step demo_auth_env demo_cleanup)\<^sup>*\<^sup>* (fresh_start demo_auth_db) s \<and>
     sy_minted s = [(10, 11)] \<and> sy_pending s = []"
proof -
  let ?x = "demo_auth_call 11 CHR ''x''" and ?y = "demo_auth_call 12 CHR ''y''"
  obtain pair db1 where rot: "RefreshRotate demo_auth_env ?x demo_token demo_auth_user demo_auth_db = (Inr pair, db1)"
    using RefreshRotate_succeeds [OF demo_auth_ok demo_issue demo_members refl, of 11 "CHR ''x''"] by (auto simp: demo_token_def)
  define s1 where "s1 = drew demo_auth_env ?x two_readers\<lparr>sy_db := db1,
      sy_pending := [(?y, demo_token, demo_auth_user)], sy_minted := [(10, 11)]\<rparr>"
  have calls: "?x \<noteq> ?y" by (simp add: demo_auth_call_def)
  have "fresh_call demo_auth_env ?x two_readers"
    using demo_hash_new by (simp add: fresh_call_def two_readers_def fresh_start_def demo_auth_db_def demo_token_def)
  then have st1: "auth_step demo_auth_env demo_cleanup two_readers s1"
    using step_rotate [of ?x demo_token demo_auth_user two_readers ?x demo_auth_env "Inr pair" db1 demo_cleanup] rot calls
    by (simp add: two_readers_def fresh_start_def s1_def demo_token_def)
  have ok1: "auth_ok db1" using step_relD [OF sound_refresh_rotate rot] demo_auth_ok by (simp add: sound_def)
  have "spent 10 db1" using RefreshRotate_consumes(2) [OF demo_auth_ok rot] by (simp add: demo_token_def)
  then have ref: "RefreshRotate demo_auth_env ?y demo_token demo_auth_user db1 = (Inl ErrInvalidRefreshToken, db1)"
    by (intro RefreshRotate_refused ok1) (simp_all add: demo_token_def)
  have "fresh_call demo_auth_env ?y s1"
    using demo_hash_new demo_hashes_differ [of 11 12]
    by (simp add: fresh_call_def s1_def two_readers_def fresh_start_def demo_auth_db_def demo_token_def drew_def)
  then have "auth_step demo_auth_env demo_cleanup s1
      (drew demo_auth_env ?y s1\<lparr>sy_db := db1, sy_pending := [], sy_minted := [(10, 11)]\<rparr>)"
    using step_rotate [of ?y demo_token demo_auth_user s1 ?y demo_auth_env "Inl ErrInvalidRefreshToken" db1 demo_cleanup] ref
    by (simp add: s1_def drew_def two_readers_def fresh_start_def)
  then show ?thesis
    using st1 two_readers_reachable
    by (intro exI [of _ "drew demo_auth_env ?y s1\<lparr>sy_db := db1, sy_pending := [], sy_minted := [(10, 11)]\<rparr>"])
      (auto intro: rtranclp.rtrancl_into_rtrancl)
qed

theorem refresh_token_is_single_use_witness:
  "\<exists>s. (auth_step demo_auth_env demo_cleanup)\<^sup>*\<^sup>* (fresh_start demo_auth_db) s \<and> sy_minted s = [(10, 11)] \<and>
     distinct (map fst (sy_minted s)) \<and>
     (\<forall>m \<in> set (sy_minted s). \<forall>t \<in> set (ab_tokens (sy_db s)). rt_id t = fst m \<longrightarrow> rt_revoked_at t \<noteq> None)"
  using second_reader_refused refresh_token_is_single_use [OF demo_auth_ok] by blast

theorem auth_rows_stay_typed_witness:
  "\<exists>s. (auth_step demo_auth_env demo_cleanup)\<^sup>*\<^sup>* (fresh_start demo_auth_db) s \<and> sy_minted s = [(10, 11)] \<and>
     key_unique rt_hash (ab_tokens (sy_db s)) \<and>
     (\<forall>t \<in> set (ab_tokens (sy_db s)). \<exists>u \<in> set (ab_users (sy_db s)). ur_id u = rt_user t)"
  using second_reader_refused auth_rows_stay_typed [OF demo_auth_ok] by blast

text \<open>A logout between the reads of two refreshes and their rotations.\<close>

theorem logged_out_session_is_over_witness:
  "\<exists>db1. Logout demo_auth_env (demo_auth_call 0 CHR ''z'') ''tok'' demo_auth_db = (Inr (), db1) \<and>
     RefreshTokens demo_auth_env (demo_auth_call 11 CHR ''x'') ''tok'' db1 = (Inl ErrInvalidRefreshToken, db1)"
proof -
  let ?cx = "demo_auth_call 0 CHR ''z''"
  obtain db1 where out: "Logout demo_auth_env ?cx ''tok'' demo_auth_db = (Inr (), db1)"
    using demo_raw by (simp add: Logout_def sbind_def scheck_def sdo_def)
  have two: "sy_db two_readers = demo_auth_db" by (simp add: two_readers_def fresh_start_def)
  have "RefreshTokens demo_auth_env (demo_auth_call 11 CHR ''x'') ''tok'' (sy_db (two_readers\<lparr>sy_db := db1\<rparr>)) =
      (Inl ErrInvalidRefreshToken, sy_db (two_readers\<lparr>sy_db := db1\<rparr>))"
    using logged_out_session_is_over [OF demo_auth_ok two_readers_reachable _ _ _ rtranclp.rtrancl_refl,
        of demo_token "''tok''" ?cx db1 "demo_auth_call 11 CHR ''x''"]
      demo_members out demo_raw two by (simp add: demo_token_def)
  then show ?thesis using out by simp
qed

section \<open>Retention, registration, long passwords\<close>

theorem cleanup_deletes_what_dry_run_counts_witness:
  "\<exists>db'. runCleanup demo_cleanup (1000 * second + 31 * day) ''expired_refresh_tokens''
      (Some \<lparr>cq_dry_run = True, cq_batch = 2, cq_max_batches = 3\<rparr>) (Some demo_auth_db) =
      ((200, Inr \<lparr>cr_task = ''expired_refresh_tokens'', cr_dry_run = True, cr_scanned = 1, cr_deleted = 0\<rparr>),
       Some demo_auth_db) \<and>
    runCleanup demo_cleanup (1000 * second + 31 * day) ''expired_refresh_tokens''
      (Some \<lparr>cq_dry_run = False, cq_batch = 2, cq_max_batches = 3\<rparr>) (Some demo_auth_db) =
      ((200, Inr \<lparr>cr_task = ''expired_refresh_tokens'', cr_dry_run = False, cr_scanned = 1, cr_deleted = 1\<rparr>),
       Some db')"
proof -
  have task: "cleanupTask demo_cleanup ''expired_refresh_tokens'' = Some (30, \<lambda>t. Some (rt_expires_at t))"
    by (simp add: cleanupTask_def demo_cleanup_def)
  have one: "int (length (filter (eligible_row (\<lambda>t. Some (rt_expires_at t)) (1000 * second + 31 * day - 30 * day))
      (ab_tokens demo_auth_db))) = 1"
    by (simp add: demo_auth_db_def demo_token_def eligible_row_def day_def second_def)
  from cleanup_deletes_what_dry_run_counts [OF demo_auth_ok task, of 2 3 "1000 * second + 31 * day"]
  show ?thesis unfolding one by simp blast
qed

lemma demo_registration:
  "\<exists>res db1. Register demo_auth_env (demo_auth_call 11 CHR ''x'') '' New@B.c '' ''Secret123'' demo_auth_db = (Inr res, db1)"
proof (rule Register_succeeds)
  have "NormalizeEmail '' New@B.c '' = ''new@b.c''" by code_simp
  then show "normalizeAndValidateEmail demo_auth_env '' New@B.c '' = Inr ''new@b.c''"
    by (simp add: normalizeAndValidateEmail_def demo_auth_env_def)
  have "trim_space ''Secret123'' = ''Secret123''" by (simp add: trim_space_plain plain_byte_def)
  then show "ValidatePasswordStrength demo_auth_env ''Secret123'' = Inr ()"
    by (simp add: ValidatePasswordStrength_def runes_ascii in_bytes_def is_upper_rune_def is_lower_rune_def is_digit_rune_def)
  show "ae_bcrypt demo_auth_env (ac_salt (demo_auth_call 11 CHR ''x'')) ''Secret123'' = Some ''$2a$Secret123''"
    by (simp add: demo_auth_env_def)
qed (simp_all add: demo_auth_db_def demo_auth_user_def demo_issue [unfolded demo_auth_db_def demo_auth_user_def])

lemma demo_issue_again:
  assumes "Register demo_auth_env (demo_auth_call 11 CHR ''x'') email password demo_auth_db = (Inr res, db1)"
  shows "issue_ok demo_auth_env (demo_auth_call 12 CHR ''y'') db1"
proof -
  have ag: "ages (drawn demo_auth_env (demo_auth_call 11 CHR ''x'')) demo_auth_db db1"
    using step_relD [OF sound_register assms] demo_auth_ok by (simp add: sound_def)
  have "rt_id ` set (ab_tokens db1) \<subseteq> {11, 10}"
    "rt_hash ` set (ab_tokens db1) \<subseteq> {new_hash demo_auth_env (demo_auth_call 11 CHR ''x''), ''tok''}"
    using ages_keys [OF ag] by (simp_all add: drawn_def demo_auth_db_def demo_token_def insert_commute)
  moreover have "(12 :: uuid) \<notin> {11, 10}" by simp
  moreover have "new_hash demo_auth_env (demo_auth_call 12 CHR ''y'') \<notin>
      {new_hash demo_auth_env (demo_auth_call 11 CHR ''x''), ''tok''}"
    using demo_hash_new demo_hashes_differ [of 11 12] by (metis empty_iff insertE)
  ultimately have "12 \<notin> rt_id ` set (ab_tokens db1)"
    "new_hash demo_auth_env (demo_auth_call 12 CHR ''y'') \<notin> rt_hash ` set (ab_tokens db1)"
    by (meson subsetD)+
  then show ?thesis using demo_signs by (simp add: issue_ok_def)
qed

theorem registered_user_gets_back_in_witness:
  "\<exists>res db1. Register demo_auth_env (demo_auth_call 11 CHR ''x'') '' New@B.c '' ''Secret123'' demo_auth_db = (Inr res, db1) \<and>
     (\<exists>res' db2. Login demo_auth_env (demo_auth_call 12 CHR ''y'') ''new@b.c'' ''Secret123'' db1 = (Inr res', db2) \<and>
       rs_user res' = rs_user res) \<and>
     HandleMe demo_auth_env (100 * second) (''Bearer '' @ rs_access res) db1 =
       (200, UserBody (NewUser demo_auth_env (rs_user res))) \<and>
     (\<exists>pair db2. RefreshTokens demo_auth_env (demo_auth_call 12 CHR ''y'') (rs_refresh res) db1 = (Inr pair, db2))"
proof -
  let ?cx = "demo_auth_call 11 CHR ''x''" and ?cx' = "demo_auth_call 12 CHR ''y''"
  obtain res db1 where reg: "Register demo_auth_env ?cx '' New@B.c '' ''Secret123'' demo_auth_db = (Inr res, db1)"
    using demo_registration by blast
  have same: "NormalizeEmail ''new@b.c'' = NormalizeEmail '' New@B.c ''" by code_simp
  have bytes: "ac_random ?cx = Some (replicate 31 CHR ''r'' @ ''x'')" "replicate 31 CHR ''r'' @ ''x'' \<noteq> []" by simp_all
  have times: "ac_token_now ?cx \<le> 100 * second \<and> 100 * second + second \<le> ac_token_now ?cx + ae_access_ttl demo_auth_env"
    "ac_now ?cx' < ac_issue_now ?cx + ae_refresh_ttl demo_auth_env"
    by (simp_all add: demo_auth_env_def second_def)
  from registered_user_gets_back_in [OF demo_auth_ok demo_libraries(1,3-5) reg bytes demo_issue_again [OF reg],
      of "''new@b.c''" "100 * second"] same times reg
  show ?thesis by blast
qed

lemma lower_run:
  "passwordClasses demo_auth_env (replicate n ''x'') (True, True, True) = (True, True, True)"
  by (induction n) (simp_all add: is_upper_rune_def is_lower_rune_def in_bytes_def)

theorem long_password_is_internal_error_witness:
  "fst (HandleRegister demo_auth_env (demo_auth_call 11 CHR ''x'') \<lparr>aw_now = second, aw_remote = ''1.2.3.4:5'', aw_original = None\<rparr>
     (Some (''a@b.c'', ''Aa1'' @ replicate 70 CHR ''x'')) (NewHandler \<lparr>ab_users = [], ab_tokens = []\<rparr>)) =
   (500, ErrorBody ''internal server error'')"
proof -
  let ?rq = "\<lparr>aw_now = second, aw_remote = ''1.2.3.4:5'', aw_original = None\<rparr>"
  let ?h = "NewHandler \<lparr>ab_users = [], ab_tokens = []\<rparr>" and ?p = "''Aa1'' @ replicate 70 CHR ''x''"
  have "NormalizeEmail ''a@b.c'' = ''a@b.c''" by code_simp
  then have email: "normalizeAndValidateEmail demo_auth_env ''a@b.c'' = Inr ''a@b.c''"
    by (simp add: normalizeAndValidateEmail_def demo_auth_env_def)
  have "trim_space ?p = ?p" by (rule trim_space_printable) (simp add: plain_byte_def list_all_iff)
  moreover have "runes ?p = [''A'', ''a'', ''1''] @ replicate 70 ''x''"
    by (simp add: runes_ascii runes_ascii_run in_bytes_def)
  moreover have "passwordClasses demo_auth_env ([''A'', ''a'', ''1''] @ replicate 70 ''x'') (False, False, False) = (True, True, True)"
    by (simp add: lower_run is_upper_rune_def is_lower_rune_def is_digit_rune_def in_bytes_def)
  ultimately have strong: "ValidatePasswordStrength demo_auth_env ?p = Inr ()"
    by (simp add: ValidatePasswordStrength_def del: append.simps)
  have "fst (allowSensitive ?rq (ah_register ?h))"
    by (simp add: allowSensitive_def NewHandler_def newAuthRateLimiter_def allow_def bucket_of_def Let_def)
  from long_password_is_internal_error [OF demo_libraries(2) email strong _ this] show ?thesis by simp
qed

end
