(* ===== verification/ItineraryParts.thy ===== *)
theory ItineraryParts
  imports TripStore Utf8
begin

text \<open>
  The validation of the parts of an itinerary item (\<open>application/service/trip.go\<close> lines 1896
  to 2189, \<open>internal/budget/validator.go\<close>): times of day, scheduling status, transport modes, cost
  estimates, transfers, attached places and the summaries of the enrichment services. Every function
  returns the normalized value or the error the request is refused with; the index prefixes of the
  messages are kept. A validator behind a nil pointer is \<open>opt_check\<close>.
\<close>

definition opt_check :: "('a \<Rightarrow> 'e + 'a) \<Rightarrow> 'a option \<Rightarrow> 'e + 'a option" where
  "opt_check f v = (case v of None \<Rightarrow> Inr None | Some x \<Rightarrow> rbind (f x) (\<lambda>y. Inr (Some y)))"

text \<open>\<open>%d\<close> for an index.\<close>

fun itoa :: "nat \<Rightarrow> string" where
  "itoa n = (if n < 10 then [char_of (48 + n)] else itoa (n div 10) @ [char_of (48 + n mod 10)])"

declare itoa.simps [simp del]

definition day_label :: "nat \<Rightarrow> string" where
  "day_label d = ''itinerary.days['' @ itoa d @ '']''"

definition item_label :: "nat \<Rightarrow> nat \<Rightarrow> string" where
  "item_label d i = day_label d @ ''.items['' @ itoa i @ '']''"

section \<open>Times of day\<close>

definition asciiDigit :: "char \<Rightarrow> bool" where
  "asciiDigit c \<longleftrightarrow> 48 \<le> (of_char c :: nat) \<and> (of_char c :: nat) \<le> 57"

definition digit_value :: "char \<Rightarrow> int" where
  "digit_value c = int (of_char c) - 48"

definition parseHHMM :: "string \<Rightarrow> int option" where
  "parseHHMM s =
    (case s of
       [a, b, c, d, e] \<Rightarrow>
        (if c \<noteq> CHR '':'' then None
         else if \<not> asciiDigit a \<or> \<not> asciiDigit b \<or> \<not> asciiDigit d \<or> \<not> asciiDigit e then None
         else (let hour = digit_value a * 10 + digit_value b; mins = digit_value d * 10 + digit_value e
               in if hour > 23 \<or> mins > 59 then None else Some (hour * 60 + mins)))
     | _ \<Rightarrow> None)"

definition validHHMM :: "string \<Rightarrow> bool" where
  "validHHMM s \<longleftrightarrow> parseHHMM s \<noteq> None"

definition normalizeSchedulingStatus :: "string \<Rightarrow> string \<Rightarrow> bool \<Rightarrow> app_error + string" where
  "normalizeSchedulingStatus raw start all_day =
    (let v = to_lower (trim_space raw) in
     if v = [] \<or> v = ''scheduled'' then
       Inr (if trim_space start = [] \<and> \<not> all_day then ''Unscheduled'' else ''Scheduled'')
     else if v = ''unscheduled'' then Inr ''Unscheduled''
     else if v = ''conflict'' then Inr ''Conflict''
     else if v \<in> {''needsreview'', ''needs_review'', ''needs-review'', ''needs review''} then Inr ''NeedsReview''
     else Inl (InvalidInput ''unsupported scheduling status''))"

section \<open>Transport modes\<close>

definition token_char :: "char \<Rightarrow> char" where
  "token_char c = (if c = CHR ''-'' \<or> c = CHR '' '' then CHR ''_'' else c)"

definition NormalizeRouteToken :: "string \<Rightarrow> string" where
  "NormalizeRouteToken v = map token_char (to_lower (trim_space v))"

definition SupportedTransportModes :: "string list" where
  "SupportedTransportModes = [''walk'', ''car'', ''rental_car'', ''train'', ''bus'', ''flight'', ''boat'',
     ''ferry'', ''bike'', ''public_transport'', ''hiking'', ''other'']"

section \<open>Cost estimates\<close>

definition validCategories :: "string list" where
  "validCategories = [''food'', ''transport'', ''ticket'', ''activity'', ''accommodation'', ''shopping'', ''other'']"

definition validConfidences :: "string list" where
  "validConfidences = [''low'', ''medium'', ''high'']"

definition validSources :: "string list" where
  "validSources = [''ai'', ''manual'', ''provider'', ''availability'']"

definition maxNoteLength :: nat where "maxNoteLength = 300"

definition currency_code :: "string \<Rightarrow> bool" where
  "currency_code s \<longleftrightarrow> length s = 3 \<and> (\<forall>c \<in> set s. 65 \<le> (of_char c :: nat) \<and> (of_char c :: nat) \<le> 90)"

text \<open>
  The note is cut to 300 characters after it was trimmed, so that the cut may leave a space at
  its end.
\<close>

definition NormalizeEstimatedCost :: "string \<Rightarrow> estimated_cost \<Rightarrow> app_error + estimated_cost" where
  "NormalizeEstimatedCost defaultSource c =
    (let currency = to_upper (trim_space (ec_currency c));
         category = to_lower (trim_space (ec_category c));
         confidence = to_lower (trim_space (ec_confidence c));
         source = to_lower (trim_space (ec_source c));
         note = trim_space (ec_note c)
     in if (case ec_amount c of None \<Rightarrow> False | Some a \<Rightarrow> a < 0) then
          Inl (InvalidInput ''amount must be >= 0'')
        else if currency \<noteq> [] \<and> \<not> currency_code currency then
          Inl (InvalidInput ''currency must be a 3-letter uppercase code'')
        else Inr (c\<lparr>ec_currency := currency,
          ec_category := (if category \<in> set validCategories then category else ''other''),
          ec_confidence := (if confidence \<in> set validConfidences then confidence
             else if ec_amount c \<noteq> None then ''low'' else []),
          ec_source := (if source \<in> set validSources then source else defaultSource),
          ec_note := (if length (runes note) > maxNoteLength then concat (take maxNoteLength (runes note))
             else note)\<rparr>))"

text \<open>The error of a nested normalization, put behind the label of its field.\<close>

definition labelled :: "string \<Rightarrow> app_error + 'a \<Rightarrow> app_error + 'a" where
  "labelled l r =
    (case r of Inl (InvalidInput m) \<Rightarrow> Inl (InvalidInput (l @ '': '' @ m)) | _ \<Rightarrow> r)"

section \<open>Transfers\<close>

definition validateAndNormalizeTransfer ::
  "string \<Rightarrow> transfer_details \<Rightarrow> app_error + transfer_details" where
  "validateAndNormalizeTransfer label t =
    (let from' = trim_space (tf_from t); to' = trim_space (tf_to t); mode = NormalizeRouteToken (tf_mode t)
     in rbind (guard_err (from' \<noteq> []) (InvalidInput (label @ ''.from is required''))) (\<lambda>_.
        rbind (guard_err (to' \<noteq> []) (InvalidInput (label @ ''.to is required''))) (\<lambda>_.
        rbind (guard_err (mode \<in> set SupportedTransportModes) (InvalidInput (label @ ''.mode is unsupported''))) (\<lambda>_.
        rbind (guard_err (case tf_duration t of None \<Rightarrow> True | Some d \<Rightarrow> 0 \<le> d)
            (InvalidInput (label @ ''.estimatedDurationMinutes must be >= 0''))) (\<lambda>_.
        rbind (guard_err (case tf_distance t of None \<Rightarrow> True | Some d \<Rightarrow> 0 \<le> d)
            (InvalidInput (label @ ''.estimatedDistanceKm must be >= 0''))) (\<lambda>_.
        rbind (labelled (label @ ''.estimatedCost'') (opt_check (NormalizeEstimatedCost ''ai'') (tf_cost t))) (\<lambda>cost.
          Inr (t\<lparr>tf_leg := trim_space (tf_leg t), tf_from := from', tf_to := to', tf_mode := mode,
             tf_cost := map_option (\<lambda>c. if ec_category c = [] then c\<lparr>ec_category := ''transport''\<rparr> else c) cost,
             tf_notes := trim_space (tf_notes t)\<rparr>))))))))"

section \<open>Places\<close>

definition maxPlaceURLLength :: nat where "maxPlaceURLLength = 2048"

definition hours_interval :: "string \<Rightarrow> nat \<Rightarrow> opening_hours \<Rightarrow> app_error + opening_hours" where
  "hours_interval label n h =
    (let lbl = label @ ''.openingHours['' @ itoa n @ '']'';
         open' = trim_space (oh_open h); close' = trim_space (oh_close h)
     in rbind (guard_err (1 \<le> oh_day h \<and> oh_day h \<le> 7)
            (InvalidInput (lbl @ ''.dayOfWeek must be between 1 and 7''))) (\<lambda>_.
        case parseHHMM open' of
          None \<Rightarrow> Inl (InvalidInput (lbl @ ''.open must be in HH:mm format''))
        | Some from' \<Rightarrow>
           (case parseHHMM close' of
              None \<Rightarrow> Inl (InvalidInput (lbl @ ''.close must be in HH:mm format''))
            | Some to' \<Rightarrow>
               (if from' \<ge> to' then Inl (InvalidInput (lbl @ ''.open must be before close''))
                else Inr (h\<lparr>oh_open := open', oh_close := close'\<rparr>)))))"

fun check_all :: "(nat \<Rightarrow> 'a \<Rightarrow> 'e + 'b) \<Rightarrow> nat \<Rightarrow> 'a list \<Rightarrow> 'e + 'b list" where
  "check_all f n [] = Inr []"
| "check_all f n (x # xs) = rbind (f n x) (\<lambda>y. rbind (check_all f (Suc n) xs) (\<lambda>ys. Inr (y # ys)))"

definition validateAndNormalizeOpeningHours ::
  "string \<Rightarrow> opening_hours list \<Rightarrow> app_error + opening_hours list" where
  "validateAndNormalizeOpeningHours label hs = check_all (hours_interval label) 0 hs"

definition outside :: "rat \<Rightarrow> rat \<Rightarrow> rat option \<Rightarrow> bool" where
  "outside lo hi v = (case v of None \<Rightarrow> False | Some x \<Rightarrow> x < lo \<or> x > hi)"

definition validateAndNormalizePlaceRef :: "string \<Rightarrow> place_ref \<Rightarrow> app_error + place_ref" where
  "validateAndNormalizePlaceRef label p =
    (let provider = trim_space (pf_provider p); pid = trim_space (pf_place_id p);
         name = trim_space (pf_name p); address = trim_space (pf_address p);
         url = trim_space (pf_map_url p); website = trim_space (pf_website p)
     in rbind (guard_err (provider \<noteq> []) (InvalidInput (label @ ''.provider is required''))) (\<lambda>_.
        rbind (guard_err (pid \<noteq> []) (InvalidInput (label @ ''.providerPlaceId is required''))) (\<lambda>_.
        rbind (guard_err (name \<noteq> []) (InvalidInput (label @ ''.name is required''))) (\<lambda>_.
        rbind (guard_err (address \<noteq> []) (InvalidInput (label @ ''.address is required''))) (\<lambda>_.
        rbind (guard_err (\<not> outside (-90) 90 (pf_latitude p))
            (InvalidInput (label @ ''.latitude must be between -90 and 90''))) (\<lambda>_.
        rbind (guard_err (\<not> outside (-180) 180 (pf_longitude p))
            (InvalidInput (label @ ''.longitude must be between -180 and 180''))) (\<lambda>_.
        rbind (guard_err (\<not> outside 0 5 (pf_rating p))
            (InvalidInput (label @ ''.rating must be between 0 and 5''))) (\<lambda>_.
        rbind (guard_err (case pf_rating_count p of None \<Rightarrow> True | Some n \<Rightarrow> 0 \<le> n)
            (InvalidInput (label @ ''.ratingCount must be >= 0''))) (\<lambda>_.
        rbind (guard_err (length url \<le> maxPlaceURLLength)
            (InvalidInput (label @ ''.mapUrl must be at most 2048 characters''))) (\<lambda>_.
        rbind (guard_err (length website \<le> maxPlaceURLLength)
            (InvalidInput (label @ ''.website must be at most 2048 characters''))) (\<lambda>_.
        rbind (validateAndNormalizeOpeningHours label (pf_hours p)) (\<lambda>hours.
          Inr (p\<lparr>pf_provider := provider, pf_place_id := pid, pf_name := name, pf_address := address,
             pf_map_url := url, pf_category := trim_space (pf_category p), pf_website := website,
             pf_hours := hours\<rparr>)))))))))))))"

section \<open>Enrichment summaries\<close>

definition match_statuses :: "string list" where
  "match_statuses = [''matched'', ''no_match'', ''skipped'', ''failed'']"

definition review_statuses :: "string list" where
  "review_statuses = [[], ''pending'', ''accepted'', ''changed'', ''removed'']"

definition validateAndNormalizePlaceEnrichment :: "string \<Rightarrow> place_meta \<Rightarrow> app_error + place_meta" where
  "validateAndNormalizePlaceEnrichment label m =
    (let status = trim_space (pm_status m); review = trim_space (pm_review m);
         query = trim_space (pm_query m); provider = trim_space (pm_provider m); reason = trim_space (pm_reason m)
     in rbind (guard_err (status \<in> set match_statuses)
            (InvalidInput (label @ ''.status must be one of matched, no_match, skipped, failed''))) (\<lambda>_.
        rbind (guard_err (review \<in> set review_statuses)
            (InvalidInput (label @ ''.reviewStatus must be one of pending, accepted, changed, removed''))) (\<lambda>_.
        rbind (guard_err (0 \<le> pm_confidence m \<and> pm_confidence m \<le> 1)
            (InvalidInput (label @ ''.confidence must be between 0 and 1''))) (\<lambda>_.
        rbind (guard_err (length query \<le> 300) (InvalidInput (label @ ''.query must be at most 300 characters''))) (\<lambda>_.
        rbind (guard_err (length provider \<le> 50) (InvalidInput (label @ ''.provider must be at most 50 characters''))) (\<lambda>_.
        rbind (guard_err (length reason \<le> 200) (InvalidInput (label @ ''.reason must be at most 200 characters''))) (\<lambda>_.
          Inr (m\<lparr>pm_status := status, pm_review := review, pm_query := query, pm_provider := provider,
             pm_matched_at := trim_space (pm_matched_at m), pm_reason := reason\<rparr>))))))))"

definition validateAndNormalizePriceEnrichment :: "string \<Rightarrow> price_meta \<Rightarrow> app_error + price_meta" where
  "validateAndNormalizePriceEnrichment label m =
    (let status = trim_space (xm_status m); review = trim_space (xm_review m);
         provider = trim_space (xm_provider m); reason = trim_space (xm_reason m)
     in rbind (guard_err (status \<in> set match_statuses)
            (InvalidInput (label @ ''.status must be one of matched, no_match, skipped, failed''))) (\<lambda>_.
        rbind (guard_err (review \<in> set review_statuses)
            (InvalidInput (label @ ''.reviewStatus must be one of pending, accepted, changed, removed''))) (\<lambda>_.
        rbind (guard_err (0 \<le> xm_confidence m \<and> xm_confidence m \<le> 1)
            (InvalidInput (label @ ''.matchConfidence must be between 0 and 1''))) (\<lambda>_.
        rbind (guard_err (length provider \<le> 50) (InvalidInput (label @ ''.provider must be at most 50 characters''))) (\<lambda>_.
        rbind (guard_err (length reason \<le> 200) (InvalidInput (label @ ''.reason must be at most 200 characters''))) (\<lambda>_.
          Inr (m\<lparr>xm_status := status, xm_review := review, xm_provider := provider,
             xm_price_type := trim_space (xm_price_type m), xm_updated_at := trim_space (xm_updated_at m),
             xm_reason := reason\<rparr>)))))))"

definition availability_statuses :: "string list" where
  "availability_statuses = [[], ''available'', ''limited'', ''unavailable'', ''unknown'']"

definition validateAndNormalizeAvailabilityCheck ::
  "string \<Rightarrow> availability_meta \<Rightarrow> app_error + availability_meta" where
  "validateAndNormalizeAvailabilityCheck label m =
    (let provider = trim_space (am_provider m); status = trim_space (to_lower (am_status m));
         oid = trim_space (am_option_id m)
     in rbind (guard_err (length provider \<le> 40) (InvalidInput (label @ ''.provider must be at most 40 characters''))) (\<lambda>_.
        rbind (guard_err (status \<in> set availability_statuses)
            (InvalidInput (label @ ''.status must be one of available, limited, unavailable, unknown''))) (\<lambda>_.
        rbind (guard_err (0 \<le> am_confidence m \<and> am_confidence m \<le> 1)
            (InvalidInput (label @ ''.matchConfidence must be between 0 and 1''))) (\<lambda>_.
        rbind (guard_err (length oid \<le> 200)
            (InvalidInput (label @ ''.selectedOptionId must be at most 200 characters''))) (\<lambda>_.
          Inr (m\<lparr>am_provider := provider, am_status := status, am_checked_at := trim_space (am_checked_at m),
             am_option_id := oid\<rparr>))))))"

end
