(* ===== verification/Schedule.thy ===== *)
theory Schedule
  imports ItineraryParts "HOL-Library.Product_Lexorder"
begin

text \<open>
  The schedule of a day (\<open>validateDayScheduleConflicts\<close>, \<open>scheduleEndMinute\<close> and
  \<open>scheduleOverlapAllowed\<close> of \<open>application/service/trip.go\<close>): every timed item is a span of
  minutes of its day; the spans are sorted by start and end, and each is compared with the one
  before it. \<open>day_spans\<close> is the reference: the spans of a day without any check.
\<close>

section \<open>Names\<close>

text \<open>\<open>strings.Fields\<close> joined again with single spaces, in lower case.\<close>

function fields_from :: "string \<Rightarrow> string \<Rightarrow> string list" where
  "fields_from cur s =
    (case lead space_encodings s of
       Some e \<Rightarrow> (if cur = [] then [] else [cur]) @ fields_from [] (drop (length e) s)
     | None \<Rightarrow> (case s of [] \<Rightarrow> (if cur = [] then [] else [cur]) | c # s' \<Rightarrow> fields_from (cur @ [c]) s'))"
  by pat_completeness auto
termination
proof (relation "measure (\<lambda>(cur, s). length s)")
  fix cur s e
  assume "lead space_encodings s = Some e"
  then have "e \<noteq> []" "prefix e s" by (auto dest: lead_Some)
  then have "0 < length e" "length e \<le> length s" by (auto simp: prefix_length_le)
  then have "length s - length e < length s" by linarith
  then show "(([], drop (length e) s), cur, s) \<in> measure (\<lambda>(cur, s). length s)" by simp
qed simp_all

declare fields_from.simps [simp del]

fun join_with :: "string \<Rightarrow> string list \<Rightarrow> string" where
  "join_with sep [] = []"
| "join_with sep [x] = x"
| "join_with sep (x # y # xs) = x @ sep @ join_with sep (y # xs)"

definition squeeze_lower :: "string \<Rightarrow> string" where
  "squeeze_lower s = to_lower (join_with '' '' (fields_from [] s))"

definition contains :: "string \<Rightarrow> string \<Rightarrow> bool" where
  "contains s sub \<longleftrightarrow> sublist sub s"

section \<open>Spans\<close>

record schedule_span =
  sp_index :: nat
  sp_start :: int
  sp_end :: int
  sp_item :: itinerary_item

definition scheduleEndMinute :: "itinerary_item \<Rightarrow> int \<Rightarrow> int" where
  "scheduleEndMinute it start =
    (case parseHHMM (ii_end_time it) of
       Some e \<Rightarrow> e
     | None \<Rightarrow>
        (case ii_duration it of
           Some d \<Rightarrow> if d > 0 then start + d else
             (let token = to_lower (ii_type it @ '' '' @ ii_category it @ '' '' @ ii_mode it)
              in if ii_transfer it \<noteq> None \<or> contains token ''transport'' \<or> contains token ''transfer''
                 then start + 90 else start + 60)
         | None \<Rightarrow>
             (let token = to_lower (ii_type it @ '' '' @ ii_category it @ '' '' @ ii_mode it)
              in if ii_transfer it \<noteq> None \<or> contains token ''transport'' \<or> contains token ''transfer''
                 then start + 90 else start + 60)))"

definition scheduleOverlapAllowed :: "itinerary_item \<Rightarrow> itinerary_item \<Rightarrow> bool" where
  "scheduleOverlapAllowed l r =
    (let lt = to_lower (trim_space (ii_type l)); rt = to_lower (trim_space (ii_type r))
     in if lt = ''note'' \<or> rt = ''note'' then True else contains lt ''meal'' \<and> contains rt ''meal'')"

definition schedule_key :: "itinerary_item \<Rightarrow> string" where
  "schedule_key it = ii_time it @ '':'' @ squeeze_lower (ii_name it)"

text \<open>The items the check passes over.\<close>

definition untimed :: "itinerary_item \<Rightarrow> bool" where
  "untimed it \<longleftrightarrow> ii_all_day it \<or> ii_sched it = ''Unscheduled'' \<or> trim_space (ii_time it) = []"

fun collect_spans ::
  "nat \<Rightarrow> nat \<Rightarrow> (string \<times> nat) list \<Rightarrow> itinerary_item list \<Rightarrow> app_error + schedule_span list" where
  "collect_spans d i seen [] = Inr []"
| "collect_spans d i seen (it # its) =
    (if untimed it then collect_spans d (Suc i) seen its
     else case parseHHMM (ii_time it) of
       None \<Rightarrow> collect_spans d (Suc i) seen its
     | Some start \<Rightarrow>
        (let stop = scheduleEndMinute it start in
         if stop \<le> start then Inl (InvalidInput (item_label d i @ ''.endTime must be after time''))
         else if stop > 24 * 60 then Inl (InvalidInput (item_label d i @ '' must end before the next day''))
         else case map_of seen (schedule_key it) of
           Some p \<Rightarrow> Inl (InvalidInput (item_label d i @ '' duplicates the schedule for item '' @ itoa p))
         | None \<Rightarrow>
            rbind (collect_spans d (Suc i) ((schedule_key it, i) # seen) its) (\<lambda>spans.
              Inr (\<lparr>sp_index = i, sp_start = start, sp_end = stop, sp_item = it\<rparr> # spans))))"

fun check_adjacent :: "nat \<Rightarrow> schedule_span list \<Rightarrow> app_error + unit" where
  "check_adjacent d (p # c # rest) =
    (if sp_start c \<ge> sp_end p \<or> scheduleOverlapAllowed (sp_item p) (sp_item c)
     then check_adjacent d (c # rest)
     else Inl (InvalidInput (item_label d (sp_index c) @ '' overlaps item '' @ itoa (sp_index p))))"
| "check_adjacent d _ = Inr ()"

definition validateDayScheduleConflicts :: "itinerary_day \<Rightarrow> nat \<Rightarrow> app_error + unit" where
  "validateDayScheduleConflicts day d =
    rbind (collect_spans d 0 [] (dy_items day)) (\<lambda>spans.
      check_adjacent d (sort_key (\<lambda>s. (sp_start s, sp_end s)) spans))"

section \<open>The reference\<close>

definition span_of :: "nat \<Rightarrow> itinerary_item \<Rightarrow> schedule_span option" where
  "span_of i it =
    (if untimed it then None
     else map_option (\<lambda>start. \<lparr>sp_index = i, sp_start = start, sp_end = scheduleEndMinute it start, sp_item = it\<rparr>)
       (parseHHMM (ii_time it)))"

fun spans_from :: "nat \<Rightarrow> itinerary_item list \<Rightarrow> schedule_span list" where
  "spans_from i [] = []"
| "spans_from i (it # its) =
    (case span_of i it of None \<Rightarrow> spans_from (Suc i) its | Some s \<Rightarrow> s # spans_from (Suc i) its)"

definition day_spans :: "itinerary_day \<Rightarrow> schedule_span list" where
  "day_spans day = spans_from 0 (dy_items day)"

definition span_fits :: "schedule_span \<Rightarrow> bool" where
  "span_fits s \<longleftrightarrow> sp_start s < sp_end s \<and> sp_end s \<le> 1440"

definition apart :: "schedule_span \<Rightarrow> schedule_span \<Rightarrow> bool" where
  "apart a b \<longleftrightarrow> sp_end a \<le> sp_start b \<or> sp_end b \<le> sp_start a"

text \<open>No two timed items of the day are of kinds that may overlap.\<close>

definition no_exempt_pair :: "schedule_span list \<Rightarrow> bool" where
  "no_exempt_pair spans \<longleftrightarrow>
     (\<forall>a \<in> set spans. \<forall>b \<in> set spans. sp_index a \<noteq> sp_index b \<longrightarrow> \<not> scheduleOverlapAllowed (sp_item a) (sp_item b))"

definition spans_apart :: "schedule_span list \<Rightarrow> bool" where
  "spans_apart spans \<longleftrightarrow>
     (\<forall>a \<in> set spans. \<forall>b \<in> set spans. sp_index a \<noteq> sp_index b \<longrightarrow> apart a b)"

lemma parseHHMM_length: "parseHHMM s = Some m \<Longrightarrow> length s = 5"
  by (auto simp: parseHHMM_def split: list.splits)

lemma parseHHMM_range: "parseHHMM s = Some m \<Longrightarrow> 0 \<le> m \<and> m < 1440"
  by (auto simp: parseHHMM_def asciiDigit_def digit_value_def Let_def split: list.splits if_splits)

lemma schedule_key_time:
  assumes "schedule_key a = schedule_key b" "parseHHMM (ii_time a) = Some m" "parseHHMM (ii_time b) = Some n"
  shows "m = n"
  using assms parseHHMM_length [OF assms(2)] parseHHMM_length [OF assms(3)] by (auto simp: schedule_key_def)

lemma span_of_Some:
  "span_of i it = Some s \<longleftrightarrow> \<not> untimed it \<and> parseHHMM (ii_time it) = Some (sp_start s) \<and>
     sp_index s = i \<and> sp_end s = scheduleEndMinute it (sp_start s) \<and> sp_item s = it"
  by (cases s) (auto simp: span_of_def)

lemma span_of_index: "span_of i it = Some s \<Longrightarrow> sp_index s = i"
  by (simp add: span_of_Some)

lemma spans_from_index: "s \<in> set (spans_from i its) \<Longrightarrow> i \<le> sp_index s"
proof (induction its arbitrary: i)
  case (Cons it its)
  have "span_of i it = Some s \<or> s \<in> set (spans_from (Suc i) its)"
    using Cons.prems by (auto split: option.splits)
  then show ?case using Cons.IH [of "Suc i"] span_of_index by fastforce
qed simp

lemma spans_from_distinct: "distinct (map sp_index (spans_from i its))"
proof (induction its arbitrary: i)
  case (Cons it its)
  have "i \<notin> sp_index ` set (spans_from (Suc i) its)"
    using spans_from_index [of _ "Suc i" its] by force
  then show ?case using Cons.IH [of "Suc i"] by (cases "span_of i it") (auto dest: span_of_index)
qed simp

lemma spans_from_start: "s \<in> set (spans_from i its) \<Longrightarrow> parseHHMM (ii_time (sp_item s)) = Some (sp_start s)"
  by (induction its arbitrary: i) (auto simp: span_of_Some split: option.splits)

lemma collect_spans_Cons:
  "collect_spans d i seen (it # its) =
    (case span_of i it of
       None \<Rightarrow> collect_spans d (Suc i) seen its
     | Some s \<Rightarrow>
        (if sp_end s \<le> sp_start s then Inl (InvalidInput (item_label d i @ ''.endTime must be after time''))
         else if sp_end s > 24 * 60 then Inl (InvalidInput (item_label d i @ '' must end before the next day''))
         else case map_of seen (schedule_key it) of
           Some p \<Rightarrow> Inl (InvalidInput (item_label d i @ '' duplicates the schedule for item '' @ itoa p))
         | None \<Rightarrow> rbind (collect_spans d (Suc i) ((schedule_key it, i) # seen) its) (\<lambda>spans. Inr (s # spans))))"
  by (cases "parseHHMM (ii_time it)") (simp_all add: span_of_def Let_def)

declare collect_spans.simps(2) [simp del]
declare collect_spans_Cons [simp]

text \<open>The collected spans are the reference's when every span fits and no key repeats.\<close>

lemma collect_spans_Inr:
  "collect_spans d i seen its = Inr spans \<Longrightarrow> spans = spans_from i its \<and> (\<forall>s \<in> set spans. span_fits s)"
proof (induction its arbitrary: i seen spans)
  case (Cons it its)
  show ?case
  proof (cases "span_of i it")
    case None
    then show ?thesis using Cons by simp
  next
    case (Some s)
    then obtain rest where "collect_spans d (Suc i) ((schedule_key it, i) # seen) its = Inr rest"
      "spans = s # rest" "span_fits s"
      using Cons.prems by (auto simp: rbind_Inr_iff span_fits_def split: if_splits option.splits)
    then show ?thesis using Cons.IH Some by simp
  qed
qed simp

lemma same_key_not_apart:
  assumes "span_of i it = Some s" "b \<in> set (spans_from j its)" "span_fits s" "span_fits b"
    "schedule_key it = schedule_key (sp_item b)"
  shows "\<not> apart s b"
proof -
  have "sp_start s = sp_start b"
    using schedule_key_time [OF assms(5)] spans_from_start [OF assms(2)] assms(1) by (simp add: span_of_Some)
  then show ?thesis using assms(3,4) by (simp add: apart_def span_fits_def)
qed

lemma collect_spans_ok:
  assumes "\<forall>s \<in> set (spans_from i its). span_fits s" "spans_apart (spans_from i its)"
    "\<forall>(k, p) \<in> set seen. \<forall>s \<in> set (spans_from i its). k \<noteq> schedule_key (sp_item s)"
  shows "collect_spans d i seen its = Inr (spans_from i its)"
  using assms
proof (induction its arbitrary: i seen)
  case (Cons it its)
  show ?case
  proof (cases "span_of i it")
    case None
    then show ?thesis using Cons by simp
  next
    case (Some s)
    have s: "spans_from i (it # its) = s # spans_from (Suc i) its" using Some by simp
    have item: "sp_item s = it" "sp_index s = i" using Some by (simp_all add: span_of_Some)
    have fits: "span_fits s" "\<forall>b \<in> set (spans_from (Suc i) its). span_fits b" using Cons.prems(1) s by simp_all
    have "map_of seen (schedule_key it) = None"
      using Cons.prems(3) unfolding s by (auto simp: map_of_eq_None_iff item)
    moreover have "schedule_key it \<noteq> schedule_key (sp_item b)" if b: "b \<in> set (spans_from (Suc i) its)" for b
    proof -
      have "sp_index b \<noteq> i" using spans_from_index [OF b] by simp
      then have "apart s b" using Cons.prems(2) b item unfolding spans_apart_def s by simp
      then show ?thesis using same_key_not_apart [OF Some b fits(1)] fits(2) b by blast
    qed
    then have "collect_spans d (Suc i) ((schedule_key it, i) # seen) its = Inr (spans_from (Suc i) its)"
      using Cons.prems fits unfolding s by (intro Cons.IH) (auto simp: spans_apart_def)
    ultimately show ?thesis using Some fits(1) by (simp add: span_fits_def)
  qed
qed simp

section \<open>Comparing neighbours is enough without exemptions\<close>

definition by_time :: "schedule_span \<Rightarrow> int \<times> int" where
  "by_time s = (sp_start s, sp_end s)"

lemma check_adjacent_sound:
  assumes "check_adjacent d spans = Inr ()" "sorted (map by_time spans)" "\<forall>s \<in> set spans. span_fits s"
    "no_exempt_pair spans" "distinct (map sp_index spans)"
  shows "sorted_wrt (\<lambda>a b. sp_end a \<le> sp_start b) spans"
  using assms
proof (induction d spans rule: check_adjacent.induct)
  case (1 d p c rest)
  have "\<not> scheduleOverlapAllowed (sp_item p) (sp_item c)" using 1(5,6) by (auto simp: no_exempt_pair_def)
  then have pc: "sp_end p \<le> sp_start c" and rest: "check_adjacent d (c # rest) = Inr ()"
    using 1(2) by (auto split: if_splits)
  have "sorted_wrt (\<lambda>a b. sp_end a \<le> sp_start b) (c # rest)"
    using 1(3-6) rest pc by (intro 1(1)) (auto simp: no_exempt_pair_def)
  moreover have "sp_start c \<le> sp_start b" if "b \<in> set rest" for b
    using 1(3) that by (auto simp: by_time_def)
  ultimately show ?case using pc by fastforce
qed simp_all

lemma check_adjacent_complete:
  assumes "\<forall>s \<in> set spans. span_fits s" "sorted (map by_time spans)" "distinct (map sp_index spans)" "spans_apart spans"
  shows "check_adjacent d spans = Inr ()"
  using assms
proof (induction d spans rule: check_adjacent.induct)
  case (1 d p c rest)
  have "apart p c" using 1(4,5) by (auto simp: spans_apart_def)
  moreover have "sp_start p \<le> sp_start c" using 1(3) by (auto simp: by_time_def)
  moreover have "span_fits p" "span_fits c" using 1(2) by simp_all
  ultimately have "sp_end p \<le> sp_start c" by (auto simp: apart_def span_fits_def)
  moreover have "check_adjacent d (c # rest) = Inr ()"
    using 1 calculation by (auto simp: spans_apart_def)
  ultimately show ?case by simp
qed simp_all

lemma apart_sorted:
  assumes "sorted_wrt (\<lambda>a b. sp_end a \<le> sp_start b) spans"
  shows "spans_apart spans"
  unfolding spans_apart_def
proof (intro ballI impI)
  fix a b assume ab: "a \<in> set spans" "b \<in> set spans" "sp_index a \<noteq> sp_index b"
  then obtain i j where ij: "i < length spans" "j < length spans" "a = spans ! i" "b = spans ! j" "i \<noteq> j"
    by (metis in_set_conv_nth)
  show "apart a b"
    using assms ij by (cases "i < j") (auto simp: apart_def sorted_wrt_iff_nth_less)
qed

text \<open>
  C8. On a day where no two timed items are of kinds that may overlap, the schedule check accepts
  exactly the days whose items end after they start, end before midnight, and are pairwise disjoint:
  comparing each span with the one before it decides all pairs.
\<close>

theorem schedule_check_is_exact:
  assumes "no_exempt_pair (day_spans day)"
  shows "validateDayScheduleConflicts day d = Inr () \<longleftrightarrow>
    (\<forall>s \<in> set (day_spans day). span_fits s) \<and> spans_apart (day_spans day)"
proof -
  let ?sorted = "sort_key by_time (day_spans day)"
  have key: "(\<lambda>s. (sp_start s, sp_end s)) = by_time" by (simp add: fun_eq_iff by_time_def)
  have s: "set ?sorted = set (day_spans day)" "sorted (map by_time ?sorted)" by simp_all
  have "distinct (map sp_index (day_spans day))" unfolding day_spans_def by (rule spans_from_distinct)
  then have "distinct (day_spans day)" "inj_on sp_index (set (day_spans day))" by (auto simp: distinct_map)
  then have ind: "distinct (map sp_index ?sorted)" by (simp add: distinct_map)
  have ex: "no_exempt_pair ?sorted" using assms by (simp add: no_exempt_pair_def)
  show ?thesis
  proof
    assume "validateDayScheduleConflicts day d = Inr ()"
    then obtain spans where c: "collect_spans d 0 [] (dy_items day) = Inr spans"
      and adj: "check_adjacent d (sort_key by_time spans) = Inr ()"
      unfolding validateDayScheduleConflicts_def key rbind_Inr_iff by blast
    have sp: "spans = day_spans day" "\<forall>s \<in> set spans. span_fits s"
      using collect_spans_Inr [OF c] by (simp_all add: day_spans_def)
    have "sorted_wrt (\<lambda>a b. sp_end a \<le> sp_start b) ?sorted"
      using adj sp s ex ind by (intro check_adjacent_sound [of d]) simp_all
    then have "spans_apart ?sorted" by (rule apart_sorted)
    then show "(\<forall>s \<in> set (day_spans day). span_fits s) \<and> spans_apart (day_spans day)"
      using sp by (simp add: spans_apart_def)
  next
    assume ok: "(\<forall>s \<in> set (day_spans day). span_fits s) \<and> spans_apart (day_spans day)"
    then have "collect_spans d 0 [] (dy_items day) = Inr (day_spans day)"
      unfolding day_spans_def by (intro collect_spans_ok) simp_all
    moreover have "check_adjacent d ?sorted = Inr ()"
      using ok s ind by (intro check_adjacent_complete) (simp_all add: spans_apart_def)
    ultimately show "validateDayScheduleConflicts day d = Inr ()"
      unfolding validateDayScheduleConflicts_def key by simp
  qed
qed

end
