(* ===== verification/ItineraryEdit.thy ===== *)
theory ItineraryEdit
  imports Schedule
begin

text \<open>
  The validation of whole itineraries (\<open>application/service/trip.go\<close> lines 1572 to 1894).
  \<open>validateAndNormalizeItinerary\<close> is applied to what an editor saves or restores,
  \<open>validateCurrentItinerary\<close> to the stored document before a part of it is replaced,
  \<open>normalizeReplacementDay\<close> and \<open>normalizeReplacementItem\<close> to what the planner answers.
  The argument of the first is the decoded document: \<open>DocMissing\<close> stands for an empty or \<open>null\<close>
  body, \<open>DocMalformed\<close> for one that does not decode.
\<close>

datatype raw_doc = DocMissing | DocMalformed | Doc itinerary

definition maxItineraryDays :: nat where "maxItineraryDays = 60"
definition maxItineraryItemsPerDay :: nat where "maxItineraryItemsPerDay = 30"
definition maxScheduleTimezoneLength :: nat where "maxScheduleTimezoneLength = 80"

section \<open>Items\<close>

definition bad_duration :: "int option \<Rightarrow> bool" where
  "bad_duration d = (case d of None \<Rightarrow> False | Some n \<Rightarrow> n \<le> 0 \<or> n > 24 * 60)"

text \<open>The times of an item: trimmed, one standing in for the other, none when it is unscheduled.\<close>

definition normalize_times :: "string \<Rightarrow> itinerary_item \<Rightarrow> app_error + itinerary_item" where
  "normalize_times lbl it =
    (let t0 = trim_space (ii_time it); s0 = trim_space (ii_start_time it);
         t1 = (if t0 = [] \<and> s0 \<noteq> [] then s0 else t0);
         s1 = (if s0 = [] \<and> t1 \<noteq> [] then t1 else s0);
         e1 = trim_space (ii_end_time it); tz = trim_space (ii_timezone it)
     in if length tz > maxScheduleTimezoneLength then
          Inl (InvalidInput (lbl @ ''.timezone must be at most 80 characters''))
        else case normalizeSchedulingStatus (ii_sched it) t1 (ii_all_day it) of
          Inl _ \<Rightarrow> Inl (InvalidInput (lbl @ ''.schedulingStatus must be one of Scheduled, Unscheduled, Conflict, NeedsReview''))
        | Inr status \<Rightarrow>
           Inr (if status = ''Unscheduled''
             then it\<lparr>ii_time := [], ii_start_time := [], ii_end_time := [], ii_duration := None,
                     ii_timezone := tz, ii_sched := status\<rparr>
             else it\<lparr>ii_time := t1, ii_start_time := s1, ii_end_time := e1, ii_timezone := tz, ii_sched := status\<rparr>))"

definition check_times :: "string \<Rightarrow> itinerary_item \<Rightarrow> app_error + unit" where
  "check_times lbl it =
    (if bad_duration (ii_duration it) then
       Inl (InvalidInput (lbl @ ''.durationMinutes must be between 1 and 1440''))
     else if ii_sched it \<noteq> ''Unscheduled'' \<and> \<not> ii_all_day it then
       (if ii_time it = [] then
          Inl (InvalidInput (lbl @ ''.time is required unless schedulingStatus is Unscheduled''))
        else case parseHHMM (ii_time it) of
          None \<Rightarrow> Inl (InvalidInput (lbl @ ''.time must be in HH:mm format''))
        | Some start \<Rightarrow>
           (if ii_end_time it \<noteq> [] then
              (case parseHHMM (ii_end_time it) of
                 None \<Rightarrow> Inl (InvalidInput (lbl @ ''.endTime must be in HH:mm format''))
               | Some stop \<Rightarrow>
                  (if stop \<le> start then Inl (InvalidInput (lbl @ ''.endTime must be after time'')) else Inr ()))
            else Inr ()))
     else if ii_end_time it \<noteq> [] \<and> \<not> validHHMM (ii_end_time it) then
       Inl (InvalidInput (lbl @ ''.endTime must be in HH:mm format''))
     else Inr ())"

definition normalize_item :: "nat \<Rightarrow> nat \<Rightarrow> itinerary_item \<Rightarrow> app_error + itinerary_item" where
  "normalize_item d i it =
    (let lbl = item_label d i in
     rbind (normalize_times lbl it) (\<lambda>it1.
     rbind (check_times lbl it1) (\<lambda>_.
     let kind = trim_space (ii_type it1); mode = NormalizeRouteToken (ii_mode it1); name = trim_space (ii_name it1) in
     rbind (guard_err (kind \<noteq> []) (InvalidInput (lbl @ ''.type is required''))) (\<lambda>_.
     rbind (guard_err (mode = [] \<or> mode \<in> set SupportedTransportModes)
       (InvalidInput (lbl @ ''.transportMode is unsupported''))) (\<lambda>_.
     rbind (guard_err (name \<noteq> []) (InvalidInput (lbl @ ''.name is required''))) (\<lambda>_.
     rbind (labelled (lbl @ ''.estimatedCost'') (opt_check (NormalizeEstimatedCost ''manual'') (ii_cost it1))) (\<lambda>cost.
     rbind (opt_check (validateAndNormalizeTransfer (lbl @ ''.transfer'')) (ii_transfer it1)) (\<lambda>transfer.
     rbind (opt_check (validateAndNormalizePlaceRef (lbl @ ''.place'')) (ii_place it1)) (\<lambda>place.
     rbind (opt_check (validateAndNormalizePlaceEnrichment (lbl @ ''.placeEnrichment'')) (ii_place_meta it1)) (\<lambda>pm.
     rbind (opt_check (validateAndNormalizePriceEnrichment (lbl @ ''.priceEnrichment'')) (ii_price_meta it1)) (\<lambda>xm.
     rbind (opt_check (validateAndNormalizeAvailabilityCheck (lbl @ ''.availabilityCheck'')) (ii_availability it1)) (\<lambda>am.
       Inr (it1\<lparr>ii_type := kind, ii_category := trim_space (ii_category it1), ii_mode := mode, ii_name := name,
         ii_note := trim_space (ii_note it1), ii_cost := cost, ii_transfer := transfer, ii_place := place,
         ii_place_meta := pm, ii_price_meta := xm, ii_availability := am\<rparr>)))))))))))))"

section \<open>Days and documents\<close>

text \<open>\<open>time.Parse("2006-01-02", s)\<close> succeeds on ten characters that name a day of the calendar.\<close>

definition two_digits :: "char \<Rightarrow> char \<Rightarrow> int" where
  "two_digits a b = digit_value a * 10 + digit_value b"

definition month_days :: "int \<Rightarrow> int \<Rightarrow> int" where
  "month_days y m =
    (if m \<in> {4, 6, 9, 11} then 30
     else if m = 2 then (if y mod 4 = 0 \<and> (y mod 100 \<noteq> 0 \<or> y mod 400 = 0) then 29 else 28)
     else 31)"

definition valid_date :: "string \<Rightarrow> bool" where
  "valid_date s =
    (case s of
       [a, b, c, d, s1, e, f, s2, g, h] \<Rightarrow>
         s1 = CHR ''-'' \<and> s2 = CHR ''-'' \<and> list_all asciiDigit [a, b, c, d, e, f, g, h] \<and>
         (let y = two_digits a b * 100 + two_digits c d; m = two_digits e f; n = two_digits g h
          in 1 \<le> m \<and> m \<le> 12 \<and> 1 \<le> n \<and> n \<le> month_days y m)
     | _ \<Rightarrow> False)"

definition normalize_day :: "nat \<Rightarrow> itinerary_day \<Rightarrow> app_error + itinerary_day" where
  "normalize_day d day =
    (let lbl = day_label d; title = trim_space (dy_title day); date = trim_space (dy_date day) in
     rbind (guard_err (dy_day day \<ge> 1) (InvalidInput (lbl @ ''.day must be >= 1''))) (\<lambda>_.
     rbind (guard_err (title \<noteq> []) (InvalidInput (lbl @ ''.title is required''))) (\<lambda>_.
     rbind (guard_err (date = [] \<or> valid_date date) (InvalidInput (lbl @ ''.date must be in YYYY-MM-DD format''))) (\<lambda>_.
     rbind (guard_err (dy_items day \<noteq> []) (InvalidInput (lbl @ ''.items must contain at least 1 item''))) (\<lambda>_.
     rbind (guard_err (length (dy_items day) \<le> maxItineraryItemsPerDay)
       (InvalidInput (lbl @ ''.items must contain at most 30 items''))) (\<lambda>_.
     rbind (check_all (normalize_item d) 0 (dy_items day)) (\<lambda>items.
     let day' = day\<lparr>dy_title := title, dy_date := date, dy_stop := trim_space (dy_stop day),
       dy_location := trim_space (dy_location day), dy_items := items\<rparr> in
     rbind (validateDayScheduleConflicts day' d) (\<lambda>_. Inr day'))))))))"

definition validateAndNormalizeItinerary :: "raw_doc \<Rightarrow> app_error + itinerary" where
  "validateAndNormalizeItinerary raw =
    (case raw of
       DocMissing \<Rightarrow> Inl (InvalidInput ''itinerary is required'')
     | DocMalformed \<Rightarrow> Inl (InvalidInput ''invalid itinerary'')
     | Doc it \<Rightarrow>
        rbind (guard_err (case it_total_budget it of None \<Rightarrow> True | Some b \<Rightarrow> 0 \<le> b)
          (InvalidInput ''itinerary.totalBudget must be >= 0'')) (\<lambda>_.
        rbind (guard_err (it_days it \<noteq> []) (InvalidInput ''itinerary.days must contain at least 1 day'')) (\<lambda>_.
        rbind (guard_err (length (it_days it) \<le> maxItineraryDays)
          (InvalidInput ''itinerary.days must contain at most 60 days'')) (\<lambda>_.
        rbind (check_all normalize_day 0 (it_days it)) (\<lambda>days.
          Inr (it\<lparr>it_destination := trim_space (it_destination it), it_summary := trim_space (it_summary it),
            it_pace := trim_space (it_pace it), it_currency := to_upper (trim_space (it_currency it)),
            it_source := trim_space (it_source it), it_days := days\<rparr>))))))"

section \<open>The stored document\<close>

definition current_invalid :: app_error where
  "current_invalid = InvalidInput ''current itinerary is invalid''"

definition current_item_ok :: "itinerary_item \<Rightarrow> bool" where
  "current_item_ok it \<longleftrightarrow>
    (case normalizeSchedulingStatus (ii_sched it) (ii_time it) (ii_all_day it) of
       Inl _ \<Rightarrow> False
     | Inr status \<Rightarrow>
        \<not> (status \<noteq> ''Unscheduled'' \<and> \<not> ii_all_day it \<and> \<not> validHHMM (trim_space (ii_time it)))) \<and>
    trim_space (ii_type it) \<noteq> [] \<and> trim_space (ii_name it) \<noteq> [] \<and>
    \<not> bad_duration (ii_duration it) \<and>
    \<not> isl (opt_check (validateAndNormalizeTransfer ''transfer'') (ii_transfer it)) \<and>
    (case ii_cost it of None \<Rightarrow> True | Some c \<Rightarrow> (case ec_amount c of None \<Rightarrow> True | Some a \<Rightarrow> 0 \<le> a)) \<and>
    \<not> isl (opt_check (validateAndNormalizePlaceRef ''place'') (ii_place it)) \<and>
    \<not> isl (opt_check (validateAndNormalizePlaceEnrichment ''placeEnrichment'') (ii_place_meta it)) \<and>
    \<not> isl (opt_check (validateAndNormalizePriceEnrichment ''priceEnrichment'') (ii_price_meta it))"

fun current_days_ok :: "int list \<Rightarrow> itinerary_day list \<Rightarrow> bool" where
  "current_days_ok seen [] \<longleftrightarrow> True"
| "current_days_ok seen (day # days) \<longleftrightarrow>
     dy_day day \<ge> 1 \<and> dy_day day \<notin> set seen \<and> trim_space (dy_title day) \<noteq> [] \<and>
     dy_items day \<noteq> [] \<and> length (dy_items day) \<le> maxItineraryItemsPerDay \<and>
     list_all current_item_ok (dy_items day) \<and>
     \<not> isl (validateDayScheduleConflicts day 0) \<and> current_days_ok (dy_day day # seen) days"

text \<open>
  The validators work through pointers, so the checked document comes back with the transfers, places and
  enrichment data of its items normalized, although days and items are copies in the loops.
\<close>

definition tidy_part :: "('a \<Rightarrow> app_error + 'a) \<Rightarrow> 'a option \<Rightarrow> 'a option" where
  "tidy_part check v = (case opt_check check v of Inl _ \<Rightarrow> v | Inr w \<Rightarrow> w)"

definition tidied_item :: "itinerary_item \<Rightarrow> itinerary_item" where
  "tidied_item it = it
     \<lparr>ii_transfer := tidy_part (validateAndNormalizeTransfer ''transfer'') (ii_transfer it),
      ii_place := tidy_part (validateAndNormalizePlaceRef ''place'') (ii_place it),
      ii_place_meta := tidy_part (validateAndNormalizePlaceEnrichment ''placeEnrichment'') (ii_place_meta it),
      ii_price_meta := tidy_part (validateAndNormalizePriceEnrichment ''priceEnrichment'') (ii_price_meta it)\<rparr>"

definition tidied_day :: "itinerary_day \<Rightarrow> itinerary_day" where
  "tidied_day day = day\<lparr>dy_items := map tidied_item (dy_items day)\<rparr>"

definition tidied :: "itinerary \<Rightarrow> itinerary" where
  "tidied it = it\<lparr>it_days := map tidied_day (it_days it)\<rparr>"

definition validateCurrentItinerary :: "itinerary \<Rightarrow> app_error + itinerary" where
  "validateCurrentItinerary it =
    (if it_days it = [] \<or> length (it_days it) > maxItineraryDays then Inl current_invalid
     else if current_days_ok [] (it_days it) then Inr (tidied it) else Inl current_invalid)"

definition currentItineraryAndDayIndex :: "trip \<Rightarrow> int \<Rightarrow> app_error + (itinerary \<times> nat)" where
  "currentItineraryAndDayIndex t n =
    (case tr_itinerary t of
       None \<Rightarrow> Inl current_invalid
     | Some stored \<Rightarrow>
        rbind (validateCurrentItinerary stored) (\<lambda>it.
          case find (\<lambda>i. dy_day (it_days it ! i) = n) [0..<length (it_days it)] of
            None \<Rightarrow> Inl current_invalid | Some i \<Rightarrow> Inr (it, i)))"

section \<open>Replacements from the planner\<close>

definition normalizeReplacementItem :: "itinerary_item option \<Rightarrow> app_error + itinerary_item" where
  "normalizeReplacementItem v =
    (case v of
       None \<Rightarrow> Inl (DependencyErr ''replacement item is required'')
     | Some it \<Rightarrow>
        (let t0 = trim_space (ii_time it); s0 = trim_space (ii_start_time it);
             t1 = (if t0 = [] \<and> s0 \<noteq> [] then s0 else t0);
             s1 = (if s0 = [] \<and> t1 \<noteq> [] then t1 else s0);
             stop = trim_space (ii_end_time it); kind = trim_space (ii_type it); name = trim_space (ii_name it)
         in rbind (guard_err (t1 \<noteq> []) (DependencyErr ''replacement item time is required'')) (\<lambda>_.
            rbind (guard_err (validHHMM t1) (DependencyErr ''replacement item time must be HH:mm'')) (\<lambda>_.
            rbind (guard_err (stop = [] \<or> validHHMM stop) (DependencyErr ''replacement item endTime must be HH:mm'')) (\<lambda>_.
            rbind (guard_err (\<not> bad_duration (ii_duration it)) (DependencyErr ''replacement item durationMinutes is invalid'')) (\<lambda>_.
            rbind (guard_err (kind \<noteq> []) (DependencyErr ''replacement item type is required'')) (\<lambda>_.
            rbind (guard_err (name \<noteq> []) (DependencyErr ''replacement item name is required'')) (\<lambda>_.
            rbind (map_sum (\<lambda>e. DependencyErr (''replacement item estimatedCost is invalid: '' @
                 (case e of InvalidInput m \<Rightarrow> m | _ \<Rightarrow> []))) (\<lambda>x. x)
               (opt_check (NormalizeEstimatedCost ''ai'') (ii_cost it))) (\<lambda>cost.
            rbind (map_sum (\<lambda>_. DependencyErr ''replacement item transfer is invalid'') (\<lambda>x. x)
               (opt_check (validateAndNormalizeTransfer ''replacement item transfer'') (ii_transfer it))) (\<lambda>transfer.
            rbind (map_sum (\<lambda>_. DependencyErr ''replacement item place is invalid'') (\<lambda>x. x)
               (opt_check (validateAndNormalizePlaceRef ''replacement item place'') (ii_place it))) (\<lambda>place.
            rbind (map_sum (\<lambda>_. DependencyErr ''replacement item placeEnrichment is invalid'') (\<lambda>x. x)
               (opt_check (validateAndNormalizePlaceEnrichment ''replacement item placeEnrichment'') (ii_place_meta it))) (\<lambda>pm.
            rbind (map_sum (\<lambda>_. DependencyErr ''replacement item priceEnrichment is invalid'') (\<lambda>x. x)
               (opt_check (validateAndNormalizePriceEnrichment ''replacement item priceEnrichment'') (ii_price_meta it))) (\<lambda>xm.
              Inr (it\<lparr>ii_time := t1, ii_start_time := s1, ii_end_time := stop, ii_type := kind, ii_name := name,
                 ii_note := trim_space (ii_note it), ii_timezone := trim_space (ii_timezone it),
                 ii_sched := (if ii_sched it = [] then ''Scheduled'' else ii_sched it),
                 ii_mode := NormalizeRouteToken (ii_mode it), ii_cost := cost, ii_transfer := transfer,
                 ii_place := place, ii_place_meta := pm, ii_price_meta := xm\<rparr>))))))))))))))"

definition normalizeReplacementDay :: "itinerary_day option \<Rightarrow> int \<Rightarrow> app_error + itinerary_day" where
  "normalizeReplacementDay v n =
    (case v of
       None \<Rightarrow> Inl (DependencyErr ''replacement day is required'')
     | Some day \<Rightarrow>
        (let title = trim_space (dy_title day) in
         rbind (guard_err (title \<noteq> []) (DependencyErr ''replacement day title is required'')) (\<lambda>_.
         rbind (guard_err (dy_items day \<noteq> [] \<and> length (dy_items day) \<le> maxItineraryItemsPerDay)
           (DependencyErr ''replacement day item count is invalid'')) (\<lambda>_.
         rbind (check_all (\<lambda>_ it. normalizeReplacementItem (Some it)) 0 (dy_items day)) (\<lambda>items.
           Inr (day\<lparr>dy_day := n, dy_title := title, dy_items := items\<rparr>))))))"

end
