(* ===== verification/ItineraryLaws.thy ===== *)
theory ItineraryLaws
  imports ItineraryEdit Demo
begin

text \<open>
  What the validation of itineraries promises. \<open>renorm P f g\<close>: what \<open>f\<close> returns is accepted
  by \<open>g\<close>, and unchanged if the input had the property \<open>P\<close> (no note of a cost is cut). It is shown of
  every validator with itself under any label, so a saved document can be saved or restored again,
  and its items pass the check a regeneration makes first.
\<close>

definition renorm :: "('a \<Rightarrow> bool) \<Rightarrow> ('a \<Rightarrow> 'e + 'a) \<Rightarrow> ('a \<Rightarrow> 'e + 'a) \<Rightarrow> bool" where
  "renorm P f g \<longleftrightarrow> (\<forall>x y. f x = Inr y \<longrightarrow> (\<exists>z. g y = Inr z \<and> (P x \<longrightarrow> z = y)))"

definition opt_fits :: "('a \<Rightarrow> bool) \<Rightarrow> 'a option \<Rightarrow> bool" where
  "opt_fits P v = (case v of None \<Rightarrow> True | Some x \<Rightarrow> P x)"

lemma renormD: "renorm P f g \<Longrightarrow> f x = Inr y \<Longrightarrow> \<exists>z. g y = Inr z \<and> (P x \<longrightarrow> z = y)"
  unfolding renorm_def by blast

lemma renorm_fix: "(\<And>x y. f x = Inr y \<Longrightarrow> g y = Inr y) \<Longrightarrow> renorm P f g"
  unfolding renorm_def by blast

lemma renorm_opt: "renorm P f g \<Longrightarrow> renorm (opt_fits P) (opt_check f) (opt_check g)"
  unfolding renorm_def opt_check_def opt_fits_def
  by (auto simp: rbind_Inr_iff split: option.splits) blast+

lemma renorm_all:
  assumes "\<And>n m. renorm P (f n) (g m)"
  shows "check_all f n xs = Inr ys \<Longrightarrow> \<exists>zs. check_all g m ys = Inr zs \<and> (list_all P xs \<longrightarrow> zs = ys)"
proof (induction xs arbitrary: n m ys)
  case (Cons x xs)
  obtain y ys' where y: "f n x = Inr y" "check_all f (Suc n) xs = Inr ys'" "ys = y # ys'"
    using Cons.prems by (auto simp: rbind_Inr_iff)
  obtain z where z: "g m y = Inr z" "P x \<longrightarrow> z = y" using renormD [OF assms y(1)] by blast
  obtain zs where "check_all g (Suc m) ys' = Inr zs" "list_all P xs \<longrightarrow> zs = ys'" using Cons.IH [OF y(2)] by blast
  then show ?case using z y(3) by simp
qed simp

section \<open>Parts of an item\<close>

lemma known_texts:
  "c \<in> set validCategories \<Longrightarrow> to_lower (trim_space c) = c"
  "c \<in> set validConfidences \<Longrightarrow> to_lower (trim_space c) = c"
  "c \<in> set validSources \<Longrightarrow> to_lower (trim_space c) = c"
  by (auto simp: validCategories_def validConfidences_def validSources_def to_lower_def
      trim_space_plain plain_byte_def lower_char_def)

definition cost_fits :: "estimated_cost \<Rightarrow> bool" where
  "cost_fits c \<longleftrightarrow> length (runes (trim_space (ec_note c))) \<le> maxNoteLength"

definition known_or :: "string list \<Rightarrow> string \<Rightarrow> string \<Rightarrow> string" where
  "known_or known fallback s = (let v = to_lower (trim_space s) in if v \<in> set known then v else fallback)"

lemma known_or_idem:
  assumes "\<And>c. c \<in> set known \<Longrightarrow> to_lower (trim_space c) = c" "d \<in> set known \<or> d = []"
  shows "known_or known d (known_or known d s) = known_or known d s"
  using assms by (auto simp: known_or_def Let_def to_lower_def)

definition cut_note :: "string \<Rightarrow> string" where
  "cut_note s = (let v = trim_space s in if length (runes v) > maxNoteLength then concat (take maxNoteLength (runes v)) else v)"

lemma two_guards: "(if g then Inl e else if h then Inl e' else Inr r) = Inr y \<longleftrightarrow> \<not> g \<and> \<not> h \<and> y = r"
  by auto

lemma NormalizeEstimatedCost_Inr:
  "NormalizeEstimatedCost d x = Inr y \<longleftrightarrow>
     \<not> (case ec_amount x of None \<Rightarrow> False | Some a \<Rightarrow> a < 0) \<and>
     \<not> (to_upper (trim_space (ec_currency x)) \<noteq> [] \<and> \<not> currency_code (to_upper (trim_space (ec_currency x)))) \<and>
     y = x\<lparr>ec_currency := to_upper (trim_space (ec_currency x)),
       ec_category := known_or validCategories ''other'' (ec_category x),
       ec_confidence := known_or validConfidences (if ec_amount x \<noteq> None then ''low'' else []) (ec_confidence x),
       ec_source := known_or validSources d (ec_source x), ec_note := cut_note (ec_note x)\<rparr>"
  unfolding NormalizeEstimatedCost_def Let_def known_or_def cut_note_def by (rule two_guards)

lemma NormalizeEstimatedCost_renorm:
  assumes "d \<in> set validSources"
  shows "renorm cost_fits (NormalizeEstimatedCost d) (NormalizeEstimatedCost d)"
  unfolding renorm_def
proof (intro allI impI)
  fix x y assume "NormalizeEstimatedCost d x = Inr y"
  note y = this [unfolded NormalizeEstimatedCost_Inr]
  have "''other'' \<in> set validCategories" "''low'' \<in> set validConfidences"
    by (simp_all add: validCategories_def validConfidences_def)
  then have fixed: "known_or validCategories ''other'' (ec_category y) = ec_category y"
    "known_or validConfidences (if ec_amount y \<noteq> None then ''low'' else []) (ec_confidence y) = ec_confidence y"
    "known_or validSources d (ec_source y) = ec_source y"
    using y assms known_texts by (simp_all add: known_or_idem)
  have cur: "to_upper (trim_space (ec_currency y)) = ec_currency y" using y by simp
  have "NormalizeEstimatedCost d y = Inr (y\<lparr>ec_note := cut_note (ec_note y)\<rparr>)"
    unfolding NormalizeEstimatedCost_Inr fixed cur using y by simp
  moreover have "cut_note (ec_note y) = ec_note y" if "cost_fits x"
    using y that by (simp add: cut_note_def Let_def cost_fits_def not_less)
  ultimately show "\<exists>z. NormalizeEstimatedCost d y = Inr z \<and> (cost_fits x \<longrightarrow> z = y)" by simp
qed

lemma labelled_Inr [simp]: "labelled l r = Inr y \<longleftrightarrow> r = Inr y"
  by (auto simp: labelled_def split: sum.splits app_error.splits)

lemma renorm_labelled: "renorm P f g \<Longrightarrow> renorm P (\<lambda>x. labelled l (f x)) (\<lambda>x. labelled l' (g x))"
  unfolding renorm_def by simp

lemma adds_no_space_token [simp]: "adds_no_space token_char"
  unfolding adds_no_space_def
proof (intro allI impI)
  fix c assume "token_char c \<in> set (concat space_encodings)"
  from space_byte [OF this] show "token_char c = c" by (auto simp: token_char_def split: if_splits)
qed

lemma adds_no_space_comp: "adds_no_space f \<Longrightarrow> adds_no_space g \<Longrightarrow> adds_no_space (f \<circ> g)"
  unfolding adds_no_space_def comp_apply by metis

lemma lower_token: "lower_char (token_char (lower_char c)) = token_char (lower_char c)"
proof -
  have "lower_char (CHR ''_'') = CHR ''_''" by (simp add: lower_char_def)
  then show ?thesis by (simp add: token_char_def)
qed

lemma NormalizeRouteToken_idem [simp]: "NormalizeRouteToken (NormalizeRouteToken v) = NormalizeRouteToken v"
proof -
  have "trim_space (NormalizeRouteToken v) = NormalizeRouteToken v"
    using trim_space_map [of "token_char \<circ> lower_char" v]
    by (simp add: NormalizeRouteToken_def to_lower_def adds_no_space_comp)
  moreover have "map token_char (to_lower (NormalizeRouteToken v)) = NormalizeRouteToken v"
    by (simp add: NormalizeRouteToken_def to_lower_def lower_token) (simp add: token_char_def)
  ultimately show ?thesis by (simp add: NormalizeRouteToken_def [of "NormalizeRouteToken v"])
qed

definition transfer_fits :: "transfer_details \<Rightarrow> bool" where
  "transfer_fits t \<longleftrightarrow> opt_fits cost_fits (tf_cost t)"

lemma cost_category: "NormalizeEstimatedCost d x = Inr y \<Longrightarrow> ec_category y \<noteq> []"
proof -
  have "[] \<notin> set validCategories" by (simp add: validCategories_def)
  then have "known_or validCategories ''other'' s \<noteq> []" for s by (auto simp: known_or_def Let_def to_lower_def)
  then show "NormalizeEstimatedCost d x = Inr y \<Longrightarrow> ec_category y \<noteq> []" by (simp add: NormalizeEstimatedCost_Inr)
qed

lemma cost_category_kept:
  "opt_check (NormalizeEstimatedCost d) v = Inr w \<Longrightarrow>
    map_option (\<lambda>c. if ec_category c = [] then c\<lparr>ec_category := k\<rparr> else c) w = w"
  by (cases w) (auto simp: opt_check_def rbind_Inr_iff dest: cost_category split: option.splits)

lemma validateAndNormalizeTransfer_Inr:
  "validateAndNormalizeTransfer l x = Inr y \<longleftrightarrow>
    (\<exists>cost. opt_check (NormalizeEstimatedCost ''ai'') (tf_cost x) = Inr cost \<and>
      trim_space (tf_from x) \<noteq> [] \<and> trim_space (tf_to x) \<noteq> [] \<and>
      NormalizeRouteToken (tf_mode x) \<in> set SupportedTransportModes \<and>
      (case tf_duration x of None \<Rightarrow> True | Some d \<Rightarrow> 0 \<le> d) \<and> (case tf_distance x of None \<Rightarrow> True | Some d \<Rightarrow> 0 \<le> d) \<and>
      y = x\<lparr>tf_leg := trim_space (tf_leg x), tf_from := trim_space (tf_from x), tf_to := trim_space (tf_to x),
        tf_mode := NormalizeRouteToken (tf_mode x), tf_cost := cost, tf_notes := trim_space (tf_notes x)\<rparr>)"
  unfolding validateAndNormalizeTransfer_def Let_def rbind_Inr_iff guard_err_Inr_iff labelled_Inr
  using cost_category_kept [of "''ai''" "tf_cost x" _ "''transport''"] by auto

lemma Transfer_renorm:
  "renorm transfer_fits (validateAndNormalizeTransfer l) (validateAndNormalizeTransfer l')"
  unfolding renorm_def
proof (intro allI impI)
  fix x y assume "validateAndNormalizeTransfer l x = Inr y"
  then obtain cost where c: "opt_check (NormalizeEstimatedCost ''ai'') (tf_cost x) = Inr cost" "tf_cost y = cost"
    and y: "tf_leg y = trim_space (tf_leg x)" "tf_from y = trim_space (tf_from x)" "tf_to y = trim_space (tf_to x)"
      "tf_notes y = trim_space (tf_notes x)" "tf_mode y = NormalizeRouteToken (tf_mode x)"
      "tf_from y \<noteq> []" "tf_to y \<noteq> []" "tf_mode y \<in> set SupportedTransportModes"
      "case tf_duration y of None \<Rightarrow> True | Some d \<Rightarrow> 0 \<le> d" "case tf_distance y of None \<Rightarrow> True | Some d \<Rightarrow> 0 \<le> d"
    unfolding validateAndNormalizeTransfer_Inr by auto
  have "''ai'' \<in> set validSources" by (simp add: validSources_def)
  from renormD [OF renorm_opt [OF NormalizeEstimatedCost_renorm [OF this]] c(1)]
  obtain cost' where c': "opt_check (NormalizeEstimatedCost ''ai'') cost = Inr cost'" "transfer_fits x \<longrightarrow> cost' = cost"
    unfolding transfer_fits_def by blast
  have "validateAndNormalizeTransfer l' y = Inr (y\<lparr>tf_cost := cost'\<rparr>)"
    unfolding validateAndNormalizeTransfer_Inr using c(2) c'(1) y by (intro exI [of _ cost']) simp
  moreover have "transfer_fits x \<Longrightarrow> y\<lparr>tf_cost := cost'\<rparr> = y" using c'(2) c(2) by simp
  ultimately show "\<exists>z. validateAndNormalizeTransfer l' y = Inr z \<and> (transfer_fits x \<longrightarrow> z = y)" by blast
qed

lemma check_all_stable:
  "(\<And>n m x y. f n x = Inr y \<Longrightarrow> g m y = Inr y) \<Longrightarrow> check_all f n xs = Inr ys \<Longrightarrow> check_all g m ys = Inr ys"
  by (induction xs arbitrary: n m ys) (auto simp: rbind_Inr_iff)

lemma hours_again: "hours_interval l n x = Inr y \<Longrightarrow> hours_interval l' m y = Inr y"
  by (auto simp: hours_interval_def Let_def rbind_Inr_iff guard_err_Inr_iff split: option.splits if_splits)

lemma PlaceRef_again: "validateAndNormalizePlaceRef l x = Inr y \<Longrightarrow> validateAndNormalizePlaceRef l' y = Inr y"
  using check_all_stable [of "hours_interval l" "hours_interval l'" 0 "pf_hours x" _ 0] hours_again
  by (auto simp: validateAndNormalizePlaceRef_def validateAndNormalizeOpeningHours_def Let_def rbind_Inr_iff guard_err_Inr_iff)

lemma PlaceEnrichment_again:
  "validateAndNormalizePlaceEnrichment l x = Inr y \<Longrightarrow> validateAndNormalizePlaceEnrichment l' y = Inr y"
  by (auto simp: validateAndNormalizePlaceEnrichment_def Let_def rbind_Inr_iff guard_err_Inr_iff)

lemma PriceEnrichment_again:
  "validateAndNormalizePriceEnrichment l x = Inr y \<Longrightarrow> validateAndNormalizePriceEnrichment l' y = Inr y"
  by (auto simp: validateAndNormalizePriceEnrichment_def Let_def rbind_Inr_iff guard_err_Inr_iff)

lemma lower_trim_lower [simp]: "to_lower (trim_space (to_lower s)) = trim_space (to_lower s)"
proof -
  have "set (trim_space u) \<subseteq> set u" for u
    unfolding trim_space_def using prefix_trim_right [of "trim_left u"] suffix_drop_leads [of space_encodings u]
    by (auto simp: trim_left_def dest!: set_mono_prefix set_mono_suffix)
  then show ?thesis unfolding to_lower_def by (intro map_idI) fastforce
qed

lemma AvailabilityCheck_again:
  "validateAndNormalizeAvailabilityCheck l x = Inr y \<Longrightarrow> validateAndNormalizeAvailabilityCheck l' y = Inr y"
  by (auto simp: validateAndNormalizeAvailabilityCheck_def Let_def rbind_Inr_iff guard_err_Inr_iff)

section \<open>Items\<close>

lemma status_texts:
  "to_lower (trim_space ''Scheduled'') = ''scheduled''" "to_lower (trim_space ''Unscheduled'') = ''unscheduled''"
  "to_lower (trim_space ''Conflict'') = ''conflict''" "to_lower (trim_space ''NeedsReview'') = ''needsreview''"
  by (simp_all add: trim_space_plain plain_byte_def) code_simp+

lemma status_again:
  assumes "normalizeSchedulingStatus raw t ad = Inr st" "st = ''Unscheduled'' \<or> trim_space t' = trim_space t"
  shows "normalizeSchedulingStatus st t' ad = Inr st"
proof -
  have "st = ''Unscheduled'' \<or> st = ''Scheduled'' \<and> (trim_space t \<noteq> [] \<or> ad) \<or> st = ''Conflict'' \<or> st = ''NeedsReview''"
    using assms(1) by (auto simp: normalizeSchedulingStatus_def Let_def split: if_splits)
  then show ?thesis using assms(2) by (elim disjE conjE) (simp_all add: normalizeSchedulingStatus_def status_texts)
qed

definition times_of :: "itinerary_item \<Rightarrow> string \<times> string" where
  "times_of it =
    (let t0 = trim_space (ii_time it); s0 = trim_space (ii_start_time it);
         t1 = (if t0 = [] \<and> s0 \<noteq> [] then s0 else t0)
     in (t1, if s0 = [] \<and> t1 \<noteq> [] then t1 else s0))"

lemma times_of_again:
  assumes "ii_time y = fst (times_of x)" "ii_start_time y = snd (times_of x)"
  shows "times_of y = times_of x"
  using assms by (cases "trim_space (ii_time x) = []"; cases "trim_space (ii_start_time x) = []")
    (simp_all add: times_of_def Let_def)

lemma trim_times_of [simp]: "trim_space (fst (times_of x)) = fst (times_of x)"
  by (simp add: times_of_def Let_def)

lemma guard_case:
  "(if g then Inl e else case m of Inl _ \<Rightarrow> Inl e' | Inr s \<Rightarrow> Inr (f s)) = Inr y \<longleftrightarrow>
    (\<exists>s. \<not> g \<and> m = Inr s \<and> y = f s)"
  by (cases m) auto

lemma normalize_times_Inr:
  "normalize_times l it = Inr y \<longleftrightarrow>
    (\<exists>st. \<not> maxScheduleTimezoneLength < length (trim_space (ii_timezone it)) \<and>
      normalizeSchedulingStatus (ii_sched it) (fst (times_of it)) (ii_all_day it) = Inr st \<and>
      y = (if st = ''Unscheduled''
        then it\<lparr>ii_time := [], ii_start_time := [], ii_end_time := [], ii_duration := None,
                ii_timezone := trim_space (ii_timezone it), ii_sched := st\<rparr>
        else it\<lparr>ii_time := fst (times_of it), ii_start_time := snd (times_of it), ii_end_time := trim_space (ii_end_time it),
                ii_timezone := trim_space (ii_timezone it), ii_sched := st\<rparr>))"
  unfolding normalize_times_def times_of_def Let_def fst_conv snd_conv by (rule guard_case)

lemma times_of_Nil: "ii_time y = [] \<Longrightarrow> ii_start_time y = [] \<Longrightarrow> times_of y = ([], [])"
  by (simp add: times_of_def)

lemma normalize_times_again:
  assumes "normalize_times l x = Inr y"
  shows "normalize_times l' y = Inr y"
proof -
  from assms obtain st where len: "\<not> maxScheduleTimezoneLength < length (trim_space (ii_timezone x))"
    and st: "normalizeSchedulingStatus (ii_sched x) (fst (times_of x)) (ii_all_day x) = Inr st"
    and y: "y = (if st = ''Unscheduled''
        then x\<lparr>ii_time := [], ii_start_time := [], ii_end_time := [], ii_duration := None,
                ii_timezone := trim_space (ii_timezone x), ii_sched := st\<rparr>
        else x\<lparr>ii_time := fst (times_of x), ii_start_time := snd (times_of x), ii_end_time := trim_space (ii_end_time x),
                ii_timezone := trim_space (ii_timezone x), ii_sched := st\<rparr>)"
    unfolding normalize_times_Inr by blast
  show ?thesis
  proof (cases "st = ''Unscheduled''")
    case True
    then have t: "times_of y = ([], [])" using y by (intro times_of_Nil) simp_all
    have "normalizeSchedulingStatus (ii_sched y) [] (ii_all_day y) = Inr st"
      using status_again [OF st] True y by simp
    then show ?thesis unfolding normalize_times_Inr t using len y True by (intro exI [of _ st]) simp
  next
    case False
    then have t: "times_of y = times_of x" using y by (intro times_of_again) simp_all
    have "normalizeSchedulingStatus (ii_sched y) (fst (times_of y)) (ii_all_day y) = Inr st"
      using status_again [OF st] False y t by simp
    then show ?thesis unfolding normalize_times_Inr t using len y False by (intro exI [of _ st]) simp
  qed
qed

definition item_fits :: "itinerary_item \<Rightarrow> bool" where
  "item_fits it \<longleftrightarrow> opt_fits cost_fits (ii_cost it) \<and> opt_fits transfer_fits (ii_transfer it)"

definition day_fits :: "itinerary_day \<Rightarrow> bool" where
  "day_fits day \<longleftrightarrow> list_all item_fits (dy_items day)"

definition doc_fits :: "itinerary \<Rightarrow> bool" where
  "doc_fits it \<longleftrightarrow> list_all day_fits (it_days it)"

lemma record_fix:
  "y = y\<lparr>ii_time := a, ii_start_time := b, ii_end_time := c, ii_duration := d, ii_timezone := e, ii_sched := f\<rparr> \<longleftrightarrow>
     ii_time y = a \<and> ii_start_time y = b \<and> ii_end_time y = c \<and> ii_duration y = d \<and> ii_timezone y = e \<and> ii_sched y = f"
  "y = y\<lparr>ii_time := a, ii_start_time := b, ii_end_time := c, ii_timezone := e, ii_sched := f\<rparr> \<longleftrightarrow>
     ii_time y = a \<and> ii_start_time y = b \<and> ii_end_time y = c \<and> ii_timezone y = e \<and> ii_sched y = f"
  by (cases y; simp; blast)+

lemma normalize_times_fix:
  "normalize_times l y = Inr y \<longleftrightarrow>
    (\<exists>st. \<not> maxScheduleTimezoneLength < length (trim_space (ii_timezone y)) \<and>
      normalizeSchedulingStatus (ii_sched y) (fst (times_of y)) (ii_all_day y) = Inr st \<and>
      ii_timezone y = trim_space (ii_timezone y) \<and> ii_sched y = st \<and>
      (if st = ''Unscheduled'' then ii_time y = [] \<and> ii_start_time y = [] \<and> ii_end_time y = [] \<and> ii_duration y = None
       else ii_time y = fst (times_of y) \<and> ii_start_time y = snd (times_of y) \<and> ii_end_time y = trim_space (ii_end_time y)))"
  unfolding normalize_times_Inr if_split [of "\<lambda>r. y = r"] record_fix if_split [of "\<lambda>b. b"] by blast

definition times_ok :: "itinerary_item \<Rightarrow> bool" where
  "times_ok it \<longleftrightarrow> \<not> bad_duration (ii_duration it) \<and>
    (if ii_sched it \<noteq> ''Unscheduled'' \<and> \<not> ii_all_day it
     then \<exists>s. parseHHMM (ii_time it) = Some s \<and>
       (ii_end_time it = [] \<or> (\<exists>e. parseHHMM (ii_end_time it) = Some e \<and> s < e))
     else ii_end_time it = [] \<or> validHHMM (ii_end_time it))"

lemma parseHHMM_Nil [simp]: "parseHHMM [] = None"
  by (simp add: parseHHMM_def)

lemma check_times_Inr: "check_times l it = Inr u \<longleftrightarrow> times_ok it"
  by (cases "ii_time it = []"; cases "parseHHMM (ii_time it)"; cases "parseHHMM (ii_end_time it)")
    (simp_all add: check_times_def times_ok_def not_le)

lemma normalize_item_Inr:
  "normalize_item d i it = Inr y \<longleftrightarrow>
    (\<exists>it1 cost transfer place pm xm am. normalize_times (item_label d i) it = Inr it1 \<and> times_ok it1 \<and>
      trim_space (ii_type it1) \<noteq> [] \<and> trim_space (ii_name it1) \<noteq> [] \<and>
      (NormalizeRouteToken (ii_mode it1) = [] \<or> NormalizeRouteToken (ii_mode it1) \<in> set SupportedTransportModes) \<and>
      opt_check (NormalizeEstimatedCost ''manual'') (ii_cost it1) = Inr cost \<and>
      opt_check (validateAndNormalizeTransfer (item_label d i @ ''.transfer'')) (ii_transfer it1) = Inr transfer \<and>
      opt_check (validateAndNormalizePlaceRef (item_label d i @ ''.place'')) (ii_place it1) = Inr place \<and>
      opt_check (validateAndNormalizePlaceEnrichment (item_label d i @ ''.placeEnrichment'')) (ii_place_meta it1) = Inr pm \<and>
      opt_check (validateAndNormalizePriceEnrichment (item_label d i @ ''.priceEnrichment'')) (ii_price_meta it1) = Inr xm \<and>
      opt_check (validateAndNormalizeAvailabilityCheck (item_label d i @ ''.availabilityCheck'')) (ii_availability it1) = Inr am \<and>
      y = it1\<lparr>ii_type := trim_space (ii_type it1), ii_category := trim_space (ii_category it1),
         ii_mode := NormalizeRouteToken (ii_mode it1), ii_name := trim_space (ii_name it1),
         ii_note := trim_space (ii_note it1), ii_cost := cost, ii_transfer := transfer, ii_place := place,
         ii_place_meta := pm, ii_price_meta := xm, ii_availability := am\<rparr>)"
  unfolding normalize_item_def Let_def rbind_Inr_iff guard_err_Inr_iff labelled_Inr check_times_Inr by blast

lemma opt_again: "(\<And>x y. f x = Inr y \<Longrightarrow> g y = Inr y) \<Longrightarrow> opt_check f v = Inr w \<Longrightarrow> opt_check g w = Inr w"
  by (auto simp: opt_check_def rbind_Inr_iff split: option.splits)

lemma normalize_item_renorm: "renorm item_fits (normalize_item d i) (normalize_item d' i')"
  unfolding renorm_def
proof (intro allI impI)
  fix x y assume "normalize_item d i x = Inr y"
  then obtain x1 cost transfer place pm xm am where t: "normalize_times (item_label d i) x = Inr x1" "times_ok x1"
    and texts: "trim_space (ii_type x1) \<noteq> []" "trim_space (ii_name x1) \<noteq> []"
      "NormalizeRouteToken (ii_mode x1) = [] \<or> NormalizeRouteToken (ii_mode x1) \<in> set SupportedTransportModes"
    and cost: "opt_check (NormalizeEstimatedCost ''manual'') (ii_cost x1) = Inr cost"
    and transfer: "opt_check (validateAndNormalizeTransfer (item_label d i @ ''.transfer'')) (ii_transfer x1) = Inr transfer"
    and parts: "opt_check (validateAndNormalizePlaceRef (item_label d i @ ''.place'')) (ii_place x1) = Inr place"
      "opt_check (validateAndNormalizePlaceEnrichment (item_label d i @ ''.placeEnrichment'')) (ii_place_meta x1) = Inr pm"
      "opt_check (validateAndNormalizePriceEnrichment (item_label d i @ ''.priceEnrichment'')) (ii_price_meta x1) = Inr xm"
      "opt_check (validateAndNormalizeAvailabilityCheck (item_label d i @ ''.availabilityCheck'')) (ii_availability x1) = Inr am"
    and y: "y = x1\<lparr>ii_type := trim_space (ii_type x1), ii_category := trim_space (ii_category x1),
         ii_mode := NormalizeRouteToken (ii_mode x1), ii_name := trim_space (ii_name x1),
         ii_note := trim_space (ii_note x1), ii_cost := cost, ii_transfer := transfer, ii_place := place,
         ii_place_meta := pm, ii_price_meta := xm, ii_availability := am\<rparr>"
    unfolding normalize_item_Inr by blast
  have same: "ii_cost x1 = ii_cost x" "ii_transfer x1 = ii_transfer x"
    using t(1) unfolding normalize_times_Inr by (auto split: if_splits)
  have "''manual'' \<in> set validSources" by (simp add: validSources_def)
  from renormD [OF renorm_opt [OF NormalizeEstimatedCost_renorm [OF this]] cost]
  obtain cost' where c: "opt_check (NormalizeEstimatedCost ''manual'') cost = Inr cost'" "opt_fits cost_fits (ii_cost x1) \<longrightarrow> cost' = cost"
    by blast
  from renormD [OF renorm_opt [OF Transfer_renorm] transfer]
  obtain transfer' where f: "opt_check (validateAndNormalizeTransfer (item_label d' i' @ ''.transfer'')) transfer = Inr transfer'"
    "opt_fits transfer_fits (ii_transfer x1) \<longrightarrow> transfer' = transfer" by blast
  have "normalize_times (item_label d' i') x1 = Inr x1" using t(1) by (rule normalize_times_again)
  moreover have "times_of y = times_of x1" "ii_timezone y = ii_timezone x1" "ii_sched y = ii_sched x1"
    "ii_all_day y = ii_all_day x1" "ii_time y = ii_time x1" "ii_start_time y = ii_start_time x1"
    "ii_end_time y = ii_end_time x1" "ii_duration y = ii_duration x1"
    by (simp_all add: times_of_def y)
  ultimately have times: "normalize_times (item_label d' i') y = Inr y" unfolding normalize_times_fix by (simp only:)
  let ?z = "y\<lparr>ii_cost := cost', ii_transfer := transfer'\<rparr>"
  have "normalize_item d' i' y = Inr ?z"
    unfolding normalize_item_Inr
  proof (intro exI conjI)
    show "normalize_times (item_label d' i') y = Inr y" by (rule times)
    show "times_ok y" using t(2) y by (simp add: times_ok_def)
    show "trim_space (ii_type y) \<noteq> []" "trim_space (ii_name y) \<noteq> []"
      "NormalizeRouteToken (ii_mode y) = [] \<or> NormalizeRouteToken (ii_mode y) \<in> set SupportedTransportModes"
      using texts y by simp_all
    show "opt_check (NormalizeEstimatedCost ''manual'') (ii_cost y) = Inr cost'"
      "opt_check (validateAndNormalizeTransfer (item_label d' i' @ ''.transfer'')) (ii_transfer y) = Inr transfer'"
      using c f y by simp_all
    show "opt_check (validateAndNormalizePlaceRef (item_label d' i' @ ''.place'')) (ii_place y) = Inr place"
      using opt_again [OF PlaceRef_again parts(1)] y by simp
    show "opt_check (validateAndNormalizePlaceEnrichment (item_label d' i' @ ''.placeEnrichment'')) (ii_place_meta y) = Inr pm"
      using opt_again [OF PlaceEnrichment_again parts(2)] y by simp
    show "opt_check (validateAndNormalizePriceEnrichment (item_label d' i' @ ''.priceEnrichment'')) (ii_price_meta y) = Inr xm"
      using opt_again [OF PriceEnrichment_again parts(3)] y by simp
    show "opt_check (validateAndNormalizeAvailabilityCheck (item_label d' i' @ ''.availabilityCheck'')) (ii_availability y) = Inr am"
      using opt_again [OF AvailabilityCheck_again parts(4)] y by simp
  qed (simp add: y)
  moreover have "item_fits x \<longrightarrow> ?z = y" using c(2) f(2) same y by (simp add: item_fits_def)
  ultimately show "\<exists>z. normalize_item d' i' y = Inr z \<and> (item_fits x \<longrightarrow> z = y)" by blast
qed

section \<open>Days and documents\<close>

lemma collect_label: "collect_spans d i seen its = Inr spans \<Longrightarrow> collect_spans d' i seen its = Inr spans"
  by (induction its arbitrary: i seen spans) (auto simp: rbind_Inr_iff split: option.splits if_splits)

lemma adjacent_label: "check_adjacent d spans = Inr () \<Longrightarrow> check_adjacent d' spans = Inr ()"
  by (induction d spans rule: check_adjacent.induct) (auto split: if_splits)

lemma schedule_label: "validateDayScheduleConflicts day d = Inr () \<Longrightarrow> validateDayScheduleConflicts day d' = Inr ()"
  unfolding validateDayScheduleConflicts_def rbind_Inr_iff by (blast intro: collect_label adjacent_label)

lemma schedule_items: "dy_items a = dy_items b \<Longrightarrow> validateDayScheduleConflicts a d = validateDayScheduleConflicts b d"
  by (simp add: validateDayScheduleConflicts_def)

lemma length_check_all: "check_all f n xs = Inr ys \<Longrightarrow> length ys = length xs"
  by (induction xs arbitrary: n ys) (auto simp: rbind_Inr_iff)

lemma check_all_elems: "check_all f n xs = Inr ys \<Longrightarrow> y \<in> set ys \<Longrightarrow> \<exists>m x. f m x = Inr y"
proof (induction xs arbitrary: n ys)
  case (Cons x xs)
  obtain z zs where "f n x = Inr z" "check_all f (Suc n) xs = Inr zs" "ys = z # zs"
    using Cons.prems(1) by (auto simp: rbind_Inr_iff)
  then show ?case using Cons.IH [of "Suc n" zs] Cons.prems(2) by auto
qed simp

lemma normalize_day_Inr:
  "normalize_day d day = Inr y \<longleftrightarrow>
    (\<exists>items. dy_day day \<ge> 1 \<and> trim_space (dy_title day) \<noteq> [] \<and>
      (trim_space (dy_date day) = [] \<or> valid_date (trim_space (dy_date day))) \<and> dy_items day \<noteq> [] \<and>
      length (dy_items day) \<le> maxItineraryItemsPerDay \<and> check_all (normalize_item d) 0 (dy_items day) = Inr items \<and>
      validateDayScheduleConflicts y d = Inr () \<and>
      y = day\<lparr>dy_title := trim_space (dy_title day), dy_date := trim_space (dy_date day), dy_stop := trim_space (dy_stop day),
        dy_location := trim_space (dy_location day), dy_items := items\<rparr>)"
  unfolding normalize_day_def Let_def rbind_Inr_iff guard_err_Inr_iff by auto

lemma normalize_day_again:
  assumes "normalize_day d x = Inr y" "day_fits x"
  shows "normalize_day d' y = Inr y"
proof -
  from assms(1) obtain items where day: "dy_day x \<ge> 1" "trim_space (dy_title x) \<noteq> []"
      "trim_space (dy_date x) = [] \<or> valid_date (trim_space (dy_date x))" "dy_items x \<noteq> []"
      "length (dy_items x) \<le> maxItineraryItemsPerDay"
    and items: "check_all (normalize_item d) 0 (dy_items x) = Inr items"
    and sched: "validateDayScheduleConflicts y d = Inr ()"
    and y: "y = x\<lparr>dy_title := trim_space (dy_title x), dy_date := trim_space (dy_date x), dy_stop := trim_space (dy_stop x),
        dy_location := trim_space (dy_location x), dy_items := items\<rparr>"
    unfolding normalize_day_Inr by blast
  have "check_all (normalize_item d') 0 items = Inr items"
    using renorm_all [OF normalize_item_renorm items] assms(2) by (auto simp: day_fits_def)
  then show ?thesis
    unfolding normalize_day_Inr using day y length_check_all [OF items] schedule_label [OF sched]
    by (intro exI [of _ items]) auto
qed

lemma validate_Inr:
  "validateAndNormalizeItinerary raw = Inr y \<longleftrightarrow>
    (\<exists>it days. raw = Doc it \<and> (case it_total_budget it of None \<Rightarrow> True | Some b \<Rightarrow> 0 \<le> b) \<and> it_days it \<noteq> [] \<and>
      length (it_days it) \<le> maxItineraryDays \<and> check_all normalize_day 0 (it_days it) = Inr days \<and>
      y = it\<lparr>it_destination := trim_space (it_destination it), it_summary := trim_space (it_summary it),
            it_pace := trim_space (it_pace it), it_currency := to_upper (trim_space (it_currency it)),
            it_source := trim_space (it_source it), it_days := days\<rparr>)"
  unfolding validateAndNormalizeItinerary_def
  by (cases raw) (auto simp: rbind_Inr_iff guard_err_Inr_iff)

lemma validated_days:
  assumes "validateAndNormalizeItinerary raw = Inr it"
  shows "\<exists>doc :: itinerary. it_days doc \<noteq> [] \<and> length (it_days doc) \<le> maxItineraryDays \<and>
    check_all normalize_day 0 (it_days doc) = Inr (it_days it)"
proof -
  from assms obtain doc days where "it_days doc \<noteq> []" "length (it_days doc) \<le> maxItineraryDays"
    "check_all normalize_day 0 (it_days doc) = Inr days"
    and "it = doc\<lparr>it_destination := trim_space (it_destination doc), it_summary := trim_space (it_summary doc),
            it_pace := trim_space (it_pace doc), it_currency := to_upper (trim_space (it_currency doc)),
            it_source := trim_space (it_source doc), it_days := days\<rparr>"
    unfolding validate_Inr by blast
  then show ?thesis by (intro exI [of _ doc]) simp
qed

lemma normalize_days_again:
  "check_all normalize_day n xs = Inr ys \<Longrightarrow> list_all day_fits xs \<Longrightarrow> check_all normalize_day m ys = Inr ys"
  by (induction xs arbitrary: n m ys) (auto simp: rbind_Inr_iff intro: normalize_day_again)

text \<open>
  Saving is idempotent: a document that passed the validation passes it again and is not
  changed by it, so a saved or restored itinerary can be saved and restored again. (The cut of an
  overlong cost note is the one exception.)
\<close>

lemma validate_again:
  assumes "validateAndNormalizeItinerary (Doc it) = Inr it'" "doc_fits it"
  shows "validateAndNormalizeItinerary (Doc it') = Inr it'"
proof -
  from assms(1) obtain days where d: "case it_total_budget it of None \<Rightarrow> True | Some b \<Rightarrow> 0 \<le> b" "it_days it \<noteq> []"
      "length (it_days it) \<le> maxItineraryDays" "check_all normalize_day 0 (it_days it) = Inr days"
    and y: "it' = it\<lparr>it_destination := trim_space (it_destination it), it_summary := trim_space (it_summary it),
            it_pace := trim_space (it_pace it), it_currency := to_upper (trim_space (it_currency it)),
            it_source := trim_space (it_source it), it_days := days\<rparr>"
    unfolding validate_Inr by blast
  have "check_all normalize_day 0 days = Inr days"
    using normalize_days_again [OF d(4)] assms(2) by (simp add: doc_fits_def)
  then show ?thesis
    unfolding validate_Inr using d y length_check_all [OF d(4)] by (intro exI [of _ it'] exI [of _ days]) auto
qed

section \<open>Regenerating a saved itinerary\<close>

lemma normalized_item_is_current:
  assumes "normalize_item d i x = Inr y"
  shows "current_item_ok y"
proof -
  obtain z where "normalize_item 0 0 y = Inr z" using renormD [OF normalize_item_renorm assms] by blast
  then have ne: "trim_space (ii_type y) \<noteq> []" "trim_space (ii_name y) \<noteq> []"
    and cost: "\<exists>c. opt_check (NormalizeEstimatedCost ''manual'') (ii_cost y) = Inr c"
    unfolding normalize_item_Inr normalize_times_Inr by (auto split: if_splits)
  from assms obtain x1 cost transfer place pm xm am where t: "normalize_times (item_label d i) x = Inr x1" "times_ok x1"
    and transfer: "opt_check (validateAndNormalizeTransfer (item_label d i @ ''.transfer'')) (ii_transfer x1) = Inr transfer"
    and parts: "opt_check (validateAndNormalizePlaceRef (item_label d i @ ''.place'')) (ii_place x1) = Inr place"
      "opt_check (validateAndNormalizePlaceEnrichment (item_label d i @ ''.placeEnrichment'')) (ii_place_meta x1) = Inr pm"
      "opt_check (validateAndNormalizePriceEnrichment (item_label d i @ ''.priceEnrichment'')) (ii_price_meta x1) = Inr xm"
    and y: "ii_transfer y = transfer" "ii_place y = place" "ii_place_meta y = pm" "ii_price_meta y = xm"
      "ii_time y = ii_time x1" "ii_sched y = ii_sched x1" "ii_all_day y = ii_all_day x1" "ii_duration y = ii_duration x1"
    unfolding normalize_item_Inr by auto
  have "normalize_times (item_label d i) x1 = Inr x1" using t(1) by (rule normalize_times_again)
  then have st: "normalizeSchedulingStatus (ii_sched x1) (fst (times_of x1)) (ii_all_day x1) = Inr (ii_sched x1)"
    "ii_sched x1 = ''Unscheduled'' \<or> ii_time x1 = fst (times_of x1)"
    unfolding normalize_times_fix by (auto split: if_splits)
  then have sched: "normalizeSchedulingStatus (ii_sched y) (ii_time y) (ii_all_day y) = Inr (ii_sched y)"
    using status_again [OF st(1), of "ii_time x1"] y by auto
  have hhmm: "\<not> (ii_sched y \<noteq> ''Unscheduled'' \<and> \<not> ii_all_day y \<and> \<not> validHHMM (trim_space (ii_time y)))"
    using t(2) st(2) y by (auto simp: times_ok_def validHHMM_def)
  obtain w where "opt_check (validateAndNormalizeTransfer ''transfer'') transfer = Inr w"
    using renormD [OF renorm_opt [OF Transfer_renorm] transfer] by blast
  moreover have "case ii_cost y of None \<Rightarrow> True | Some c \<Rightarrow> (case ec_amount c of None \<Rightarrow> True | Some a \<Rightarrow> 0 \<le> a)"
    using cost by (auto simp: opt_check_def rbind_Inr_iff NormalizeEstimatedCost_Inr not_less split: option.splits)
  moreover have again: "opt_check (validateAndNormalizePlaceRef ''place'') place = Inr place"
    "opt_check (validateAndNormalizePlaceEnrichment ''placeEnrichment'') pm = Inr pm"
    "opt_check (validateAndNormalizePriceEnrichment ''priceEnrichment'') xm = Inr xm"
    by (rule opt_again [OF _ parts(1)] opt_again [OF _ parts(2)] opt_again [OF _ parts(3)],
        erule PlaceRef_again PlaceEnrichment_again PriceEnrichment_again)+
  ultimately show ?thesis
    unfolding current_item_ok_def sched
    using hhmm ne t(2) y again by (simp add: times_ok_def)
qed

lemma normalized_day_is_current:
  assumes "normalize_day d x = Inr y"
  shows "dy_day y \<ge> 1" "trim_space (dy_title y) \<noteq> []" "dy_items y \<noteq> []"
    "length (dy_items y) \<le> maxItineraryItemsPerDay" "list_all current_item_ok (dy_items y)"
    "\<not> isl (validateDayScheduleConflicts y 0)"
proof -
  from assms obtain items where day: "dy_day x \<ge> 1" "trim_space (dy_title x) \<noteq> []" "dy_items x \<noteq> []"
      "length (dy_items x) \<le> maxItineraryItemsPerDay"
    and items: "check_all (normalize_item d) 0 (dy_items x) = Inr items"
    and sched: "validateDayScheduleConflicts y d = Inr ()"
    and y: "dy_day y = dy_day x" "dy_title y = trim_space (dy_title x)" "dy_items y = items"
    unfolding normalize_day_Inr by auto
  show "dy_day y \<ge> 1" "trim_space (dy_title y) \<noteq> []" using day y by simp_all
  show "dy_items y \<noteq> []" "length (dy_items y) \<le> maxItineraryItemsPerDay"
    using day y length_check_all [OF items] by auto
  show "list_all current_item_ok (dy_items y)"
    unfolding y list_all_iff using check_all_elems [OF items] normalized_item_is_current by blast
  show "\<not> isl (validateDayScheduleConflicts y 0)" using schedule_label [OF sched, of 0] by simp
qed

lemma current_days_ok_iff:
  "current_days_ok seen days \<longleftrightarrow> distinct (map dy_day days) \<and> dy_day ` set days \<inter> set seen = {} \<and>
    (\<forall>day \<in> set days. dy_day day \<ge> 1 \<and> trim_space (dy_title day) \<noteq> [] \<and> dy_items day \<noteq> [] \<and>
      length (dy_items day) \<le> maxItineraryItemsPerDay \<and> list_all current_item_ok (dy_items day) \<and>
      \<not> isl (validateDayScheduleConflicts day 0))"
  by (induction seen days rule: current_days_ok.induct) auto

text \<open>
  C9. A saved itinerary can be regenerated in part exactly when its day numbers differ: all other
  conditions \<open>RegenerateDay\<close> and \<open>RegenerateItem\<close> put on the stored document are implied by the
  validation of the save, which does not look at duplicate day numbers.
\<close>

theorem saved_is_regenerable_iff_days_differ:
  assumes "validateAndNormalizeItinerary raw = Inr it"
  shows "\<not> isl (validateCurrentItinerary it) \<longleftrightarrow> distinct (map dy_day (it_days it))"
proof -
  obtain doc :: itinerary and days where d: "it_days doc \<noteq> []" "length (it_days doc) \<le> maxItineraryDays"
    "check_all normalize_day 0 (it_days doc) = Inr days" "it_days it = days"
    using validated_days [OF assms] by blast
  have "it_days it \<noteq> []" "length (it_days it) \<le> maxItineraryDays" using d length_check_all [OF d(3)] by auto
  moreover have "dy_day day \<ge> 1 \<and> trim_space (dy_title day) \<noteq> [] \<and> dy_items day \<noteq> [] \<and>
      length (dy_items day) \<le> maxItineraryItemsPerDay \<and> list_all current_item_ok (dy_items day) \<and>
      \<not> isl (validateDayScheduleConflicts day 0)" if day: "day \<in> set days" for day
    using check_all_elems [OF d(3) day] normalized_day_is_current by blast
  then have "current_days_ok [] days \<longleftrightarrow> distinct (map dy_day days)" unfolding current_days_ok_iff by simp
  ultimately show ?thesis by (simp add: validateCurrentItinerary_def d(4))
qed

end
