(* ===== verification/ItineraryWitnesses.thy ===== *)
theory ItineraryWitnesses
  imports ItineraryLaws
begin

text \<open>
  The laws of the itinerary validation at concrete documents, and a day whose overlap the schedule
  check does not see.
\<close>

definition overlap_day :: itinerary_day where
  "overlap_day = demo_day 1
     [(demo_item ''09:00'' ''museum'' ''Uffizi'')\<lparr>ii_end_time := ''12:00''\<rparr>,
      (demo_item ''10:00'' ''note'' ''Call the hotel'')\<lparr>ii_end_time := ''10:30''\<rparr>,
      (demo_item ''11:00'' ''tour'' ''Duomo'')\<lparr>ii_end_time := ''13:00''\<rparr>]"

definition span_at :: "itinerary_day \<Rightarrow> nat \<Rightarrow> schedule_span" where
  "span_at day i = day_spans day ! i"

text \<open>
  The schedule check compares each span with the one before it only: a note between two
  activities that overlap each other hides their overlap. (Museum from 9 to 12, a note at 10, a tour
  from 11.)
\<close>

theorem note_hides_overlap:
  "validateDayScheduleConflicts overlap_day 0 = Inr () \<and>
   span_at overlap_day 0 \<in> set (day_spans overlap_day) \<and> span_at overlap_day 2 \<in> set (day_spans overlap_day) \<and>
   sp_index (span_at overlap_day 0) \<noteq> sp_index (span_at overlap_day 2) \<and>
   \<not> scheduleOverlapAllowed (sp_item (span_at overlap_day 0)) (sp_item (span_at overlap_day 2)) \<and>
   \<not> apart (span_at overlap_day 0) (span_at overlap_day 2)"
  by code_simp

definition quiet_day :: itinerary_day where
  "quiet_day = demo_day 1 [demo_item ''09:00'' ''museum'' ''Forum'', demo_item ''15:00'' ''walk'' ''Park'']"

lemma schedule_check_is_exact_witness:
  "no_exempt_pair (day_spans quiet_day) \<and> length (day_spans quiet_day) = 2 \<and>
   (validateDayScheduleConflicts quiet_day 0 = Inr () \<longleftrightarrow>
     (\<forall>s \<in> set (day_spans quiet_day). span_fits s) \<and> spans_apart (day_spans quiet_day))"
proof -
  have "no_exempt_pair (day_spans quiet_day)" "length (day_spans quiet_day) = 2" by code_simp+
  then show ?thesis using schedule_check_is_exact by blast
qed

text \<open>A short itinerary as it is saved, and one that has the day 1 twice.\<close>

definition short_day :: itinerary_day where
  "short_day = demo_day 1 [demo_item ''09:00'' ''museum'' ''Forum'']"

definition short_doc :: itinerary where
  "short_doc = empty_itinerary\<lparr>it_destination := ''Rome'', it_days := [short_day]\<rparr>"

definition saved_doc :: "itinerary \<Rightarrow> itinerary" where
  "saved_doc it = projr (validateAndNormalizeItinerary (Doc it))"

definition twice_day_one :: itinerary where
  "twice_day_one = short_doc\<lparr>it_days := [short_day, short_day]\<rparr>"

lemma saved_docI: "\<not> isl (validateAndNormalizeItinerary (Doc it)) \<Longrightarrow> validateAndNormalizeItinerary (Doc it) = Inr (saved_doc it)"
  by (simp add: saved_doc_def)

lemma short_saved: "validateAndNormalizeItinerary (Doc short_doc) = Inr (saved_doc short_doc)"
  by (rule saved_docI) code_simp

lemma twice_saved: "validateAndNormalizeItinerary (Doc twice_day_one) = Inr (saved_doc twice_day_one)"
  by (rule saved_docI) code_simp

lemma twice_not_distinct: "\<not> distinct (map dy_day (it_days (saved_doc twice_day_one)))"
  by code_simp

lemma saved_is_regenerable_iff_days_differ_witness:
  "validateAndNormalizeItinerary (Doc twice_day_one) = Inr (saved_doc twice_day_one) \<and>
   isl (validateCurrentItinerary (saved_doc twice_day_one))"
  using saved_is_regenerable_iff_days_differ [OF twice_saved] twice_saved twice_not_distinct by blast

end
