(* ===== verification/Checklist.thy ===== *)
theory Checklist
  imports TripStore ItineraryParts
begin

text \<open>
  The package \<open>internal/approvals\<close>: the transitions between approval statuses and the checklist
  of a submission. Counts are integers, amounts the rationals their \<open>float64\<close> stands for.
\<close>

section \<open>Transitions\<close>

definition CanSubmitFrom :: "approval_status \<Rightarrow> bool" where
  "CanSubmitFrom st \<longleftrightarrow> st = ApDraft \<or> st = ApChanges \<or> st = ApCancelled"

definition CanApproveFrom :: "approval_status \<Rightarrow> bool" where
  "CanApproveFrom st \<longleftrightarrow> st = ApPending"

definition CanRequestChangesFrom :: "approval_status \<Rightarrow> bool" where
  "CanRequestChangesFrom st \<longleftrightarrow> st = ApPending"

definition CanCancelFrom :: "approval_status \<Rightarrow> bool" where
  "CanCancelFrom st \<longleftrightarrow> st = ApPending"

section \<open>Items\<close>

datatype item_status = ItemOK | ItemWarning | ItemBlocked | ItemInfo
datatype severity = SeverityBlocker | SeverityWarning | SeverityInfo
datatype checklist_status = ChecklistOK | ChecklistWarning | ChecklistBlocked

record checklist_item =
  ck_key :: string
  ck_status :: item_status
  ck_severity :: severity
  ck_title :: string
  ck_message :: string

record checklist =
  cl_status :: checklist_status
  cl_items :: "checklist_item list"
  cl_warnings :: nat
  cl_criticals :: nat
  cl_blockers :: nat

record checklist_input =
  cn_days :: int
  cn_items :: int
  cn_has_budget :: bool
  cn_budget :: rat
  cn_estimated :: rat
  cn_has_ws_budget :: bool
  cn_ws_exceeded :: bool
  cn_ws_near :: bool
  cn_travelers :: int
  cn_unassigned :: int
  cn_invalid_split :: int
  cn_missing :: int
  cn_default_split :: int
  cn_policy_status :: string
  cn_policy_warnings :: int
  cn_policy_blocking :: int
  cn_policy_info :: int
  cn_bookable :: int
  cn_unchecked :: int
  cn_low_confidence :: int
  cn_unavailable :: int
  cn_price_changed :: int
  cn_fallback :: int

definition checklist_can_submit :: "checklist \<Rightarrow> bool" where
  "checklist_can_submit c \<longleftrightarrow> cl_blockers c = 0"

definition ck :: "string \<Rightarrow> severity \<Rightarrow> string \<Rightarrow> item_status \<Rightarrow> string \<Rightarrow> checklist_item" where
  "ck k sev title st msg = \<lparr>ck_key = k, ck_status = st, ck_severity = sev, ck_title = title, ck_message = msg\<rparr>"

text \<open>\<open>%d\<close> for a number that may be negative.\<close>

definition itoa_int :: "int \<Rightarrow> string" where
  "itoa_int n = (if n < 0 then ''-'' @ itoa (nat (- n)) else itoa (nat n))"

definition workspacePolicyItem :: "checklist_input \<Rightarrow> checklist_item" where
  "workspacePolicyItem c =
    (let st = cn_policy_status c;
         msg = (if cn_policy_warnings c > 0 \<or> cn_policy_blocking c > 0 \<or> cn_policy_info c > 0
           then ''Workspace policy: '' @ itoa_int (cn_policy_warnings c) @ '' warning(s), '' @
             itoa_int (cn_policy_blocking c) @ '' blocking violation(s), '' @ itoa_int (cn_policy_info c) @ '' info result(s).''
           else ''No active workspace policy applies.'')
     in if st = ''blocking'' then ck ''workspace_policy'' SeverityBlocker ''Workspace policy'' ItemBlocked msg
        else if st = ''warning'' then ck ''workspace_policy'' SeverityWarning ''Workspace policy'' ItemWarning msg
        else if st = ''info'' \<or> st = ''not_applicable'' then ck ''workspace_policy'' SeverityInfo ''Workspace policy'' ItemInfo msg
        else ck ''workspace_policy'' SeverityInfo ''Workspace policy'' ItemOK
          (if st = ''ok'' then ''The trip passes all enabled workspace policy rules.'' else msg))"

definition itineraryItem :: "checklist_input \<Rightarrow> checklist_item" where
  "itineraryItem c =
    (if cn_days c \<ge> 1 \<and> cn_items c \<ge> 1
     then ck ''itinerary_exists'' SeverityBlocker ''Itinerary exists'' ItemOK ''Trip has a generated itinerary.''
     else ck ''itinerary_exists'' SeverityBlocker ''Itinerary exists'' ItemBlocked
       ''Add at least one itinerary day with one activity before submitting for approval.'')"

definition budgetExistsItem :: "checklist_input \<Rightarrow> checklist_item" where
  "budgetExistsItem c =
    (if cn_has_budget c then ck ''budget_exists'' SeverityWarning ''Trip budget set'' ItemOK ''Trip has a budget.''
     else ck ''budget_exists'' SeverityWarning ''Trip budget set'' ItemWarning
       ''No trip budget is set. Reviewers will not see a spending target.'')"

definition workspaceBudgetItem :: "checklist_input \<Rightarrow> checklist_item" where
  "workspaceBudgetItem c =
    (let item = ck ''workspace_budget_status'' SeverityWarning ''Workspace budget'' in
     if \<not> cn_has_ws_budget c then item ItemWarning ''No workspace budget is configured for this workspace.''
     else if cn_ws_exceeded c then item ItemWarning ''The workspace budget is over its limit.''
     else if cn_ws_near c then item ItemWarning ''The workspace budget is close to its limit.''
     else item ItemOK ''The workspace budget is within limits.'')"

definition tripBudgetItem :: "checklist_input \<Rightarrow> checklist_item" where
  "tripBudgetItem c =
    (let item = ck ''trip_budget_status'' SeverityWarning ''Estimated cost vs trip budget'' in
     if \<not> cn_has_budget c then item ItemInfo ''No trip budget to compare the estimated cost against.''
     else if cn_estimated c > cn_budget c then item ItemWarning ''The estimated cost is over the trip budget.''
     else item ItemOK ''The estimated cost is within the trip budget.'')"

definition costSplittingItem :: "checklist_input \<Rightarrow> checklist_item" where
  "costSplittingItem c =
    (let item = ck ''cost_splitting_configured'' SeverityWarning ''Cost splitting configured'' in
     if cn_travelers c = 0 then item ItemWarning ''No travelers are added, so costs cannot be split.''
     else if cn_invalid_split c > 0 then item ItemWarning ''Some costs have invalid split rules.''
     else if cn_unassigned c > 0 then item ItemWarning ''Some costs are not assigned to any traveler.''
     else item ItemOK ''Costs are split across travelers.'')"

definition availabilityItem :: "checklist_input \<Rightarrow> checklist_item" where
  "availabilityItem c =
    (let item = ck ''availability_checked'' SeverityWarning ''Availability checked'' in
     if cn_bookable c = 0 then item ItemOK ''No bookable items require an availability check.''
     else if cn_unchecked c > 0 then
       item ItemWarning ''Some bookable items have not had their availability or price checked.''
     else item ItemOK ''Bookable items have availability information.'')"

definition missingEstimatesItem :: "checklist_input \<Rightarrow> checklist_item" where
  "missingEstimatesItem c =
    (if cn_missing c = 0
     then ck ''missing_cost_estimates'' SeverityWarning ''Cost estimates complete'' ItemOK ''All items have a cost estimate.''
     else ck ''missing_cost_estimates'' SeverityWarning ''Cost estimates complete'' ItemWarning
       ''Some items are missing a cost estimate.'')"

definition availabilitySignalItems :: "checklist_input \<Rightarrow> checklist_item list" where
  "availabilitySignalItems c =
    (if cn_unavailable c > 0
     then [ck ''availability_unavailable'' SeverityWarning ''Items reported unavailable'' ItemWarning
       ''Some items were reported unavailable by the availability provider. Reconsider or re-check them.''] else []) @
    (if cn_low_confidence c > 0
     then [ck ''availability_low_confidence'' SeverityWarning ''Low-confidence availability matches'' ItemWarning
       ''Some availability results were low-confidence matches. Verify they refer to the correct place or event.''] else []) @
    (if cn_price_changed c > 0
     then [ck ''availability_price_changed'' SeverityWarning ''Provider prices differ from estimates'' ItemWarning
       ''Applied provider prices differ noticeably from the previous estimates. Review the trip budget.''] else []) @
    (if cn_fallback c > 0
     then [ck ''availability_fallback'' SeverityInfo ''Fallback availability data'' ItemInfo
       ''Some availability results came from fallback/estimated data, not a verified provider check.''] else [])"

section \<open>The roll-up\<close>

fun count_item :: "checklist_item \<Rightarrow> checklist \<Rightarrow> checklist" where
  "count_item it c =
    (case ck_status it of
       ItemBlocked \<Rightarrow> c\<lparr>cl_blockers := cl_blockers c + 1,
          cl_criticals := (if ck_severity it = SeverityBlocker then cl_criticals c + 1 else cl_criticals c)\<rparr>
     | ItemWarning \<Rightarrow> c\<lparr>cl_warnings := cl_warnings c + 1\<rparr>
     | _ \<Rightarrow> c)"

definition checklist_items :: "checklist_input \<Rightarrow> checklist_item list" where
  "checklist_items c = [itineraryItem c, budgetExistsItem c, workspaceBudgetItem c, tripBudgetItem c,
     costSplittingItem c, availabilityItem c, missingEstimatesItem c, workspacePolicyItem c] @ availabilitySignalItems c"

definition Calculate :: "checklist_input \<Rightarrow> checklist" where
  "Calculate c =
    (let items = checklist_items c;
         counted = fold count_item items
           \<lparr>cl_status = ChecklistOK, cl_items = items, cl_warnings = 0, cl_criticals = 0, cl_blockers = 0\<rparr>
     in counted\<lparr>cl_status := (if cl_blockers counted > 0 then ChecklistBlocked
          else if cl_warnings counted > 0 then ChecklistWarning else ChecklistOK)\<rparr>)"

section \<open>What the checklist says\<close>

definition items_with :: "item_status \<Rightarrow> checklist_item list \<Rightarrow> nat" where
  "items_with st items = length (filter (\<lambda>i. ck_status i = st) items)"

lemma ck_fields: "ck_status (ck k sev title st msg) = st" "ck_severity (ck k sev title st msg) = sev"
  by (simp_all add: ck_def)

lemma ck_if:
  "ck_status (if b then x else y) = (if b then ck_status x else ck_status y)"
  "ck_severity (if b then x else y) = (if b then ck_severity x else ck_severity y)"
  by simp_all

lemma fold_count:
  "cl_items (fold count_item items c) = cl_items c \<and>
   cl_blockers (fold count_item items c) = cl_blockers c + items_with ItemBlocked items \<and>
   cl_warnings (fold count_item items c) = cl_warnings c + items_with ItemWarning items \<and>
   cl_criticals (fold count_item items c) =
    cl_criticals c + length (filter (\<lambda>i. ck_status i = ItemBlocked \<and> ck_severity i = SeverityBlocker) items)"
proof (induction items arbitrary: c)
  case (Cons i items)
  show ?case using Cons.IH [of "count_item i c"] by (cases "ck_status i") (simp_all add: items_with_def)
qed (simp add: items_with_def)

lemma Calculate_counts:
  "cl_blockers (Calculate c) = items_with ItemBlocked (cl_items (Calculate c))"
  "cl_warnings (Calculate c) = items_with ItemWarning (cl_items (Calculate c))"
  "cl_criticals (Calculate c) =
     length (filter (\<lambda>i. ck_status i = ItemBlocked \<and> ck_severity i = SeverityBlocker) (cl_items (Calculate c)))"
  by (simp_all add: Calculate_def Let_def fold_count)

lemma never_blocked:
  "ck_status (budgetExistsItem c) \<noteq> ItemBlocked" "ck_status (workspaceBudgetItem c) \<noteq> ItemBlocked"
  "ck_status (tripBudgetItem c) \<noteq> ItemBlocked" "ck_status (costSplittingItem c) \<noteq> ItemBlocked"
  "ck_status (availabilityItem c) \<noteq> ItemBlocked" "ck_status (missingEstimatesItem c) \<noteq> ItemBlocked"
  unfolding budgetExistsItem_def workspaceBudgetItem_def tripBudgetItem_def costSplittingItem_def
    availabilityItem_def missingEstimatesItem_def Let_def ck_if ck_fields by simp_all

lemma ball_if: "(\<forall>x \<in> set (if b then [y] else []). P x) \<longleftrightarrow> (b \<longrightarrow> P y)"
  by simp

lemma signals_not_blocked: "\<forall>i \<in> set (availabilitySignalItems c). ck_status i \<noteq> ItemBlocked"
  unfolding availabilitySignalItems_def set_append ball_Un ball_if ck_fields by simp

lemma first_case:
  "(if a then ItemBlocked else if b then ItemWarning else if d then ItemInfo else ItemOK) = ItemBlocked \<longleftrightarrow> a"
  "(if a then ItemOK else ItemBlocked) = ItemBlocked \<longleftrightarrow> \<not> a"
  by simp_all

lemma policy_item_status:
  "ck_status (workspacePolicyItem c) = ItemBlocked \<longleftrightarrow> cn_policy_status c = ''blocking''"
  unfolding workspacePolicyItem_def Let_def ck_if ck_fields by (rule first_case(1))

lemma blocking_items:
  "ck_status (itineraryItem c) = ItemBlocked \<longleftrightarrow> \<not> (cn_days c \<ge> 1 \<and> cn_items c \<ge> 1)"
  "ck_status (workspacePolicyItem c) = ItemBlocked \<longleftrightarrow> cn_policy_status c = ''blocking''"
  "ck_severity (itineraryItem c) = SeverityBlocker"
  "ck_status (workspacePolicyItem c) = ItemBlocked \<Longrightarrow> ck_severity (workspacePolicyItem c) = SeverityBlocker"
proof -
  show "ck_status (itineraryItem c) = ItemBlocked \<longleftrightarrow> \<not> (cn_days c \<ge> 1 \<and> cn_items c \<ge> 1)"
    unfolding itineraryItem_def ck_if ck_fields by (rule first_case(2))
  show "ck_severity (itineraryItem c) = SeverityBlocker"
    unfolding itineraryItem_def ck_if ck_fields if_cancel by (rule refl)
  show "ck_severity (workspacePolicyItem c) = SeverityBlocker" if "ck_status (workspacePolicyItem c) = ItemBlocked"
  proof -
    have *: "cn_policy_status c = ''blocking'' \<longleftrightarrow> True" using that policy_item_status by blast
    show ?thesis unfolding workspacePolicyItem_def Let_def * if_True ck_fields by (rule refl)
  qed
qed (rule policy_item_status)

lemma Calculate_items: "cl_items (Calculate c) = checklist_items c"
  by (simp add: Calculate_def Let_def fold_count)

lemma checklist_items_ball:
  "(\<forall>i \<in> set (checklist_items c). P i) \<longleftrightarrow> P (itineraryItem c) \<and> P (budgetExistsItem c) \<and> P (workspaceBudgetItem c) \<and>
     P (tripBudgetItem c) \<and> P (costSplittingItem c) \<and> P (availabilityItem c) \<and> P (missingEstimatesItem c) \<and>
     P (workspacePolicyItem c) \<and> (\<forall>i \<in> set (availabilitySignalItems c). P i)"
  unfolding checklist_items_def set_append ball_Un by simp

lemma Calculate_can_submit:
  "checklist_can_submit (Calculate c) \<longleftrightarrow>
     cn_days c \<ge> 1 \<and> cn_items c \<ge> 1 \<and> cn_policy_status c \<noteq> ''blocking''"
proof -
  have "checklist_can_submit (Calculate c) \<longleftrightarrow> (\<forall>i \<in> set (cl_items (Calculate c)). ck_status i \<noteq> ItemBlocked)"
    by (auto simp: checklist_can_submit_def Calculate_counts items_with_def filter_empty_conv)
  also have "\<dots> \<longleftrightarrow> ck_status (itineraryItem c) \<noteq> ItemBlocked \<and> ck_status (workspacePolicyItem c) \<noteq> ItemBlocked"
    unfolding Calculate_items checklist_items_ball using never_blocked [of c] signals_not_blocked [of c] by blast
  finally show ?thesis unfolding blocking_items by blast
qed

lemma no_bad_items:
  "length (filter (\<lambda>i. ck_status i = ItemBlocked) xs) = 0 \<and> length (filter (\<lambda>i. ck_status i = ItemWarning) xs) = 0 \<longleftrightarrow>
    (\<forall>i \<in> set xs. ck_status i = ItemOK \<or> ck_status i = ItemInfo)"
proof -
  have "ck_status i \<noteq> ItemBlocked \<and> ck_status i \<noteq> ItemWarning \<longleftrightarrow> ck_status i = ItemOK \<or> ck_status i = ItemInfo" for i
    by (cases "ck_status i") simp_all
  then show ?thesis by (simp add: filter_empty_conv) blast
qed

text \<open>
  C10. A checklist stands in the way of a submission exactly when the itinerary has no day or no item,
  or when the workspace policy is violated in a blocking rule: no budget, cost, split or availability
  finding ever blocks. Its overall status is blocked, warning or ok accordingly, by its counts. (The
  README of the service and the comments of \<open>CanSubmit\<close> and \<open>ErrBlockedByChecklist\<close> name a missing
  itinerary as the only blocker.)
\<close>

theorem checklist_blocks_exactly:
  "(checklist_can_submit (Calculate c) \<longleftrightarrow>
     cn_days c \<ge> 1 \<and> cn_items c \<ge> 1 \<and> cn_policy_status c \<noteq> ''blocking'') \<and>
   (cl_status (Calculate c) = ChecklistBlocked \<longleftrightarrow> \<not> checklist_can_submit (Calculate c)) \<and>
   (cl_status (Calculate c) = ChecklistOK \<longleftrightarrow>
     list_all (\<lambda>i. ck_status i = ItemOK \<or> ck_status i = ItemInfo) (cl_items (Calculate c))) \<and>
   cl_criticals (Calculate c) = cl_blockers (Calculate c)"
proof -
  have st: "cl_status (Calculate c) = (if cl_blockers (Calculate c) > 0 then ChecklistBlocked
      else if cl_warnings (Calculate c) > 0 then ChecklistWarning else ChecklistOK)"
    by (simp add: Calculate_def Let_def)
  have ok: "cl_blockers (Calculate c) = 0 \<and> cl_warnings (Calculate c) = 0 \<longleftrightarrow>
      (\<forall>i \<in> set (cl_items (Calculate c)). ck_status i = ItemOK \<or> ck_status i = ItemInfo)"
    unfolding Calculate_counts items_with_def by (rule no_bad_items)
  have "\<forall>i \<in> set (cl_items (Calculate c)). ck_status i = ItemBlocked \<longrightarrow> ck_severity i = SeverityBlocker"
    unfolding Calculate_items checklist_items_ball
    using never_blocked [of c] signals_not_blocked [of c] blocking_items(3,4) [of c] by blast
  then have sev: "ck_severity i = SeverityBlocker"
    if "i \<in> set (cl_items (Calculate c))" "ck_status i = ItemBlocked" for i
    using that by blast
  have "filter (\<lambda>i. ck_status i = ItemBlocked \<and> ck_severity i = SeverityBlocker) (cl_items (Calculate c)) =
      filter (\<lambda>i. ck_status i = ItemBlocked) (cl_items (Calculate c))"
    using sev by (intro filter_cong) auto
  then have "cl_criticals (Calculate c) = cl_blockers (Calculate c)"
    by (simp add: Calculate_counts items_with_def)
  moreover have "cl_status (Calculate c) = ChecklistOK \<longleftrightarrow> cl_blockers (Calculate c) = 0 \<and> cl_warnings (Calculate c) = 0"
    unfolding st by simp
  moreover have "cl_status (Calculate c) = ChecklistBlocked \<longleftrightarrow> \<not> checklist_can_submit (Calculate c)"
    unfolding st checklist_can_submit_def by simp
  ultimately show ?thesis using Calculate_can_submit ok unfolding list_all_iff by blast
qed

end
