(* ===== verification/PlanStore.thy ===== *)
theory PlanStore
  imports ItineraryEdit Membership
begin

text \<open>
  The state of itinerary editing and approvals: the trips, the snapshots in \<open>itinerary_versions\<close>
  (migration 000003) and the history in \<open>trip_approval_events\<close> (migration 000020), with the
  repository methods of \<open>repository/postgres/trip.go\<close> lines 329 to 545 and 1081 to 1175 and of
  \<open>approval.go\<close>. A save of an itinerary is one transaction: it compares the revision, raises it and adds
  the snapshot, or changes nothing.
\<close>

datatype version_source =
    Generated | ManualEdit | RegeneratedDay | RegeneratedItem | BudgetOptimizationApplied
  | AIPolicyRepairApplied | CostSplitUpdated | TravelStatusUpdated | Restored | FromTemplate | FromTemplateAI

text \<open>The values the services put into the metadata map.\<close>

datatype meta_value = MetaInt int | MetaText string | MetaTexts "string list" | MetaId uuid

record itinerary_version =
  ve_id :: uuid
  ve_trip :: uuid
  ve_user :: uuid
  ve_created_by :: "uuid option"
  ve_number :: int
  ve_source :: version_source
  ve_itinerary :: "itinerary option"
  ve_metadata :: "(string \<times> meta_value) list"
  ve_created_at :: time

datatype approval_event_type = EventSubmitted | EventApproved | EventChangesRequested | EventCancelled | EventResetToDraft

record approval_event =
  ae_event_id :: uuid
  ae_trip :: uuid
  ae_workspace :: uuid
  ae_event_actor :: uuid
  ae_type :: approval_event_type
  ae_from :: "approval_status option"
  ae_to :: approval_status
  ae_note :: "string option"
  ae_event_at :: time

record plan_db =
  pl_db :: trip_db
  pl_versions :: "itinerary_version list"
  pl_events :: "approval_event list"

type_synonym 'a plan_op = "(plan_db, app_error, 'a) op"

abbreviation plan_trips :: "plan_db \<Rightarrow> trip list" where
  "plan_trips s \<equiv> db_trips (pl_db s)"

definition on_db :: "(trip_db \<Rightarrow> trip_db) \<Rightarrow> plan_db \<Rightarrow> plan_db" where
  "on_db f s = s\<lparr>pl_db := f (pl_db s)\<rparr>"

definition set_trips :: "trip list \<Rightarrow> plan_db \<Rightarrow> plan_db" where
  "set_trips rows s = s\<lparr>pl_db := (pl_db s)\<lparr>db_trips := rows\<rparr>\<rparr>"

section \<open>Saving an itinerary\<close>

definition updateItineraryByUserIDWithRevision ::
  "uuid \<Rightarrow> uuid \<Rightarrow> itinerary \<Rightarrow> int \<Rightarrow> trip list \<Rightarrow> (trip \<times> trip list) option" where
  "updateItineraryByUserIDWithRevision tid own it expected rows =
    update_returning (\<lambda>t. tr_id t = tid \<and> tr_user t = Some own \<and> tr_itinerary_revision t = expected)
      (\<lambda>t. t\<lparr>tr_itinerary := Some it, tr_itinerary_revision := tr_itinerary_revision t + 1\<rparr>) rows"

definition currentItineraryRevisionByUserID :: "uuid \<Rightarrow> uuid \<Rightarrow> trip list \<Rightarrow> app_error + int" where
  "currentItineraryRevisionByUserID tid own rows =
    (case select_row (\<lambda>t. tr_id t = tid \<and> tr_user t = Some own) rows of
       None \<Rightarrow> Inl ErrNotFound | Some t \<Rightarrow> Inr (tr_itinerary_revision t))"

definition nextItineraryVersionNumber :: "uuid \<Rightarrow> itinerary_version list \<Rightarrow> int" where
  "nextItineraryVersionNumber tid vs =
    (let ns = map ve_number (filter (\<lambda>v. ve_trip v = tid) vs) in (if ns = [] then 0 else Max (set ns)) + 1)"

definition createItineraryVersion ::
  "itinerary_version \<Rightarrow> itinerary_version list \<Rightarrow> app_error + itinerary_version list" where
  "createItineraryVersion v vs =
    (if \<exists>w \<in> set vs. ve_id w = ve_id v \<or> (ve_trip w = ve_trip v \<and> ve_number w = ve_number v)
     then Inl (DatabaseErr ''duplicate key'') else Inr (vs @ [v]))"

text \<open>What one save brings: the new version's id and time, its author, source and metadata.\<close>

record version_input =
  vi_id :: uuid
  vi_now :: time
  vi_actor :: uuid
  vi_source :: version_source
  vi_metadata :: "(string \<times> meta_value) list"

definition UpdateItineraryAndCreateVersion ::
  "version_input \<Rightarrow> uuid \<Rightarrow> uuid \<Rightarrow> itinerary \<Rightarrow> int \<Rightarrow> plan_db \<Rightarrow> app_error + (trip \<times> plan_db)" where
  "UpdateItineraryAndCreateVersion v tid own it expected s =
    (case updateItineraryByUserIDWithRevision tid own it expected (plan_trips s) of
       None \<Rightarrow> rbind (currentItineraryRevisionByUserID tid own (plan_trips s)) (\<lambda>r. Inl (ItineraryConflict r))
     | Some (t, rows) \<Rightarrow>
        (let row = \<lparr>ve_id = vi_id v, ve_trip = tid, ve_user = own, ve_created_by = Some (vi_actor v),
             ve_number = nextItineraryVersionNumber tid (pl_versions s), ve_source = vi_source v,
             ve_itinerary = Some it, ve_metadata = vi_metadata v, ve_created_at = vi_now v\<rparr>
         in rbind (createItineraryVersion row (pl_versions s)) (\<lambda>vs.
              Inr (t, (set_trips rows s)\<lparr>pl_versions := vs\<rparr>))))"

definition GetItineraryVersionByIDTrip :: "uuid \<Rightarrow> uuid \<Rightarrow> plan_db \<Rightarrow> app_error + itinerary_version" where
  "GetItineraryVersionByIDTrip vid tid s =
    (case select_row (\<lambda>v. ve_id v = vid \<and> ve_trip v = tid) (pl_versions s) of
       None \<Rightarrow> Inl ErrNotFound | Some v \<Rightarrow> Inr v)"

text \<open>The list leaves the documents out.\<close>

definition ListItineraryVersionsByTrip :: "uuid \<Rightarrow> int \<Rightarrow> int \<Rightarrow> plan_db \<Rightarrow> itinerary_version list" where
  "ListItineraryVersionsByTrip tid lmt off s =
    map (\<lambda>v. v\<lparr>ve_itinerary := None\<rparr>)
      (take (nat lmt) (drop (nat off)
        (rev (sort_key ve_number (filter (\<lambda>v. ve_trip v = tid) (pl_versions s))))))"

section \<open>Approval state\<close>

record approval_fields =
  af_trip :: uuid
  af_workspace :: "uuid option"
  af_cols :: approval_cols

definition GetTripApprovalFields :: "uuid \<Rightarrow> plan_db \<Rightarrow> app_error + approval_fields" where
  "GetTripApprovalFields tid s =
    (case select_row (\<lambda>t. tr_id t = tid) (plan_trips s) of
       None \<Rightarrow> Inl ErrNotFound
     | Some t \<Rightarrow> Inr \<lparr>af_trip = tr_id t, af_workspace = tr_workspace t, af_cols = tr_approval t\<rparr>)"

text \<open>All approval columns are written, whatever the row holds by then.\<close>

definition UpdateTripApprovalStatus :: "approval_fields \<Rightarrow> plan_db \<Rightarrow> app_error + (approval_fields \<times> plan_db)" where
  "UpdateTripApprovalStatus f s =
    (case update_returning (\<lambda>t. tr_id t = af_trip f) (\<lambda>t. t\<lparr>tr_approval := af_cols f\<rparr>) (plan_trips s) of
       None \<Rightarrow> Inl ErrNotFound
     | Some (t, rows) \<Rightarrow>
        Inr (\<lparr>af_trip = tr_id t, af_workspace = tr_workspace t, af_cols = tr_approval t\<rparr>, set_trips rows s))"

definition InsertTripApprovalEvent :: "approval_event \<Rightarrow> plan_db \<Rightarrow> app_error + (unit \<times> plan_db)" where
  "InsertTripApprovalEvent e s =
    (if ae_event_id e \<in> ae_event_id ` set (pl_events s) then Inl (DatabaseErr ''duplicate key'')
     else Inr ((), s\<lparr>pl_events := pl_events s @ [e]\<rparr>))"

definition ListTripApprovalEventsByTrip :: "uuid \<Rightarrow> nat \<Rightarrow> plan_db \<Rightarrow> approval_event list" where
  "ListTripApprovalEventsByTrip tid lmt s =
    take lmt (rev (sort_key (\<lambda>e. (ae_event_at e, ae_event_id e)) (filter (\<lambda>e. ae_trip e = tid) (pl_events s))))"

text \<open>
  The reset is one statement: it answers the previous status and the workspace of the row it
  changed, or nothing when the trip is personal or neither pending nor approved.
\<close>

definition under_review :: "approval_status \<Rightarrow> bool" where
  "under_review st \<longleftrightarrow> st = ApApproved \<or> st = ApPending"

definition ResetApprovalStatusForTripIfActive ::
  "time \<Rightarrow> uuid \<Rightarrow> uuid \<Rightarrow> plan_db \<Rightarrow> (approval_status \<times> uuid) option \<times> plan_db" where
  "ResetApprovalStatusForTripIfActive now tid actor s =
    (let hit = (\<lambda>t. tr_id t = tid \<and> tr_workspace t \<noteq> None \<and> under_review (ap_status (tr_approval t)))
     in case select_row hit (plan_trips s) of
          None \<Rightarrow> (None, s)
        | Some t \<Rightarrow>
           (Some (ap_status (tr_approval t), the (tr_workspace t)),
            set_trips (update_where hit
              (\<lambda>t. t\<lparr>tr_approval := (tr_approval t)\<lparr>ap_status := ApDraft, ap_last_at := Some now, ap_last_by := Some actor\<rparr>\<rparr>)
              (plan_trips s)) s))"

end
