(* ===== verification/Approvals.thy ===== *)
theory Approvals
  imports Checklist PlanStore Float64
begin

text \<open>
  The approval workflow of workspace trips (\<open>application/service/approval.go\<close>,
  \<open>approval_reset.go\<close>): submission, the decisions of the workspace's owners and admins,
  cancellation, and the reset after a change of the plan. The evaluation of the workspace policy, the
  summary of the split costs, the existence of a workspace budget and the list of members are answers
  of other parts of the service and of the workspace service; they are arguments (\<open>plan_env\<close>).
  A decision is split where the code reads the row (\<open>decide_read\<close>) and where it writes it
  (\<open>decide_write\<close>), because other requests may run in between.
\<close>

record policy_evaluation =
  pv_status :: string
  pv_warnings :: int
  pv_blocking :: int
  pv_info :: int

record cost_signals =
  cg_estimated :: rat
  cg_travelers :: int
  cg_unassigned :: int
  cg_invalid_split :: int
  cg_missing :: int
  cg_default_split :: int

record workspace_member =
  wm_user :: uuid
  wm_role :: string
  wm_status :: string

record plan_env =
  pe_svc :: svc_env
  pe_members :: "uuid \<Rightarrow> app_error + workspace_member list"
  pe_policy :: "trip \<Rightarrow> app_error + policy_evaluation"
  pe_costs :: "trip \<Rightarrow> app_error + cost_signals"
  pe_ws_budget :: "uuid \<Rightarrow> bool"

text \<open>A request: the caller, its instant, and the ids its inserts get.\<close>

record plan_call =
  pc_user :: "auth_user option"
  pc_now :: time
  pc_version_id :: uuid
  pc_event_id :: uuid

section \<open>Roles in the workspace\<close>

definition workspaceAccess :: "svc_env \<Rightarrow> uuid \<Rightarrow> uuid \<Rightarrow> app_error + workspace_grant" where
  "workspaceAccess env uid ws =
    (case env_workspace_provider env of
       None \<Rightarrow> Inl ErrForbidden
     | Some check \<Rightarrow>
        (if \<not> env_workspaces_enabled env then Inl ErrForbidden
         else rbind (check uid ws) (\<lambda>g.
           case g of
             None \<Rightarrow> Inl ErrForbidden
           | Some g \<Rightarrow> if wg_has_access g then Inr g else Inl ErrForbidden)))"

definition approver_role :: "string \<Rightarrow> bool" where
  "approver_role r \<longleftrightarrow> r = ''owner'' \<or> r = ''admin''"

definition isWorkspaceApprover :: "svc_env \<Rightarrow> uuid \<Rightarrow> uuid \<Rightarrow> app_error + bool" where
  "isWorkspaceApprover env uid ws =
    (case workspaceAccess env uid ws of
       Inl e \<Rightarrow> (if e = ErrForbidden then Inr False else Inl e)
     | Inr g \<Rightarrow> Inr (approver_role (wg_role g)))"

definition requireWorkspaceApprover :: "svc_env \<Rightarrow> uuid \<Rightarrow> uuid \<Rightarrow> app_error + unit" where
  "requireWorkspaceApprover env uid ws =
    rbind (workspaceAccess env uid ws) (\<lambda>g. guard_err (approver_role (wg_role g)) ErrForbidden)"

section \<open>The checklist of a trip\<close>

definition availabilityLowConfidenceThreshold :: rat where
  "availabilityLowConfidenceThreshold = fl (13 / 20)"

record itinerary_counts =
  ct_items :: int
  ct_bookable :: int
  ct_unchecked :: int
  ct_low :: int
  ct_unavailable :: int
  ct_changed :: int
  ct_fallback :: int

definition count_itinerary_item :: "itinerary_item \<Rightarrow> itinerary_counts \<Rightarrow> itinerary_counts" where
  "count_itinerary_item it c =
    (let c1 = c\<lparr>ct_items := ct_items c + 1\<rparr>;
         c2 = (if ii_place it = None then c1
           else c1\<lparr>ct_bookable := ct_bookable c1 + 1,
             ct_unchecked := ct_unchecked c1 +
               (if ii_price_meta it = None \<and> ii_availability it = None then 1 else 0)\<rparr>)
     in case ii_availability it of
          None \<Rightarrow> c2
        | Some a \<Rightarrow> c2\<lparr>ct_fallback := ct_fallback c2 + (if am_fallback a then 1 else 0),
            ct_changed := ct_changed c2 + (if am_price_changed a then 1 else 0),
            ct_unavailable := ct_unavailable c2 + (if am_status a = ''unavailable'' then 1 else 0),
            ct_low := ct_low c2 +
              (if am_confidence a > 0 \<and> am_confidence a < availabilityLowConfidenceThreshold then 1 else 0)\<rparr>)"

definition countItineraryItems :: "itinerary \<Rightarrow> itinerary_counts" where
  "countItineraryItems it =
    fold (\<lambda>day c. fold count_itinerary_item (dy_items day) c) (it_days it)
      \<lparr>ct_items = 0, ct_bookable = 0, ct_unchecked = 0, ct_low = 0, ct_unavailable = 0, ct_changed = 0, ct_fallback = 0\<rparr>"

definition workspaceHasPrimaryBudget :: "plan_env \<Rightarrow> uuid option \<Rightarrow> bool" where
  "workspaceHasPrimaryBudget env ws = (case ws of None \<Rightarrow> False | Some w \<Rightarrow> pe_ws_budget env w)"

definition computeChecklistWithInput ::
  "plan_env \<Rightarrow> trip \<Rightarrow> bool \<Rightarrow> app_error + (checklist \<times> checklist_input)" where
  "computeChecklistWithInput env t has_budget =
    (let it = parseItineraryLenient (tr_itinerary t); counts = countItineraryItems it
     in rbind (pe_costs env t) (\<lambda>costs. rbind (pe_policy env t) (\<lambda>policy.
       let c = \<lparr>cn_days = int (length (it_days it)), cn_items = ct_items counts,
           cn_has_budget = (tr_budget_amount t \<noteq> None),
           cn_budget = (case tr_budget_amount t of None \<Rightarrow> 0 | Some b \<Rightarrow> b),
           cn_estimated = cg_estimated costs, cn_has_ws_budget = has_budget, cn_ws_exceeded = False,
           cn_ws_near = False, cn_travelers = cg_travelers costs, cn_unassigned = cg_unassigned costs,
           cn_invalid_split = cg_invalid_split costs, cn_missing = cg_missing costs,
           cn_default_split = cg_default_split costs, cn_policy_status = pv_status policy,
           cn_policy_warnings = pv_warnings policy, cn_policy_blocking = pv_blocking policy,
           cn_policy_info = pv_info policy, cn_bookable = ct_bookable counts, cn_unchecked = ct_unchecked counts,
           cn_low_confidence = ct_low counts, cn_unavailable = ct_unavailable counts,
           cn_price_changed = ct_changed counts, cn_fallback = ct_fallback counts\<rparr>
       in Inr (Calculate c, c))))"

definition computeChecklist :: "plan_env \<Rightarrow> trip \<Rightarrow> app_error + checklist" where
  "computeChecklist env t =
    rbind (computeChecklistWithInput env t (workspaceHasPrimaryBudget env (tr_workspace t))) (\<lambda>(c, inp). Inr c)"

section \<open>The answer\<close>

record approval_state =
  as_fields :: approval_fields
  as_checklist :: "checklist option"
  as_can_submit :: bool
  as_can_approve :: bool
  as_can_request_changes :: bool
  as_can_cancel :: bool

definition approvalStateBase :: "approval_fields \<Rightarrow> approval_state" where
  "approvalStateBase f = \<lparr>as_fields = f, as_checklist = None, as_can_submit = False, as_can_approve = False,
     as_can_request_changes = False, as_can_cancel = False\<rparr>"

definition buildApprovalState ::
  "approval_fields \<Rightarrow> checklist option \<Rightarrow> bool \<Rightarrow> bool \<Rightarrow> uuid \<Rightarrow> approval_state" where
  "buildApprovalState f c can_edit approver actor =
    (let state = (approvalStateBase f)\<lparr>as_checklist := c\<rparr>; st = ap_status (af_cols f) in
     if af_workspace f = None \<or> st = ApNotRequired then state
     else state\<lparr>
       as_can_submit := (can_edit \<and> CanSubmitFrom st \<and> (case c of None \<Rightarrow> True | Some k \<Rightarrow> checklist_can_submit k)),
       as_can_approve := (approver \<and> CanApproveFrom st),
       as_can_request_changes := (approver \<and> CanRequestChangesFrom st),
       as_can_cancel := (CanCancelFrom st \<and> (ap_submitted_by (af_cols f) = Some actor \<or> approver))\<rparr>)"

definition personalApprovalState :: "approval_fields \<Rightarrow> approval_state" where
  "personalApprovalState f = approvalStateBase (f\<lparr>af_cols := (af_cols f)\<lparr>ap_status := ApNotRequired\<rparr>\<rparr>)"

definition GetTripApproval :: "plan_env \<Rightarrow> plan_call \<Rightarrow> uuid \<Rightarrow> approval_state plan_op" where
  "GetTripApproval env cx tid =
    sbind (spure (MustUserFromContext (pc_user cx))) (\<lambda>user.
    sbind (sread (\<lambda>s. requireViewerEditorOrOwner (pe_svc env) (pl_db s) tid (au_id user))) (\<lambda>(t, access).
    sbind (sread (GetTripApprovalFields tid)) (\<lambda>fields.
    case tr_workspace t of
      None \<Rightarrow> sret (personalApprovalState fields)
    | Some ws \<Rightarrow>
       sbind (spure (computeChecklist env t)) (\<lambda>c.
       sbind (spure (isWorkspaceApprover (pe_svc env) (au_id user) ws)) (\<lambda>approver.
       sret (buildApprovalState fields (Some c) (CanEdit access) approver (au_id user)))))))"

section \<open>History, activity and notifications\<close>

definition approval_event_of ::
  "plan_call \<Rightarrow> uuid \<Rightarrow> uuid \<Rightarrow> uuid \<Rightarrow> approval_event_type \<Rightarrow> approval_status \<Rightarrow> approval_status \<Rightarrow> string option \<Rightarrow> approval_event" where
  "approval_event_of cx tid ws actor ty from' to' txt =
    \<lparr>ae_event_id = pc_event_id cx, ae_trip = tid, ae_workspace = ws, ae_event_actor = actor, ae_type = ty,
     ae_from = Some from', ae_to = to', ae_note = txt, ae_event_at = pc_now cx\<rparr>"

definition recordApprovalEvent ::
  "plan_call \<Rightarrow> approval_fields \<Rightarrow> uuid \<Rightarrow> approval_event_type \<Rightarrow> approval_status \<Rightarrow> string option \<Rightarrow> unit option plan_op" where
  "recordApprovalEvent cx f actor ty from' txt =
    (case af_workspace f of
       None \<Rightarrow> sret None
     | Some ws \<Rightarrow> stry (sstmt (InsertTripApprovalEvent
         (approval_event_of cx (af_trip f) ws actor ty from' (ap_status (af_cols f)) txt))))"

definition plan_activity :: "plan_env \<Rightarrow> string \<Rightarrow> uuid \<Rightarrow> uuid \<Rightarrow> uuid \<Rightarrow> unit plan_op" where
  "plan_activity env ty tid actor entity = sdo (on_db (recordActivity (pe_svc env) ty tid actor entity))"

definition notifyApproval :: "plan_env \<Rightarrow> uuid list \<Rightarrow> uuid \<Rightarrow> uuid \<Rightarrow> string \<Rightarrow> unit plan_op" where
  "notifyApproval env recipients tid actor ty =
    sdo (on_db (\<lambda>db. if \<not> env_notify_on (pe_svc env) then db
      else db\<lparr>db_outbox := db_outbox db @
        map (\<lambda>u. \<lparr>nt_user = u, nt_trip = tid, nt_actor = actor, nt_type = ty\<rparr>)
          (filter (\<lambda>u. u \<noteq> 0 \<and> u \<noteq> actor) recipients)\<rparr>))"

definition workspaceApproverRecipients :: "plan_env \<Rightarrow> uuid \<Rightarrow> uuid \<Rightarrow> uuid list" where
  "workspaceApproverRecipients env ws actor =
    (case env_workspace_provider (pe_svc env) of
       None \<Rightarrow> []
     | Some _ \<Rightarrow>
        (case pe_members env ws of
           Inl _ \<Rightarrow> []
         | Inr members \<Rightarrow>
            snd (fold (\<lambda>m acc. if wm_status m \<noteq> ''active'' \<or> \<not> approver_role (wm_role m) then acc
                else add_recipient acc (wm_user m)) members ([actor], []))))"

definition approvalDecisionRecipients :: "trip_db \<Rightarrow> trip \<Rightarrow> approval_fields \<Rightarrow> uuid \<Rightarrow> uuid list" where
  "approvalDecisionRecipients db t f actor =
    snd (fold (\<lambda>u acc. add_recipient acc u) (broadcastRecipients db t actor)
      (case ap_submitted_by (af_cols f) of None \<Rightarrow> ([actor], []) | Some u \<Rightarrow> add_recipient ([actor], []) u))"

definition excludeActor :: "uuid list \<Rightarrow> uuid \<Rightarrow> uuid list" where
  "excludeActor ids actor = filter (\<lambda>u. u \<noteq> actor \<and> u \<noteq> 0) ids"

definition trimmedPtr :: "string \<Rightarrow> string option" where
  "trimmedPtr s = (let v = trim_space s in if v = [] then None else Some v)"

section \<open>Submitting\<close>

definition submitted_cols :: "time \<Rightarrow> uuid \<Rightarrow> string option \<Rightarrow> approval_cols" where
  "submitted_cols now uid txt = \<lparr>ap_status = ApPending, ap_submitted_at = Some now, ap_submitted_by = Some uid,
     ap_approved_at = None, ap_approved_by = None, ap_changes_at = None, ap_changes_by = None,
     ap_cancelled_at = None, ap_cancelled_by = None, ap_note = txt, ap_decision_note = None,
     ap_last_at = Some now, ap_last_by = Some uid\<rparr>"

definition SubmitTripApproval :: "plan_env \<Rightarrow> plan_call \<Rightarrow> uuid \<Rightarrow> string \<Rightarrow> approval_state plan_op" where
  "SubmitTripApproval env cx tid txt =
    sbind (spure (MustUserFromContext (pc_user cx))) (\<lambda>user.
    sbind (sread (\<lambda>s. requireEditorOrOwner (pe_svc env) (pl_db s) tid (au_id user))) (\<lambda>(t, access).
    case tr_workspace t of
      None \<Rightarrow> sfail (InvalidInput ''approval is only available for workspace trips'')
    | Some ws \<Rightarrow>
       sbind (sread (GetTripApprovalFields tid)) (\<lambda>fields.
       sbind (scheck (CanSubmitFrom (ap_status (af_cols fields)))
         (ConflictErr ''this trip cannot be submitted from its current status'')) (\<lambda>_.
       sbind (spure (computeChecklist env t)) (\<lambda>c.
       sbind (spure (pe_policy env t)) (\<lambda>policy.
       sbind (scheck (pv_status policy \<noteq> ''blocking'') PolicyBlocking) (\<lambda>_.
       sbind (scheck (checklist_can_submit c)
         (InvalidInput ''this trip has unmet requirements and cannot be submitted for approval'')) (\<lambda>_.
       sbind (sstmt (UpdateTripApprovalStatus
         (fields\<lparr>af_cols := submitted_cols (pc_now cx) (au_id user) (trimmedPtr txt)\<rparr>))) (\<lambda>updated.
       sbind (recordApprovalEvent cx updated (au_id user) EventSubmitted (ap_status (af_cols fields)) (trimmedPtr txt)) (\<lambda>_.
       sbind (plan_activity env ''trip_submitted_for_approval'' tid (au_id user) tid) (\<lambda>_.
       sbind (notifyApproval env (workspaceApproverRecipients env ws (au_id user)) tid (au_id user) ''trip_submitted_for_approval'') (\<lambda>_.
       sret (buildApprovalState updated (Some c) (CanEdit access) False (au_id user))))))))))))))"

section \<open>Deciding\<close>

definition approvalDecisionNoteMaxLen :: nat where "approvalDecisionNoteMaxLen = 1000"

record decide_config =
  dc_to :: approval_status
  dc_event :: approval_event_type
  dc_activity :: string
  dc_allowed :: "approval_status \<Rightarrow> bool"
  dc_require_note :: bool

definition approve_config :: decide_config where
  "approve_config = \<lparr>dc_to = ApApproved, dc_event = EventApproved, dc_activity = ''trip_approved'',
     dc_allowed = CanApproveFrom, dc_require_note = False\<rparr>"

definition request_changes_config :: decide_config where
  "request_changes_config = \<lparr>dc_to = ApChanges, dc_event = EventChangesRequested,
     dc_activity = ''trip_changes_requested'', dc_allowed = CanRequestChangesFrom, dc_require_note = True\<rparr>"

definition decided_cols :: "decide_config \<Rightarrow> time \<Rightarrow> uuid \<Rightarrow> string option \<Rightarrow> approval_cols \<Rightarrow> approval_cols" where
  "decided_cols cfg now uid txt c =
    (let c1 = c\<lparr>ap_status := dc_to cfg, ap_decision_note := txt, ap_last_at := Some now, ap_last_by := Some uid\<rparr>
     in if dc_to cfg = ApApproved then c1\<lparr>ap_approved_at := Some now, ap_approved_by := Some uid\<rparr>
        else if dc_to cfg = ApChanges then c1\<lparr>ap_changes_at := Some now, ap_changes_by := Some uid\<rparr>
        else c1)"

definition check_decision_note :: "bool \<Rightarrow> string \<Rightarrow> app_error + unit" where
  "check_decision_note required txt =
    (let v = trim_space txt in
     if required then guard_err (v \<noteq> [] \<and> length v \<le> approvalDecisionNoteMaxLen)
       (InvalidInput ''decisionNote is required and must be 1-1000 characters'')
     else guard_err (length v \<le> approvalDecisionNoteMaxLen)
       (InvalidInput ''decisionNote must be at most 1000 characters''))"

text \<open>What a decision has read when it is about to write: caller, trip, workspace, old fields.\<close>

record pending_decision =
  dn_user :: uuid
  dn_trip :: trip
  dn_workspace :: uuid
  dn_fields :: approval_fields

definition decide_read :: "plan_env \<Rightarrow> decide_config \<Rightarrow> plan_call \<Rightarrow> uuid \<Rightarrow> string \<Rightarrow> plan_db \<Rightarrow> app_error + pending_decision" where
  "decide_read env cfg cx tid txt s =
    rbind (MustUserFromContext (pc_user cx)) (\<lambda>user.
    rbind (requireViewerEditorOrOwner (pe_svc env) (pl_db s) tid (au_id user)) (\<lambda>(t, access).
    case tr_workspace t of
      None \<Rightarrow> Inl (InvalidInput ''approval is only available for workspace trips'')
    | Some ws \<Rightarrow>
       rbind (requireWorkspaceApprover (pe_svc env) (au_id user) ws) (\<lambda>_.
       rbind (check_decision_note (dc_require_note cfg) txt) (\<lambda>_.
       rbind (GetTripApprovalFields tid s) (\<lambda>fields.
       rbind (guard_err (dc_allowed cfg (ap_status (af_cols fields)))
         (ConflictErr ''this action is not allowed from the trip's current approval status'')) (\<lambda>_.
       Inr \<lparr>dn_user = au_id user, dn_trip = t, dn_workspace = ws, dn_fields = fields\<rparr>))))))"

definition decide_write :: "plan_env \<Rightarrow> decide_config \<Rightarrow> plan_call \<Rightarrow> uuid \<Rightarrow> string \<Rightarrow> pending_decision \<Rightarrow> approval_state plan_op" where
  "decide_write env cfg cx tid txt d =
    sbind (sstmt (UpdateTripApprovalStatus ((dn_fields d)
      \<lparr>af_cols := decided_cols cfg (pc_now cx) (dn_user d) (trimmedPtr txt) (af_cols (dn_fields d))\<rparr>))) (\<lambda>updated.
    sbind (recordApprovalEvent cx updated (dn_user d) (dc_event cfg) (ap_status (af_cols (dn_fields d))) (trimmedPtr txt)) (\<lambda>_.
    sbind (plan_activity env (dc_activity cfg) tid (dn_user d) tid) (\<lambda>_.
    sbind (sread (\<lambda>s. Inr (approvalDecisionRecipients (pl_db s) (dn_trip d) updated (dn_user d)))) (\<lambda>recipients.
    sbind (notifyApproval env recipients tid (dn_user d) (dc_activity cfg)) (\<lambda>_.
    sbind (spure (computeChecklist env (dn_trip d))) (\<lambda>c.
    sret (buildApprovalState updated (Some c) False
      (case isWorkspaceApprover (pe_svc env) (dn_user d) (dn_workspace d) of Inl _ \<Rightarrow> False | Inr b \<Rightarrow> b) (dn_user d))))))))"

definition decide :: "plan_env \<Rightarrow> decide_config \<Rightarrow> plan_call \<Rightarrow> uuid \<Rightarrow> string \<Rightarrow> approval_state plan_op" where
  "decide env cfg cx tid txt =
    sbind (sread (decide_read env cfg cx tid txt)) (\<lambda>d. decide_write env cfg cx tid txt d)"

definition ApproveTrip :: "plan_env \<Rightarrow> plan_call \<Rightarrow> uuid \<Rightarrow> string \<Rightarrow> approval_state plan_op" where
  "ApproveTrip env = decide env approve_config"

definition RequestTripChanges :: "plan_env \<Rightarrow> plan_call \<Rightarrow> uuid \<Rightarrow> string \<Rightarrow> approval_state plan_op" where
  "RequestTripChanges env = decide env request_changes_config"

section \<open>Cancelling\<close>

definition cancelled_cols :: "time \<Rightarrow> uuid \<Rightarrow> string option \<Rightarrow> approval_cols \<Rightarrow> approval_cols" where
  "cancelled_cols now uid txt c = c\<lparr>ap_status := ApCancelled, ap_cancelled_at := Some now, ap_cancelled_by := Some uid,
     ap_decision_note := txt, ap_last_at := Some now, ap_last_by := Some uid\<rparr>"

definition CancelTripApproval :: "plan_env \<Rightarrow> plan_call \<Rightarrow> uuid \<Rightarrow> string \<Rightarrow> approval_state plan_op" where
  "CancelTripApproval env cx tid txt =
    sbind (spure (MustUserFromContext (pc_user cx))) (\<lambda>user.
    sbind (sread (\<lambda>s. requireViewerEditorOrOwner (pe_svc env) (pl_db s) tid (au_id user))) (\<lambda>(t, access).
    case tr_workspace t of
      None \<Rightarrow> sfail (InvalidInput ''approval is only available for workspace trips'')
    | Some ws \<Rightarrow>
       sbind (scheck (length (trim_space txt) \<le> approvalDecisionNoteMaxLen)
         (InvalidInput ''note must be at most 1000 characters'')) (\<lambda>_.
       sbind (sread (GetTripApprovalFields tid)) (\<lambda>fields.
       sbind (scheck (CanCancelFrom (ap_status (af_cols fields)))
         (ConflictErr ''only a pending submission can be cancelled'')) (\<lambda>_.
       sbind (spure (isWorkspaceApprover (pe_svc env) (au_id user) ws)) (\<lambda>approver.
       let submitter = (ap_submitted_by (af_cols fields) = Some (au_id user)) in
       sbind (scheck (submitter \<or> approver) ErrForbidden) (\<lambda>_.
       sbind (sstmt (UpdateTripApprovalStatus
         (fields\<lparr>af_cols := cancelled_cols (pc_now cx) (au_id user) (trimmedPtr txt) (af_cols fields)\<rparr>))) (\<lambda>updated.
       sbind (recordApprovalEvent cx updated (au_id user) EventCancelled (ap_status (af_cols fields)) (trimmedPtr txt)) (\<lambda>_.
       sbind (plan_activity env ''trip_approval_cancelled'' tid (au_id user) tid) (\<lambda>_.
       sbind (notifyApproval env
         (if submitter then workspaceApproverRecipients env ws (au_id user)
          else case ap_submitted_by (af_cols fields) of None \<Rightarrow> [] | Some u \<Rightarrow> excludeActor [u] (au_id user))
         tid (au_id user) ''trip_approval_cancelled'') (\<lambda>_.
       sbind (spure (computeChecklist env t)) (\<lambda>c.
       sret (buildApprovalState updated (Some c) (CanEdit access) approver (au_id user))))))))))))))"

definition ListTripApprovalEvents :: "plan_env \<Rightarrow> plan_call \<Rightarrow> uuid \<Rightarrow> (approval_event list) plan_op" where
  "ListTripApprovalEvents env cx tid =
    sbind (spure (MustUserFromContext (pc_user cx))) (\<lambda>user.
    sbind (sread (\<lambda>s. requireViewerEditorOrOwner (pe_svc env) (pl_db s) tid (au_id user))) (\<lambda>_.
    sread (\<lambda>s. Inr (ListTripApprovalEventsByTrip tid 100 s))))"

section \<open>The reset after a change\<close>

definition notifyApprovalReset :: "plan_env \<Rightarrow> uuid \<Rightarrow> uuid \<Rightarrow> unit plan_op" where
  "notifyApprovalReset env tid actor =
    (if \<not> env_notify_on (pe_svc env) then sret ()
     else sbind (stry (sread (GetTripApprovalFields tid))) (\<lambda>r.
       case r of
         None \<Rightarrow> sret ()
       | Some f \<Rightarrow>
          notifyApproval env
            (snd (fold (\<lambda>c acc. case c of None \<Rightarrow> acc | Some u \<Rightarrow> add_recipient acc u)
              [ap_submitted_by (af_cols f), ap_approved_by (af_cols f)] ([actor], [])))
            tid actor ''trip_approval_reset_to_draft''))"

definition ResetApprovalIfApproved :: "plan_env \<Rightarrow> plan_call \<Rightarrow> uuid \<Rightarrow> uuid \<Rightarrow> string \<Rightarrow> unit plan_op" where
  "ResetApprovalIfApproved env cx tid actor reason =
    sbind (sstmt (\<lambda>s. Inr (ResetApprovalStatusForTripIfActive (pc_now cx) tid actor s))) (\<lambda>r.
    case r of
      None \<Rightarrow> sret ()
    | Some (from', ws) \<Rightarrow>
       sbind (stry (sstmt (InsertTripApprovalEvent
         (approval_event_of cx tid ws actor EventResetToDraft from' ApDraft (trimmedPtr reason))))) (\<lambda>_.
       sbind (plan_activity env ''trip_approval_reset_to_draft'' tid actor tid) (\<lambda>_.
       notifyApprovalReset env tid actor)))"

end
