(* ===== verification/ItineraryVersions.thy ===== *)
theory ItineraryVersions
  imports Approvals
begin

text \<open>
  Editing an itinerary (\<open>UpdateItinerary\<close> and its helpers in \<open>application/service/trip.go\<close>),
  its versions (\<open>itinerary_version.go\<close>) and the travel status of an item (\<open>travel_day.go\<close>). Every
  writer checks the revision the client saw twice: against the row it read, and in the \<open>WHERE\<close> of the
  update. \<open>saveItineraryWithVersion\<close> resets the approval after the save; the travel status goes
  around it on purpose.
\<close>

section \<open>Revisions\<close>

definition requireExpectedItineraryRevision :: "int option \<Rightarrow> app_error + int" where
  "requireExpectedItineraryRevision expected =
    (case expected of
       None \<Rightarrow> Inl ExpectedRevisionRequired
     | Some n \<Rightarrow> (if n < 0 then Inl (InvalidInput ''expectedItineraryRevision must be >= 0'') else Inr n))"

definition checkCurrentItineraryRevision :: "int \<Rightarrow> int \<Rightarrow> app_error + unit" where
  "checkCurrentItineraryRevision expected current = guard_err (expected = current) (ItineraryConflict current)"

section \<open>What changed in the schedule\<close>

record schedule_item_state =
  si_day :: nat
  si_item :: nat
  si_time :: string
  si_start :: string
  si_end :: string
  si_duration :: int
  si_all_day :: bool
  si_timezone :: string
  si_status :: string

definition item_state :: "nat \<Rightarrow> nat \<Rightarrow> itinerary_item \<Rightarrow> schedule_item_state" where
  "item_state d i it =
    \<lparr>si_day = d, si_item = i, si_time = trim_space (ii_time it), si_start = trim_space (ii_start_time it),
     si_end = trim_space (ii_end_time it), si_duration = (case ii_duration it of None \<Rightarrow> 0 | Some n \<Rightarrow> n),
     si_all_day = ii_all_day it, si_timezone = trim_space (ii_timezone it),
     si_status = (case normalizeSchedulingStatus (ii_sched it) (ii_time it) (ii_all_day it) of
        Inl _ \<Rightarrow> trim_space (ii_sched it) | Inr st \<Rightarrow> st)\<rparr>"

text \<open>The items in order, each under its name, type and how often both have occurred so far.\<close>

definition base_key :: "itinerary_item \<Rightarrow> string" where
  "base_key it = squeeze_lower (ii_name it @ '' '' @ ii_type it)"

fun number_keys :: "string list \<Rightarrow> (string \<times> schedule_item_state) list \<Rightarrow> ((string \<times> nat) \<times> schedule_item_state) list" where
  "number_keys seen [] = []"
| "number_keys seen ((k, st) # rest) =
     ((k, length (filter (\<lambda>x. x = k) seen) + 1), st) # number_keys (k # seen) rest"

definition scheduleStateByItem :: "itinerary \<Rightarrow> ((string \<times> nat) \<times> schedule_item_state) list" where
  "scheduleStateByItem doc =
    number_keys [] (concat (map (\<lambda>(d, day).
      map (\<lambda>(i, it). (base_key it, item_state d i it)) (List.enumerate 0 (dy_items day)))
      (List.enumerate 0 (it_days doc))))"

definition schedule_changes :: "schedule_item_state \<Rightarrow> schedule_item_state \<Rightarrow> string list" where
  "schedule_changes p n =
    (if si_day p \<noteq> si_day n then [''activity_moved''] else []) @
    (if si_day p = si_day n \<and> si_item p \<noteq> si_item n then [''activity_reordered''] else []) @
    (if si_duration p \<noteq> si_duration n \<or> si_end p \<noteq> si_end n then [''duration_changed''] else []) @
    (if si_time p \<noteq> si_time n \<or> si_start p \<noteq> si_start n \<or> si_all_day p \<noteq> si_all_day n \<or> si_timezone p \<noteq> si_timezone n
     then [''activity_moved''] else []) @
    (if si_status p = ''Unscheduled'' \<and> si_status n \<noteq> ''Unscheduled'' then [''activity_scheduled''] else []) @
    (if si_status p \<noteq> ''Unscheduled'' \<and> si_status n = ''Unscheduled'' then [''activity_unscheduled''] else []) @
    (if si_status p = ''Conflict'' \<and> si_status n \<noteq> ''Conflict'' then [''conflict_resolved''] else [])"

definition change_types :: "string list" where
  "change_types = [''activity_moved'', ''activity_reordered'', ''activity_scheduled'', ''activity_unscheduled'',
     ''conflict_resolved'', ''duration_changed'']"

text \<open>The number of changed items and the kinds of change in the order of \<open>sort.Strings\<close>.\<close>

definition summarizeScheduleChanges :: "itinerary option \<Rightarrow> itinerary \<Rightarrow> int \<times> string list" where
  "summarizeScheduleChanges previous nxt =
    (case previous of
       None \<Rightarrow> (0, [])
     | Some prev \<Rightarrow>
        (let old = map_of (scheduleStateByItem prev);
             changes = map (\<lambda>(k, n). case old k of None \<Rightarrow> [] | Some p \<Rightarrow> schedule_changes p n) (scheduleStateByItem nxt)
         in (int (length (filter (\<lambda>c. c \<noteq> []) changes)),
             filter (\<lambda>ty. ty \<in> set (concat changes)) change_types)))"

section \<open>Saving\<close>

fun source_name :: "version_source \<Rightarrow> string" where
  "source_name Generated = ''GENERATED''"
| "source_name ManualEdit = ''MANUAL_EDIT''"
| "source_name RegeneratedDay = ''REGENERATE_DAY''"
| "source_name RegeneratedItem = ''REGENERATE_ITEM''"
| "source_name BudgetOptimizationApplied = ''BUDGET_OPTIMIZATION_APPLIED''"
| "source_name AIPolicyRepairApplied = ''AI_POLICY_REPAIR''"
| "source_name CostSplitUpdated = ''COST_SPLIT_UPDATED''"
| "source_name TravelStatusUpdated = ''TRAVEL_STATUS_UPDATED''"
| "source_name Restored = ''RESTORED''"
| "source_name FromTemplate = ''CREATED_FROM_TEMPLATE''"
| "source_name FromTemplateAI = ''CREATED_FROM_TEMPLATE_AI''"

definition version_of :: "plan_call \<Rightarrow> uuid \<Rightarrow> version_source \<Rightarrow> (string \<times> meta_value) list \<Rightarrow> version_input" where
  "version_of cx actor src meta =
    \<lparr>vi_id = pc_version_id cx, vi_now = pc_now cx, vi_actor = actor, vi_source = src, vi_metadata = meta\<rparr>"

definition saveItineraryWithVersion ::
  "plan_env \<Rightarrow> plan_call \<Rightarrow> uuid \<Rightarrow> uuid \<Rightarrow> uuid \<Rightarrow> itinerary \<Rightarrow> int \<Rightarrow> version_source \<Rightarrow> (string \<times> meta_value) list \<Rightarrow> trip plan_op" where
  "saveItineraryWithVersion env cx tid own actor it expected src meta =
    sbind (sstmt (UpdateItineraryAndCreateVersion (version_of cx actor src meta) tid own it expected)) (\<lambda>updated.
    sbind (ResetApprovalIfApproved env cx tid actor (''Itinerary changed ('' @ source_name src @ '')'')) (\<lambda>_.
    sret updated))"

definition UpdateItinerary :: "plan_env \<Rightarrow> plan_call \<Rightarrow> uuid \<Rightarrow> raw_doc \<Rightarrow> int option \<Rightarrow> trip plan_op" where
  "UpdateItinerary env cx tid doc expected =
    sbind (spure (MustUserFromContext (pc_user cx))) (\<lambda>user.
    sbind (sread (\<lambda>s. requireEditorOrOwner (pe_svc env) (pl_db s) tid (au_id user))) (\<lambda>(t, access).
    sbind (spure (requireExpectedItineraryRevision expected)) (\<lambda>n.
    sbind (spure (checkCurrentItineraryRevision n (tr_itinerary_revision t))) (\<lambda>_.
    sbind (spure (tripOwnerID t)) (\<lambda>own.
    sbind (spure (validateAndNormalizeItinerary doc)) (\<lambda>it.
    let (count, types) = summarizeScheduleChanges (tr_itinerary t) it in
    sbind (saveItineraryWithVersion env cx tid own (au_id user) it n ManualEdit
      (if count > 0 then [(''scheduleChangeCount'', MetaInt count), (''scheduleChangeTypes'', MetaTexts types)] else [])) (\<lambda>updated.
    sbind (plan_activity env ''itinerary_updated'' tid (au_id user) tid) (\<lambda>_.
    sbind (if count > 0 then plan_activity env ''itinerary_schedule_updated'' tid (au_id user) tid else sret ()) (\<lambda>_.
    sbind (sdo (on_db (notifyTripBroadcast (pe_svc env) t (au_id user) ''itinerary_updated''))) (\<lambda>_.
    sret updated))))))))))"

section \<open>Versions\<close>

definition ListItineraryVersions ::
  "plan_env \<Rightarrow> plan_call \<Rightarrow> uuid \<Rightarrow> int \<Rightarrow> int \<Rightarrow> (itinerary_version list \<times> int \<times> int) plan_op" where
  "ListItineraryVersions env cx tid lmt off =
    sbind (spure (MustUserFromContext (pc_user cx))) (\<lambda>user.
    let n = (if lmt = 0 then 20 else lmt) in
    sbind (scheck (1 \<le> n \<and> n \<le> 100) (InvalidInput ''limit must be between 1 and 100'')) (\<lambda>_.
    sbind (scheck (0 \<le> off) (InvalidInput ''offset must be >= 0'')) (\<lambda>_.
    sbind (sread (\<lambda>s. requireViewerEditorOrOwner (pe_svc env) (pl_db s) tid (au_id user))) (\<lambda>_.
    sread (\<lambda>s. Inr (ListItineraryVersionsByTrip tid n off s, n, off))))))"

definition GetItineraryVersion :: "plan_env \<Rightarrow> plan_call \<Rightarrow> uuid \<Rightarrow> uuid \<Rightarrow> itinerary_version plan_op" where
  "GetItineraryVersion env cx tid vid =
    sbind (spure (MustUserFromContext (pc_user cx))) (\<lambda>user.
    sbind (sread (\<lambda>s. requireViewerEditorOrOwner (pe_svc env) (pl_db s) tid (au_id user))) (\<lambda>_.
    sread (GetItineraryVersionByIDTrip vid tid)))"

definition stored_doc :: "itinerary option \<Rightarrow> raw_doc" where
  "stored_doc d = (case d of None \<Rightarrow> DocMissing | Some it \<Rightarrow> Doc it)"

definition RestoreItineraryVersion :: "plan_env \<Rightarrow> plan_call \<Rightarrow> uuid \<Rightarrow> uuid \<Rightarrow> int option \<Rightarrow> trip plan_op" where
  "RestoreItineraryVersion env cx tid vid expected =
    sbind (spure (MustUserFromContext (pc_user cx))) (\<lambda>user.
    sbind (sread (\<lambda>s. requireEditorOrOwner (pe_svc env) (pl_db s) tid (au_id user))) (\<lambda>(t, access).
    sbind (spure (requireExpectedItineraryRevision expected)) (\<lambda>n.
    sbind (spure (checkCurrentItineraryRevision n (tr_itinerary_revision t))) (\<lambda>_.
    sbind (spure (tripOwnerID t)) (\<lambda>own.
    sbind (sread (GetItineraryVersionByIDTrip vid tid)) (\<lambda>v.
    sbind (spure (validateAndNormalizeItinerary (stored_doc (ve_itinerary v)))) (\<lambda>it.
    sbind (saveItineraryWithVersion env cx tid own (au_id user) it n Restored
      [(''restoredFromVersionId'', MetaId (ve_id v)), (''restoredFromVersionNumber'', MetaInt (ve_number v))]) (\<lambda>updated.
    sbind (plan_activity env ''version_restored'' tid (au_id user) (ve_id v)) (\<lambda>_.
    sbind (sdo (on_db (notifyTripBroadcast (pe_svc env) t (au_id user) ''version_restored''))) (\<lambda>_.
    sret updated))))))))))"

section \<open>The travel status of an item\<close>

definition travel_statuses :: "string list" where
  "travel_statuses = [''planned'', ''done'', ''skipped'', ''delayed'']"

definition maxTravelStatusNote :: nat where "maxTravelStatusNote = 280"

text \<open>The document is written back from \<open>aggregate.Itinerary\<close>, where a missing generation time is the zero time.\<close>

definition set_travel_status :: "nat \<Rightarrow> nat \<Rightarrow> travel_status \<Rightarrow> itinerary \<Rightarrow> itinerary" where
  "set_travel_status d i ts it =
    it\<lparr>it_generated_at := Some (case it_generated_at it of None \<Rightarrow> 0 | Some g \<Rightarrow> g),
       it_days := (it_days it)[d := (it_days it ! d)
      \<lparr>dy_items := (dy_items (it_days it ! d))[i := (dy_items (it_days it ! d) ! i)\<lparr>ii_travel := Some ts\<rparr>]\<rparr>]\<rparr>"

definition UpdateTravelItemStatus ::
  "plan_env \<Rightarrow> plan_call \<Rightarrow> uuid \<Rightarrow> int \<Rightarrow> int \<Rightarrow> string \<Rightarrow> string \<Rightarrow> int option \<Rightarrow> (trip \<times> travel_status) plan_op" where
  "UpdateTravelItemStatus env cx tid dayn itemn status txt expected =
    sbind (spure (MustUserFromContext (pc_user cx))) (\<lambda>user.
    sbind (sread (\<lambda>s. requireViewerEditorOrOwner (pe_svc env) (pl_db s) tid (au_id user))) (\<lambda>(t, access).
    sbind (scheck (CanEdit access) ErrForbidden) (\<lambda>_.
    let st = to_lower (trim_space status); rest = trim_space txt in
    sbind (scheck (st \<in> set travel_statuses) (InvalidInput ''status must be planned, done, skipped, or delayed'')) (\<lambda>_.
    sbind (scheck (rune_count rest \<le> maxTravelStatusNote) (InvalidInput ''note must be at most 280 characters'')) (\<lambda>_.
    sbind (spure (requireExpectedItineraryRevision expected)) (\<lambda>n.
    sbind (spure (checkCurrentItineraryRevision n (tr_itinerary_revision t))) (\<lambda>_.
    sbind (spure (tripOwnerID t)) (\<lambda>own.
    sbind (spure (currentItineraryAndDayIndex t dayn)) (\<lambda>(it, d).
    sbind (scheck (0 \<le> itemn \<and> itemn < int (length (dy_items (it_days it ! d)))) current_invalid) (\<lambda>_.
    let ts = \<lparr>tv_status = st, tv_updated_at = pc_now cx, tv_updated_by = au_id user, tv_note = rest\<rparr> in
    sbind (sstmt (UpdateItineraryAndCreateVersion
      (version_of cx (au_id user) TravelStatusUpdated
        [(''dayNumber'', MetaInt dayn), (''itemIndex'', MetaInt itemn), (''status'', MetaText st)])
      tid own (set_travel_status d (nat itemn) ts it) n)) (\<lambda>updated.
    sbind (plan_activity env ''itinerary_item_status_updated'' tid (au_id user) 0) (\<lambda>_.
    sret (updated, ts)))))))))))))"

section \<open>Requests\<close>

datatype plan_request =
    RUpdate plan_call uuid raw_doc "int option"
  | RRestore plan_call uuid uuid "int option"
  | RTravel plan_call uuid int int string string "int option"
  | RSubmit plan_call uuid string
  | RApprove plan_call uuid string
  | RRequestChanges plan_call uuid string
  | RCancel plan_call uuid string

fun plan_serve :: "plan_env \<Rightarrow> plan_request \<Rightarrow> plan_db \<Rightarrow> plan_db" where
  "plan_serve env (RUpdate cx tid doc n) s = snd (UpdateItinerary env cx tid doc n s)"
| "plan_serve env (RRestore cx tid vid n) s = snd (RestoreItineraryVersion env cx tid vid n s)"
| "plan_serve env (RTravel cx tid d i st txt n) s = snd (UpdateTravelItemStatus env cx tid d i st txt n s)"
| "plan_serve env (RSubmit cx tid txt) s = snd (SubmitTripApproval env cx tid txt s)"
| "plan_serve env (RApprove cx tid txt) s = snd (ApproveTrip env cx tid txt s)"
| "plan_serve env (RRequestChanges cx tid txt) s = snd (RequestTripChanges env cx tid txt s)"
| "plan_serve env (RCancel cx tid txt) s = snd (CancelTripApproval env cx tid txt s)"

end
