(* ===== verification/PlanLaws.thy ===== *)
theory PlanLaws
  imports ItineraryVersions
begin

text \<open>
  The laws of saving. \<open>plan_stmt\<close> is one statement of any handler against the database; a run of the
  service is any sequence of them, so requests interleave freely at their statements. Every handler
  is such a sequence. Whatever the interleaving, the versions of a trip stay its complete, gapless
  history and a save goes through only on the document its author saw.
\<close>

inductive plan_stmt :: "plan_db \<Rightarrow> plan_db \<Rightarrow> bool" where
  save: "UpdateItineraryAndCreateVersion v tid own it n s = Inr (t, s') \<Longrightarrow> plan_stmt s s'"
| status: "UpdateTripApprovalStatus f s = Inr (g, s') \<Longrightarrow> plan_stmt s s'"
| event: "InsertTripApprovalEvent e s = Inr (u, s') \<Longrightarrow> plan_stmt s s'"
| reset: "ResetApprovalStatusForTripIfActive now tid actor s = (r, s') \<Longrightarrow> plan_stmt s s'"
| activity: "plan_stmt s (on_db (recordActivity env ty tid actor entity) s)"
| outbox: "plan_stmt s (on_db (\<lambda>db. db\<lparr>db_outbox := db_outbox db @ notes\<rparr>) s)"

inductive_cases plan_stmtE: "plan_stmt s s'"

abbreviation plan_steps :: "plan_db \<Rightarrow> plan_db \<Rightarrow> bool" where
  "plan_steps \<equiv> plan_stmt\<^sup>*\<^sup>*"

lemma rel_ok_steps [simp, intro]: "rel_ok plan_steps"
  by (rule rel_okI) auto

section \<open>Every handler is a sequence of statements\<close>

lemma on_db_same: "on_db (\<lambda>db. db) s = s"
  by (simp add: on_db_def)

lemma activity_steps: "step_rel plan_steps (plan_activity env ty tid actor entity)"
  unfolding plan_activity_def by (rule step_rel_sdo) (blast intro: plan_stmt.activity)

lemma notify_steps: "step_rel plan_steps (notifyApproval env recipients tid actor ty)"
  unfolding notifyApproval_def
  by (rule step_rel_sdo) (cases "env_notify_on (pe_svc env)"; simp add: on_db_same; blast intro: plan_stmt.outbox)

lemma broadcast_steps: "step_rel plan_steps (sdo (on_db (notifyTripBroadcast env t actor ty)))"
proof (rule step_rel_sdo)
  fix s
  show "plan_steps s (on_db (notifyTripBroadcast env t actor ty) s)"
  proof (cases "env_notify_on env")
    case True
    have "on_db (notifyTripBroadcast env t actor ty) s = on_db (\<lambda>db. db\<lparr>db_outbox := db_outbox db @
        map (\<lambda>u. \<lparr>nt_user = u, nt_trip = tr_id t, nt_actor = actor, nt_type = ty\<rparr>) (broadcastRecipients (pl_db s) t actor)\<rparr>) s"
      using True by (simp add: on_db_def notifyTripBroadcast_def)
    then show ?thesis by (simp only:) (blast intro: plan_stmt.outbox)
  next
    case False
    then have "on_db (notifyTripBroadcast env t actor ty) s = s" by (simp add: on_db_def notifyTripBroadcast_def)
    then show ?thesis by simp
  qed
qed

lemma stmt_steps:
  "step_rel plan_steps (sstmt (UpdateItineraryAndCreateVersion v tid own it n))"
  "step_rel plan_steps (sstmt (UpdateTripApprovalStatus f))"
  "step_rel plan_steps (sstmt (InsertTripApprovalEvent e))"
  "step_rel plan_steps (sstmt (\<lambda>s. Inr (ResetApprovalStatusForTripIfActive now tid actor s)))"
  by (rule step_rel_sstmt; blast intro: plan_stmt.intros | auto intro!: r_into_rtranclp intro: plan_stmt.intros)+

lemmas plan_step_intros = step_intros activity_steps notify_steps broadcast_steps stmt_steps rel_ok_steps

lemma event_steps: "step_rel plan_steps (recordApprovalEvent cx f actor ty from' txt)"
  unfolding recordApprovalEvent_def by (intro plan_step_intros)

lemma reset_steps: "step_rel plan_steps (ResetApprovalIfApproved env cx tid actor reason)"
  unfolding ResetApprovalIfApproved_def notifyApprovalReset_def by (intro plan_step_intros)

lemma save_steps: "step_rel plan_steps (saveItineraryWithVersion env cx tid own actor it n src meta)"
  unfolding saveItineraryWithVersion_def by (intro plan_step_intros reset_steps)

lemma handler_steps:
  "step_rel plan_steps (UpdateItinerary env cx tid doc expected)"
  "step_rel plan_steps (RestoreItineraryVersion env cx tid vid expected)"
  "step_rel plan_steps (UpdateTravelItemStatus env cx tid d i st txt expected)"
  "step_rel plan_steps (SubmitTripApproval env cx tid txt)"
  "step_rel plan_steps (decide env cfg cx tid txt)"
  "step_rel plan_steps (CancelTripApproval env cx tid txt)"
  unfolding UpdateItinerary_def RestoreItineraryVersion_def UpdateTravelItemStatus_def SubmitTripApproval_def
    decide_def decide_write_def CancelTripApproval_def
  by (intro plan_step_intros save_steps event_steps)+

lemma plan_serve_steps: "plan_steps s (plan_serve env r s)"
  using handler_steps unfolding step_rel_def ApproveTrip_def RequestTripChanges_def
  by (cases r) (simp_all add: ApproveTrip_def RequestTripChanges_def)

section \<open>What a statement does to a trip\<close>

text \<open>
  Rows are never added, removed or moved to another owner by these statements: a row is found again
  at its position, and its revision tells whether its document has changed.
\<close>

definition row_step :: "trip \<Rightarrow> trip \<Rightarrow> bool" where
  "row_step a b \<longleftrightarrow> tr_id b = tr_id a \<and> tr_user b = tr_user a \<and> tr_workspace b = tr_workspace a \<and>
     tr_itinerary_revision a \<le> tr_itinerary_revision b \<and>
     (tr_itinerary_revision a = tr_itinerary_revision b \<longrightarrow> tr_itinerary b = tr_itinerary a)"

definition plan_rel :: "plan_db \<Rightarrow> plan_db \<Rightarrow> bool" where
  "plan_rel s t \<longleftrightarrow> list_all2 row_step (plan_trips s) (plan_trips t) \<and> prefix (pl_versions s) (pl_versions t)"

lemma row_step_refl [simp]: "row_step a a"
  by (simp add: row_step_def)

lemma row_step_trans: "row_step a b \<Longrightarrow> row_step b c \<Longrightarrow> row_step a c"
  by (auto simp: row_step_def)

lemma rows_refl: "list_all2 row_step rows rows"
  by (simp add: list_all2_refl)

lemma rows_update: "(\<And>r. P r \<Longrightarrow> row_step r (f r)) \<Longrightarrow> list_all2 row_step rows (update_where P f rows)"
  by (auto simp: update_where_def list_all2_conv_all_nth)

lemma rel_ok_plan [simp, intro]: "rel_ok plan_rel"
proof (rule rel_okI)
  show "plan_rel s s" for s by (simp add: plan_rel_def rows_refl)
  show "plan_rel s u" if "plan_rel s t" "plan_rel t u" for s t u
    using that unfolding plan_rel_def
    by (auto intro: list_all2_trans [of row_step row_step row_step] row_step_trans prefix_order.trans)
qed

lemma save_Inr:
  "UpdateItineraryAndCreateVersion v tid own it n s = Inr (t, s') \<longleftrightarrow>
    (\<exists>row. select_row (\<lambda>t. tr_id t = tid \<and> tr_user t = Some own \<and> tr_itinerary_revision t = n) (plan_trips s) = Some row \<and>
      t = row\<lparr>tr_itinerary := Some it, tr_itinerary_revision := tr_itinerary_revision row + 1\<rparr> \<and>
      (\<forall>w \<in> set (pl_versions s). ve_id w \<noteq> vi_id v \<and>
        (ve_trip w = tid \<longrightarrow> ve_number w \<noteq> nextItineraryVersionNumber tid (pl_versions s))) \<and>
      s' = (set_trips (update_where (\<lambda>t. tr_id t = tid \<and> tr_user t = Some own \<and> tr_itinerary_revision t = n)
          (\<lambda>t. t\<lparr>tr_itinerary := Some it, tr_itinerary_revision := tr_itinerary_revision t + 1\<rparr>) (plan_trips s)) s)
        \<lparr>pl_versions := pl_versions s @ [\<lparr>ve_id = vi_id v, ve_trip = tid, ve_user = own, ve_created_by = Some (vi_actor v),
             ve_number = nextItineraryVersionNumber tid (pl_versions s), ve_source = vi_source v,
             ve_itinerary = Some it, ve_metadata = vi_metadata v, ve_created_at = vi_now v\<rparr>]\<rparr>)"
  unfolding UpdateItineraryAndCreateVersion_def updateItineraryByUserIDWithRevision_def update_returning_def
    createItineraryVersion_def select_row_def Let_def
  by (auto simp: rbind_Inr_iff split: option.splits if_splits)

lemma status_Inr:
  "UpdateTripApprovalStatus f s = Inr (g, s') \<longleftrightarrow>
    (\<exists>row. select_row (\<lambda>t. tr_id t = af_trip f) (plan_trips s) = Some row \<and>
      g = \<lparr>af_trip = tr_id row, af_workspace = tr_workspace row, af_cols = af_cols f\<rparr> \<and>
      s' = set_trips (update_where (\<lambda>t. tr_id t = af_trip f) (\<lambda>t. t\<lparr>tr_approval := af_cols f\<rparr>) (plan_trips s)) s)"
  unfolding UpdateTripApprovalStatus_def update_returning_def select_row_def by (auto split: option.splits)

lemma frame [simp]:
  "plan_trips (set_trips rows s) = rows" "pl_versions (set_trips rows s) = pl_versions s"
  "plan_trips (on_db (recordActivity env ty tid actor entity) s) = plan_trips s"
  "pl_versions (on_db f s) = pl_versions s"
  "plan_trips (on_db (\<lambda>db. db\<lparr>db_outbox := h db\<rparr>) s) = plan_trips s"
  by (simp_all add: set_trips_def on_db_def)

lemma plan_stmt_rel: "plan_stmt s s' \<Longrightarrow> plan_rel s s'"
proof (induction rule: plan_stmt.induct)
  case (save v tid own it n s t s')
  then show ?case unfolding save_Inr plan_rel_def by (auto intro!: rows_update simp: row_step_def)
next
  case (status f s g s')
  then show ?case unfolding status_Inr plan_rel_def by (auto intro!: rows_update simp: row_step_def)
next
  case (reset now tid actor s r s')
  then show ?case
    by (auto simp: ResetApprovalStatusForTripIfActive_def plan_rel_def rows_refl row_step_def Let_def
        split: option.splits intro!: rows_update)
qed (auto simp: InsertTripApprovalEvent_def plan_rel_def rows_refl split: if_splits)

lemma plan_steps_rel: "plan_steps s s' \<Longrightarrow> plan_rel s s'"
proof (induction rule: rtranclp_induct)
  case base
  then show ?case using rel_ok_plan by (simp add: rel_ok_def reflpD)
next
  case (step t u)
  then show ?case using rel_ok_plan plan_stmt_rel [OF step(2)] by (auto simp: rel_ok_def dest: transpD)
qed

lemma row_step_find:
  "list_all2 row_step xs ys \<Longrightarrow> find (\<lambda>t. tr_id t = tid) xs = Some a \<Longrightarrow>
    \<exists>b. find (\<lambda>t. tr_id t = tid) ys = Some b \<and> row_step a b"
proof (induction rule: list_all2_induct)
  case (Cons x xs y ys)
  then show ?case by (cases "tr_id x = tid") (auto simp: row_step_def)
qed simp

lemma GetByID_find: "GetByID db tid = Inr t \<longleftrightarrow> find (\<lambda>t. tr_id t = tid) (db_trips db) = Some t"
  by (auto simp: GetByID_def select_row_def split: option.splits)

lemma plan_rel_GetByID:
  assumes "plan_rel s s'" "GetByID (pl_db s) tid = Inr a"
  shows "\<exists>b. GetByID (pl_db s') tid = Inr b \<and> row_step a b"
  using assms unfolding GetByID_find plan_rel_def by (blast intro: row_step_find)

text \<open>
  C1. No lost update. However the statements of concurrent requests interleave after a client has read
  revision \<open>r\<close> of a trip, a save that states \<open>r\<close> goes through only if the document is still the one
  the client read, so nobody's change is overwritten unseen.
\<close>

theorem no_lost_update:
  assumes "GetByID (pl_db s) tid = Inr seen" "plan_steps s s'"
    "UpdateItineraryAndCreateVersion v tid own it (tr_itinerary_revision seen) s' = Inr (saved, s'')"
    "key_unique tr_id (plan_trips s')"
  shows "\<exists>current. GetByID (pl_db s') tid = Inr current \<and> tr_itinerary current = tr_itinerary seen \<and>
    tr_itinerary saved = Some it \<and> tr_itinerary_revision saved = tr_itinerary_revision seen + 1"
proof -
  obtain b where b: "GetByID (pl_db s') tid = Inr b" "row_step seen b"
    using plan_rel_GetByID [OF plan_steps_rel [OF assms(2)] assms(1)] by blast
  from assms(3) obtain row where row: "select_row (\<lambda>t. tr_id t = tid \<and> tr_user t = Some own \<and>
      tr_itinerary_revision t = tr_itinerary_revision seen) (plan_trips s') = Some row"
    and saved: "saved = row\<lparr>tr_itinerary := Some it, tr_itinerary_revision := tr_itinerary_revision row + 1\<rparr>"
    unfolding save_Inr by blast
  from select_row_Some [OF row] GetByID_Inr [OF b(1)]
  have "row = b" using assms(4) by (intro key_unique_inj [of tr_id "plan_trips s'"]) auto
  then show ?thesis using b select_row_Some [OF row] saved by (auto simp: row_step_def)
qed

end
