(* ===== verification/PlanHistory.thy ===== *)
theory PlanHistory
  imports PlanLaws ItineraryLaws
begin

text \<open>
  The versions of a trip are its complete history: numbered without a gap, never changed or
  removed, the last one the current document, one more for every revision. The invariant is kept
  by every statement, hence by every interleaving of requests, and a version can be restored at any
  later time.
\<close>

definition versions_of :: "uuid \<Rightarrow> plan_db \<Rightarrow> itinerary_version list" where
  "versions_of tid s = filter (\<lambda>v. ve_trip v = tid) (pl_versions s)"

definition trip_history_ok :: "plan_db \<Rightarrow> trip \<Rightarrow> bool" where
  "trip_history_ok s t \<longleftrightarrow>
    (let vs = versions_of (tr_id t) s
     in map ve_number vs = [1..int (length vs)] \<and> (vs \<noteq> [] \<longrightarrow> tr_itinerary t = ve_itinerary (last vs)))"

definition history_ok :: "plan_db \<Rightarrow> bool" where
  "history_ok s \<longleftrightarrow> key_unique tr_id (plan_trips s) \<and> key_unique ve_id (pl_versions s) \<and>
     (\<forall>t \<in> set (plan_trips s). trip_history_ok s t)"

section \<open>Numbers\<close>

lemma upto_snoc: "[1..int n] @ [int n + 1] = [1..int n + 1]"
  by (simp add: upto_rec2 [of 1 "int n + 1"])

lemma next_number:
  assumes "map ve_number (versions_of tid s) = [1..int (length (versions_of tid s))]"
  shows "nextItineraryVersionNumber tid (pl_versions s) = int (length (versions_of tid s)) + 1"
proof (cases "versions_of tid s = []")
  case True
  then show ?thesis by (simp add: nextItineraryVersionNumber_def versions_of_def Let_def)
next
  case False
  define n where "n = length (versions_of tid s)"
  have "n \<ge> 1" using False by (simp add: n_def Suc_le_eq)
  then have "Max (set [1..int n]) = int n" by (intro Max_eqI) auto
  moreover have "map ve_number (filter (\<lambda>v. ve_trip v = tid) (pl_versions s)) = [1..int n]"
    using assms by (simp add: n_def versions_of_def)
  ultimately show ?thesis using \<open>n \<ge> 1\<close>
    unfolding nextItineraryVersionNumber_def Let_def n_def [symmetric] by simp
qed

section \<open>The invariant\<close>

lemma history_frame:
  assumes "history_ok s" "pl_versions s' = pl_versions s"
    "plan_trips s' = update_where P f (plan_trips s)"
    "\<And>t. tr_id (f t) = tr_id t \<and> tr_itinerary (f t) = tr_itinerary t"
  shows "history_ok s'"
  using assms unfolding history_ok_def trip_history_ok_def versions_of_def
  by (auto simp: set_update_where Let_def)

lemma update_where_False: "update_where (\<lambda>_. False) f rows = rows"
  by (simp add: update_where_def)

lemma history_same:
  assumes "history_ok s" "pl_versions s' = pl_versions s" "plan_trips s' = plan_trips s"
  shows "history_ok s'"
  by (rule history_frame [of s s' "\<lambda>_. False" "\<lambda>t. t"]) (use assms in \<open>simp_all add: update_where_False\<close>)

text \<open>What a save adds.\<close>

definition saved_row :: "version_input \<Rightarrow> uuid \<Rightarrow> uuid \<Rightarrow> itinerary \<Rightarrow> plan_db \<Rightarrow> itinerary_version" where
  "saved_row v tid own it s =
    \<lparr>ve_id = vi_id v, ve_trip = tid, ve_user = own, ve_created_by = Some (vi_actor v),
     ve_number = nextItineraryVersionNumber tid (pl_versions s), ve_source = vi_source v,
     ve_itinerary = Some it, ve_metadata = vi_metadata v, ve_created_at = vi_now v\<rparr>"

lemma saved_row_fields [simp]:
  "ve_trip (saved_row v tid own it s) = tid" "ve_itinerary (saved_row v tid own it s) = Some it"
  "ve_number (saved_row v tid own it s) = nextItineraryVersionNumber tid (pl_versions s)"
  "ve_id (saved_row v tid own it s) = vi_id v"
  by (simp_all add: saved_row_def)

lemma save_effect:
  assumes "UpdateItineraryAndCreateVersion v tid own it n s = Inr (t, s')"
  shows "pl_versions s' = pl_versions s @ [saved_row v tid own it s]"
    "vi_id v \<notin> ve_id ` set (pl_versions s)"
    "\<exists>row. row \<in> set (plan_trips s) \<and> tr_id row = tid \<and> tr_user row = Some own \<and> tr_itinerary_revision row = n \<and>
       t = row\<lparr>tr_itinerary := Some it, tr_itinerary_revision := tr_itinerary_revision row + 1\<rparr>"
    "plan_trips s' = update_where (\<lambda>t. tr_id t = tid \<and> tr_user t = Some own \<and> tr_itinerary_revision t = n)
          (\<lambda>t. t\<lparr>tr_itinerary := Some it, tr_itinerary_revision := tr_itinerary_revision t + 1\<rparr>) (plan_trips s)"
proof -
  from assms obtain row where row: "select_row (\<lambda>t. tr_id t = tid \<and> tr_user t = Some own \<and> tr_itinerary_revision t = n) (plan_trips s) = Some row"
    and t: "t = row\<lparr>tr_itinerary := Some it, tr_itinerary_revision := tr_itinerary_revision row + 1\<rparr>"
    and new: "\<forall>w \<in> set (pl_versions s). ve_id w \<noteq> vi_id v \<and>
        (ve_trip w = tid \<longrightarrow> ve_number w \<noteq> nextItineraryVersionNumber tid (pl_versions s))"
    and s': "s' = (set_trips (update_where (\<lambda>t. tr_id t = tid \<and> tr_user t = Some own \<and> tr_itinerary_revision t = n)
          (\<lambda>t. t\<lparr>tr_itinerary := Some it, tr_itinerary_revision := tr_itinerary_revision t + 1\<rparr>) (plan_trips s)) s)
        \<lparr>pl_versions := pl_versions s @ [saved_row v tid own it s]\<rparr>"
    unfolding save_Inr saved_row_def by blast
  show "pl_versions s' = pl_versions s @ [saved_row v tid own it s]" unfolding s' by simp
  show "vi_id v \<notin> ve_id ` set (pl_versions s)" using new by (auto simp: image_iff)
  show "plan_trips s' = update_where (\<lambda>t. tr_id t = tid \<and> tr_user t = Some own \<and> tr_itinerary_revision t = n)
          (\<lambda>t. t\<lparr>tr_itinerary := Some it, tr_itinerary_revision := tr_itinerary_revision t + 1\<rparr>) (plan_trips s)"
    unfolding s' by (simp add: set_trips_def)
  show "\<exists>row. row \<in> set (plan_trips s) \<and> tr_id row = tid \<and> tr_user row = Some own \<and> tr_itinerary_revision row = n \<and>
       t = row\<lparr>tr_itinerary := Some it, tr_itinerary_revision := tr_itinerary_revision row + 1\<rparr>"
    using select_row_Some [OF row] t by blast
qed

lemma versions_of_snoc:
  "pl_versions s' = pl_versions s @ [v] \<Longrightarrow>
    versions_of tid s' = versions_of tid s @ (if ve_trip v = tid then [v] else [])"
  by (simp add: versions_of_def)

lemma history_save:
  assumes "history_ok s" "UpdateItineraryAndCreateVersion v tid own it n s = Inr (t, s')"
  shows "history_ok s'"
proof -
  note eff = save_effect [OF assms(2)]
  have uniq: "key_unique tr_id (plan_trips s)" and hist: "\<And>u. u \<in> set (plan_trips s) \<Longrightarrow> trip_history_ok s u"
    using assms(1) by (auto simp: history_ok_def)
  obtain row where row: "row \<in> set (plan_trips s)" "tr_id row = tid" "tr_user row = Some own" "tr_itinerary_revision row = n"
    using eff(3) by blast
  have "trip_history_ok s' u'" if "u' \<in> set (plan_trips s')" for u'
  proof (cases "tr_id u' = tid")
    case True
    from that [unfolded eff(4) update_where_def] obtain u where u: "u \<in> set (plan_trips s)"
      and u': "u' = (if tr_id u = tid \<and> tr_user u = Some own \<and> tr_itinerary_revision u = n
        then u\<lparr>tr_itinerary := Some it, tr_itinerary_revision := tr_itinerary_revision u + 1\<rparr> else u)"
      unfolding set_map by (rule imageE) rule
    then have "tr_id u = tid" using True by (simp split: if_splits)
    then have "u = row" using key_unique_inj [OF uniq u row(1)] row(2) by simp
    then have doc: "tr_itinerary u' = Some it" using u' row by simp
    have "map ve_number (versions_of tid s) = [1..int (length (versions_of tid s))]"
      using hist [OF u] \<open>tr_id u = tid\<close> by (simp add: trip_history_ok_def Let_def)
    then show ?thesis
      using doc upto_snoc [of "length (versions_of tid s)"] unfolding trip_history_ok_def True
      by (simp add: versions_of_snoc [OF eff(1)] next_number Let_def add.commute)
  next
    case False
    from that [unfolded eff(4) update_where_def] obtain u where "u \<in> set (plan_trips s)"
      "u' = (if tr_id u = tid \<and> tr_user u = Some own \<and> tr_itinerary_revision u = n
        then u\<lparr>tr_itinerary := Some it, tr_itinerary_revision := tr_itinerary_revision u + 1\<rparr> else u)"
      unfolding set_map by (rule imageE) rule
    then have "u' \<in> set (plan_trips s)" using False by (simp split: if_splits)
    then show ?thesis
      using hist False unfolding trip_history_ok_def by (simp add: versions_of_snoc [OF eff(1)])
  qed
  moreover have "key_unique tr_id (plan_trips s')"
    unfolding eff(4) using uniq by (rule key_unique_update_where) simp
  moreover have "key_unique ve_id (pl_versions s')"
    unfolding eff(1) using assms(1) eff(2) by (intro key_unique_append) (simp_all add: history_ok_def)
  ultimately show ?thesis unfolding history_ok_def by blast
qed

lemma plan_stmt_history: "plan_stmt s s' \<Longrightarrow> history_ok s \<Longrightarrow> history_ok s'"
proof (induction rule: plan_stmt.induct)
  case (save v tid own it n s t s')
  then show ?case by (blast intro: history_save)
next
  case (status f s g s')
  then show ?case unfolding status_Inr by (auto intro: history_frame)
next
  case (reset now tid actor s r s')
  then show ?case unfolding ResetApprovalStatusForTripIfActive_def Let_def
    by (auto split: option.splits intro: history_frame)
qed (auto simp: InsertTripApprovalEvent_def split: if_splits intro: history_same)

lemma plan_steps_history: "plan_steps s s' \<Longrightarrow> history_ok s \<Longrightarrow> history_ok s'"
  by (induction rule: rtranclp_induct) (auto intro: plan_stmt_history)

interpretation plans: request_system "plan_serve env" history_ok for env
  by unfold_locales (blast intro: plan_steps_history plan_serve_steps)

section \<open>The revision counts the saves\<close>

text \<open>How far a trip's revision is ahead of its number of versions: a save raises both by one.\<close>

definition revision_lead :: "plan_db \<Rightarrow> trip \<Rightarrow> int" where
  "revision_lead s t = tr_itinerary_revision t - int (length (versions_of (tr_id t) s))"

lemma stmt_lead:
  assumes "plan_stmt s s'" "history_ok s"
  shows "map (revision_lead s') (plan_trips s') = map (revision_lead s) (plan_trips s)"
  using assms
proof (induction rule: plan_stmt.induct)
  case (save v tid own it n s t s')
  note eff = save_effect [OF save(1)]
  obtain row where row: "row \<in> set (plan_trips s)" "tr_id row = tid" "tr_user row = Some own" "tr_itinerary_revision row = n"
    using eff(3) by blast
  have uniq: "key_unique tr_id (plan_trips s)" using save by (simp add: history_ok_def)
  have "u = row" if "u \<in> set (plan_trips s)" "tr_id u = tid" for u
    using key_unique_inj [OF uniq that(1) row(1)] that(2) row(2) by simp
  have "revision_lead s' (if tr_id u = tid \<and> tr_user u = Some own \<and> tr_itinerary_revision u = n
      then u\<lparr>tr_itinerary := Some it, tr_itinerary_revision := tr_itinerary_revision u + 1\<rparr> else u) = revision_lead s u"
    if u: "u \<in> set (plan_trips s)" for u
  proof (cases "tr_id u = tid")
    case True
    then have "u = row" using \<open>\<And>u. u \<in> set (plan_trips s) \<Longrightarrow> tr_id u = tid \<Longrightarrow> u = row\<close> u by blast
    then show ?thesis using row by (simp add: revision_lead_def versions_of_snoc [OF eff(1)])
  next
    case False
    then show ?thesis by (simp add: revision_lead_def versions_of_snoc [OF eff(1)])
  qed
  then show ?case unfolding eff(4) update_where_def map_map by simp
next
  case (status f s g s')
  then show ?case unfolding status_Inr by (auto simp: revision_lead_def versions_of_def update_where_def)
next
  case (reset now tid actor s r s')
  then show ?case unfolding ResetApprovalStatusForTripIfActive_def Let_def
    by (auto split: option.splits simp: revision_lead_def versions_of_def update_where_def)
qed (auto simp: InsertTripApprovalEvent_def revision_lead_def versions_of_def split: if_splits)

lemma steps_lead:
  "plan_steps s s' \<Longrightarrow> history_ok s \<Longrightarrow> map (revision_lead s') (plan_trips s') = map (revision_lead s) (plan_trips s)"
  by (induction rule: rtranclp_induct) (auto dest: plan_steps_history stmt_lead)

text \<open>
  C2. The versions are the history. Whatever statements of concurrent requests follow, the versions
  of every trip stay numbered 1, 2, 3 and so on without a gap, no version that was there is changed or
  removed, the last one is the current document, and as many are added as the revision grows.
\<close>

theorem versions_are_the_history:
  assumes "history_ok s" "plan_steps s s'" "i < length (plan_trips s)"
  defines "t \<equiv> plan_trips s ! i" and "t' \<equiv> plan_trips s' ! i"
  shows "tr_id t' = tr_id t \<and>
    map ve_number (versions_of (tr_id t) s') = [1..int (length (versions_of (tr_id t) s'))] \<and>
    (versions_of (tr_id t) s' \<noteq> [] \<longrightarrow> tr_itinerary t' = ve_itinerary (last (versions_of (tr_id t) s'))) \<and>
    (\<exists>new. versions_of (tr_id t) s' = versions_of (tr_id t) s @ new \<and>
      int (length new) = tr_itinerary_revision t' - tr_itinerary_revision t)"
proof -
  have ok: "history_ok s'" using assms(1,2) plan_steps_history by blast
  have rel: "list_all2 row_step (plan_trips s) (plan_trips s')" "prefix (pl_versions s) (pl_versions s')"
    using plan_steps_rel [OF assms(2)] by (simp_all add: plan_rel_def)
  have i: "i < length (plan_trips s')" using assms(3) list_all2_lengthD [OF rel(1)] by simp
  have id: "tr_id t' = tr_id t"
    using list_all2_nthD [OF rel(1) assms(3)] by (simp add: row_step_def t_def t'_def)
  have "trip_history_ok s' t'" using ok nth_mem [OF i] by (simp add: history_ok_def t'_def)
  moreover obtain new where new: "versions_of (tr_id t) s' = versions_of (tr_id t) s @ new"
    using rel(2) by (auto simp: prefix_def versions_of_def)
  moreover have "revision_lead s' t' = revision_lead s t"
    using steps_lead [OF assms(2,1)] assms(3) i unfolding t_def t'_def by (metis nth_map)
  then have "int (length new) = tr_itinerary_revision t' - tr_itinerary_revision t"
    by (simp add: revision_lead_def id new)
  ultimately show ?thesis unfolding trip_history_ok_def Let_def id by blast
qed

end
