(* ===== verification/RestoreLaws.thy ===== *)
theory RestoreLaws
  imports PlanHistory
begin

text \<open>
  Restoring a version: what a save by an editor stores can be brought back at any later time,
  unchanged, whatever happened to the trip in between.
\<close>

section \<open>After the save\<close>

text \<open>What follows the save in a handler leaves documents, revisions and versions as they are.\<close>

definition doc_row :: "trip \<Rightarrow> uuid \<times> uuid option \<times> uuid option \<times> itinerary option \<times> int" where
  "doc_row t = (tr_id t, tr_user t, tr_workspace t, tr_itinerary t, tr_itinerary_revision t)"

definition docs_kept :: "plan_db \<Rightarrow> plan_db \<Rightarrow> bool" where
  "docs_kept s s' \<longleftrightarrow> map doc_row (plan_trips s') = map doc_row (plan_trips s) \<and> pl_versions s' = pl_versions s"

lemma rel_ok_docs [simp, intro]: "rel_ok docs_kept"
  by (rule rel_okI) (auto simp: docs_kept_def)

lemma docs_status: "step_rel docs_kept (sstmt (UpdateTripApprovalStatus f))"
  by (rule step_rel_sstmt) (auto simp: status_Inr docs_kept_def update_where_def doc_row_def)

lemma docs_event: "step_rel docs_kept (sstmt (InsertTripApprovalEvent e))"
  by (rule step_rel_sstmt) (auto simp: InsertTripApprovalEvent_def docs_kept_def split: if_splits)

lemma docs_reset_stmt: "step_rel docs_kept (sstmt (\<lambda>s. Inr (ResetApprovalStatusForTripIfActive now tid actor s)))"
  by (rule step_rel_sstmt) (auto simp: ResetApprovalStatusForTripIfActive_def docs_kept_def Let_def update_where_def doc_row_def
      split: option.splits)

lemma docs_activity: "step_rel docs_kept (plan_activity env ty tid actor entity)"
  unfolding plan_activity_def by (rule step_rel_sdo) (simp add: docs_kept_def)

lemma docs_notify: "step_rel docs_kept (notifyApproval env recipients tid actor ty)"
  unfolding notifyApproval_def by (rule step_rel_sdo) (simp add: docs_kept_def on_db_def)

lemma docs_broadcast: "step_rel docs_kept (sdo (on_db (notifyTripBroadcast env t actor ty)))"
  by (rule step_rel_sdo) (simp add: docs_kept_def on_db_def notifyTripBroadcast_def)

lemmas docs_intros = step_intros docs_status docs_event docs_reset_stmt docs_activity docs_notify docs_broadcast rel_ok_docs

lemma docs_reset: "step_rel docs_kept (ResetApprovalIfApproved env cx tid actor reason)"
  unfolding ResetApprovalIfApproved_def notifyApprovalReset_def by (intro docs_intros)

lemma docs_record: "step_rel docs_kept (recordApprovalEvent cx f actor ty from' txt)"
  unfolding recordApprovalEvent_def by (intro docs_intros)

lemma docs_approvals:
  "step_rel docs_kept (SubmitTripApproval env cx tid txt)"
  "step_rel docs_kept (decide env cfg cx tid txt)"
  "step_rel docs_kept (CancelTripApproval env cx tid txt)"
  unfolding SubmitTripApproval_def decide_def decide_write_def CancelTripApproval_def
  by (intro docs_intros docs_record)+

lemma docs_find:
  assumes "docs_kept s s'" "GetByID (pl_db s) tid = Inr t"
  shows "\<exists>t'. GetByID (pl_db s') tid = Inr t' \<and> doc_row t' = doc_row t"
proof -
  have "map doc_row ys = map doc_row xs \<Longrightarrow> find (\<lambda>t. tr_id t = tid) xs = Some t \<Longrightarrow>
      \<exists>t'. find (\<lambda>t. tr_id t = tid) ys = Some t' \<and> doc_row t' = doc_row t" for xs ys
  proof (induction xs arbitrary: ys)
    case (Cons x xs)
    then obtain y ys' where ys: "ys = y # ys'" "doc_row y = doc_row x" "map doc_row ys' = map doc_row xs" by auto
    then have "tr_id y = tr_id x" by (simp add: doc_row_def)
    then show ?case using Cons ys by (cases "tr_id x = tid") auto
  qed simp
  from this [of "plan_trips s'" "plan_trips s"] show ?thesis
    using assms unfolding GetByID_find docs_kept_def by blast
qed

section \<open>The two writers\<close>

lemma run_docs: "step_rel docs_kept m \<Longrightarrow> m s = (r, s') \<Longrightarrow> docs_kept s s'"
  by (rule step_relD)

lemma docs_trans: "docs_kept s t \<Longrightarrow> docs_kept t u \<Longrightarrow> docs_kept s u"
  using rel_ok_docs by (auto simp: rel_ok_def dest: transpD)

lemma docs_if: "step_rel docs_kept (if b then plan_activity env ty tid actor entity else sret ())"
  by (intro docs_intros)

text \<open>A successful save: the transaction, then steps that keep the documents.\<close>

lemma saveItineraryWithVersion_Inr:
  assumes "saveItineraryWithVersion env cx tid own actor it n src meta s = (Inr u, s')"
  obtains s1 where "UpdateItineraryAndCreateVersion (version_of cx actor src meta) tid own it n s = Inr (u, s1)" "docs_kept s1 s'"
  using assms unfolding saveItineraryWithVersion_def
  by (auto simp: op_run intro: run_docs [OF docs_reset])

lemma UpdateItinerary_saves:
  assumes "UpdateItinerary env cx tid doc n s = (Inr u, s')"
  obtains it own m actor meta s1 where "validateAndNormalizeItinerary doc = Inr it"
    "UpdateItineraryAndCreateVersion (version_of cx actor ManualEdit meta) tid own it m s = Inr (u, s1)" "docs_kept s1 s'"
proof -
  from assms obtain it own m actor meta s1 count s2 s3 t where v: "validateAndNormalizeItinerary doc = Inr it"
    and sv: "saveItineraryWithVersion env cx tid own actor it m ManualEdit meta s = (Inr u, s1)"
    and rest: "plan_activity env ''itinerary_updated'' tid actor tid s1 = (Inr (), s2)"
      "(if count > (0::int) then plan_activity env ''itinerary_schedule_updated'' tid actor tid else sret ()) s2 = (Inr (), s3)"
      "sdo (on_db (notifyTripBroadcast (pe_svc env) t actor ''itinerary_updated'')) s3 = (Inr () :: app_error + unit, s')"
    unfolding UpdateItinerary_def case_prod_unfold Let_def sbind_Inr spure_Inr sread_Inr sret_Inr
    by - (clarify, rule that, assumption+)
  have "docs_kept s1 s'"
    using run_docs [OF docs_activity rest(1)] run_docs [OF docs_if rest(2)] run_docs [OF docs_broadcast rest(3)]
    by (blast intro: docs_trans)
  moreover obtain s0 where "UpdateItineraryAndCreateVersion (version_of cx actor ManualEdit meta) tid own it m s = Inr (u, s0)" "docs_kept s0 s1"
    using saveItineraryWithVersion_Inr [OF sv] by blast
  ultimately show thesis using v that docs_trans by blast
qed

lemma UpdateItinerary_stores:
  assumes "UpdateItinerary env cx tid doc n s = (Inr u, s')"
  shows "\<exists>it v. validateAndNormalizeItinerary doc = Inr it \<and> tr_itinerary u = Some it \<and> v \<in> set (pl_versions s') \<and>
    ve_id v = pc_version_id cx \<and> ve_trip v = tid \<and> ve_itinerary v = Some it"
proof -
  obtain it own m actor meta s1 where v: "validateAndNormalizeItinerary doc = Inr it"
    and sv: "UpdateItineraryAndCreateVersion (version_of cx actor ManualEdit meta) tid own it m s = Inr (u, s1)"
    and k: "docs_kept s1 s'"
    by (rule UpdateItinerary_saves [OF assms])
  let ?v = "saved_row (version_of cx actor ManualEdit meta) tid own it s"
  have "?v \<in> set (pl_versions s')" using k save_effect(1) [OF sv] by (simp add: docs_kept_def)
  moreover obtain row where "u = row\<lparr>tr_itinerary := Some it, tr_itinerary_revision := tr_itinerary_revision row + 1\<rparr>"
    using save_effect(3) [OF sv] by blast
  then have "tr_itinerary u = Some it" by simp
  moreover have "ve_id ?v = pc_version_id cx" by (simp add: version_of_def)
  ultimately show ?thesis using v by (intro exI [of _ it] exI [of _ ?v]) (simp only: saved_row_fields simp_thms)
qed

lemma version_found:
  assumes "history_ok s" "v \<in> set (pl_versions s)"
  shows "GetItineraryVersionByIDTrip (ve_id v) (ve_trip v) s = Inr v"
proof -
  have "select_row (\<lambda>w. ve_id w = ve_id v \<and> ve_trip w = ve_trip v) (pl_versions s) = Some v"
    using assms by (intro select_row_key [of ve_id]) (simp_all add: history_ok_def)
  then show ?thesis by (simp add: GetItineraryVersionByIDTrip_def)
qed

text \<open>A save on the current revision by the owner's id with a fresh version id goes through.\<close>

lemma save_goes_through:
  assumes "history_ok s" "GetByID (pl_db s) tid = Inr t" "tr_user t = Some own"
    "vi_id v \<notin> ve_id ` set (pl_versions s)"
  shows "\<exists>s'. UpdateItineraryAndCreateVersion v tid own it (tr_itinerary_revision t) s =
    Inr (t\<lparr>tr_itinerary := Some it, tr_itinerary_revision := tr_itinerary_revision t + 1\<rparr>, s')"
proof -
  have t: "t \<in> set (plan_trips s)" "tr_id t = tid" using GetByID_Inr [OF assms(2)] by auto
  have uniq: "key_unique tr_id (plan_trips s)" using assms(1) by (simp add: history_ok_def)
  have row: "select_row (\<lambda>t'. tr_id t' = tid \<and> tr_user t' = Some own \<and> tr_itinerary_revision t' = tr_itinerary_revision t)
      (plan_trips s) = Some t"
    using uniq t assms(3) by (intro select_row_key [of tr_id]) auto
  have num: "map ve_number (versions_of tid s) = [1..int (length (versions_of tid s))]"
    using assms(1) t by (auto simp: history_ok_def trip_history_ok_def Let_def)
  have "ve_number w \<noteq> nextItineraryVersionNumber tid (pl_versions s)" if "w \<in> set (pl_versions s)" "ve_trip w = tid" for w
  proof -
    have "ve_number w \<in> set (map ve_number (versions_of tid s))" using that by (auto simp: versions_of_def)
    then show ?thesis unfolding num next_number [OF num] by auto
  qed
  then show ?thesis using row assms(4) unfolding save_Inr by (auto simp: image_iff)
qed

section \<open>Restoring\<close>

lemma total_notify: "total_op (notifyApproval env recipients tid actor ty)"
  unfolding notifyApproval_def by (intro total_intros)

lemma total_activity: "total_op (plan_activity env ty tid actor entity)"
  unfolding plan_activity_def by (intro total_intros)

lemma total_reset: "total_op (ResetApprovalIfApproved env cx tid actor reason)"
proof -
  have "total_op (sstmt (\<lambda>s. Inr (ResetApprovalStatusForTripIfActive (pc_now cx) tid actor s)))"
    by (simp add: total_op_def sstmt_def split_beta)
  then show ?thesis
    unfolding ResetApprovalIfApproved_def notifyApprovalReset_def
    by (intro total_intros total_notify total_activity)
qed

text \<open>The restore of a found version by an editor on the current revision.\<close>

lemma restore_runs:
  assumes "MustUserFromContext (pc_user cx) = Inr user"
    "requireEditorOrOwner (pe_svc env) (pl_db s) tid (au_id user) = Inr (t, a)"
    "0 \<le> tr_itinerary_revision t" "tripOwnerID t = Inr own" "GetItineraryVersionByIDTrip vid tid s = Inr w"
    "ve_itinerary w = Some it" "validateAndNormalizeItinerary (Doc it) = Inr it"
    "\<And>v. vi_id v = pc_version_id cx \<Longrightarrow> \<exists>s'. UpdateItineraryAndCreateVersion v tid own it (tr_itinerary_revision t) s = Inr (u v, s')"
  shows "\<exists>v s1 s'. RestoreItineraryVersion env cx tid vid (Some (tr_itinerary_revision t)) s = (Inr (u v), s') \<and>
    vi_id v = pc_version_id cx \<and> docs_kept s1 s' \<and>
    UpdateItineraryAndCreateVersion v tid own it (tr_itinerary_revision t) s = Inr (u v, s1)"
proof -
  define v where "v = version_of cx (au_id user) Restored
    [(''restoredFromVersionId'', MetaId (ve_id w)), (''restoredFromVersionNumber'', MetaInt (ve_number w))]"
  have vid: "vi_id v = pc_version_id cx" by (simp add: v_def version_of_def)
  obtain s1 where s1: "UpdateItineraryAndCreateVersion v tid own it (tr_itinerary_revision t) s = Inr (u v, s1)"
    using assms(8) [OF vid] by blast
  let ?after = "sbind (ResetApprovalIfApproved env cx tid (au_id user) (''Itinerary changed ('' @ source_name Restored @ '')'')) (\<lambda>_.
      sbind (plan_activity env ''version_restored'' tid (au_id user) (ve_id w)) (\<lambda>_.
      sbind (sdo (on_db (notifyTripBroadcast (pe_svc env) t (au_id user) ''version_restored''))) (\<lambda>_. sret (u v))))"
  have "RestoreItineraryVersion env cx tid vid (Some (tr_itinerary_revision t)) s = ?after s1"
    unfolding RestoreItineraryVersion_def saveItineraryWithVersion_def v_def [symmetric]
    using assms(1-7) s1
    by (simp add: sbind_def spure_def sread_def sstmt_def sret_def requireExpectedItineraryRevision_def
        checkCurrentItineraryRevision_def guard_err_def stored_doc_def v_def [symmetric] split: prod.splits sum.splits)
  then have eq: "RestoreItineraryVersion env cx tid vid (Some (tr_itinerary_revision t)) s = (Inr x, s')" if "?after s1 = (Inr x, s')" for x s'
    using that by (rule trans)
  have "total_op ?after" by (intro total_intros total_reset total_activity)
  then obtain s' x where run: "?after s1 = (Inr x, s')" unfolding total_op_def by (metis prod.collapse)
  have "docs_kept s1 s'"
  proof -
    have "step_rel docs_kept ?after" by (intro docs_intros docs_reset)
    then show ?thesis using run by (rule step_relD)
  qed
  moreover have "x = u v" using run unfolding sbind_Inr sret_Inr by blast
  ultimately show ?thesis using s1 vid eq [OF run] by (intro exI [of _ v] exI [of _ s1] exI [of _ s'] conjI) simp_all
qed

lemma access_row:
  "requireEditorOrOwner env db tid uid = Inr (t, a) \<Longrightarrow> GetByID db tid = Inr t"
  "requireViewerEditorOrOwner env db tid uid = Inr (t, a) \<Longrightarrow> GetByID db tid = Inr t"
  by (auto simp: requireEditorOrOwner_def requireViewerEditorOrOwner_def rbind_Inr_iff split: if_splits
      elim!: tripForAccess_Inr)

lemma GetByID_after_save:
  assumes "UpdateItineraryAndCreateVersion v tid own it (tr_itinerary_revision t) s = Inr (u, s')"
    "GetByID (pl_db s) tid = Inr t" "tr_user t = Some own"
  shows "GetByID (pl_db s') tid = Inr (t\<lparr>tr_itinerary := Some it, tr_itinerary_revision := tr_itinerary_revision t + 1\<rparr>)"
proof -
  have "select_row (\<lambda>t. tr_id t = tid) (plan_trips s) = Some t" "tr_id t = tid"
    using assms(2) GetByID_Inr [OF assms(2)] unfolding GetByID_find select_row_def by auto
  then have "select_row (\<lambda>t. tr_id t = tid) (plan_trips s') =
      Some (t\<lparr>tr_itinerary := Some it, tr_itinerary_revision := tr_itinerary_revision t + 1\<rparr>)"
    unfolding save_effect(4) [OF assms(1)] using assms(3) by (intro find_update_where_hit) simp_all
  then show ?thesis unfolding GetByID_find select_row_def .
qed

text \<open>
  C3. A saved plan is never lost. However the trip is changed after a save (by any interleaving of
  requests), an editor who restores the version that the save recorded, on the current revision, gets
  exactly the saved itinerary back as the current one. The saved document holds no cost note of more
  than 300 characters (\<open>doc_fits\<close>): such a note is cut, and the cut may leave a space that the
  restore trims.
\<close>

theorem saved_plan_can_be_restored:
  assumes "UpdateItinerary env cx tid (Doc doc) n s = (Inr saved, s1)" "doc_fits doc" "history_ok s" "plan_steps s1 s2"
    "MustUserFromContext (pc_user cx') = Inr user"
    "requireEditorOrOwner (pe_svc env) (pl_db s2) tid (au_id user) = Inr (t, a)"
    "tripOwnerID t = Inr own" "0 \<le> tr_itinerary_revision t" "pc_version_id cx' \<notin> ve_id ` set (pl_versions s2)"
  shows "\<exists>r s3 t3. RestoreItineraryVersion env cx' tid (pc_version_id cx) (Some (tr_itinerary_revision t)) s2 = (Inr r, s3) \<and>
    GetByID (pl_db s3) tid = Inr t3 \<and> tr_itinerary t3 = tr_itinerary saved \<and> tr_itinerary saved \<noteq> None"
proof -
  obtain it v where it: "validateAndNormalizeItinerary (Doc doc) = Inr it" "tr_itinerary saved = Some it"
    and v: "v \<in> set (pl_versions s1)" "ve_id v = pc_version_id cx" "ve_trip v = tid" "ve_itinerary v = Some it"
    using UpdateItinerary_stores [OF assms(1)] by blast
  have again: "validateAndNormalizeItinerary (Doc it) = Inr it" using it(1) assms(2) by (rule validate_again)
  have "plan_steps s s1" using handler_steps(1) assms(1) by (rule step_relD)
  then have ok: "history_ok s2" using assms(3,4) plan_steps_history by blast
  have "v \<in> set (pl_versions s2)"
    using plan_steps_rel [OF assms(4)] v(1) by (auto simp: plan_rel_def dest: set_mono_prefix)
  then have found: "GetItineraryVersionByIDTrip (pc_version_id cx) tid s2 = Inr v"
    using version_found [OF ok] v by metis
  have t: "GetByID (pl_db s2) tid = Inr t" using assms(6) by (rule access_row)
  have own: "tr_user t = Some own" using assms(7) by (auto simp: tripOwnerID_def split: option.splits if_splits)
  let ?u = "t\<lparr>tr_itinerary := Some it, tr_itinerary_revision := tr_itinerary_revision t + 1\<rparr>"
  have fresh: "\<exists>s'. UpdateItineraryAndCreateVersion v tid own it (tr_itinerary_revision t) s2 = Inr (?u, s')"
    if "vi_id v = pc_version_id cx'" for v
    using ok t own assms(9) that by (intro save_goes_through) simp_all
  obtain w s' s3 where r: "RestoreItineraryVersion env cx' tid (pc_version_id cx) (Some (tr_itinerary_revision t)) s2 = (Inr ?u, s3)"
    and k: "docs_kept s' s3"
    and sv: "UpdateItineraryAndCreateVersion w tid own it (tr_itinerary_revision t) s2 = Inr (?u, s')"
    using restore_runs [OF assms(5,6,8,7) found v(4) again fresh] by blast
  obtain t3 where "GetByID (pl_db s3) tid = Inr t3" "doc_row t3 = doc_row ?u"
    using docs_find [OF k GetByID_after_save [OF sv t own]] by blast
  then show ?thesis using r it(2) by (intro exI [of _ ?u] exI [of _ s3] exI [of _ t3]) (simp add: doc_row_def)
qed

end
