(* ===== verification/ApprovalLaws.thy ===== *)
theory ApprovalLaws
  imports RestoreLaws
begin

text \<open>
  What an approval is worth: when the requests on a trip are served one after another, the plan that is
  under review or approved is the one that was submitted, and only an owner or admin of the workspace
  approves it. When a decision and a save overlap, it is not.
\<close>

section \<open>Rows of other trips, and what follows the write\<close>

lemma step_rel_sread_bind:
  "rel_ok R \<Longrightarrow> (\<And>x s. f s = Inr x \<Longrightarrow> step_rel R (g x)) \<Longrightarrow> step_rel R (sbind (sread f) g)"
  by (auto simp: step_rel_def sbind_def sread_def rel_ok_def reflpD split: sum.splits)

lemma sbind_assoc: "sbind (sbind m f) g = sbind m (\<lambda>x. sbind (f x) g)"
  by (rule ext) (simp add: sbind_def split: prod.split sum.split)

definition others_row :: "uuid \<Rightarrow> trip \<Rightarrow> trip \<Rightarrow> bool" where
  "others_row tid a b \<longleftrightarrow> tr_id b = tr_id a \<and> (tr_id a \<noteq> tid \<longrightarrow> b = a)"

definition others_kept :: "uuid \<Rightarrow> plan_db \<Rightarrow> plan_db \<Rightarrow> bool" where
  "others_kept tid s s' \<longleftrightarrow> list_all2 (others_row tid) (plan_trips s) (plan_trips s')"

lemma others_refl: "list_all2 (others_row tid) rows rows"
  by (simp add: list_all2_refl others_row_def)

lemma others_update:
  "(\<And>r. P r \<Longrightarrow> tr_id r = tid) \<Longrightarrow> (\<And>r. tr_id (f r) = tr_id r) \<Longrightarrow> list_all2 (others_row tid) rows (update_where P f rows)"
  by (auto simp: update_where_def list_all2_conv_all_nth others_row_def)

lemma rel_ok_others [simp, intro]: "rel_ok (others_kept tid)"
proof (rule rel_okI)
  show "others_kept tid s s" for s by (simp add: others_kept_def others_refl)
  show "others_kept tid s u" if "others_kept tid s t" "others_kept tid t u" for s t u
    using that unfolding others_kept_def
    by (auto intro: list_all2_trans [of "others_row tid" "others_row tid" "others_row tid"] simp: others_row_def)
qed

definition trips_kept :: "plan_db \<Rightarrow> plan_db \<Rightarrow> bool" where
  "trips_kept s s' \<longleftrightarrow> plan_trips s' = plan_trips s"

lemma rel_ok_trips [simp, intro]: "rel_ok trips_kept"
  by (rule rel_okI) (auto simp: trips_kept_def)

lemma trips_event: "step_rel trips_kept (sstmt (InsertTripApprovalEvent e))"
  by (rule step_rel_sstmt) (auto simp: InsertTripApprovalEvent_def trips_kept_def split: if_splits)

lemma trips_activity: "step_rel trips_kept (plan_activity env ty tid actor entity)"
  unfolding plan_activity_def by (rule step_rel_sdo) (simp add: trips_kept_def)

lemma trips_notify: "step_rel trips_kept (notifyApproval env recipients tid actor ty)"
  unfolding notifyApproval_def by (rule step_rel_sdo) (simp add: trips_kept_def on_db_def)

lemma trips_broadcast: "step_rel trips_kept (sdo (on_db (notifyTripBroadcast env t actor ty)))"
  by (rule step_rel_sdo) (simp add: trips_kept_def on_db_def notifyTripBroadcast_def)

lemma trips_record: "step_rel trips_kept (recordApprovalEvent cx f actor ty from' txt)"
  unfolding recordApprovalEvent_def by (intro step_intros trips_event rel_ok_trips)

lemmas trips_intros = step_intros trips_event trips_activity trips_notify trips_broadcast trips_record rel_ok_trips

lemma step_rel_weaken: "step_rel R m \<Longrightarrow> (\<And>s t. R s t \<Longrightarrow> R' s t) \<Longrightarrow> step_rel R' m"
  by (auto simp: step_rel_def)

lemma trips_others: "step_rel trips_kept m \<Longrightarrow> step_rel (others_kept tid) m"
  by (erule step_rel_weaken) (simp add: trips_kept_def others_kept_def others_refl)

lemma others_status: "af_trip f = tid \<Longrightarrow> step_rel (others_kept tid) (sstmt (UpdateTripApprovalStatus f))"
  by (rule step_rel_sstmt) (auto simp: status_Inr others_kept_def intro!: others_update)

lemma others_save: "step_rel (others_kept tid) (sstmt (UpdateItineraryAndCreateVersion v tid own it n))"
  by (rule step_rel_sstmt) (auto simp: others_kept_def save_effect(4) intro!: others_update)

lemma others_reset: "step_rel (others_kept tid) (sstmt (\<lambda>s. Inr (ResetApprovalStatusForTripIfActive now tid actor s)))"
  by (rule step_rel_sstmt) (auto simp: ResetApprovalStatusForTripIfActive_def others_kept_def others_refl Let_def
      split: option.splits intro!: others_update)

lemmas others_tail = trips_activity [THEN trips_others] trips_notify [THEN trips_others]
  trips_broadcast [THEN trips_others] trips_record [THEN trips_others] trips_event [THEN trips_others]

lemmas others_intros = step_intros others_tail others_save others_reset rel_ok_others

lemma fields_trip: "GetTripApprovalFields tid s = Inr f \<Longrightarrow> af_trip f = tid"
  by (auto simp: GetTripApprovalFields_def dest!: select_row_Some split: option.splits)

lemma decide_read_fields: "decide_read env cfg cx tid txt s = Inr d \<Longrightarrow> GetTripApprovalFields tid s = Inr (dn_fields d)"
  by (auto simp: decide_read_def rbind_Inr_iff split: option.splits)

lemma others_resetIfApproved: "step_rel (others_kept tid) (ResetApprovalIfApproved env cx tid actor reason)"
  unfolding ResetApprovalIfApproved_def notifyApprovalReset_def by (intro others_intros)

lemma others_handlers:
  "step_rel (others_kept tid) (UpdateItinerary env cx tid doc expected)"
  "step_rel (others_kept tid) (RestoreItineraryVersion env cx tid vid expected)"
  "step_rel (others_kept tid) (UpdateTravelItemStatus env cx tid d i st txt expected)"
  unfolding UpdateItinerary_def RestoreItineraryVersion_def UpdateTravelItemStatus_def saveItineraryWithVersion_def
  by (intro others_intros others_resetIfApproved)+

lemma others_decide: "step_rel (others_kept tid) (decide env cfg cx tid txt)"
  unfolding decide_def
proof (rule step_rel_sread_bind)
  fix d s
  assume "decide_read env cfg cx tid txt s = Inr d"
  then have "af_trip (dn_fields d) = tid" by (rule fields_trip [OF decide_read_fields])
  then show "step_rel (others_kept tid) (decide_write env cfg cx tid txt d)"
    unfolding decide_write_def by (intro others_intros others_status) simp
qed simp

lemma others_cancel: "step_rel (others_kept tid) (CancelTripApproval env cx tid txt)"
  unfolding CancelTripApproval_def
  by (intro others_intros step_rel_sread_bind [of "others_kept tid" "GetTripApprovalFields tid"] others_status)
    (auto dest: fields_trip)

lemma others_submit: "step_rel (others_kept tid) (SubmitTripApproval env cx tid txt)"
  unfolding SubmitTripApproval_def
  by (intro others_intros step_rel_sread_bind [of "others_kept tid" "GetTripApprovalFields tid"] others_status)
    (auto dest: fields_trip)

fun request_trip :: "plan_request \<Rightarrow> uuid" where
  "request_trip (RUpdate cx tid doc n) = tid"
| "request_trip (RRestore cx tid vid n) = tid"
| "request_trip (RTravel cx tid d i st txt n) = tid"
| "request_trip (RSubmit cx tid txt) = tid"
| "request_trip (RApprove cx tid txt) = tid"
| "request_trip (RRequestChanges cx tid txt) = tid"
| "request_trip (RCancel cx tid txt) = tid"

lemma request_keeps_others: "others_kept (request_trip r) s (plan_serve env r s)"
  using others_handlers others_decide others_cancel others_submit unfolding step_rel_def
  by (cases r) (simp_all add: ApproveTrip_def RequestTripChanges_def)

section \<open>The reviewed plan\<close>

text \<open>The plan without the travel status of its items, which is meant to survive an approval.\<close>

definition bare_day :: "itinerary_day \<Rightarrow> itinerary_day" where
  "bare_day day = day\<lparr>dy_items := map (\<lambda>x. x\<lparr>ii_travel := None\<rparr>) (dy_items day)\<rparr>"

definition plan_shape :: "itinerary option \<Rightarrow> itinerary option" where
  "plan_shape doc = map_option (\<lambda>it. it\<lparr>it_generated_at := None, it_days := map bare_day (it_days it)\<rparr>) doc"

abbreviation trip_status :: "trip \<Rightarrow> approval_status" where
  "trip_status t \<equiv> ap_status (tr_approval t)"

text \<open>
  Setting a travel status writes the stored document back as its validation leaves it: the texts of the
  attached transfers and places normalized. \<open>same_plan a b\<close>: \<open>b\<close> is \<open>a\<close> after some number of such
  validations.
\<close>

definition same_plan :: "itinerary option \<Rightarrow> itinerary option \<Rightarrow> bool" where
  "same_plan a b \<longleftrightarrow> (\<exists>k. plan_shape b = map_option (tidied ^^ k) (plan_shape a))"

lemma same_plan_refl [simp]: "same_plan a a"
  unfolding same_plan_def by (rule exI [of _ 0]) (cases "plan_shape a"; simp)

lemma same_plan_trans:
  assumes "same_plan a b" "same_plan b c"
  shows "same_plan a c"
proof -
  obtain k m where "plan_shape b = map_option (tidied ^^ k) (plan_shape a)" "plan_shape c = map_option (tidied ^^ m) (plan_shape b)"
    using assms unfolding same_plan_def by blast
  then have "plan_shape c = map_option (tidied ^^ (m + k)) (plan_shape a)"
    by (simp add: option.map_comp funpow_add)
  then show ?thesis unfolding same_plan_def by blast
qed

lemma bare_tidied: "bare_day (tidied_day day) = tidied_day (bare_day day)"
  by (simp add: bare_day_def tidied_day_def tidied_item_def)

lemma shape_tidied: "plan_shape (Some (tidied it)) = map_option tidied (plan_shape (Some it))"
  by (simp add: plan_shape_def tidied_def bare_tidied)

definition review_row :: "trip \<Rightarrow> trip \<Rightarrow> bool" where
  "review_row a b \<longleftrightarrow> tr_id b = tr_id a \<and> tr_workspace b = tr_workspace a \<and>
     (tr_workspace a \<noteq> None \<and> under_review (trip_status b) \<longrightarrow>
       under_review (trip_status a) \<and> same_plan (tr_itinerary a) (tr_itinerary b))"

lemma review_refl [simp]: "review_row a a"
  by (simp add: review_row_def)

lemma review_trans: "review_row a b \<Longrightarrow> review_row b c \<Longrightarrow> review_row a c"
  by (auto simp: review_row_def intro: same_plan_trans)

lemma map_list_update: "f y = f (xs ! i) \<Longrightarrow> map f (xs[i := y]) = map f xs"
  by (metis list_update_id map_update)

lemma shape_eq:
  "map bare_day (it_days a) = map bare_day (it_days b) \<Longrightarrow> it_destination a = it_destination b \<Longrightarrow>
    it_summary a = it_summary b \<Longrightarrow> it_travelers a = it_travelers b \<Longrightarrow> it_pace a = it_pace b \<Longrightarrow>
    it_currency a = it_currency b \<Longrightarrow> it_total_budget a = it_total_budget b \<Longrightarrow> it_source a = it_source b \<Longrightarrow>
    plan_shape (Some a) = plan_shape (Some b)" for a b :: itinerary
  by (cases a; cases b) (simp add: plan_shape_def)

lemma shape_of_travel: "plan_shape (Some (set_travel_status d i ts it)) = plan_shape (Some it)"
proof -
  have items: "map (\<lambda>x. x\<lparr>ii_travel := None\<rparr>) (xs[i := (xs ! i)\<lparr>ii_travel := Some ts\<rparr>]) = map (\<lambda>x. x\<lparr>ii_travel := None\<rparr>) xs"
    for xs :: "itinerary_item list" by (rule map_list_update) simp
  have days: "bare_day (day\<lparr>dy_items := (dy_items day)[i := (dy_items day ! i)\<lparr>ii_travel := Some ts\<rparr>]\<rparr>) = bare_day day" for day
    unfolding bare_day_def by (cases day) (simp add: items)
  have eq: "it_days (set_travel_status d i ts it) = (it_days it)[d := (it_days it ! d)
      \<lparr>dy_items := (dy_items (it_days it ! d))[i := (dy_items (it_days it ! d) ! i)\<lparr>ii_travel := Some ts\<rparr>]\<rparr>]"
    by (simp add: set_travel_status_def)
  have "map bare_day (it_days (set_travel_status d i ts it)) = map bare_day (it_days it)"
    unfolding eq by (rule map_list_update, rule days)
  then show ?thesis by (rule shape_eq) (simp_all add: set_travel_status_def)
qed

text \<open>What one request does to the rows of its own trip.\<close>

definition cleared :: "uuid \<Rightarrow> plan_db \<Rightarrow> bool" where
  "cleared tid s \<longleftrightarrow> (\<forall>t \<in> set (plan_trips s). tr_id t = tid \<and> tr_workspace t \<noteq> None \<longrightarrow> \<not> under_review (trip_status t))"

lemma not_under_draft [simp]: "\<not> under_review ApDraft"
  by (simp add: under_review_def)

lemma cleared_trips: "trips_kept s s' \<Longrightarrow> cleared tid s \<Longrightarrow> cleared tid s'"
  by (simp add: trips_kept_def cleared_def)

lemma reset_clears_stmt: "cleared tid (snd (ResetApprovalStatusForTripIfActive now tid actor s))"
proof -
  define hit where "hit = (\<lambda>t :: trip. tr_id t = tid \<and> tr_workspace t \<noteq> None \<and> under_review (trip_status t))"
  define f where "f = (\<lambda>t :: trip. t\<lparr>tr_approval := (tr_approval t)\<lparr>ap_status := ApDraft, ap_last_at := Some now, ap_last_by := Some actor\<rparr>\<rparr>)"
  have f: "\<not> hit (f t)" for t by (simp add: hit_def f_def)
  have rows: "plan_trips (snd (ResetApprovalStatusForTripIfActive now tid actor s)) = update_where hit f (plan_trips s)"
  proof (cases "select_row hit (plan_trips s)")
    case None
    then have "update_where hit f (plan_trips s) = plan_trips s"
      unfolding select_row_None_iff by (rule update_where_none)
    then show ?thesis unfolding ResetApprovalStatusForTripIfActive_def Let_def hit_def [symmetric] None by simp
  next
    case (Some t)
    then show ?thesis
      unfolding ResetApprovalStatusForTripIfActive_def Let_def hit_def [symmetric] f_def [symmetric] by simp
  qed
  have "\<not> hit t" if "t \<in> set (update_where hit f rows)" for t rows
    using that f by (auto simp: update_where_def)
  then show ?thesis unfolding cleared_def rows by (simp only: hit_def) blast
qed

lemma reset_clears: "cleared tid (snd (ResetApprovalIfApproved env cx tid actor reason s))"
proof -
  let ?rest = "\<lambda>r. case r of None \<Rightarrow> sret () | Some (from', ws) \<Rightarrow>
     sbind (stry (sstmt (InsertTripApprovalEvent
       (approval_event_of cx tid ws actor EventResetToDraft from' ApDraft (trimmedPtr reason))))) (\<lambda>_.
     sbind (plan_activity env ''trip_approval_reset_to_draft'' tid actor tid) (\<lambda>_.
     notifyApprovalReset env tid actor))"
  obtain r s1 where r: "ResetApprovalStatusForTripIfActive (pc_now cx) tid actor s = (r, s1)" by fastforce
  have "cleared tid s1" using reset_clears_stmt [of tid "pc_now cx" actor s] r by simp
  moreover have "step_rel trips_kept (?rest r)" unfolding notifyApprovalReset_def by (intro trips_intros)
  then have "trips_kept s1 (snd (?rest r s1))" by (simp add: step_rel_def)
  moreover have "ResetApprovalIfApproved env cx tid actor reason s = ?rest r s1"
    unfolding ResetApprovalIfApproved_def sbind_def sstmt_def by (simp add: r)
  ultimately show ?thesis using cleared_trips by metis
qed

section \<open>One request\<close>

text \<open>A request answered with an error before its write has changed nothing.\<close>

lemma atomic_writers:
  "atomic (UpdateItinerary env cx tid doc n)"
  "atomic (RestoreItineraryVersion env cx tid vid n)"
  "atomic (UpdateTravelItemStatus env cx tid d i st txt n)"
proof -
  have save: "total_op (ResetApprovalIfApproved env cx tid actor reason)" for actor reason by (rule total_reset)
  have sv: "atomic (sbind (saveItineraryWithVersion env cx tid own actor it n src meta) g)"
    if "\<And>x. total_op (g x)" for own actor it n src meta and g :: "trip \<Rightarrow> trip plan_op"
    unfolding saveItineraryWithVersion_def sbind_assoc
    using that by (intro atomic_intros total_intros save)
  show "atomic (UpdateItinerary env cx tid doc n)" "atomic (RestoreItineraryVersion env cx tid vid n)"
    unfolding UpdateItinerary_def RestoreItineraryVersion_def Let_def case_prod_unfold
    by (intro atomic_check_intros sv total_intros total_activity)+
  show "atomic (UpdateTravelItemStatus env cx tid d i st txt n)"
    unfolding UpdateTravelItemStatus_def Let_def case_prod_unfold
    by (intro atomic_intros total_intros total_activity)
qed

text \<open>
  A handler reads and checks, commits once, and what follows leaves the trips alone: a relation
  between the trips before and after holds of the handler when it holds of its commit, where the reads are known.
\<close>

definition rel_at :: "(plan_db \<Rightarrow> plan_db \<Rightarrow> bool) \<Rightarrow> plan_db \<Rightarrow> 'a plan_op \<Rightarrow> bool" where
  "rel_at R s m \<longleftrightarrow> R s (snd (m s))"

definition tail_ok :: "(plan_db \<Rightarrow> plan_db \<Rightarrow> bool) \<Rightarrow> bool" where
  "tail_ok R \<longleftrightarrow> (\<forall>s. R s s) \<and> (\<forall>s t u. R s t \<and> trips_kept t u \<longrightarrow> R s u)"

lemma at_pure: "tail_ok R \<Longrightarrow> (\<And>x. r = Inr x \<Longrightarrow> rel_at R s (g x)) \<Longrightarrow> rel_at R s (sbind (spure r) g)"
  by (auto simp: rel_at_def tail_ok_def sbind_def spure_def split: sum.splits)

lemma at_read: "tail_ok R \<Longrightarrow> (\<And>x. f s = Inr x \<Longrightarrow> rel_at R s (g x)) \<Longrightarrow> rel_at R s (sbind (sread f) g)"
  by (auto simp: rel_at_def tail_ok_def sbind_def sread_def split: sum.splits)

lemma at_check: "tail_ok R \<Longrightarrow> (b \<Longrightarrow> rel_at R s (g ())) \<Longrightarrow> rel_at R s (sbind (scheck b e) g)"
  by (simp add: rel_at_def tail_ok_def sbind_def scheck_def)

lemma at_fail: "tail_ok R \<Longrightarrow> rel_at R s (sfail e)"
  by (simp add: rel_at_def tail_ok_def sfail_def)

lemma at_option: "(v = None \<Longrightarrow> rel_at R s m) \<Longrightarrow> (\<And>x. v = Some x \<Longrightarrow> rel_at R s (g x)) \<Longrightarrow>
    rel_at R s (case v of None \<Rightarrow> m | Some x \<Rightarrow> g x)"
  by (cases v) simp_all

lemma at_pair: "(\<And>x y. p = (x, y) \<Longrightarrow> rel_at R s (g x y)) \<Longrightarrow> rel_at R s (case p of (x, y) \<Rightarrow> g x y)"
  by (cases p) simp

lemma at_let: "rel_at R s (g v) \<Longrightarrow> rel_at R s (let x = v in g x)"
  by simp

lemma at_commit:
  assumes "tail_ok R" "\<And>r s1. m s = (r, s1) \<Longrightarrow> R s s1" "\<And>x. step_rel trips_kept (g x)"
  shows "rel_at R s (sbind m g)"
proof -
  obtain r s1 where m: "m s = (r, s1)" by (cases "m s")
  have "trips_kept s1 (snd (g x s1))" for x using assms(3) by (simp add: step_rel_def)
  then show ?thesis using assms(1) assms(2) [OF m] unfolding rel_at_def sbind_def m tail_ok_def
    by (auto split: sum.splits) blast
qed

lemmas at_intros = at_fail at_option at_pair at_let at_check at_pure at_read

definition review_rel :: "uuid \<Rightarrow> plan_db \<Rightarrow> plan_db \<Rightarrow> bool" where
  "review_rel tid s s' \<longleftrightarrow>
    (\<forall>t. GetByID (pl_db s) tid = Inr t \<longrightarrow> (\<exists>t'. GetByID (pl_db s') tid = Inr t' \<and> review_row t t'))"

lemma GetByID_kept: "trips_kept s s' \<Longrightarrow> GetByID (pl_db s') tid = GetByID (pl_db s) tid"
  by (simp add: trips_kept_def GetByID_def)

lemma review_tail [simp, intro]: "tail_ok (review_rel tid)"
  by (auto simp: tail_ok_def review_rel_def GetByID_kept)

lemma review_rel_refl: "review_rel tid s s"
  by (simp add: review_rel_def)

lemma GetByID_status:
  assumes "UpdateTripApprovalStatus f s = Inr (g, s')" "GetByID (pl_db s) tid = Inr t" "af_trip f = tid"
  shows "GetByID (pl_db s') tid = Inr (t\<lparr>tr_approval := af_cols f\<rparr>)"
proof -
  have "select_row (\<lambda>t. tr_id t = tid) (plan_trips s) = Some t" "tr_id t = tid"
    using assms(2) GetByID_Inr [OF assms(2)] unfolding GetByID_find select_row_def by auto
  then have "select_row (\<lambda>t. tr_id t = tid) (update_where (\<lambda>t. tr_id t = tid) (\<lambda>t. t\<lparr>tr_approval := af_cols f\<rparr>) (plan_trips s)) =
      Some (t\<lparr>tr_approval := af_cols f\<rparr>)"
    by (intro find_update_where_hit) simp_all
  then show ?thesis using assms(1,3) unfolding status_Inr GetByID_find select_row_def by auto
qed

lemma fields_row:
  "GetTripApprovalFields tid s = Inr f \<Longrightarrow> GetByID (pl_db s) tid = Inr t \<Longrightarrow>
    af_cols f = tr_approval t \<and> af_workspace f = tr_workspace t \<and> af_trip f = tid"
  by (auto simp: GetTripApprovalFields_def GetByID_def dest!: select_row_Some split: option.splits)

text \<open>A write of the approval columns from a pending state.\<close>

lemma review_status:
  assumes "GetTripApprovalFields tid s = Inr f" "ap_status (af_cols f) = ApPending"
    "sstmt (UpdateTripApprovalStatus (f\<lparr>af_cols := c\<rparr>)) s = (r, s')"
  shows "review_rel tid s s'"
proof (cases r)
  case (Inl e)
  then have "s' = s" using assms(3) by (simp add: sstmt_Inl)
  then show ?thesis by (simp add: review_rel_refl)
next
  case (Inr g)
  then have u: "UpdateTripApprovalStatus (f\<lparr>af_cols := c\<rparr>) s = Inr (g, s')" using assms(3) by (simp add: sstmt_Inr)
  show ?thesis unfolding review_rel_def
  proof (intro allI impI)
    fix t
    assume t: "GetByID (pl_db s) tid = Inr t"
    have f: "af_cols f = tr_approval t" "af_trip f = tid" using fields_row [OF assms(1) t] by simp_all
    have "GetByID (pl_db s') tid = Inr (t\<lparr>tr_approval := c\<rparr>)" using GetByID_status [OF u t] f by simp
    moreover have "review_row t (t\<lparr>tr_approval := c\<rparr>)"
      using assms(2) f by (simp add: review_row_def under_review_def)
    ultimately show "\<exists>t'. GetByID (pl_db s') tid = Inr t' \<and> review_row t t'" by blast
  qed
qed

lemma review_decide:
  assumes "\<And>st. dc_allowed cfg st \<Longrightarrow> st = ApPending"
  shows "rel_at (review_rel tid) s (decide env cfg cx tid txt)"
  unfolding decide_def decide_write_def
proof (intro at_read review_tail at_commit review_status trips_intros)
  fix d
  assume d: "decide_read env cfg cx tid txt s = Inr d"
  show "GetTripApprovalFields tid s = Inr (dn_fields d)" using d by (rule decide_read_fields)
  show "ap_status (af_cols (dn_fields d)) = ApPending"
    using d assms unfolding decide_read_def rbind_Inr_iff guard_err_Inr_iff
    by (auto simp: rbind_Inr_iff guard_err_Inr_iff split: option.splits)
qed

lemma review_cancel: "rel_at (review_rel tid) s (CancelTripApproval env cx tid txt)"
  unfolding CancelTripApproval_def
  by (intro at_intros review_tail at_commit review_status trips_intros) (simp_all add: CanCancelFrom_def)

text \<open>A save clears the approval, and what the travel status changes is not part of the plan.\<close>

lemma cleared_review:
  assumes "plan_steps s s'" "cleared tid s'"
  shows "review_rel tid s s'"
  unfolding review_rel_def
proof (intro allI impI)
  fix t
  assume "GetByID (pl_db s) tid = Inr t"
  then obtain t' where t': "GetByID (pl_db s') tid = Inr t'" "row_step t t'"
    using plan_rel_GetByID [OF plan_steps_rel [OF assms(1)]] by blast
  have "review_row t t'"
    using t'(2) GetByID_Inr [OF t'(1)] assms(2) by (auto simp: review_row_def row_step_def cleared_def)
  with t'(1) show "\<exists>t'. GetByID (pl_db s') tid = Inr t' \<and> review_row t t'" by blast
qed

lemma review_save:
  assumes "saveItineraryWithVersion env cx tid own actor it n src meta s = (r, s')"
  shows "review_rel tid s s'"
proof (cases r)
  case (Inl e)
  have "atomic (saveItineraryWithVersion env cx tid own actor it n src meta)"
    unfolding saveItineraryWithVersion_def by (intro atomic_intros total_intros total_reset)
  then have "s' = s" using assms unfolding Inl by (rule atomicD)
  then show ?thesis by (simp add: review_rel_refl)
next
  case (Inr u)
  obtain s1 x where "ResetApprovalIfApproved env cx tid actor (''Itinerary changed ('' @ source_name src @ '')'') s1 = (Inr x, s')"
    using assms unfolding Inr saveItineraryWithVersion_def sbind_Inr sret_Inr by blast
  then have "cleared tid s'" using reset_clears by (metis snd_conv)
  moreover have "plan_steps s s'" using save_steps assms by (rule step_relD)
  ultimately show ?thesis by (rule cleared_review [rotated])
qed

lemma review_travel_commit:
  assumes "GetByID (pl_db s) tid = Inr t" "tripOwnerID t = Inr own" "tr_itinerary t = Some doc" "it = tidied doc"
    "sstmt (UpdateItineraryAndCreateVersion v tid own (set_travel_status d i ts it) (tr_itinerary_revision t)) s = (r, s')"
  shows "review_rel tid s s'"
proof (cases r)
  case (Inl e)
  then have "s' = s" using assms(5) by (simp add: sstmt_Inl)
  then show ?thesis by (simp add: review_rel_refl)
next
  case (Inr u)
  have own: "tr_user t = Some own" using assms(2) by (auto simp: tripOwnerID_def split: option.splits if_splits)
  have "UpdateItineraryAndCreateVersion v tid own (set_travel_status d i ts it) (tr_itinerary_revision t) s = Inr (u, s')"
    using assms(5) Inr by (simp add: sstmt_Inr)
  then have "GetByID (pl_db s') tid =
      Inr (t\<lparr>tr_itinerary := Some (set_travel_status d i ts it), tr_itinerary_revision := tr_itinerary_revision t + 1\<rparr>)"
    using assms(1) own by (rule GetByID_after_save)
  moreover have "same_plan (Some doc) (Some (set_travel_status d i ts it))"
    unfolding same_plan_def shape_of_travel assms(4) shape_tidied by (rule exI [of _ 1]) simp
  ultimately show ?thesis using assms(1,3) by (simp add: review_rel_def review_row_def)
qed

lemma tail_if: "step_rel trips_kept m \<Longrightarrow> step_rel trips_kept (if b then m else sret ())"
  by (intro step_intros rel_ok_trips)

lemma review_update: "rel_at (review_rel tid) s (UpdateItinerary env cx tid doc n)"
  unfolding UpdateItinerary_def
  by (intro at_intros review_tail at_commit review_save trips_intros tail_if)

lemma review_restore: "rel_at (review_rel tid) s (RestoreItineraryVersion env cx tid vid n)"
  unfolding RestoreItineraryVersion_def
  by (intro at_intros review_tail at_commit review_save trips_intros)

lemma revision_checked:
  "checkCurrentItineraryRevision n r = Inr () \<Longrightarrow> n = r"
  by (simp add: checkCurrentItineraryRevision_def guard_err_Inr_iff)

lemma current_doc: "currentItineraryAndDayIndex t n = Inr (it, d) \<Longrightarrow> \<exists>doc. tr_itinerary t = Some doc \<and> it = tidied doc"
  by (auto simp: currentItineraryAndDayIndex_def validateCurrentItinerary_def rbind_Inr_iff split: option.splits if_splits)

lemma review_travel: "rel_at (review_rel tid) s (UpdateTravelItemStatus env cx tid dayn i st txt n)"
  unfolding UpdateTravelItemStatus_def
  by (intro at_intros review_tail at_commit trips_intros)
    (auto dest!: access_row revision_checked current_doc intro: review_travel_commit)

lemma other_trip:
  assumes "request_trip r \<noteq> tid"
  shows "find (\<lambda>t. tr_id t = tid) (plan_trips (plan_serve env r s)) = find (\<lambda>t. tr_id t = tid) (plan_trips s)"
proof -
  have "list_all2 (others_row (request_trip r)) xs ys \<Longrightarrow> find (\<lambda>t. tr_id t = tid) ys = find (\<lambda>t. tr_id t = tid) xs" for xs ys
    by (induction rule: list_all2_induct) (use assms in \<open>auto simp: others_row_def\<close>)
  then show ?thesis using request_keeps_others [of r s env] by (simp add: others_kept_def)
qed

lemma request_review:
  assumes "request_trip r = tid \<longrightarrow> (\<forall>cx txt. r \<noteq> RSubmit cx tid txt)"
  shows "review_rel tid s (plan_serve env r s)"
proof (cases "request_trip r = tid")
  case True
  then show ?thesis
    using assms review_update review_restore review_travel review_cancel
      review_decide [of approve_config] review_decide [of request_changes_config]
    unfolding rel_at_def by (cases r) (auto simp: ApproveTrip_def RequestTripChanges_def
      approve_config_def request_changes_config_def CanApproveFrom_def CanRequestChangesFrom_def)
next
  case False
  then show ?thesis unfolding review_rel_def GetByID_find by (simp add: other_trip)
qed

lemma run_review:
  assumes "\<forall>r \<in> set rs. \<forall>cx txt. r \<noteq> RSubmit cx tid txt" "GetByID (pl_db s) tid = Inr t"
  shows "\<exists>t'. GetByID (pl_db (fold (plan_serve env) rs s)) tid = Inr t' \<and> review_row t t'"
  using assms
proof (induction rs arbitrary: s t)
  case (Cons r rs)
  obtain u where u: "GetByID (pl_db (plan_serve env r s)) tid = Inr u" "review_row t u"
    using request_review [of r tid s env] Cons.prems unfolding review_rel_def by auto
  obtain t' where "GetByID (pl_db (fold (plan_serve env) rs (plan_serve env r s))) tid = Inr t'" "review_row u t'"
    using Cons.IH [OF _ u(1)] Cons.prems by auto
  then show ?case using u(2) review_trans by auto
qed simp

text \<open>
  C4. What is approved is what was submitted. While requests are served one after another and the
  trip is not submitted again, a workspace trip that is pending or approved at the end was so at the
  start, with the same plan: only the travel status of its items may have changed since, and the
  validation of the stored document may have trimmed its texts and brought modes and the cost fields
  of attached data into their normal form.
\<close>

theorem approved_plan_is_the_submitted_one:
  assumes "GetByID (pl_db s) tid = Inr t" "tr_workspace t \<noteq> None" "\<forall>r \<in> set rs. \<forall>cx txt. r \<noteq> RSubmit cx tid txt"
    "GetByID (pl_db (fold (plan_serve env) rs s)) tid = Inr t'" "under_review (trip_status t')"
  shows "under_review (trip_status t) \<and> same_plan (tr_itinerary t) (tr_itinerary t')"
proof -
  obtain u where "GetByID (pl_db (fold (plan_serve env) rs s)) tid = Inr u" "review_row t u"
    using run_review [OF assms(3,1)] by blast
  then have "review_row t t'" using assms(4) by simp
  then show ?thesis using assms(2,5) by (simp add: review_row_def)
qed

end
