(* ===== verification/ApprovalRights.thy ===== *)
theory ApprovalRights
  imports ApprovalLaws
begin

text \<open>
  Who approves, and what the answer of \<open>GetTripApproval\<close> promises: a trip becomes approved by the
  request of an owner or admin of its workspace only, and each flag of the answer is true exactly when
  the request it stands for goes through.
\<close>

section \<open>Becoming approved\<close>

definition mono_row :: "trip \<Rightarrow> trip \<Rightarrow> bool" where
  "mono_row a b \<longleftrightarrow> tr_id b = tr_id a \<and> tr_workspace b = tr_workspace a \<and>
     (trip_status b = ApApproved \<longrightarrow> trip_status a = ApApproved)"

definition mono_rel :: "plan_db \<Rightarrow> plan_db \<Rightarrow> bool" where
  "mono_rel s s' \<longleftrightarrow> list_all2 mono_row (plan_trips s) (plan_trips s')"

lemma mono_refl: "list_all2 mono_row rows rows"
  by (simp add: list_all2_refl mono_row_def)

lemma mono_update: "(\<And>r. P r \<Longrightarrow> mono_row r (f r)) \<Longrightarrow> list_all2 mono_row rows (update_where P f rows)"
  by (auto simp: update_where_def list_all2_conv_all_nth mono_row_def)

lemma rel_ok_mono [simp, intro]: "rel_ok mono_rel"
proof (rule rel_okI)
  show "mono_rel s s" for s by (simp add: mono_rel_def mono_refl)
  show "mono_rel s u" if "mono_rel s t" "mono_rel t u" for s t u
    using that unfolding mono_rel_def
    by (auto intro: list_all2_trans [of mono_row mono_row mono_row] simp: mono_row_def)
qed

lemma trips_mono: "step_rel trips_kept m \<Longrightarrow> step_rel mono_rel m"
  by (erule step_rel_weaken) (simp add: trips_kept_def mono_rel_def mono_refl)

lemma mono_status: "ap_status (af_cols f) \<noteq> ApApproved \<Longrightarrow> step_rel mono_rel (sstmt (UpdateTripApprovalStatus f))"
  by (rule step_rel_sstmt) (auto simp: status_Inr mono_rel_def mono_row_def intro!: mono_update)

lemma mono_save: "step_rel mono_rel (sstmt (UpdateItineraryAndCreateVersion v tid own it n))"
  by (rule step_rel_sstmt) (auto simp: mono_rel_def save_effect(4) mono_row_def intro!: mono_update)

lemma mono_reset: "step_rel mono_rel (sstmt (\<lambda>s. Inr (ResetApprovalStatusForTripIfActive now tid actor s)))"
  by (rule step_rel_sstmt) (auto simp: ResetApprovalStatusForTripIfActive_def mono_rel_def mono_refl mono_row_def Let_def
      split: option.splits intro!: mono_update)

lemmas mono_tail = trips_activity [THEN trips_mono] trips_notify [THEN trips_mono]
  trips_broadcast [THEN trips_mono] trips_record [THEN trips_mono] trips_event [THEN trips_mono]

lemmas mono_intros = step_intros mono_tail mono_save mono_reset rel_ok_mono

lemma mono_resetIfApproved: "step_rel mono_rel (ResetApprovalIfApproved env cx tid actor reason)"
  unfolding ResetApprovalIfApproved_def notifyApprovalReset_def by (intro mono_intros)

lemma mono_handlers:
  "step_rel mono_rel (UpdateItinerary env cx tid doc expected)"
  "step_rel mono_rel (RestoreItineraryVersion env cx tid vid expected)"
  "step_rel mono_rel (UpdateTravelItemStatus env cx tid d i st txt expected)"
  unfolding UpdateItinerary_def RestoreItineraryVersion_def UpdateTravelItemStatus_def saveItineraryWithVersion_def
  by (intro mono_intros mono_resetIfApproved)+

lemma mono_approvals:
  "step_rel mono_rel (SubmitTripApproval env cx tid txt)"
  "step_rel mono_rel (RequestTripChanges env cx tid txt)"
  "step_rel mono_rel (CancelTripApproval env cx tid txt)"
  unfolding SubmitTripApproval_def RequestTripChanges_def decide_def decide_write_def CancelTripApproval_def
  by (intro mono_intros mono_status; simp add: submitted_cols_def decided_cols_def request_changes_config_def
      cancelled_cols_def Let_def)+

text \<open>The approval itself.\<close>

definition approver_of :: "plan_env \<Rightarrow> plan_call \<Rightarrow> trip \<Rightarrow> bool" where
  "approver_of env cx t \<longleftrightarrow> (\<exists>user ws g. MustUserFromContext (pc_user cx) = Inr user \<and> tr_workspace t = Some ws \<and>
     workspaceAccess (pe_svc env) (au_id user) ws = Inr g \<and> approver_role (wg_role g))"

lemma decide_read_approver:
  assumes "decide_read env cfg cx tid txt s = Inr d"
  obtains t where "GetByID (pl_db s) tid = Inr t" "approver_of env cx t" "dc_allowed cfg (trip_status t)"
proof -
  obtain user t a ws f u v w where m: "MustUserFromContext (pc_user cx) = Inr user"
    "requireViewerEditorOrOwner (pe_svc env) (pl_db s) tid (au_id user) = Inr (t, a)" "tr_workspace t = Some ws"
    "requireWorkspaceApprover (pe_svc env) (au_id user) ws = Inr u" "GetTripApprovalFields tid s = Inr f"
    "guard_err (dc_allowed cfg (ap_status (af_cols f)))
         (ConflictErr ''this action is not allowed from the trip's current approval status'') = Inr w"
    using assms unfolding decide_read_def rbind_Inr_iff
    by (auto simp: rbind_Inr_iff split: option.splits)
  have t: "GetByID (pl_db s) tid = Inr t" using m(2) by (rule access_row)
  have allowed: "dc_allowed cfg (trip_status t)"
    using m(6) fields_row [OF m(5) t] by (simp add: guard_err_Inr_iff)
  have "approver_of env cx t"
    using m(1,3,4) unfolding approver_of_def requireWorkspaceApprover_def rbind_Inr_iff guard_err_Inr_iff by blast
  then show thesis using t allowed that by blast
qed

lemma request_approves:
  assumes "GetByID (pl_db s) tid = Inr t" "trip_status t \<noteq> ApApproved"
    "GetByID (pl_db (plan_serve env r s)) tid = Inr t'" "trip_status t' = ApApproved"
  shows "\<exists>cx txt. r = RApprove cx tid txt \<and> approver_of env cx t \<and> trip_status t = ApPending"
proof -
  have "\<not> mono_rel s (plan_serve env r s)"
  proof
    have "list_all2 mono_row xs ys \<Longrightarrow> find (\<lambda>t. tr_id t = tid) xs = Some t \<Longrightarrow>
      \<exists>t'. find (\<lambda>t. tr_id t = tid) ys = Some t' \<and> mono_row t t'" for xs ys
    proof (induction rule: list_all2_induct)
      case (Cons x xs y ys)
      then show ?case by (cases "tr_id x = tid") (auto simp: mono_row_def)
    qed simp
    moreover assume "mono_rel s (plan_serve env r s)"
    ultimately have "mono_row t t'"
      using assms(1,3) unfolding mono_rel_def GetByID_find by (metis option.inject)
    then show False using assms(2,4) by (simp add: mono_row_def)
  qed
  then obtain cx tid' msg where r: "r = RApprove cx tid' msg"
    using mono_handlers mono_approvals unfolding step_rel_def by (cases r) auto
  have "tid' = tid"
  proof (rule ccontr)
    assume "tid' \<noteq> tid"
    then have "find (\<lambda>t. tr_id t = tid) (plan_trips (plan_serve env r s)) =
      find (\<lambda>t. tr_id t = tid) (plan_trips s)" using r by (intro other_trip) simp
    then show False using assms unfolding GetByID_find by simp
  qed
  have "plan_serve env r s \<noteq> s" using assms by auto
  then obtain d where "decide_read env approve_config cx tid msg s = Inr d"
    unfolding r \<open>tid' = tid\<close> by (cases "decide_read env approve_config cx tid msg s")
      (simp_all add: ApproveTrip_def decide_def sbind_def sread_def)
  then obtain t0 where "GetByID (pl_db s) tid = Inr t0" "approver_of env cx t0" "dc_allowed approve_config (trip_status t0)"
    by (rule decide_read_approver)
  then show ?thesis using assms(1) r \<open>tid' = tid\<close> by (simp add: approve_config_def CanApproveFrom_def)
qed

text \<open>
  C5. When requests are served one after another, whatever they are, a trip becomes approved only by an
  approval that a caller with the role of owner or admin in the trip's workspace makes while the trip
  is pending.
\<close>

theorem approval_needs_an_approver:
  assumes "history_ok s" "GetByID (pl_db s) tid = Inr t" "trip_status t \<noteq> ApApproved"
    "GetByID (pl_db (fold (plan_serve env) rs s)) tid = Inr t'" "trip_status t' = ApApproved"
  shows "\<exists>pre cx msg post t0. rs = pre @ RApprove cx tid msg # post \<and>
    GetByID (pl_db (fold (plan_serve env) pre s)) tid = Inr t0 \<and> trip_status t0 = ApPending \<and> approver_of env cx t0"
proof -
  define P where "P = (\<lambda>s :: plan_db. \<exists>t. GetByID (pl_db s) tid = Inr t \<and> trip_status t = ApApproved)"
  have "\<not> P s" "P (fold (plan_serve env) rs s)" using assms by (auto simp: P_def)
  then obtain pre r post where rs: "rs = pre @ r # post"
    and before: "\<not> P (fold (plan_serve env) pre s)" and after: "P (fold (plan_serve env) (pre @ [r]) s)"
    using plans.first_change [of P s env rs] assms(1) by blast
  obtain t1 where t1: "GetByID (pl_db (plan_serve env r (fold (plan_serve env) pre s))) tid = Inr t1" "trip_status t1 = ApApproved"
    using after by (auto simp: P_def)
  have "plan_steps s (fold (plan_serve env) pre s)"
    by (rule plans.rel_run [OF _ rel_ok_steps assms(1)]) (rule plan_serve_steps)
  then obtain t0 where t0: "GetByID (pl_db (fold (plan_serve env) pre s)) tid = Inr t0"
    using plan_rel_GetByID [OF plan_steps_rel assms(2)] by blast
  have "trip_status t0 \<noteq> ApApproved" using before t0 by (auto simp: P_def)
  then show ?thesis using request_approves [OF t0 _ t1] rs t0 by blast
qed

section \<open>The flags of the answer\<close>

definition succeeds :: "'a plan_op \<Rightarrow> plan_db \<Rightarrow> bool" where
  "succeeds m s \<longleftrightarrow> \<not> isl (fst (m s))"

named_theorems run_simps

lemma succeeds_simps [run_simps]:
  "succeeds (sbind (spure (Inr x)) g) s \<longleftrightarrow> succeeds (g x) s"
  "succeeds (sbind (spure (Inl e)) g) s \<longleftrightarrow> False"
  "succeeds (sbind (scheck b e) h) s \<longleftrightarrow> b \<and> succeeds (h ()) s"
  "succeeds (sfail e) s \<longleftrightarrow> False" "succeeds (sret x) s"
  by (auto simp: succeeds_def sbind_def spure_def scheck_def sfail_def sret_def)

lemma succeeds_read [run_simps]: "f s = Inr x \<Longrightarrow> succeeds (sbind (sread f) g) s \<longleftrightarrow> succeeds (g x) s"
  by (simp add: succeeds_def sbind_def sread_def)

lemma succeeds_read_fails [run_simps]: "f s = Inl e \<Longrightarrow> \<not> succeeds (sbind (sread f) g) s"
  by (simp add: succeeds_def sbind_def sread_def)

lemma succeeds_total: "total_op m \<Longrightarrow> succeeds m s"
  by (auto simp: total_op_def succeeds_def) (metis sum.disc(2))

lemma spure_Inr_eq: "sbind (spure (Inr x)) g = g x"
  by (rule ext) (simp add: sbind_def spure_def)

lemma succeeds_status:
  assumes "GetTripApprovalFields tid s = Inr f" "\<And>x. af_workspace x = af_workspace f \<Longrightarrow> total_op (g x)"
  shows "succeeds (sbind (sstmt (UpdateTripApprovalStatus (f\<lparr>af_cols := c\<rparr>))) g) s"
proof -
  obtain t where t: "select_row (\<lambda>t. tr_id t = tid) (plan_trips s) = Some t" "af_workspace f = tr_workspace t" "af_trip f = tid"
    using assms(1) by (auto simp: GetTripApprovalFields_def dest: select_row_Some split: option.splits)
  define u where "u = \<lparr>af_trip = tr_id t, af_workspace = tr_workspace t, af_cols = c\<rparr>"
  obtain s1 where "UpdateTripApprovalStatus (f\<lparr>af_cols := c\<rparr>) s = Inr (u, s1)"
    using t unfolding status_Inr u_def by auto
  moreover have "total_op (g u)" using t by (intro assms(2)) (simp add: u_def)
  then have "succeeds (g u) s1" by (rule succeeds_total)
  ultimately show ?thesis by (simp add: succeeds_def sbind_def sstmt_def)
qed

lemma total_record: "total_op (recordApprovalEvent cx f actor ty from' txt)"
  unfolding recordApprovalEvent_def by (intro total_intros)

lemma total_sread_Inr: "total_op (sread (\<lambda>s. Inr (f s)))"
  by (simp add: total_op_def sread_def)

lemma total_spure_Inr: "total_op (spure (Inr x))"
  by (simp add: total_op_def spure_def)

lemmas approval_tail = total_intros total_record total_activity total_notify total_sread_Inr

lemma checklist_policy:
  "computeChecklist env t = Inr c \<Longrightarrow> \<exists>p. pe_policy env t = Inr p \<and> (checklist_can_submit c \<longrightarrow> pv_status p \<noteq> ''blocking'')"
  unfolding computeChecklist_def computeChecklistWithInput_def Let_def
  by (auto simp: rbind_Inr_iff Calculate_can_submit)

lemma approver_iff:
  "isWorkspaceApprover env uid ws = Inr b \<Longrightarrow> requireWorkspaceApprover env uid ws = (if b then Inr () else Inl ErrForbidden)"
  by (auto simp: isWorkspaceApprover_def requireWorkspaceApprover_def guard_err_def split: sum.splits if_splits)

text \<open>What a successful answer has read.\<close>

record approval_view =
  aw_user :: auth_user
  aw_trip :: trip
  aw_access :: trip_access
  aw_fields :: approval_fields
  aw_workspace :: uuid
  aw_checklist :: checklist
  aw_approver :: bool

definition views :: "plan_env \<Rightarrow> plan_call \<Rightarrow> uuid \<Rightarrow> plan_db \<Rightarrow> approval_view \<Rightarrow> bool" where
  "views env cx tid s w \<longleftrightarrow>
    MustUserFromContext (pc_user cx) = Inr (aw_user w) \<and>
    requireViewerEditorOrOwner (pe_svc env) (pl_db s) tid (au_id (aw_user w)) = Inr (aw_trip w, aw_access w) \<and>
    GetTripApprovalFields tid s = Inr (aw_fields w) \<and> tr_workspace (aw_trip w) = Some (aw_workspace w) \<and>
    computeChecklist env (aw_trip w) = Inr (aw_checklist w) \<and>
    isWorkspaceApprover (pe_svc env) (au_id (aw_user w)) (aw_workspace w) = Inr (aw_approver w)"

lemma GetTripApproval_views:
  assumes "GetTripApproval env cx tid s = (Inr st, s')" "af_workspace (as_fields st) \<noteq> None"
  shows "\<exists>w. views env cx tid s w \<and> af_workspace (aw_fields w) \<noteq> None \<and>
    st = buildApprovalState (aw_fields w) (Some (aw_checklist w)) (CanEdit (aw_access w)) (aw_approver w) (au_id (aw_user w))"
proof -
  obtain user t a f where m: "MustUserFromContext (pc_user cx) = Inr user"
    "requireViewerEditorOrOwner (pe_svc env) (pl_db s) tid (au_id user) = Inr (t, a)" "GetTripApprovalFields tid s = Inr f"
    and rest: "(case tr_workspace t of None \<Rightarrow> sret (personalApprovalState f)
      | Some ws \<Rightarrow> sbind (spure (computeChecklist env t)) (\<lambda>c.
         sbind (spure (isWorkspaceApprover (pe_svc env) (au_id user) ws)) (\<lambda>approver.
         sret (buildApprovalState f (Some c) (CanEdit a) approver (au_id user))))) s = (Inr st, s')"
    using assms(1) unfolding GetTripApproval_def sbind_Inr spure_Inr sread_Inr case_prod_unfold
    by - (clarify, rule that, assumption, assumption, assumption, simp only: fst_conv snd_conv)
  have ws: "af_workspace f = tr_workspace t" using fields_row [OF m(3) access_row(2) [OF m(2)]] by simp
  obtain w where w: "tr_workspace t = Some w"
    using rest assms(2) ws by (cases "tr_workspace t") (auto simp: sret_Inr personalApprovalState_def approvalStateBase_def)
  obtain c b where "computeChecklist env t = Inr c" "isWorkspaceApprover (pe_svc env) (au_id user) w = Inr b"
    "st = buildApprovalState f (Some c) (CanEdit a) b (au_id user)"
    using rest unfolding w option.case sbind_Inr spure_Inr sret_Inr by blast
  then show ?thesis using m w ws
    by (intro exI [of _ "\<lparr>aw_user = user, aw_trip = t, aw_access = a, aw_fields = f, aw_workspace = w, aw_checklist = c, aw_approver = b\<rparr>"])
      (simp add: views_def)
qed

lemma submit_succeeds_iff:
  assumes "views env cx tid s w"
  shows "succeeds (SubmitTripApproval env cx tid msg) s \<longleftrightarrow>
    CanEdit (aw_access w) \<and> CanSubmitFrom (ap_status (af_cols (aw_fields w))) \<and> checklist_can_submit (aw_checklist w)"
proof (cases "CanEdit (aw_access w)")
  case True
  have "requireEditorOrOwner (pe_svc env) (pl_db s) tid (au_id (aw_user w)) = Inr (aw_trip w, aw_access w)"
    using assms True unfolding views_def requireViewer_Inr requireEditorOrOwner_Inr by simp
  moreover obtain p where "pe_policy env (aw_trip w) = Inr p" "checklist_can_submit (aw_checklist w) \<longrightarrow> pv_status p \<noteq> ''blocking''"
    using assms checklist_policy unfolding views_def by blast
  ultimately show ?thesis
    using assms True unfolding views_def SubmitTripApproval_def
    by (auto simp: run_simps intro!: succeeds_status [where tid = tid] approval_tail)
next
  case False
  have "\<exists>e. requireEditorOrOwner (pe_svc env) (pl_db s) tid (au_id (aw_user w)) = Inl e"
    using assms False unfolding views_def requireViewer_Inr requireEditorOrOwner_def by simp
  then show ?thesis
    using assms False unfolding views_def SubmitTripApproval_def by (auto simp: run_simps)
qed

lemma decide_read_iff:
  assumes "views env cx tid s w" "check_decision_note (dc_require_note cfg) msg = Inr ()"
  shows "decide_read env cfg cx tid msg s =
    (if aw_approver w then if dc_allowed cfg (ap_status (af_cols (aw_fields w)))
       then Inr \<lparr>dn_user = au_id (aw_user w), dn_trip = aw_trip w, dn_workspace = aw_workspace w, dn_fields = aw_fields w\<rparr>
       else Inl (ConflictErr ''this action is not allowed from the trip's current approval status'')
     else Inl ErrForbidden)"
  using assms approver_iff unfolding views_def decide_read_def by (simp add: guard_err_def)

lemma decide_succeeds_iff:
  assumes "views env cx tid s w" "check_decision_note (dc_require_note cfg) msg = Inr ()"
  shows "succeeds (decide env cfg cx tid msg) s \<longleftrightarrow> aw_approver w \<and> dc_allowed cfg (ap_status (af_cols (aw_fields w)))"
proof (cases "decide_read env cfg cx tid msg s")
  case (Inl e)
  then show ?thesis unfolding decide_def using decide_read_iff [OF assms] by (auto simp: run_simps split: if_splits)
next
  case (Inr d)
  then have d: "aw_approver w" "dc_allowed cfg (ap_status (af_cols (aw_fields w)))"
    "dn_trip d = aw_trip w" "dn_fields d = aw_fields w"
    using decide_read_iff [OF assms] by (auto split: if_splits)
  have "GetTripApprovalFields tid s = Inr (aw_fields w)" "computeChecklist env (aw_trip w) = Inr (aw_checklist w)"
    using assms(1) by (simp_all add: views_def)
  then have "succeeds (decide_write env cfg cx tid msg d) s"
    unfolding decide_write_def d spure_Inr_eq by (intro succeeds_status approval_tail) (simp_all add: total_spure_Inr)
  then show ?thesis unfolding decide_def using Inr d by (simp add: run_simps)
qed

lemma cancel_succeeds_iff:
  assumes "views env cx tid s w" "length (trim_space msg) \<le> approvalDecisionNoteMaxLen"
  shows "succeeds (CancelTripApproval env cx tid msg) s \<longleftrightarrow>
    CanCancelFrom (ap_status (af_cols (aw_fields w))) \<and>
    (ap_submitted_by (af_cols (aw_fields w)) = Some (au_id (aw_user w)) \<or> aw_approver w)"
  using assms unfolding views_def CancelTripApproval_def
  by (auto simp: run_simps spure_Inr_eq Let_def intro!: succeeds_status [where tid = tid] approval_tail)

text \<open>
  C6. The flags of \<open>GetTripApproval\<close> are honest: for a workspace trip, asked by the same caller on the
  same state, each of the four requests goes through exactly when its flag is true, with a note of an
  admissible length (at most 1000 bytes, and not empty when changes are requested).
\<close>

theorem approval_flags_are_honest:
  assumes "GetTripApproval env cx tid s = (Inr st, s')" "af_workspace (as_fields st) \<noteq> None"
    "length (trim_space msg) \<le> approvalDecisionNoteMaxLen"
  shows "(as_can_submit st \<longleftrightarrow> succeeds (SubmitTripApproval env cx tid msg) s) \<and>
    (as_can_approve st \<longleftrightarrow> succeeds (ApproveTrip env cx tid msg) s) \<and>
    (trim_space msg \<noteq> [] \<longrightarrow> (as_can_request_changes st \<longleftrightarrow> succeeds (RequestTripChanges env cx tid msg) s)) \<and>
    (as_can_cancel st \<longleftrightarrow> succeeds (CancelTripApproval env cx tid msg) s)"
proof -
  obtain w where w: "views env cx tid s w" and ws: "af_workspace (aw_fields w) \<noteq> None"
    and st: "st = buildApprovalState (aw_fields w) (Some (aw_checklist w)) (CanEdit (aw_access w)) (aw_approver w) (au_id (aw_user w))"
    using GetTripApproval_views [OF assms(1,2)] by blast
  have approve: "succeeds (ApproveTrip env cx tid msg) s \<longleftrightarrow> aw_approver w \<and> CanApproveFrom (ap_status (af_cols (aw_fields w)))"
    unfolding ApproveTrip_def using assms(3) decide_succeeds_iff [OF w, of approve_config msg]
    by (simp add: check_decision_note_def approve_config_def guard_err_def Let_def)
  have changes: "trim_space msg \<noteq> [] \<Longrightarrow> succeeds (RequestTripChanges env cx tid msg) s \<longleftrightarrow>
      aw_approver w \<and> CanRequestChangesFrom (ap_status (af_cols (aw_fields w)))"
    unfolding RequestTripChanges_def using assms(3) decide_succeeds_iff [OF w, of request_changes_config msg]
    by (simp add: check_decision_note_def request_changes_config_def guard_err_def Let_def)
  show ?thesis
    unfolding st approve submit_succeeds_iff [OF w] cancel_succeeds_iff [OF w assms(3)] using changes ws
    by (cases "ap_status (af_cols (aw_fields w))")
      (auto simp: buildApprovalState_def approvalStateBase_def Let_def CanSubmitFrom_def CanApproveFrom_def
        CanRequestChangesFrom_def CanCancelFrom_def)
qed

end
