(* ===== verification/ApprovalRace.thy ===== *)
theory ApprovalRace
  imports ApprovalRights
begin

text \<open>
  A decision that overlaps with a save: the decision reads the trip, the save goes through and resets the
  approval, the decision writes.
\<close>

lemma saved_is_current:
  assumes "UpdateItinerary env cx tid doc n s = (Inr u, s1)" "history_ok s"
  shows "\<exists>t. GetByID (pl_db s1) tid = Inr t \<and> tr_itinerary t = tr_itinerary u"
proof -
  obtain it own m actor meta s0 where sv: "UpdateItineraryAndCreateVersion (version_of cx actor ManualEdit meta) tid own it m s = Inr (u, s0)"
    and k: "docs_kept s0 s1"
    by (rule UpdateItinerary_saves [OF assms(1)])
  obtain row where row: "row \<in> set (plan_trips s)" "tr_id row = tid" "tr_user row = Some own" "tr_itinerary_revision row = m"
    and u: "u = row\<lparr>tr_itinerary := Some it, tr_itinerary_revision := tr_itinerary_revision row + 1\<rparr>"
    using save_effect(3) [OF sv] by blast
  have "select_row (\<lambda>t. tr_id t = tid) (plan_trips s) = Some row"
    using assms(2) row by (intro select_row_key [of tr_id]) (auto simp: history_ok_def)
  then have "GetByID (pl_db s) tid = Inr row" by (simp add: GetByID_def)
  then have "GetByID (pl_db s0) tid = Inr u" using GetByID_after_save [OF sv [folded row(4)] _ row(3)] u by simp
  then show ?thesis using docs_find [OF k] by (auto simp: doc_row_def)
qed

lemma tail_after:
  assumes "f s = Inr (x, s')" "\<And>x. step_rel trips_kept (g x)"
  shows "trips_kept s' (snd (sbind (sstmt f) g s))"
  using assms by (simp add: sbind_def sstmt_def step_rel_def)

lemma update_clears:
  assumes "UpdateItinerary env cx tid doc n s = (Inr u, s1)"
  shows "cleared tid s1"
proof -
  obtain own actor it m src meta s0 s2 s3 count t where sv: "saveItineraryWithVersion env cx tid own actor it m src meta s = (Inr u, s0)"
    and rest: "plan_activity env ''itinerary_updated'' tid actor tid s0 = (Inr (), s2)"
      "(if count > (0::int) then plan_activity env ''itinerary_schedule_updated'' tid actor tid else sret ()) s2 = (Inr (), s3)"
      "sdo (on_db (notifyTripBroadcast (pe_svc env) t actor ''itinerary_updated'')) s3 = (Inr () :: app_error + unit, s1)"
    using assms unfolding UpdateItinerary_def case_prod_unfold Let_def sbind_Inr spure_Inr sread_Inr sret_Inr
    by - (clarify, rule that, assumption+)
  have "trips_kept s0 s2" "trips_kept s2 s3" "trips_kept s3 s1"
    using step_relD [OF trips_activity rest(1)] step_relD [OF tail_if [OF trips_activity] rest(2)]
      step_relD [OF trips_broadcast rest(3)] by simp_all
  then have "trips_kept s0 s1" by (simp add: trips_kept_def)
  moreover obtain sx x where "ResetApprovalIfApproved env cx tid actor (''Itinerary changed ('' @ source_name src @ '')'') sx = (Inr x, s0)"
    using sv unfolding saveItineraryWithVersion_def sbind_Inr sret_Inr by blast
  then have "cleared tid s0" using reset_clears by (metis snd_conv)
  ultimately show ?thesis by (rule cleared_trips)
qed

text \<open>The write of a decision, in whatever state it happens.\<close>

lemma decide_write_effect:
  assumes "decide_read env cfg cx tid msg s = Inr d" "GetByID (pl_db s1) tid = Inr t1"
  shows "GetByID (pl_db (snd (decide_write env cfg cx tid msg d s1))) tid =
    Inr (t1\<lparr>tr_approval := decided_cols cfg (pc_now cx) (dn_user d) (trimmedPtr msg) (af_cols (dn_fields d))\<rparr>)"
proof -
  define c where "c = decided_cols cfg (pc_now cx) (dn_user d) (trimmedPtr msg) (af_cols (dn_fields d))"
  let ?f = "(dn_fields d)\<lparr>af_cols := c\<rparr>"
  have trip: "af_trip (dn_fields d) = tid" by (rule fields_trip [OF decide_read_fields [OF assms(1)]])
  have "\<exists>g s2. UpdateTripApprovalStatus ?f s1 = Inr (g, s2)"
    using assms(2) trip unfolding status_Inr GetByID_find select_row_def by auto
  then obtain g s2 where w: "UpdateTripApprovalStatus ?f s1 = Inr (g, s2)" by blast
  have "GetByID (pl_db s2) tid = Inr (t1\<lparr>tr_approval := c\<rparr>)" using GetByID_status [OF w assms(2)] trip by simp
  moreover have "trips_kept s2 (snd (decide_write env cfg cx tid msg d s1))"
    unfolding decide_write_def c_def [symmetric]
    by (rule tail_after [where f = "UpdateTripApprovalStatus ?f" and s = s1, OF w]) (intro trips_intros)
  ultimately show ?thesis unfolding c_def [symmetric] by (simp add: GetByID_kept)
qed

lemma approved_cols [simp]: "ap_status (decided_cols approve_config now uid msg c) = ApApproved"
  by (simp add: decided_cols_def approve_config_def Let_def)

text \<open>
  C7. An approval can hit a plan its approver has not seen. When a decision has read the trip and a save
  goes through before the decision writes, the save takes the trip out of the review, but the decision
  then marks the changed plan as approved: the write asks neither for the status nor for the revision.
\<close>

theorem decision_approves_unseen_plan:
  assumes "history_ok s" "decide_read env approve_config cx tid msg s = Inr d"
    "UpdateItinerary env cx' tid doc n s = (Inr saved, s1)"
  shows "\<exists>t1 t2. GetByID (pl_db s1) tid = Inr t1 \<and> \<not> under_review (trip_status t1) \<and>
    GetByID (pl_db (snd (decide_write env approve_config cx tid msg d s1))) tid = Inr t2 \<and>
    trip_status t2 = ApApproved \<and> tr_itinerary t2 = tr_itinerary saved"
proof -
  obtain t1 where t1: "GetByID (pl_db s1) tid = Inr t1" "tr_itinerary t1 = tr_itinerary saved"
    using saved_is_current [OF assms(3,1)] by blast
  obtain t where t: "GetByID (pl_db s) tid = Inr t" "approver_of env cx t"
    using assms(2) by (rule decide_read_approver)
  have steps: "plan_steps s s1" using handler_steps(1) assms(3) by (rule step_relD)
  have "row_step t t1" using plan_rel_GetByID [OF plan_steps_rel [OF steps] t(1)] t1(1) by auto
  then have "tr_workspace t1 \<noteq> None" using t(2) by (auto simp: row_step_def approver_of_def)
  then have draft: "\<not> under_review (trip_status t1)"
    using update_clears [OF assms(3)] GetByID_Inr [OF t1(1)] by (auto simp: cleared_def)
  show ?thesis using t1 draft decide_write_effect [OF assms(2) t1(1)] by auto
qed

end
