(* ===== verification/PlanWitnesses.thy ===== *)
theory PlanWitnesses
  imports ApprovalRace ItineraryWitnesses
begin

text \<open>
  The laws of saving and approving on a workspace trip: user 1 owns workspace 30, user 2 is a member of
  it and the author of trip 20, whose plan is a validated itinerary of one day. And the race that
  leaves a changed plan approved.
\<close>

definition plan_env0 :: plan_env where
  "plan_env0 = \<lparr>pe_svc = \<lparr>env_workspaces_enabled = True,
       env_workspace_provider = Some (\<lambda>u ws. Inr (if ws = 30 \<and> u = 1 then Some \<lparr>wg_has_access = True, wg_role = ''owner''\<rparr>
         else if ws = 30 \<and> u = 2 then Some \<lparr>wg_has_access = True, wg_role = ''member''\<rparr> else None)),
       env_user_lookup = None, env_activity_on = True, env_notify_on = False\<rparr>,
     pe_members = (\<lambda>_. Inr []),
     pe_policy = (\<lambda>_. Inr \<lparr>pv_status = ''ok'', pv_warnings = 0, pv_blocking = 0, pv_info = 0\<rparr>),
     pe_costs = (\<lambda>_. Inr \<lparr>cg_estimated = 0, cg_travelers = 0, cg_unassigned = 0, cg_invalid_split = 0, cg_missing = 0,
       cg_default_split = 0\<rparr>),
     pe_ws_budget = (\<lambda>_. False)\<rparr>"

definition plan_demo :: plan_db where
  "plan_demo = \<lparr>pl_db = \<lparr>db_trips = [\<lparr>tr_id = 20, tr_user = Some 2, tr_workspace = Some 30, tr_destination = ''Rome'',
       tr_itinerary_revision = 0, tr_itinerary = Some short_doc,
       tr_approval = submitted_cols 5 2 None, tr_budget_amount = None, tr_created_at = 1\<rparr>],
     db_collabs = [], db_invites = [], db_activity = [], db_outbox = []\<rparr>, pl_versions = [], pl_events = []\<rparr>"

definition call_of :: "uuid \<Rightarrow> nat \<Rightarrow> plan_call" where
  "call_of u n = \<lparr>pc_user = Some (demo_user u), pc_now = int n, pc_version_id = 1000 + of_nat n, pc_event_id = 2000 + of_nat n\<rparr>"

lemma plan_demo_ok: "history_ok plan_demo"
  by (simp add: history_ok_def trip_history_ok_def plan_demo_def versions_of_def key_unique_def)

text \<open>Member 2 has submitted the trip; owner 1 approves it, and member 2 marks the first item as done.\<close>

definition demo_approve :: plan_request where
  "demo_approve = RApprove (call_of 1 6) 20 ''fine''"

definition demo_visit :: plan_request where
  "demo_visit = RTravel (call_of 2 7) 20 1 0 ''done'' [] (Some 0)"

definition state_after :: "plan_request list \<Rightarrow> plan_db" where
  "state_after rs = fold (plan_serve plan_env0) rs plan_demo"

definition trip_after :: "plan_request list \<Rightarrow> trip" where
  "trip_after rs = hd (plan_trips (state_after rs))"

lemma GetByID_run: "\<exists>t. GetByID (pl_db (state_after rs)) 20 = Inr t \<and> t = trip_after rs"
proof -
  have "plan_steps plan_demo (state_after rs)"
    unfolding state_after_def by (rule plans.rel_run [OF _ rel_ok_steps plan_demo_ok]) (rule plan_serve_steps)
  then have rows: "list_all2 row_step (plan_trips plan_demo) (plan_trips (state_after rs))"
    using plan_steps_rel by (simp add: plan_rel_def)
  then obtain t where "plan_trips (state_after rs) = [t]" "tr_id t = 20"
    by (auto simp: plan_demo_def list_all2_Cons1 row_step_def)
  then show ?thesis by (simp add: GetByID_find trip_after_def)
qed

lemma trip_is_run: "GetByID (pl_db (state_after rs)) 20 = Inr (trip_after rs)"
  using GetByID_run by simp

lemma state_steps: "plan_steps (state_after rs) (state_after (rs @ [r]))"
  unfolding state_after_def by (simp add: plan_serve_steps)

lemma state_ok: "history_ok (state_after rs)"
  unfolding state_after_def by (rule plans.inv_run [OF plan_demo_ok])

lemma succeeds_run: "succeeds m s \<Longrightarrow> m s = (Inr (projr (fst (m s))), snd (m s))"
  unfolding succeeds_def by (rule run_result)

lemma approve_run: "trip_status (trip_after [demo_approve]) = ApApproved"
proof -
  have "\<not> isl (decide_read plan_env0 approve_config (call_of 1 6) 20 ''fine'' plan_demo)" by code_simp
  then obtain d where d: "decide_read plan_env0 approve_config (call_of 1 6) 20 ''fine'' plan_demo = Inr d"
    by (cases "decide_read plan_env0 approve_config (call_of 1 6) 20 ''fine'' plan_demo") auto
  have "state_after [demo_approve] = snd (decide_write plan_env0 approve_config (call_of 1 6) 20 ''fine'' d plan_demo)"
    by (simp add: state_after_def demo_approve_def ApproveTrip_def decide_def sbind_def sread_def d)
  moreover have "GetByID (pl_db plan_demo) 20 = Inr (trip_after [])" using trip_is_run [of "[]"] by (simp add: state_after_def)
  ultimately have "trip_after [demo_approve] = (trip_after [])
      \<lparr>tr_approval := decided_cols approve_config 6 (dn_user d) (trimmedPtr ''fine'') (af_cols (dn_fields d))\<rparr>"
    using decide_write_effect [OF d, of plan_demo] trip_is_run [of "[demo_approve]"] by (simp add: call_of_def)
  then show ?thesis by simp
qed

lemma no_lost_update_witness:
  "\<exists>current saved s'. GetByID (pl_db (state_after [demo_approve])) 20 = Inr current \<and>
    tr_itinerary current = tr_itinerary (trip_after []) \<and>
    UpdateItineraryAndCreateVersion (version_of (call_of 2 9) 2 ManualEdit []) 20 2 twice_day_one 0 (state_after [demo_approve]) = Inr (saved, s') \<and>
    tr_itinerary saved = Some twice_day_one \<and> tr_itinerary_revision saved = 1"
proof -
  let ?v = "version_of (call_of 2 9) 2 ManualEdit []" and ?s = "state_after [demo_approve]"
  have rev0: "tr_itinerary_revision (trip_after []) = 0" by (simp add: trip_after_def state_after_def plan_demo_def)
  have steps: "plan_steps (state_after []) ?s" using state_steps [of "[]" demo_approve] by simp
  have kept: "docs_kept (state_after []) ?s"
    using docs_approvals(2) by (simp add: step_rel_def state_after_def demo_approve_def ApproveTrip_def)
  obtain t where t: "GetByID (pl_db ?s) 20 = Inr t" "doc_row t = doc_row (trip_after [])"
    using docs_find [OF kept trip_is_run] by blast
  have "doc_row (trip_after []) = (20, Some 2, Some 30, Some short_doc, 0)"
    by (simp add: trip_after_def state_after_def plan_demo_def doc_row_def)
  then have row: "tr_user t = Some 2" "tr_itinerary_revision t = 0" using t(2) by (simp_all add: doc_row_def)
  have "pl_versions ?s = []" using kept by (simp add: docs_kept_def state_after_def plan_demo_def)
  then obtain s' where sv: "UpdateItineraryAndCreateVersion ?v 20 2 twice_day_one 0 ?s =
      Inr (t\<lparr>tr_itinerary := Some twice_day_one, tr_itinerary_revision := tr_itinerary_revision t + 1\<rparr>, s')"
    using save_goes_through [OF state_ok t(1) row(1), of ?v twice_day_one] row(2) by auto
  have "key_unique tr_id (plan_trips ?s)" using state_ok by (simp add: history_ok_def)
  from no_lost_update [OF trip_is_run steps sv [folded rev0] this]
  show ?thesis using sv rev0 by auto
qed

lemma versions_are_the_history_witness:
  "tr_itinerary_revision (trip_after [demo_visit]) = 1 \<and> map ve_number (versions_of 20 (state_after [demo_visit])) = [1] \<and>
   tr_itinerary (trip_after [demo_visit]) = ve_itinerary (last (versions_of 20 (state_after [demo_visit])))"
proof -
  have rows: "plan_trips (state_after rs) ! 0 = trip_after rs \<and> 0 < length (plan_trips (state_after rs))" for rs
    using trip_is_run [of rs] by (cases "plan_trips (state_after rs)") (auto simp: GetByID_find trip_after_def)
  have steps: "plan_steps (state_after []) (state_after [demo_visit])" using state_steps [of "[]" demo_visit] by simp
  have start: "versions_of 20 (state_after []) = []" "tr_id (trip_after []) = 20" "tr_itinerary_revision (trip_after []) = 0"
    by (simp_all add: trip_after_def state_after_def plan_demo_def versions_of_def)
  have rev1: "tr_itinerary_revision (trip_after [demo_visit]) = 1" by code_simp
  from versions_are_the_history [OF state_ok steps conjunct2 [OF rows]]
  have "length (versions_of 20 (state_after [demo_visit])) = 1"
    "map ve_number (versions_of 20 (state_after [demo_visit])) = [1..int (length (versions_of 20 (state_after [demo_visit])))]"
    "versions_of 20 (state_after [demo_visit]) \<noteq> [] \<longrightarrow>
      tr_itinerary (trip_after [demo_visit]) = ve_itinerary (last (versions_of 20 (state_after [demo_visit])))"
    unfolding conjunct1 [OF rows] start rev1 by auto
  then show ?thesis using rev1 by auto
qed

lemma approved_plan_is_the_submitted_one_witness:
  "under_review (trip_status (trip_after [])) \<and> trip_status (trip_after [demo_visit]) = ApPending \<and>
   same_plan (tr_itinerary (trip_after [])) (tr_itinerary (trip_after [demo_visit])) \<and>
   tr_itinerary_revision (trip_after [demo_visit]) = 1"
proof -
  have rev1: "tr_itinerary_revision (trip_after [demo_visit]) = 1" by code_simp
  have st: "trip_status (trip_after [demo_visit]) = ApPending" by code_simp
  have ws: "tr_workspace (trip_after []) \<noteq> None" by (simp add: trip_after_def state_after_def plan_demo_def)
  have run: "state_after [demo_visit] = fold (plan_serve plan_env0) [demo_visit] (state_after [])" by (simp add: state_after_def)
  have "\<forall>r \<in> set [demo_visit]. \<forall>cx msg. r \<noteq> RSubmit cx 20 msg" by (simp add: demo_visit_def)
  from approved_plan_is_the_submitted_one [OF trip_is_run ws this trip_is_run [of "[demo_visit]", unfolded run]]
  show ?thesis using st rev1 by (simp add: under_review_def)
qed

lemma approval_needs_an_approver_witness:
  "trip_status (trip_after [demo_approve]) = ApApproved \<and>
   (\<exists>pre cx msg post t0. [demo_approve] = pre @ RApprove cx 20 msg # post \<and>
     trip_status t0 = ApPending \<and> approver_of plan_env0 cx t0)"
proof -
  have st: "trip_status (trip_after []) \<noteq> ApApproved"
    by (simp add: trip_after_def state_after_def plan_demo_def submitted_cols_def)
  have run: "state_after [demo_approve] = fold (plan_serve plan_env0) [demo_approve] (state_after [])" by (simp add: state_after_def)
  from approval_needs_an_approver [OF state_ok trip_is_run st trip_is_run [of "[demo_approve]", unfolded run] approve_run]
  show ?thesis using approve_run by blast
qed

lemma GetTripApproval_same: "snd (GetTripApproval env cx tid s) = s"
proof -
  have "rel_ok (=)" by (rule rel_okI) auto
  then have "step_rel (=) (GetTripApproval env cx tid)"
    unfolding GetTripApproval_def by (intro step_intros)
  then show ?thesis by (simp add: step_rel_def)
qed

lemma approval_flags_are_honest_witness:
  "\<exists>st. GetTripApproval plan_env0 (call_of 1 8) 20 plan_demo = (Inr st, plan_demo) \<and>
    as_can_approve st \<and> succeeds (ApproveTrip plan_env0 (call_of 1 8) 20 ''yes'') plan_demo \<and>
    \<not> as_can_submit st \<and> \<not> succeeds (SubmitTripApproval plan_env0 (call_of 1 8) 20 ''yes'') plan_demo"
proof -
  let ?m = "GetTripApproval plan_env0 (call_of 1 8) 20"
  define t where "t = trip_after []"
  have t: "tr_workspace t = Some 30" "tr_approval t = submitted_cols 5 2 None" "tr_id t = 20"
    by (simp_all add: t_def trip_after_def state_after_def plan_demo_def)
  have db: "GetByID (pl_db plan_demo) 20 = Inr t" using trip_is_run [of "[]"] by (simp add: state_after_def t_def)
  let ?view = "requireViewerEditorOrOwner (pe_svc plan_env0) (pl_db plan_demo) 20 1"
  have ok: "\<not> isl ?view" by code_simp
  obtain t' a where a': "?view = Inr (t', a)" using ok by (cases ?view) auto
  moreover have "t' = t" using access_row(2) [OF a'] db by simp
  ultimately have a: "?view = Inr (t, a)" by simp
  have approver: "isWorkspaceApprover (pe_svc plan_env0) 1 30 = Inr True" by code_simp
  obtain c where c: "computeChecklist plan_env0 t = Inr c"
    by (auto simp: computeChecklist_def computeChecklistWithInput_def plan_env0_def Let_def)
  have user: "MustUserFromContext (pc_user (call_of 1 8)) = Inr (demo_user 1)" "au_id (demo_user 1) = 1"
    by (simp_all add: call_of_def MustUserFromContext_def demo_user_def)
  define f where "f = \<lparr>af_trip = 20, af_workspace = Some 30, af_cols = submitted_cols 5 2 None\<rparr>"
  have f: "GetTripApprovalFields 20 plan_demo = Inr f"
    using db t by (simp add: GetTripApprovalFields_def GetByID_def f_def split: option.splits)
  define st where "st = buildApprovalState f (Some c) (CanEdit a) True 1"
  have r: "?m plan_demo = (Inr st, plan_demo)"
    unfolding GetTripApproval_def st_def
    using user a f t c approver by (simp add: sbind_def spure_def sread_def sret_def)
  have flags: "as_can_approve st" "\<not> as_can_submit st" "af_workspace (as_fields st) \<noteq> None"
    by (simp_all add: st_def buildApprovalState_def approvalStateBase_def f_def submitted_cols_def Let_def CanApproveFrom_def CanSubmitFrom_def)
  have len: "length (trim_space ''yes'') \<le> approvalDecisionNoteMaxLen" by code_simp
  show ?thesis using approval_flags_are_honest [OF r flags(3) len] r flags by blast
qed

section \<open>The race\<close>

definition other_doc :: itinerary where
  "other_doc = short_doc\<lparr>it_days := [demo_day 1 [demo_item ''09:00'' ''museum'' ''Casino'']]\<rparr>"

lemma saves_run:
  assumes "succeeds (UpdateItinerary env cx tid doc n) s"
  obtains u s1 where "UpdateItinerary env cx tid doc n s = (Inr u, s1)"
  using succeeds_run [OF assms] by blast

lemma decision_approves_unseen_plan_witness:
  "\<exists>d saved s1 t. decide_read plan_env0 approve_config (call_of 1 6) 20 ''fine'' plan_demo = Inr d \<and>
    UpdateItinerary plan_env0 (call_of 2 5) 20 (Doc other_doc) (Some 0) plan_demo = (Inr saved, s1) \<and>
    GetByID (pl_db (snd (decide_write plan_env0 approve_config (call_of 1 6) 20 ''fine'' d s1))) 20 = Inr t \<and>
    trip_status t = ApApproved \<and> tr_itinerary t = tr_itinerary saved"
proof -
  have "\<not> isl (decide_read plan_env0 approve_config (call_of 1 6) 20 ''fine'' plan_demo)" by code_simp
  then obtain d where d: "decide_read plan_env0 approve_config (call_of 1 6) 20 ''fine'' plan_demo = Inr d"
    by (cases "decide_read plan_env0 approve_config (call_of 1 6) 20 ''fine'' plan_demo") auto
  have "succeeds (UpdateItinerary plan_env0 (call_of 2 5) 20 (Doc other_doc) (Some 0)) plan_demo" by code_simp
  then obtain u s1 where "UpdateItinerary plan_env0 (call_of 2 5) 20 (Doc other_doc) (Some 0) plan_demo = (Inr u, s1)"
    by (rule saves_run)
  then show ?thesis using d decision_approves_unseen_plan [OF plan_demo_ok d] by blast
qed

section \<open>Restoring\<close>

lemma member_edits:
  assumes "GetByID db 20 = Inr t" "tr_workspace t = Some 30"
  shows "\<exists>a. requireEditorOrOwner (pe_svc plan_env0) db 20 2 = Inr (t, a)"
proof -
  define w where "w = \<lparr>ta_level = LevelEditor, ta_source = ''workspace'', ta_workspace_role = ''member''\<rparr>"
  have w: "workspaceTripAccess (pe_svc plan_env0) 2 30 = Inr w"
    by (simp add: workspaceTripAccess_def plan_env0_def w_def)
  define a where "a = strongestAccess (strongestAccess (strongestAccess no_access (ownerAccess t 2)) w) (collaboratorAccess db 20 2)"
  have "accessRank (ta_level a) \<ge> accessRank LevelEditor" by (simp add: a_def w_def)
  then have lvl: "ta_level a = LevelOwner \<or> ta_level a = LevelEditor" by (cases "ta_level a") simp_all
  then have "tripForAccess (pe_svc plan_env0) db 20 2 = Inr (t, a)"
    unfolding tripForAccess_def using assms w by (auto simp: a_def Let_def)
  then show ?thesis using lvl unfolding requireEditorOrOwner_Inr by blast
qed

text \<open>Member 2 saves another plan, then the old one comes back by a save of a concurrent request.\<close>

lemma saved_plan_can_be_restored_witness:
  "\<exists>saved s1 t1 s2 t2 r s3 t3.
    UpdateItinerary plan_env0 (call_of 2 5) 20 (Doc other_doc) (Some 0) plan_demo = (Inr saved, s1) \<and>
    UpdateItineraryAndCreateVersion (version_of (call_of 1 6) 1 ManualEdit []) 20 2 short_doc t1 s1 = Inr (t2, s2) \<and>
    RestoreItineraryVersion plan_env0 (call_of 2 7) 20 1005 (Some (tr_itinerary_revision t2)) s2 = (Inr r, s3) \<and>
    GetByID (pl_db s3) 20 = Inr t3 \<and> tr_itinerary t3 = tr_itinerary saved \<and> tr_itinerary t2 = Some short_doc"
proof -
  let ?upd = "UpdateItinerary plan_env0 (call_of 2 5) 20 (Doc other_doc) (Some 0)"
  have ok: "succeeds ?upd plan_demo" by code_simp
  then obtain saved s1 where r: "?upd plan_demo = (Inr saved, s1)" by (rule saves_run)
  have fits: "doc_fits other_doc" by code_simp
  have steps1: "plan_steps plan_demo s1" using handler_steps(1) r by (rule step_relD)
  have ok1: "history_ok s1" using steps1 plan_demo_ok by (rule plan_steps_history)
  have t0: "GetByID (pl_db plan_demo) 20 = Inr (trip_after [])" using trip_is_run [of "[]"] by (simp add: state_after_def)
  obtain t1 where t1: "GetByID (pl_db s1) 20 = Inr t1" "row_step (trip_after []) t1"
    using plan_rel_GetByID [OF plan_steps_rel [OF steps1] t0] by blast
  have row1: "tr_user t1 = Some 2" "tr_workspace t1 = Some 30" "0 \<le> tr_itinerary_revision t1"
    using t1(2) by (simp_all add: row_step_def trip_after_def state_after_def plan_demo_def)
  obtain it own m actor meta s0 where "UpdateItineraryAndCreateVersion (version_of (call_of 2 5) actor ManualEdit meta) 20 own it m plan_demo = Inr (saved, s0)"
    "docs_kept s0 s1"
    by (rule UpdateItinerary_saves [OF r])
  then have ids1: "ve_id ` set (pl_versions s1) = {1005}"
    using save_effect(1) by (simp add: docs_kept_def plan_demo_def version_of_def call_of_def)
  let ?v = "version_of (call_of 1 6) 1 ManualEdit []"
  let ?t2 = "t1\<lparr>tr_itinerary := Some short_doc, tr_itinerary_revision := tr_itinerary_revision t1 + 1\<rparr>"
  have "vi_id ?v \<notin> ve_id ` set (pl_versions s1)" unfolding ids1 by (simp add: version_of_def call_of_def)
  then obtain s2 where s2: "UpdateItineraryAndCreateVersion ?v 20 2 short_doc (tr_itinerary_revision t1) s1 = Inr (?t2, s2)"
    using save_goes_through [OF ok1 t1(1) row1(1)] by blast
  have steps2: "plan_steps s1 s2" using plan_stmt.save [OF s2] by blast
  have t2: "GetByID (pl_db s2) 20 = Inr ?t2" by (rule GetByID_after_save [OF s2 t1(1) row1(1)])
  obtain a where a: "requireEditorOrOwner (pe_svc plan_env0) (pl_db s2) 20 2 = Inr (?t2, a)"
    using member_edits [OF t2] row1(2) by auto
  have user: "MustUserFromContext (pc_user (call_of 2 7)) = Inr (demo_user 2)" "au_id (demo_user 2) = 2"
    by (simp_all add: call_of_def MustUserFromContext_def demo_user_def)
  have a': "requireEditorOrOwner (pe_svc plan_env0) (pl_db s2) 20 (au_id (demo_user 2)) = Inr (?t2, a)"
    unfolding user(2) by (rule a)
  have own: "tripOwnerID ?t2 = Inr 2" "0 \<le> tr_itinerary_revision ?t2" using row1 by (simp_all add: tripOwnerID_def)
  have "ve_id ` set (pl_versions s2) = {1005, 1006}"
    unfolding save_effect(1) [OF s2] using ids1 by (simp add: version_of_def call_of_def insert_commute)
  then have fresh: "pc_version_id (call_of 2 7) \<notin> ve_id ` set (pl_versions s2)" by (simp add: call_of_def)
  have vid: "pc_version_id (call_of 2 5) = 1005" by (simp add: call_of_def)
  obtain r' s3 t3 where "RestoreItineraryVersion plan_env0 (call_of 2 7) 20 1005 (Some (tr_itinerary_revision ?t2)) s2 = (Inr r', s3)"
    "GetByID (pl_db s3) 20 = Inr t3" "tr_itinerary t3 = tr_itinerary saved"
    using saved_plan_can_be_restored [OF r fits plan_demo_ok steps2 user(1) a' own fresh] unfolding vid by blast
  moreover have "tr_itinerary ?t2 = Some short_doc" by simp
  ultimately show ?thesis using r s2 by blast
qed

end
