(* ===== verification/Spec2Isabelle.thy ===== *)
theory Spec2Isabelle
  imports Witnesses EditLocks ProviderCache ProviderGuard JobWitnesses ExpenseWitnesses AuthLimiter AuthWitnesses ItineraryWitnesses PlanWitnesses
begin

text \<open>
  \<^bold>\<open>The Travel AI backend, verified in parts.\<close>

  The repository is a set of Go services under \<open>src/services\<close>: trip-service (trips, their members,
  itineraries, expenses), worker-service (runs the generation jobs of trip-service from a queue),
  external-integrations-service (provider APIs behind caches and quotas), auth-service (accounts
  and tokens), user-service and notification-service. This library models the parts below from
  the Go code; a definition has the name of the function it translates.

  \<^bold>\<open>How programs are modelled.\<close> A Go string is its list of bytes (\<open>GoText\<close>, \<open>Utf8\<close>), \<open>uuid.UUID\<close>
  a \<open>128 word\<close>, \<open>time.Time\<close> the nanoseconds since its zero value, an amount of money a \<open>float64\<close>,
  that is a rational rounded to 53 bits (\<open>Float64\<close>, \<open>Money\<close>). An error is the left summand of a
  result (\<open>Prelude\<close>); a handler is a function from a state to a result and a state (\<open>StateErr\<close>, with
  the rules for invariants, for relations between the two states, and for handlers that change
  nothing when they fail). A table is a list of rows, an SQL statement a function on it with the
  constraints the migrations declare (\<open>Tables\<close>). What is not in the repository is a parameter: other
  services, bcrypt, the JWT and uuid packages, SHA-256, the address parser, random bytes and clocks.

  \<^bold>\<open>Access and membership\<close> (trip-service). \<open>Security\<close>: \<open>security/permissions.go\<close>. \<open>TripStore\<close>: the rows of
  trips, collaborators and invitations and the statements of \<open>repository/postgres/trip.go\<close> and
  \<open>collaboration.go\<close>. \<open>Access\<close>: \<open>application/service/access.go\<close>. \<open>Collaboration\<close>, \<open>Membership\<close>:
  \<open>collaboration.go\<close> and \<open>collaboration_v1.go\<close>, the requests served one at a time. \<open>MembershipLaws\<close> and
  \<open>MembershipOutcomes\<close>: who becomes a member and owner, and what each request answers.

  \<^bold>\<open>Edit locks\<close> (\<open>EditLocks\<close>): \<open>internal/editlocks\<close> and its handlers, with the abstract lock it refines.

  \<^bold>\<open>Provider responses\<close> (external-integrations-service). \<open>Expiring\<close> is the interface of a store with
  expiry, \<open>ProviderCache\<close> the cache, \<open>ProviderLimits\<close> the quota tables, \<open>ProviderGuard\<close> the guard around a
  provider call.

  \<^bold>\<open>Generation jobs\<close> (trip-service and worker-service). \<open>JobTable\<close>: the table and its statements.
  \<open>GenerationJobs\<close>, \<open>JobOps\<close>: the API and the ops console. \<open>JobWorker\<close>, \<open>JobConsumer\<close>: the worker and
  the queue consumer. \<open>JobLaws\<close>, \<open>JobRuns\<close>: every interleaving of their statements. \<open>JobQueue\<close>: messages
  and retries. \<open>JobOutcomes\<close>: the single requests.

  \<^bold>\<open>Expenses and settlements\<close> (trip-service). \<open>ExpenseShares\<close>: the splits; \<open>ExpenseTable\<close>, \<open>ExpenseInputs\<close>:
  rows and validation; \<open>Settlements\<close>: the suggestion loop; \<open>Expenses\<close>, \<open>ExpenseService\<close>: balances and
  handlers. \<open>ShareLaws\<close>, \<open>SettlementLaws\<close>, \<open>CentSums\<close>, \<open>Ledger\<close>, \<open>LedgerLaws\<close>, \<open>Balances\<close>, \<open>ExpenseRights\<close>: the
  arithmetic is exact in cents, the ledger stays in order, the plan settles, who may change what.

  \<^bold>\<open>Accounts\<close> (auth-service). \<open>AuthTable\<close>, \<open>AuthService\<close>, \<open>AuthHandlers\<close>, \<open>AuthCleanup\<close>: tables, use
  cases, HTTP and retention. \<open>AuthSessions\<close>: requests interleaved between the reads and the
  transaction of a refresh. \<open>AuthLimiter\<close>, \<open>AuthLaws\<close>: what follows for rate limits and sessions.

  \<^bold>\<open>Itineraries and their versions\<close> (trip-service). \<open>ItineraryData\<close>: the document (\<open>domain/aggregate\<close>).
  \<open>ItineraryParts\<close>, \<open>Schedule\<close>, \<open>ItineraryEdit\<close>: its validation in \<open>application/service/trip.go\<close> and
  \<open>budget/validator.go\<close>, part by part, the schedule of a day, the whole document. \<open>PlanStore\<close>: the itinerary and
  approval columns, the versions and the approval events with their statements. \<open>ItineraryVersions\<close>: the
  handlers that save, list and restore (\<open>trip.go\<close>, \<open>itinerary_version.go\<close>) or set a travel status
  (\<open>travel_day.go\<close>). \<open>ItineraryLaws\<close>: the validation is idempotent and implies what a regeneration asks of the
  stored document. \<open>PlanLaws\<close>: \<open>plan_stmt\<close>, the interleaving of the statements of all requests, and that no save
  overwrites a change its author has not seen. \<open>PlanHistory\<close>: the versions are the complete history. \<open>RestoreLaws\<close>:
  any of them can be brought back.

  \<^bold>\<open>Approvals of workspace trips\<close> (trip-service). \<open>Checklist\<close>: \<open>internal/approvals\<close>. \<open>Approvals\<close>:
  \<open>application/service/approval.go\<close> and \<open>approval_reset.go\<close>; a decision is split at its write. The evaluation of
  the workspace policy, the summary of the split costs, the workspace budget and the member list are fields
  of \<open>plan_env\<close>. \<open>ApprovalLaws\<close>: an approved plan is the submitted one, as long as requests do not overlap;
  \<open>ApprovalRights\<close>: who approves, and that the flags of an answer are honest; \<open>ApprovalRace\<close>: a decision that
  overlaps with a save approves a plan its author has not seen.

  \<open>Demo\<close> and the theories named \<open>..Witnesses\<close> apply every theorem with a hypothesis to a concrete
  state.

  \<^bold>\<open>Bounds.\<close> Amounts are whole cents below \<open>2 ^ 44\<close> (an expense) and sums below \<open>2 ^ 45\<close>, where a
  \<open>float64\<close> is within a thousandth of a cent of the exact value; the balances of a trip are exact for
  amounts below \<open>2 ^ 35\<close> cents and at most \<open>2 ^ 13\<close> rows. The suggestion loop is a partial function that
  is proved to return; no definition takes fuel. Lower and upper case are ASCII. Cents are Go \<open>int\<close>s of
  64 bits: sums of custom and percentage shares wrap around (\<open>wrap64\<close>), and a \<open>float64\<close> beyond 64 bits is
  converted as amd64 does (\<open>go_int\<close>). Custom amounts are added up exactly when they sum to less than
  \<open>2 ^ 63\<close> cents; the ledger stays in order beyond that, because the columns reject shares that wrapped,
  for requests of fewer than \<open>2 ^ 24\<close> custom shares.

  \<^bold>\<open>Not modelled.\<close> Transport and encoding (HTTP routing, JSON, CORS), logging and metrics, start-up
  and configuration, failures of the database other than constraint violations and missing rows.
  Of trip-service: \<open>Generate\<close> and the regeneration handlers (a language model and its repairs), the decoding of
  JSON (a document is given decoded, missing or malformed), the trip status a save also writes, the limits of
  the 32-bit revision column, the checklist snapshot of an approval event and the queue of approvals; reminders,
  availability, checklists of a trip, health and risk scores, workspace policies, budgets, search, sharing,
  analytics and the AI pipelines. User-service, notification-service, the provider clients of
  external-integrations-service and the schedulers of worker-service; the
  Python and web parts. The manifest lists each with its reason.
\<close>

end
